(* ===== verification/Prelude.thy ===== *)
theory Prelude
  imports Main "HOL-Library.Word"
begin

text \<open>
  The shared vocabulary of the development: Go errors and results, the early-return
  combinators in which the handlers are written, Go's nil-able string maps, the parts of
  \<open>strings\<close> and \<open>strconv\<close> the repository calls, and the lemmas about them that the
  component theories use through the simplifier.
\<close>

named_theorems go_err \<open>when a chain of Go checks returns nil\<close>
named_theorems go_str \<open>Go string functions\<close>

section \<open>Errors and results\<close>

text \<open>
  A Go \<open>error\<close>. \<open>ENotFound\<close> and \<open>EAlreadyExists\<close> are the two API errors the code tells
  apart (\<open>apierrors.IsNotFound\<close>, \<open>apierrors.IsAlreadyExists\<close>), \<open>ELinkNotFound\<close> is
  \<open>netlink.LinkNotFoundError\<close>, \<open>Errno\<close> a \<open>syscall.Errno\<close> with its text, \<open>EOther\<close> any other
  error of a library. \<open>Errorf f\<close> is \<open>fmt.Errorf\<close> or \<open>errors.New\<close> with the format \<open>f\<close> and no
  wrapped cause, \<open>Wrapf f e\<close> is \<open>fmt.Errorf\<close> with \<open>%w\<close>. Formats identify the error
  site; the text rendered from the arguments is not modelled. \<open>GoPanic\<close> is a run-time panic
  (a nil dereference, an index out of range): no caller in the repository recovers, so it
  passes every wrapper unchanged.
\<close>

datatype go_error =
    ENotFound string
  | EAlreadyExists string
  | ELinkNotFound string
  | Errno string
  | EOther string
  | Errorf string
  | Wrapf string go_error
  | GoPanic string

fun IsNotFound :: "go_error \<Rightarrow> bool" where
  "IsNotFound (ENotFound _) = True"
| "IsNotFound (Wrapf _ e) = IsNotFound e"
| "IsNotFound _ = False"

fun IsAlreadyExists :: "go_error \<Rightarrow> bool" where
  "IsAlreadyExists (EAlreadyExists _) = True"
| "IsAlreadyExists (Wrapf _ e) = IsAlreadyExists e"
| "IsAlreadyExists _ = False"

text \<open>\<open>errors.As(err, &netlink.LinkNotFoundError{})\<close> and \<open>errors.Is(err, errno)\<close>.\<close>

fun IsLinkNotFound :: "go_error \<Rightarrow> bool" where
  "IsLinkNotFound (ELinkNotFound _) = True"
| "IsLinkNotFound (Wrapf _ e) = IsLinkNotFound e"
| "IsLinkNotFound _ = False"

fun IsErrno :: "string \<Rightarrow> go_error \<Rightarrow> bool" where
  "IsErrno n (Errno m) = (m = n)"
| "IsErrno n (Wrapf _ e) = IsErrno n e"
| "IsErrno n _ = False"

fun is_panic :: "go_error \<Rightarrow> bool" where
  "is_panic (GoPanic _) = True"
| "is_panic _ = False"

text \<open>\<open>fmt.Errorf(f, ..., err)\<close> with \<open>%w\<close>, and with \<open>%v\<close> (the chain is lost).\<close>

definition wrap :: "string \<Rightarrow> go_error \<Rightarrow> go_error" where
  "wrap f e = (if is_panic e then e else Wrapf f e)"

definition render :: "string \<Rightarrow> go_error \<Rightarrow> go_error" where
  "render f e = (if is_panic e then e else Errorf f)"

lemma wrap_kinds [simp]:
  "IsLinkNotFound (wrap f e) = IsLinkNotFound e" "is_panic (wrap f e) = is_panic e"
  "is_panic (render f e) = is_panic e" "IsLinkNotFound (render f e) = False"
  by (cases e; simp add: wrap_def render_def)+

type_synonym 'a res = "go_error + 'a"

text \<open>
  \<open>guard_err x w k\<close>: \<open>if err := x; err != nil { return w(err) }\<close>, then \<open>k\<close>, in a function
  that returns only an error. \<open>with_res r w k\<close>: the same for a call that returns a value and
  an error. \<open>bind_res\<close> and \<open>guard_res\<close> are their counterparts in a function that returns a
  value and an error.
\<close>

definition guard_err :: "go_error option \<Rightarrow> (go_error \<Rightarrow> go_error) \<Rightarrow> go_error option \<Rightarrow> go_error option" where
  "guard_err x w k = (case x of Some e \<Rightarrow> Some (w e) | None \<Rightarrow> k)"

definition with_res :: "'a res \<Rightarrow> (go_error \<Rightarrow> go_error) \<Rightarrow> ('a \<Rightarrow> go_error option) \<Rightarrow> go_error option" where
  "with_res r w k = (case r of Inl e \<Rightarrow> Some (w e) | Inr x \<Rightarrow> k x)"

definition bind_res :: "'a res \<Rightarrow> (go_error \<Rightarrow> go_error) \<Rightarrow> ('a \<Rightarrow> 'b res) \<Rightarrow> 'b res" where
  "bind_res r w k = (case r of Inl e \<Rightarrow> Inl (w e) | Inr x \<Rightarrow> k x)"

definition guard_res :: "go_error option \<Rightarrow> (go_error \<Rightarrow> go_error) \<Rightarrow> 'b res \<Rightarrow> 'b res" where
  "guard_res x w k = (case x of Some e \<Rightarrow> Inl (w e) | None \<Rightarrow> k)"

lemma guard_err_None [simp, go_err]: "guard_err x w k = None \<longleftrightarrow> x = None \<and> k = None"
  by (cases x) (simp_all add: guard_err_def)

lemma guard_err_simps [simp]:
  "guard_err None w k = k" "guard_err (Some e) w k = Some (w e)"
  by (simp_all add: guard_err_def)

lemma with_res_None [simp, go_err]: "with_res r w k = None \<longleftrightarrow> (\<exists>x. r = Inr x \<and> k x = None)"
  by (cases r) (simp_all add: with_res_def)

lemma with_res_simps [simp]:
  "with_res (Inr x) w k = k x" "with_res (Inl e) w k = Some (w e)"
  by (simp_all add: with_res_def)

lemma bind_res_Inr [simp, go_err]: "bind_res r w k = Inr y \<longleftrightarrow> (\<exists>x. r = Inr x \<and> k x = Inr y)"
  by (cases r) (simp_all add: bind_res_def)

lemma bind_res_simps [simp]:
  "bind_res (Inr x) w k = k x" "bind_res (Inl e) w k = Inl (w e)"
  by (simp_all add: bind_res_def)

lemma guard_res_Inr [simp, go_err]: "guard_res x w k = Inr y \<longleftrightarrow> x = None \<and> k = Inr y"
  by (cases x) (simp_all add: guard_res_def)

lemma guard_res_simps [simp]:
  "guard_res None w k = k" "guard_res (Some e) w k = Inl (w e)"
  by (simp_all add: guard_res_def)

text \<open>A \<open>for\<close> loop whose body returns at the first error.\<close>

fun first_err :: "('a \<Rightarrow> go_error option) \<Rightarrow> 'a list \<Rightarrow> go_error option" where
  "first_err f [] = None"
| "first_err f (x # xs) = (case f x of Some e \<Rightarrow> Some e | None \<Rightarrow> first_err f xs)"

lemma first_err_None [simp, go_err]: "first_err f xs = None \<longleftrightarrow> (\<forall>x \<in> set xs. f x = None)"
  by (induction xs) (auto split: option.splits)

text \<open>A loop that collects one result list per element and returns at the first error.\<close>

fun concat_res :: "('a \<Rightarrow> ('b list) res) \<Rightarrow> 'a list \<Rightarrow> ('b list) res" where
  "concat_res f [] = Inr []"
| "concat_res f (x # xs) =
     (case f x of Inl e \<Rightarrow> Inl e
      | Inr ys \<Rightarrow> (case concat_res f xs of Inl e \<Rightarrow> Inl e | Inr zs \<Rightarrow> Inr (ys @ zs)))"

lemma concat_res_Inr:
  "concat_res f xs = Inr zs \<Longrightarrow> set zs = {z. \<exists>x \<in> set xs. \<exists>ys. f x = Inr ys \<and> z \<in> set ys}"
  by (induction xs arbitrary: zs) (auto split: sum.splits)

lemma concat_res_defined:
  "concat_res f xs = Inr zs \<Longrightarrow> x \<in> set xs \<Longrightarrow> \<exists>ys. f x = Inr ys"
  by (induction xs arbitrary: zs) (auto split: sum.splits)

text \<open>
  A loop whose body changes a state and may return early with an error: the loop stops there,
  with the state reached.
\<close>

fun fold_err :: "('a \<Rightarrow> 's \<Rightarrow> go_error option \<times> 's) \<Rightarrow> 'a list \<Rightarrow> 's \<Rightarrow> go_error option \<times> 's" where
  "fold_err f [] s = (None, s)"
| "fold_err f (x # xs) s =
     (case f x s of (Some e, s') \<Rightarrow> (Some e, s') | (None, s') \<Rightarrow> fold_err f xs s')"

text \<open>A loop whose body keeps an invariant and acts as \<open>g\<close> on the abstract state acts as a fold.\<close>

lemma fold_err_refines:
  assumes "\<And>x s. x \<in> set xs \<Longrightarrow> I s \<Longrightarrow> \<exists>s'. f x s = (None, s') \<and> I s' \<and> A s' = g x (A s)"
    and "I s"
  shows "\<exists>s'. fold_err f xs s = (None, s') \<and> I s' \<and> A s' = fold g xs (A s)"
  using assms
proof (induction xs arbitrary: s)
  case (Cons x xs)
  from Cons.prems obtain s' where s': "f x s = (None, s')" "I s'" "A s' = g x (A s)"
    by (meson list.set_intros(1))
  from Cons.IH [OF _ s'(2)] Cons.prems(1)
  obtain s'' where "fold_err f xs s' = (None, s'')" "I s''" "A s'' = fold g xs (A s')"
    by (meson list.set_intros(2))
  with s' show ?case by auto
qed simp

lemma fold_err_append:
  "fold_err f (xs @ ys) s =
     (case fold_err f xs s of (Some e, s') \<Rightarrow> (Some e, s') | (None, s') \<Rightarrow> fold_err f ys s')"
  by (induction xs arbitrary: s) (auto split: prod.splits option.splits)

lemma fold_insert_if:
  "fold (\<lambda>x A. if P x then insert x A else A) xs A = A \<union> {x \<in> set xs. P x}"
  by (induction xs arbitrary: A) auto

lemma fold_err_insert:
  assumes "\<And>x s. x \<in> set xs \<Longrightarrow> I s \<Longrightarrow>
             \<exists>s'. f x s = (None, s') \<and> I s' \<and> A s' = (if P x then insert x (A s) else A s)"
    and "I s"
  shows "\<exists>s'. fold_err f xs s = (None, s') \<and> I s' \<and> A s' = A s \<union> {x \<in> set xs. P x}"
  using fold_err_refines [where A = A and I = I and f = f
      and g = "\<lambda>x B. if P x then insert x B else B", OF assms(1) assms(2)]
  by (simp add: fold_insert_if)

text \<open>The counter of \<open>for i := lo; i <= hi; i++\<close>; the simplifier does not unroll it.\<close>

definition int_range :: "int \<Rightarrow> int \<Rightarrow> int list" where
  "int_range lo hi = [lo..hi]"

lemma set_int_range [simp]: "set (int_range lo hi) = {lo..hi}"
  by (simp add: int_range_def)

lemma distinct_int_range [simp]: "distinct (int_range lo hi)"
  by (simp add: int_range_def)

lemma sorted_int_range [simp]: "sorted (int_range lo hi)"
  by (simp add: int_range_def)

text \<open>Indexing a slice: out of range is a run-time panic.\<close>

definition slice_at :: "'a list \<Rightarrow> int \<Rightarrow> 'a res" where
  "slice_at xs i = (if 0 \<le> i \<and> nat i < length xs then Inr (xs ! nat i)
                    else Inl (GoPanic ''index out of range''))"

lemma slice_at_ok [simp]: "0 \<le> i \<Longrightarrow> nat i < length xs \<Longrightarrow> slice_at xs i = Inr (xs ! nat i)"
  by (simp add: slice_at_def)

definition slice_set :: "'a list \<Rightarrow> int \<Rightarrow> 'a \<Rightarrow> ('a list) res" where
  "slice_set xs i v = (if 0 \<le> i \<and> nat i < length xs then Inr (xs[nat i := v])
                       else Inl (GoPanic ''index out of range''))"

lemma slice_set_ok [simp]: "0 \<le> i \<Longrightarrow> nat i < length xs \<Longrightarrow> slice_set xs i v = Inr (xs[nat i := v])"
  by (simp add: slice_set_def)

lemma find_SomeD: "find P xs = Some x \<Longrightarrow> x \<in> set xs \<and> P x"
  by (induction xs) (auto split: if_splits)

section \<open>Go string maps\<close>

text \<open>
  \<open>map[string]string\<close>: \<open>None\<close> is the nil map. Reading a missing key gives the empty string,
  writing a nil map panics (the code allocates first, which is \<open>mmake\<close>), and
  \<open>reflect.DeepEqual\<close> tells a nil map from an empty one.
\<close>

type_synonym strmap = "(string \<rightharpoonup> string) option"

definition mget :: "strmap \<Rightarrow> string \<Rightarrow> string" where
  "mget m k = (case m of None \<Rightarrow> [] | Some f \<Rightarrow> (case f k of None \<Rightarrow> [] | Some v \<Rightarrow> v))"

definition mlookup :: "strmap \<Rightarrow> string \<Rightarrow> string option" where
  "mlookup m k = (case m of None \<Rightarrow> None | Some f \<Rightarrow> f k)"

definition mmake :: "strmap \<Rightarrow> (string \<rightharpoonup> string)" where
  "mmake m = (case m of None \<Rightarrow> Map.empty | Some f \<Rightarrow> f)"

definition mput :: "string \<Rightarrow> string \<Rightarrow> strmap \<Rightarrow> strmap" where
  "mput k v m = Some ((mmake m)(k \<mapsto> v))"

definition mdelete :: "string \<Rightarrow> strmap \<Rightarrow> strmap" where
  "mdelete k m = map_option (\<lambda>f. f(k := None)) m"

lemma mget_mput [simp]: "mget (mput k v m) k' = (if k' = k then v else mget m k')"
  by (auto simp: mget_def mput_def mmake_def split: option.splits)

lemma mget_mdelete [simp]: "mget (mdelete k m) k' = (if k' = k then [] else mget m k')"
  by (cases m) (auto simp: mget_def mdelete_def)

lemma mlookup_mput [simp]: "mlookup (mput k v m) k' = (if k' = k then Some v else mlookup m k')"
  by (auto simp: mlookup_def mput_def mmake_def split: option.splits)

lemma mlookup_mdelete [simp]: "mlookup (mdelete k m) k' = (if k' = k then None else mlookup m k')"
  by (cases m) (auto simp: mlookup_def mdelete_def)

lemma mget_mlookup: "mget m k = (case mlookup m k of None \<Rightarrow> [] | Some v \<Rightarrow> v)"
  by (auto simp: mget_def mlookup_def split: option.splits)

lemma mget_empty [simp]: "mget None k = []" "mget (Some Map.empty) k = []"
  by (simp_all add: mget_def)

lemma mlookup_empty [simp]: "mlookup None k = None" "mlookup (Some f) k = f k"
  by (simp_all add: mlookup_def)

lemma mput_not_nil [simp]: "mput k v m \<noteq> None" "None \<noteq> mput k v m"
  by (simp_all add: mput_def)

lemma mput_ex [simp]: "\<exists>f. mput k v m = Some f"
  by (simp add: mput_def)

lemma mlookup_ext: "(\<And>k. mlookup l k = mlookup l' k) \<Longrightarrow> l \<noteq> None \<Longrightarrow> l' \<noteq> None \<Longrightarrow> l = l'"
  by (cases l; cases l') (auto simp: mlookup_def)

lemma mput_idem: "mlookup l k = Some v \<Longrightarrow> mput k v l = l"
  by (cases l) (auto simp: mput_def mmake_def mlookup_def)

lemma mdelete_idem: "mlookup l k = None \<Longrightarrow> mdelete k l = l"
  by (cases l) (auto simp: mdelete_def mlookup_def)

section \<open>Strings\<close>

definition HasPrefix :: "string \<Rightarrow> string \<Rightarrow> bool" where
  "HasPrefix s p = (take (length p) s = p)"

definition HasSuffix :: "string \<Rightarrow> string \<Rightarrow> bool" where
  "HasSuffix s p = (length p \<le> length s \<and> drop (length s - length p) s = p)"

lemma HasPrefix_append [simp, go_str]: "HasPrefix (p @ s) p"
  by (simp add: HasPrefix_def)

lemma HasSuffix_append [simp, go_str]: "HasSuffix (s @ p) p"
  by (simp add: HasSuffix_def)

lemma HasPrefix_iff: "HasPrefix s p \<longleftrightarrow> (\<exists>r. s = p @ r)"
  by (metis HasPrefix_append HasPrefix_def append_take_drop_id)

lemma HasSuffix_iff: "HasSuffix s p \<longleftrightarrow> (\<exists>r. s = r @ p)"
  by (metis HasSuffix_append HasSuffix_def append_take_drop_id)

text \<open>\<open>strings.Split\<close> with a one-byte separator, \<open>strings.Join\<close>, \<open>strings.Cut\<close>.\<close>

fun Split :: "char \<Rightarrow> string \<Rightarrow> string list" where
  "Split c [] = [[]]"
| "Split c (x # xs) =
     (if x = c then [] # Split c xs
      else (case Split c xs of [] \<Rightarrow> [[x]] | y # ys \<Rightarrow> (x # y) # ys))"

fun Join :: "string list \<Rightarrow> string \<Rightarrow> string" where
  "Join [] sep = []"
| "Join [x] sep = x"
| "Join (x # y # zs) sep = x @ sep @ Join (y # zs) sep"

fun Cut :: "string \<Rightarrow> string \<Rightarrow> (string \<times> string) option" where
  "Cut [] sep = (if sep = [] then Some ([], []) else None)"
| "Cut (x # xs) sep =
     (if HasPrefix (x # xs) sep then Some ([], drop (length sep) (x # xs))
      else map_option (\<lambda>(b, a). (x # b, a)) (Cut xs sep))"

lemma Split_nonempty [simp]: "Split c s \<noteq> []"
  by (induction s) (auto split: list.splits)

lemma Split_parts_no_sep: "x \<in> set (Split c s) \<Longrightarrow> c \<notin> set x"
  by (induction s arbitrary: x) (auto split: if_splits list.splits)

lemma Split_no_sep: "c \<notin> set s \<Longrightarrow> Split c s = [s]"
  by (induction s) auto

lemma Split_append: "c \<notin> set s \<Longrightarrow> Split c (s @ c # t) = s # Split c t"
  by (induction s) (auto split: list.splits)

lemma Split_Join:
  "xs \<noteq> [] \<Longrightarrow> \<forall>x \<in> set xs. c \<notin> set x \<Longrightarrow> Split c (Join xs [c]) = xs"
proof (induction xs rule: induct_list012)
  case (3 x y zs)
  then show ?case by (simp add: Split_append)
qed (simp_all add: Split_no_sep)

lemma Cut_Some: "Cut s sep = Some (b, a) \<Longrightarrow> s = b @ sep @ a"
proof (induction s arbitrary: b)
  case Nil
  then show ?case by (simp split: if_splits)
next
  case (Cons x xs)
  show ?case
  proof (cases "HasPrefix (x # xs) sep")
    case True
    with Cons.prems have "b = []" "a = drop (length sep) (x # xs)" by simp_all
    with True show ?thesis
      by (metis HasPrefix_def append_Nil append_take_drop_id)
  next
    case False
    with Cons.prems obtain b' where "Cut xs sep = Some (b', a)" "b = x # b'" by auto
    with Cons.IH show ?thesis by simp
  qed
qed

section \<open>Decimal numbers\<close>

definition digit_char :: "nat \<Rightarrow> char" where
  "digit_char d = char_of (48 + d)"

definition char_digit :: "char \<Rightarrow> nat option" where
  "char_digit c = (let n = of_char c :: nat in if 48 \<le> n \<and> n \<le> 57 then Some (n - 48) else None)"

fun nat_digits :: "nat \<Rightarrow> string" where
  "nat_digits n = (if n < 10 then [digit_char n] else nat_digits (n div 10) @ [digit_char (n mod 10)])"

declare nat_digits.simps [simp del]

text \<open>\<open>strconv.Itoa\<close>, which is also what \<open>fmt.Sprintf("%v", n)\<close> prints for an integer.\<close>

definition Itoa :: "int \<Rightarrow> string" where
  "Itoa i = (if i < 0 then CHR ''-'' # nat_digits (nat (- i)) else nat_digits (nat i))"

fun parse_digits :: "nat \<Rightarrow> string \<Rightarrow> nat option" where
  "parse_digits acc [] = Some acc"
| "parse_digits acc (c # cs) =
     (case char_digit c of None \<Rightarrow> None | Some d \<Rightarrow> parse_digits (acc * 10 + d) cs)"

text \<open>
  \<open>strconv.Atoi\<close>: an optional sign and at least one decimal digit; a value outside the
  64-bit range is an error.
\<close>

definition Atoi :: "string \<Rightarrow> int res" where
  "Atoi s =
     (let neg = (s \<noteq> [] \<and> hd s = CHR ''-'');
          body = (if s \<noteq> [] \<and> (hd s = CHR ''-'' \<or> hd s = CHR ''+'') then tl s else s)
      in if body = [] then Inl (EOther ''strconv.Atoi: invalid syntax'')
         else case parse_digits 0 body of
                None \<Rightarrow> Inl (EOther ''strconv.Atoi: invalid syntax'')
              | Some n \<Rightarrow>
                  (let v = (if neg then - int n else int n)
                   in if - (2 ^ 63) \<le> v \<and> v < 2 ^ 63 then Inr v
                      else Inl (EOther ''strconv.Atoi: value out of range'')))"

lemma char_digit_digit_char [simp]: "d < 10 \<Longrightarrow> char_digit (digit_char d) = Some d"
  by (simp add: char_digit_def digit_char_def Let_def)

lemma digit_char_sign:
  "d < 10 \<Longrightarrow> digit_char d \<noteq> CHR ''-''" "d < 10 \<Longrightarrow> digit_char d \<noteq> CHR ''+''"
proof -
  have "char_digit CHR ''-'' = None" "char_digit CHR ''+'' = None"
    by (simp_all add: char_digit_def Let_def)
  then show "d < 10 \<Longrightarrow> digit_char d \<noteq> CHR ''-''" "d < 10 \<Longrightarrow> digit_char d \<noteq> CHR ''+''"
    by (metis char_digit_digit_char option.distinct(1))+
qed

lemma comma_not_digit [simp]: "char_digit CHR '','' = None"
  by (simp add: char_digit_def Let_def)

lemma nat_digits_nonempty [simp]: "nat_digits n \<noteq> []"
  by (subst nat_digits.simps) simp

lemma nat_digits_set: "c \<in> set (nat_digits n) \<Longrightarrow> \<exists>d < 10. c = digit_char d"
proof (induction n rule: nat_digits.induct)
  case (1 n)
  show ?case
  proof (cases "n < 10")
    case True
    with 1(2) show ?thesis by (subst (asm) nat_digits.simps) auto
  next
    case False
    with 1(2) have "c \<in> set (nat_digits (n div 10)) \<or> c = digit_char (n mod 10)"
      by (subst (asm) nat_digits.simps) auto
    moreover have "n mod 10 < 10" by simp
    ultimately show ?thesis using 1(1) False by blast
  qed
qed

lemma hd_nat_digits: "\<exists>d < 10. hd (nat_digits n) = digit_char d"
  using nat_digits_set [of "hd (nat_digits n)" n] by simp

lemma parse_digits_append:
  "parse_digits a (s @ t) = (case parse_digits a s of None \<Rightarrow> None | Some b \<Rightarrow> parse_digits b t)"
  by (induction s arbitrary: a) (auto split: option.splits)

lemma parse_nat_digits: "parse_digits 0 (nat_digits n) = Some n"
proof (induction n rule: nat_digits.induct)
  case (1 n)
  show ?case
  proof (cases "n < 10")
    case True
    then show ?thesis by (subst nat_digits.simps) simp
  next
    case False
    then have "parse_digits 0 (nat_digits (n div 10)) = Some (n div 10)" by (rule 1)
    with False show ?thesis
      by (subst nat_digits.simps) (simp add: parse_digits_append)
  qed
qed

lemma Atoi_Itoa [simp]: "- (2 ^ 63) \<le> i \<Longrightarrow> i < 2 ^ 63 \<Longrightarrow> Atoi (Itoa i) = Inr i"
proof -
  assume r: "- (2 ^ 63) \<le> i" "i < 2 ^ 63"
  show ?thesis
  proof (cases "i < 0")
    case True
    then show ?thesis using r by (simp add: Itoa_def Atoi_def parse_nat_digits)
  next
    case False
    have "hd (nat_digits (nat i)) \<noteq> CHR ''-''" "hd (nat_digits (nat i)) \<noteq> CHR ''+''"
      using hd_nat_digits [of "nat i"] by (auto dest: digit_char_sign)
    then show ?thesis using r False by (simp add: Itoa_def Atoi_def parse_nat_digits)
  qed
qed

lemma Atoi_Itoa_cases:
  "Atoi (Itoa i) = Inr i \<or> \<not> (- (2 ^ 63) \<le> i \<and> i < 2 ^ 63) \<and> (\<exists>e. Atoi (Itoa i) = Inl (EOther e))"
proof (cases "- (2 ^ 63) \<le> i \<and> i < 2 ^ 63")
  case True
  then show ?thesis by (simp only: Atoi_Itoa simp_thms)
next
  case False
  have "hd (nat_digits (nat i)) \<noteq> CHR ''-''" "hd (nat_digits (nat i)) \<noteq> CHR ''+''"
    using hd_nat_digits [of "nat i"] by (auto dest: digit_char_sign)
  with False show ?thesis by (simp add: Itoa_def Atoi_def parse_nat_digits)
qed

lemma Itoa_nonempty [simp]: "Itoa i \<noteq> []"
  by (simp add: Itoa_def)

lemma nat_digits_inj: "nat_digits m = nat_digits n \<Longrightarrow> m = n"
  by (metis option.inject parse_nat_digits)

lemma nat_digits_no_char: "char_digit c = None \<Longrightarrow> c \<notin> set (nat_digits n)"
  using nat_digits_set by fastforce

lemma Itoa_no_comma [simp]: "CHR '','' \<notin> set (Itoa i)"
  using nat_digits_no_char [OF comma_not_digit] by (simp add: Itoa_def)

end
