(* ===== verification/Kube_Objects.thy ===== *)
theory Kube_Objects
  imports Prelude
begin

text \<open>
  The API objects: \<open>pkg/apis/network.harvesterhci.io/v1beta1\<close>, the metadata every object
  embeds, label selectors (\<open>k8s.io/apimachinery/pkg/labels\<close>), status conditions
  (\<open>rancher/wrangler/pkg/condition\<close>) and the informer caches the handlers read. A pointer
  field is an \<open>option\<close>, a slice whose nil-ness \<open>reflect.DeepEqual\<close> can see is an \<open>option\<close>
  of a list, a selector map (which is only turned into a selector) the list of its entries in
  key order.
\<close>

section \<open>Metadata\<close>

text \<open>
  \<open>metav1.ObjectMeta\<close> as far as the code reads it; \<open>o_deleting\<close> is
  \<open>DeletionTimestamp != nil\<close>. Records that extend it are the objects that embed it.
\<close>

record objmeta =
  o_name :: string
  o_namespace :: string
  o_labels :: strmap
  o_annotations :: strmap
  o_deleting :: bool

definition meta0 :: "string \<Rightarrow> string \<Rightarrow> objmeta" where
  "meta0 ns n = \<lparr>o_name = n, o_namespace = ns, o_labels = None, o_annotations = None, o_deleting = False\<rparr>"

definition slice_elems :: "'a list option \<Rightarrow> 'a list" where
  "slice_elems s = (case s of None \<Rightarrow> [] | Some xs \<Rightarrow> xs)"

lemma slice_elems_simps [simp]: "slice_elems None = []" "slice_elems (Some xs) = xs"
  by (simp_all add: slice_elems_def)

section \<open>Conditions\<close>

record Condition =
  c_Type :: string
  c_Status :: string
  c_LastUpdateTime :: string
  c_LastTransitionTime :: string
  c_Reason :: string
  c_Message :: string

definition Ready :: string where "Ready = ''ready''"

fun findCond :: "string \<Rightarrow> Condition list \<Rightarrow> Condition option" where
  "findCond n [] = None"
| "findCond n (c # cs) = (if c_Type c = n then Some c else findCond n cs)"

definition getStatus :: "string \<Rightarrow> Condition list \<Rightarrow> string" where
  "getStatus n cs = (case findCond n cs of None \<Rightarrow> [] | Some c \<Rightarrow> c_Status c)"

text \<open>\<open>setValue\<close> touches the update time (\<open>now\<close>) only when the value changes.\<close>

definition cond_set_status :: "string \<Rightarrow> string \<Rightarrow> Condition \<Rightarrow> Condition" where
  "cond_set_status now v c = (if c_Status c \<noteq> v then c\<lparr>c_Status := v, c_LastUpdateTime := now\<rparr> else c)"

fun update_cond :: "string \<Rightarrow> (Condition \<Rightarrow> Condition) \<Rightarrow> Condition list \<Rightarrow> Condition list" where
  "update_cond n f [] =
     [f \<lparr>c_Type = n, c_Status = ''Unknown'', c_LastUpdateTime = [], c_LastTransitionTime = [],
         c_Reason = [], c_Message = []\<rparr>]"
| "update_cond n f (c # cs) = (if c_Type c = n then f c # cs else c # update_cond n f cs)"

definition setStatus :: "string \<Rightarrow> string \<Rightarrow> string \<Rightarrow> Condition list \<Rightarrow> Condition list" where
  "setStatus now n v cs = update_cond n (cond_set_status now v) cs"

definition CondIsTrue :: "string \<Rightarrow> Condition list \<Rightarrow> bool" where
  "CondIsTrue n cs = (getStatus n cs = ''True'')"

definition CondIsFalse :: "string \<Rightarrow> Condition list \<Rightarrow> bool" where
  "CondIsFalse n cs = (getStatus n cs = ''False'')"

definition cond_set_message :: "string \<Rightarrow> string \<Rightarrow> Condition \<Rightarrow> Condition" where
  "cond_set_message now v c = (if c_Message c \<noteq> v then c\<lparr>c_Message := v, c_LastUpdateTime := now\<rparr> else c)"

definition setMessage :: "string \<Rightarrow> string \<Rightarrow> string \<Rightarrow> Condition list \<Rightarrow> Condition list" where
  "setMessage now n v cs = update_cond n (cond_set_message now v) cs"

lemma getStatus_setStatus [simp]: "getStatus m (setStatus now n v cs) = (if m = n then v else getStatus m cs)"
  by (induction cs) (auto simp: getStatus_def setStatus_def cond_set_status_def split: if_splits)

lemma getStatus_setMessage [simp]:
  "getStatus m (setMessage now n v cs) =
     (if m = n \<and> findCond n cs = None then ''Unknown'' else getStatus m cs)"
  by (induction cs) (auto simp: getStatus_def setMessage_def cond_set_message_def split: if_splits)

lemma setStatus_idem: "getStatus n cs = v \<Longrightarrow> findCond n cs \<noteq> None \<Longrightarrow> setStatus now n v cs = cs"
  by (induction cs) (auto simp: getStatus_def setStatus_def cond_set_status_def split: if_splits option.splits)

section \<open>Label selectors\<close>

text \<open>
  \<open>labels.Requirement\<close> with the operators of \<open>LabelSelector\<close>; equality is \<open>ReqIn\<close> with one
  value. \<open>Nothing\<close> selects no object, an empty requirement list every object.
\<close>

datatype requirement =
    ReqIn string "string list"
  | ReqNotIn string "string list"
  | ReqExists string
  | ReqDoesNotExist string

datatype selector = Nothing | Requirements "requirement list"

definition Everything :: selector where "Everything = Requirements []"

fun req_matches :: "requirement \<Rightarrow> strmap \<Rightarrow> bool" where
  "req_matches (ReqIn k vs) ls = (case mlookup ls k of None \<Rightarrow> False | Some v \<Rightarrow> v \<in> set vs)"
| "req_matches (ReqNotIn k vs) ls = (case mlookup ls k of None \<Rightarrow> True | Some v \<Rightarrow> v \<notin> set vs)"
| "req_matches (ReqExists k) ls = (mlookup ls k \<noteq> None)"
| "req_matches (ReqDoesNotExist k) ls = (mlookup ls k = None)"

fun sel_matches :: "selector \<Rightarrow> strmap \<Rightarrow> bool" where
  "sel_matches Nothing ls = False"
| "sel_matches (Requirements rs) ls = list_all (\<lambda>r. req_matches r ls) rs"

text \<open>\<open>labels.Set(m).AsSelector()\<close>: one equality per entry, so the empty map selects everything.\<close>

definition SelectorFromSet :: "(string \<times> string) list \<Rightarrow> selector" where
  "SelectorFromSet m = Requirements (map (\<lambda>(k, v). ReqIn k [v]) m)"

text \<open>
  The label rules of \<open>k8s.io/apimachinery/pkg/util/validation\<close>, under which \<open>labels.NewRequirement\<close>
  accepts a key, an operator and values.
\<close>

definition is_lower_alnum :: "char \<Rightarrow> bool" where
  "is_lower_alnum c = (let n = (of_char c :: nat) in (97 \<le> n \<and> n \<le> 122) \<or> (48 \<le> n \<and> n \<le> 57))"

definition is_alnum :: "char \<Rightarrow> bool" where
  "is_alnum c = (let n = (of_char c :: nat) in is_lower_alnum c \<or> (65 \<le> n \<and> n \<le> 90))"

definition qualified_part :: "string \<Rightarrow> bool" where
  "qualified_part s = (s \<noteq> [] \<and> is_alnum (hd s) \<and> is_alnum (last s) \<and> list_all (\<lambda>c. is_alnum c \<or> c \<in> set ''-_.'') s)"

definition dns1123_label :: "string \<Rightarrow> bool" where
  "dns1123_label s =
     (s \<noteq> [] \<and> is_lower_alnum (hd s) \<and> is_lower_alnum (last s) \<and> list_all (\<lambda>c. is_lower_alnum c \<or> c = CHR ''-'') s)"

definition IsDNS1123Subdomain :: "string \<Rightarrow> bool" where
  "IsDNS1123Subdomain s = (length s \<le> 253 \<and> list_all dns1123_label (Split CHR ''.'' s))"

definition IsValidLabelValue :: "string \<Rightarrow> bool" where
  "IsValidLabelValue s = (length s \<le> 63 \<and> (s = [] \<or> qualified_part s))"

definition IsQualifiedName :: "string \<Rightarrow> bool" where
  "IsQualifiedName s =
     (case Split CHR ''/'' s of
        [name] \<Rightarrow> length name \<le> 63 \<and> qualified_part name
      | [prefix, name] \<Rightarrow> IsDNS1123Subdomain prefix \<and> length name \<le> 63 \<and> qualified_part name
      | _ \<Rightarrow> False)"

definition NewRequirement :: "string \<Rightarrow> string \<Rightarrow> string list \<Rightarrow> requirement res" where
  "NewRequirement key operator vals =
     (if \<not> IsQualifiedName key \<or> \<not> list_all IsValidLabelValue vals then Inl (EOther ''invalid label requirement'')
      else if operator = ''In'' \<and> vals \<noteq> [] then Inr (ReqIn key vals)
      else if operator = ''NotIn'' \<and> vals \<noteq> [] then Inr (ReqNotIn key vals)
      else if operator = ''='' \<and> length vals = 1 then Inr (ReqIn key vals)
      else if operator = ''Exists'' \<and> vals = [] then Inr (ReqExists key)
      else if operator = ''DoesNotExist'' \<and> vals = [] then Inr (ReqDoesNotExist key)
      else Inl (EOther ''invalid label requirement''))"

text \<open>
  \<open>metav1.LabelSelector\<close> and \<open>LabelSelectorAsSelector\<close>: nil selects nothing, the empty selector
  everything, and an invalid requirement is an error.
\<close>

record LabelSelectorRequirement =
  lr_Key :: string
  lr_Operator :: string
  lr_Values :: "string list"

record LabelSelector =
  ls_matchLabels :: "(string \<times> string) list"
  ls_matchExpressions :: "LabelSelectorRequirement list"

definition LabelSelectorAsSelector :: "LabelSelector option \<Rightarrow> selector res" where
  "LabelSelectorAsSelector p =
     (case p of
        None \<Rightarrow> Inr Nothing
      | Some s \<Rightarrow>
          bind_res (concat_res (\<lambda>(k, v). bind_res (NewRequirement k ''='' [v]) id (\<lambda>r. Inr [r])) (ls_matchLabels s)) id (\<lambda>ls.
          bind_res (concat_res (\<lambda>x.
              if lr_Operator x \<in> {''In'', ''NotIn'', ''Exists'', ''DoesNotExist''}
              then bind_res (NewRequirement (lr_Key x) (lr_Operator x) (lr_Values x)) id (\<lambda>r. Inr [r])
              else Inl (Errorf ''%q is not a valid label selector operator'')) (ls_matchExpressions s)) id (\<lambda>es.
          Inr (Requirements (ls @ es)))))"

lemma sel_matches_Everything [simp]: "sel_matches Everything ls"
  by (simp add: Everything_def)

lemma sel_matches_set [simp]:
  "sel_matches (SelectorFromSet m) ls \<longleftrightarrow> (\<forall>(k, v) \<in> set m. mlookup ls k = Some v)"
  by (auto simp: SelectorFromSet_def list_all_iff split: option.splits)

section \<open>The network API types\<close>

record LinkAttrs =
  la_MTU :: int
  la_TxQLen :: int
  la_HardwareAddr :: string

record BondOptions =
  bo_Mode :: string
  bo_Miimon :: int

record Uplink =
  up_NICs :: "string list option"
  up_LinkAttrs :: "LinkAttrs option"
  up_BondOptions :: "BondOptions option"

record VlanConfig = objmeta +
  vc_Description :: string
  vc_ClusterNetwork :: string
  vc_NodeSelector :: "(string \<times> string) list"
  vc_Uplink :: Uplink

definition BondMoDeActiveBackup :: string where "BondMoDeActiveBackup = ''active-backup''"

record ClusterNetwork = objmeta +
  cn_Conditions :: "Condition list"

record LocalArea =
  area_VID :: "16 word"
  area_CIDR :: string

text \<open>\<open>metav1.OwnerReference\<close>: the owner's name (the objects here carry no UID).\<close>

record OwnerReference =
  ow_Name :: string

record VlanStatus = objmeta +
  vs_ClusterNetwork :: string
  vs_VlanConfig :: string
  vs_LinkMonitor :: string
  vs_Node :: string
  vs_LocalAreas :: "LocalArea list"
  vs_Conditions :: "Condition list"
  vs_OwnerReferences :: "OwnerReference list"

record LinkStatus =
  lk_Name :: string
  lk_Index :: int
  lk_Type :: string
  lk_MAC :: string
  lk_Promiscuous :: bool
  lk_State :: string
  lk_MasterIndex :: int

record LinkMonitor = objmeta +
  lm_NodeSelector :: "(string \<times> string) list"
  lm_TypeRule :: string
  lm_NameRule :: string
  lm_Conditions :: "Condition list"
  lm_LinkStatus :: "(string \<rightharpoonup> LinkStatus list) option"

definition LinkUp :: string where "LinkUp = ''up''"
definition LinkDown :: string where "LinkDown = ''down''"
definition LinkUnknown :: string where "LinkUnknown = ''unknown''"

text \<open>\<open>HostNetworkConfig\<close>: the spec is a record of its own, since it is compared as a whole.\<close>

record HostNetworkConfigSpec =
  hs_Description :: string
  hs_NodeSelector :: "LabelSelector option"
  hs_ClusterNetwork :: string
  hs_Underlay :: bool
  hs_VlanID :: "16 word"
  hs_Mode :: string
  hs_HostIPs :: strmap

record HostNetworkConfigNodeStatus =
  hn_ClusterNetwork :: string
  hn_VlanID :: "16 word"
  hn_Mode :: string
  hn_Conditions :: "Condition list"

record HostNetworkConfig = objmeta +
  hnc_Spec :: HostNetworkConfigSpec
  hnc_Conditions :: "Condition list"
  hnc_NodeStatus :: "(string \<rightharpoonup> HostNetworkConfigNodeStatus) option"

text \<open>The objects of other API groups, as far as the code reads them.\<close>

record Node = objmeta +
  nd_ready :: bool

text \<open>\<open>NetworkAttachmentDefinition\<close>: \<open>Spec.Config\<close> is a JSON text.\<close>

record Nad = objmeta +
  nad_Config :: string
  nad_Finalizers :: "string list"

text \<open>\<open>batchv1.Job\<close>: the parts of the pod template that the NAD controller writes.\<close>

record EnvVar =
  ev_Name :: string
  ev_Value :: string
  ev_FieldPath :: "string option"

record Container =
  ct_Name :: string
  ct_Image :: string
  ct_Env :: "EnvVar list"
  ct_ImagePullPolicy :: string

record NodeSelectorRequirement =
  nr_Key :: string
  nr_Operator :: string
  nr_Values :: "string list"

record Job = objmeta +
  jb_TemplateAnnotations :: strmap
  jb_Containers :: "Container list"
  jb_NodeSelectorTerms :: "NodeSelectorRequirement list list option"
  jb_RestartPolicy :: string
  jb_ServiceAccountName :: string
  jb_BackoffLimit :: "32 word option"

section \<open>Informer caches\<close>

text \<open>
  A cache answers \<open>Get\<close> (by namespace and name; cluster-scoped objects have the empty
  namespace) and \<open>List\<close> (by namespace, the empty one for all, and selector). \<open>store_get\<close> and
  \<open>store_list\<close> are what the listers of \<open>client-go\<close> do over an indexer's contents: the fresh
  view in which a list holds one object per key.
\<close>

definition key_of :: "'a objmeta_scheme \<Rightarrow> string \<times> string" where
  "key_of x = (o_namespace x, o_name x)"

definition store_ok :: "'a objmeta_scheme list \<Rightarrow> bool" where
  "store_ok xs = distinct (map key_of xs)"

definition store_get :: "'a objmeta_scheme list \<Rightarrow> string \<Rightarrow> string \<Rightarrow> 'a objmeta_scheme res" where
  "store_get xs ns n =
     (case find (\<lambda>x. key_of x = (ns, n)) xs of
        None \<Rightarrow> Inl (ENotFound n)
      | Some x \<Rightarrow> Inr x)"

definition store_list :: "'a objmeta_scheme list \<Rightarrow> string \<Rightarrow> selector \<Rightarrow> ('a objmeta_scheme list) res" where
  "store_list xs ns sel =
     Inr (filter (\<lambda>x. (ns = [] \<or> o_namespace x = ns) \<and> sel_matches sel (o_labels x)) xs)"

text \<open>What the handlers rely on of a cache, over the objects \<open>objs\<close> it holds.\<close>

locale informer_cache =
  fixes objs :: "'a objmeta_scheme set"
    and get :: "string \<Rightarrow> string \<Rightarrow> 'a objmeta_scheme res"
    and list :: "string \<Rightarrow> selector \<Rightarrow> ('a objmeta_scheme list) res"
  assumes get_Inr: "get ns n = Inr x \<longleftrightarrow> x \<in> objs \<and> key_of x = (ns, n)"
    and get_Inl: "get ns n = Inl e \<Longrightarrow> IsNotFound e \<and> (\<forall>x \<in> objs. key_of x \<noteq> (ns, n))"
    and list_Inr: "\<exists>xs. list ns sel = Inr xs \<and>
          set xs = {x \<in> objs. (ns = [] \<or> o_namespace x = ns) \<and> sel_matches sel (o_labels x)}"
begin

text \<open>A key names one object, and an object found by a selector is the one \<open>get\<close> returns.\<close>

lemma key_unique: "x \<in> objs \<Longrightarrow> y \<in> objs \<Longrightarrow> key_of x = key_of y \<Longrightarrow> x = y"
  by (metis get_Inr old.prod.exhaust sum.inject(2))

lemma list_get:
  assumes "list ns sel = Inr xs" "x \<in> set xs"
  shows "get (o_namespace x) (o_name x) = Inr x \<and> sel_matches sel (o_labels x)"
  using assms list_Inr [of ns sel] by (auto simp: get_Inr key_of_def)

lemma list_everything: "list [] Everything = Inr xs \<Longrightarrow> set xs = objs"
  using list_Inr [of "[]" Everything] by auto

end

lemma find_key: "store_ok xs \<Longrightarrow> find (\<lambda>x. key_of x = k) xs = Some x \<longleftrightarrow> x \<in> set xs \<and> key_of x = k"
  by (induction xs) (auto simp: store_ok_def)

text \<open>The indexer: adding an object replaces the one with its key.\<close>

definition store_put :: "'a objmeta_scheme \<Rightarrow> 'a objmeta_scheme list \<Rightarrow> 'a objmeta_scheme list" where
  "store_put x xs = x # filter (\<lambda>y. key_of y \<noteq> key_of x) xs"

definition indexer :: "'a objmeta_scheme list \<Rightarrow> 'a objmeta_scheme list" where
  "indexer added = foldr store_put added []"

lemma store_ok_put: "store_ok xs \<Longrightarrow> store_ok (store_put x xs)"
  by (auto simp: store_ok_def store_put_def distinct_map_filter)

lemma store_ok_indexer [simp]: "store_ok (indexer added)"
  by (induction added) (auto simp: indexer_def store_ok_put, simp add: store_ok_def)

lemma indexer_distinct: "store_ok xs \<Longrightarrow> indexer xs = xs"
proof (induction xs)
  case (Cons x xs)
  then have "store_ok xs" "key_of x \<notin> key_of ` set xs" by (auto simp: store_ok_def)
  with Cons.IH show ?case by (auto simp: indexer_def store_put_def filter_id_conv) (metis imageI)
qed (simp add: indexer_def)

interpretation store: informer_cache "set (indexer added)" "store_get (indexer added)" "store_list (indexer added)"
  for added
proof
  fix ns n x
  show "store_get (indexer added) ns n = Inr x \<longleftrightarrow> x \<in> set (indexer added) \<and> key_of x = (ns, n)"
    using find_key [of "indexer added" "(ns, n)" x] by (auto simp: store_get_def split: option.splits)
next
  fix ns n e
  assume "store_get (indexer added) ns n = Inl e"
  then show "IsNotFound e \<and> (\<forall>x \<in> set (indexer added). key_of x \<noteq> (ns, n))"
    by (auto simp: store_get_def find_None_iff split: option.splits)
qed (auto simp: store_list_def)

end
