(* ===== verification/Names.thy ===== *)
theory Names
  imports Kube_Objects
begin

text \<open>
  The naming rules of \<open>pkg/utils\<close>: device names (\<open>bridge.go\<close>), object names with a CRC-32
  suffix (\<open>name.go\<close>), label and annotation keys (\<open>labels.go\<close>, \<open>node.go\<close>), cluster network
  names (\<open>clusternetwork.go\<close>), the management network (\<open>mgmt.go\<close>), node selectors
  (\<open>selector.go\<close>), reserved subnets (\<open>subnet.go\<close>) and MTU values (\<open>mtu.go\<close>, \<open>consts.go\<close>).
\<close>

section \<open>Keys\<close>

definition GroupName :: string where "GroupName = ''network.harvesterhci.io''"
definition KeyVlanLabel :: string where "KeyVlanLabel = GroupName @ ''/vlan-id''"
definition KeyVlanConfigLabel :: string where "KeyVlanConfigLabel = GroupName @ ''/vlanconfig''"
definition KeyClusterNetworkLabel :: string where "KeyClusterNetworkLabel = GroupName @ ''/clusternetwork''"
definition KeyNodeLabel :: string where "KeyNodeLabel = GroupName @ ''/node''"
definition KeyNetworkType :: string where "KeyNetworkType = GroupName @ ''/type''"
definition KeyLastNetworkType :: string where "KeyLastNetworkType = GroupName @ ''/last-type''"
definition KeyNetworkReady :: string where "KeyNetworkReady = GroupName @ ''/ready''"
definition KeyNetworkRoute :: string where "KeyNetworkRoute = GroupName @ ''/route''"
definition KeyNetworkRouteSourceVID :: string where "KeyNetworkRouteSourceVID = GroupName @ ''/route-source-vid''"
definition KeyMTUSourceVlanConfig :: string where "KeyMTUSourceVlanConfig = GroupName @ ''/mtu-source-vc''"
definition KeyUplinkMTU :: string where "KeyUplinkMTU = GroupName @ ''/uplink-mtu''"
definition EnvLogLevel :: string where "EnvLogLevel = ''LOGLEVEL''"
definition KeyMatchedNodes :: string where "KeyMatchedNodes = GroupName @ ''/matched-nodes''"
definition KeyVlanIDSetStr :: string where "KeyVlanIDSetStr = GroupName @ ''/vlan-id-set-str''"
definition KeyVlanIDSetStrHash :: string where "KeyVlanIDSetStrHash = GroupName @ ''/vlan-id-set-str-hash''"
definition KeyVlanDHCPServerIP :: string where "KeyVlanDHCPServerIP = GroupName @ ''/vlan-dhcp-server-ip''"
definition ValueTrue :: string where "ValueTrue = ''true''"
definition ValueFalse :: string where "ValueFalse = ''false''"
definition HarvesterWitnessNodeLabelKey :: string where
  "HarvesterWitnessNodeLabelKey = ''node-role.harvesterhci.io/witness''"
definition ManagementClusterNetworkName :: string where "ManagementClusterNetworkName = ''mgmt''"
definition MgmtVlanConfigPrefix :: string where "MgmtVlanConfigPrefix = ''mgmt-vlanconfig-''"
definition HarvesterMgmtClusterNetworkLabeyKey :: string where
  "HarvesterMgmtClusterNetworkLabeyKey = GroupName @ ''/'' @ ManagementClusterNetworkName"
definition StorageNetworkAnnotation :: string where
  "StorageNetworkAnnotation = ''storage-network.settings.harvesterhci.io''"
definition StorageNetworkNetAttachDefPrefix :: string where
  "StorageNetworkNetAttachDefPrefix = ''storagenetwork-''"
definition RWXNetworkAnnotation :: string where
  "RWXNetworkAnnotation = ''rwx-network.settings.harvesterhci.io''"
definition RWXNetworkNetAttachDefPrefix :: string where
  "RWXNetworkNetAttachDefPrefix = ''rwx-network-''"
definition ExclusiveVlanStorageNetworkLabel :: string where
  "ExclusiveVlanStorageNetworkLabel = StorageNetworkAnnotation @ ''/exclusivevlan''"
definition KeyUnderlayIntf :: string where "KeyUnderlayIntf = ''ovn.kubernetes.io/tunnel_interface''"
definition HarvesterSystemNamespaceName :: string where "HarvesterSystemNamespaceName = ''harvester-system''"
definition defaultNamespace :: string where "defaultNamespace = ''default''"

lemmas label_keys = KeyVlanLabel_def KeyVlanConfigLabel_def KeyClusterNetworkLabel_def KeyNodeLabel_def
  KeyNetworkType_def KeyLastNetworkType_def KeyNetworkReady_def KeyNetworkRoute_def
  KeyNetworkRouteSourceVID_def KeyMTUSourceVlanConfig_def KeyUplinkMTU_def KeyMatchedNodes_def
  KeyVlanIDSetStr_def KeyVlanIDSetStrHash_def KeyVlanDHCPServerIP_def

lemma keys_differ [simp]:
  "KeyVlanLabel \<noteq> KeyClusterNetworkLabel" "KeyVlanLabel \<noteq> KeyNetworkType" "KeyClusterNetworkLabel \<noteq> KeyNetworkType"
  "KeyClusterNetworkLabel \<noteq> KeyVlanLabel" "KeyNetworkType \<noteq> KeyVlanLabel" "KeyNetworkType \<noteq> KeyClusterNetworkLabel"
  "KeyNetworkReady \<noteq> KeyVlanLabel" "KeyNetworkReady \<noteq> KeyClusterNetworkLabel" "KeyNetworkReady \<noteq> KeyNetworkType"
  "KeyVlanLabel \<noteq> KeyNetworkReady" "KeyClusterNetworkLabel \<noteq> KeyNetworkReady" "KeyNetworkType \<noteq> KeyNetworkReady"
  "KeyLastNetworkType \<noteq> KeyVlanLabel" "KeyLastNetworkType \<noteq> KeyClusterNetworkLabel"
  "KeyLastNetworkType \<noteq> KeyNetworkType" "KeyLastNetworkType \<noteq> KeyNetworkReady"
  "KeyVlanLabel \<noteq> KeyLastNetworkType" "KeyClusterNetworkLabel \<noteq> KeyLastNetworkType"
  "KeyNetworkType \<noteq> KeyLastNetworkType" "KeyNetworkReady \<noteq> KeyLastNetworkType"
  "KeyUplinkMTU \<noteq> KeyMTUSourceVlanConfig" "KeyMTUSourceVlanConfig \<noteq> KeyUplinkMTU"
  "KeyVlanIDSetStr \<noteq> KeyVlanIDSetStrHash" "KeyVlanIDSetStrHash \<noteq> KeyVlanIDSetStr"
  "KeyVlanLabel \<noteq> KeyVlanDHCPServerIP" "KeyVlanDHCPServerIP \<noteq> KeyVlanLabel"
  by (simp_all add: label_keys)

definition GetLabelKeyOfClusterNetwork :: "string \<Rightarrow> string" where
  "GetLabelKeyOfClusterNetwork clusterNetwork = GroupName @ ''/'' @ clusterNetwork"

definition HasLabelKey :: "strmap \<Rightarrow> string \<Rightarrow> string \<Rightarrow> bool" where
  "HasLabelKey lbs key value = (mget lbs key = value)"

definition HasWitnessNodeLabelKey :: "strmap \<Rightarrow> bool" where
  "HasWitnessNodeLabelKey lbs = HasLabelKey lbs HarvesterWitnessNodeLabelKey ValueTrue"

definition HasMgmtClusterNetworkLabelKey :: "strmap \<Rightarrow> bool" where
  "HasMgmtClusterNetworkLabelKey lbs = HasLabelKey lbs HarvesterMgmtClusterNetworkLabeyKey ValueTrue"

definition SetMgmtClusterNetworkLabelKey :: "strmap \<Rightarrow> strmap" where
  "SetMgmtClusterNetworkLabelKey lbs =
     (case lbs of None \<Rightarrow> None | Some _ \<Rightarrow> mput HarvesterMgmtClusterNetworkLabeyKey ValueTrue lbs)"

definition IsClusterNetworkLabelValid :: "VlanConfig \<Rightarrow> bool \<times> string" where
  "IsClusterNetworkLabelValid vc =
     (let label = mget (o_labels vc) KeyClusterNetworkLabel
      in if label = [] \<or> label \<noteq> vc_ClusterNetwork vc then (False, label) else (True, []))"

section \<open>The management network\<close>

text \<open>An admission request, as far as the code asks: whether a controller's account sent it.\<close>

record request =
  isFromController :: bool

definition IsManagementClusterNetwork :: "string \<Rightarrow> bool" where
  "IsManagementClusterNetwork cnName = (cnName = ManagementClusterNetworkName)"

definition IsUserRequestForMgmtCluster :: "request option \<Rightarrow> string \<Rightarrow> bool" where
  "IsUserRequestForMgmtCluster req clusterNetwork =
     (if clusterNetwork \<noteq> ManagementClusterNetworkName then False
      else case req of None \<Rightarrow> False | Some r \<Rightarrow> \<not> isFromController r)"

definition GetMgmtVlanConfigName :: "string \<Rightarrow> string" where
  "GetMgmtVlanConfigName nodeName = MgmtVlanConfigPrefix @ nodeName"

section \<open>Device names\<close>

definition BridgeSuffix :: string where "BridgeSuffix = ''-br''"
definition BondSuffix :: string where "BondSuffix = ''-bo''"
definition LenOfBridgeSuffix :: nat where "LenOfBridgeSuffix = 3"
definition LenOfBondSuffix :: nat where "LenOfBondSuffix = 3"
definition MaxDeviceNameLen :: nat where "MaxDeviceNameLen = 15"
definition DefaultValueMiimon :: int where "DefaultValueMiimon = 100"
definition VlanSubInterfaceSpliter :: string where "VlanSubInterfaceSpliter = ''.''"
definition ManagementClusterNetworkVlanDevicePrefix :: string where
  "ManagementClusterNetworkVlanDevicePrefix = ManagementClusterNetworkName @ BridgeSuffix @ VlanSubInterfaceSpliter"
definition ManagementClusterNetworkDevicePrefix :: string where
  "ManagementClusterNetworkDevicePrefix = ManagementClusterNetworkName @ BridgeSuffix"

lemmas device_consts = BridgeSuffix_def BondSuffix_def LenOfBridgeSuffix_def LenOfBondSuffix_def
  MaxDeviceNameLen_def VlanSubInterfaceSpliter_def

definition HasMgmtClusterNetworkVlanDevicePrefix :: "string \<Rightarrow> bool" where
  "HasMgmtClusterNetworkVlanDevicePrefix link = HasPrefix link ManagementClusterNetworkVlanDevicePrefix"

definition HasMgmtClusterNetworkBridgePrefix :: "string \<Rightarrow> bool" where
  "HasMgmtClusterNetworkBridgePrefix link = HasPrefix link ManagementClusterNetworkDevicePrefix"

text \<open>\<open>fmt.Sprint\<close> of a \<open>uint16\<close>.\<close>

definition Sprint16 :: "16 word \<Rightarrow> string" where
  "Sprint16 v = nat_digits (unat v)"

definition GetClusterNetworkDevicePrefix :: "string \<Rightarrow> string" where
  "GetClusterNetworkDevicePrefix cnName = cnName @ BridgeSuffix @ VlanSubInterfaceSpliter"

definition GetClusterNetworkBrVlanDevice :: "string \<Rightarrow> 16 word \<Rightarrow> string" where
  "GetClusterNetworkBrVlanDevice cnBrName vlanId = cnBrName @ VlanSubInterfaceSpliter @ Sprint16 vlanId"

definition GetClusterNetworkVlanDevice :: "string \<Rightarrow> 16 word \<Rightarrow> string" where
  "GetClusterNetworkVlanDevice cnName vlanId = GetClusterNetworkDevicePrefix cnName @ Sprint16 vlanId"

definition HasClusterNetworkDevicePrefix :: "string \<Rightarrow> string \<Rightarrow> bool" where
  "HasClusterNetworkDevicePrefix link prefix = HasPrefix link prefix"

text \<open>A pair of a validity flag and an error, where the flag is true exactly without an error.\<close>

definition IsBridgeNameValid :: "string \<Rightarrow> bool res" where
  "IsBridgeNameValid brName =
     (let lenOfBrName = length brName
      in if lenOfBrName \<le> LenOfBridgeSuffix then Inl (Errorf ''the length of bridge name %v is less than %v'')
         else if lenOfBrName > MaxDeviceNameLen
         then Inl (Errorf ''the length of the bridge name %v can't be more than %v'')
         else if \<not> HasSuffix brName BridgeSuffix
         then Inl (Errorf ''the bridge name %v does not include suffix %v'')
         else Inr True)"

definition GetClusterNetworkFromBridgeName :: "string \<Rightarrow> string res" where
  "GetClusterNetworkFromBridgeName brName =
     bind_res (IsBridgeNameValid brName) id (\<lambda>_. Inr (take (length brName - LenOfBridgeSuffix) brName))"

definition CheckBridgeName :: "string \<Rightarrow> go_error option" where
  "CheckBridgeName brName = with_res (IsBridgeNameValid brName) id (\<lambda>_. None)"

definition GetBridgeNamePrefix :: "string \<Rightarrow> string res" where
  "GetBridgeNamePrefix brName = GetClusterNetworkFromBridgeName brName"

definition generateName :: "string \<Rightarrow> string \<Rightarrow> nat \<Rightarrow> string" where
  "generateName prefix suffix lenOfSufix =
     (let maxPrefixLen = MaxDeviceNameLen - lenOfSufix
      in if length prefix > maxPrefixLen then take maxPrefixLen prefix @ suffix else prefix @ suffix)"

definition GenerateBridgeName :: "string \<Rightarrow> string" where
  "GenerateBridgeName prefix = generateName prefix BridgeSuffix LenOfBridgeSuffix"

definition GenerateBondName :: "string \<Rightarrow> string" where
  "GenerateBondName prefix = generateName prefix BondSuffix LenOfBondSuffix"

definition IsHostNetworkIntfNameValid :: "string \<Rightarrow> 16 word \<Rightarrow> go_error option" where
  "IsHostNetworkIntfNameValid cn vlanid =
     (let vlanIntfName = GetClusterNetworkVlanDevice cn vlanid
      in if length vlanIntfName > MaxDeviceNameLen
         then Some (Errorf ''host network interface name %v length %d is more than %d'') else None)"

lemma BridgeName_prefix_Inr:
  "GetBridgeNamePrefix br = Inr cn \<longleftrightarrow> br = cn @ BridgeSuffix \<and> cn \<noteq> [] \<and> length cn \<le> 12"
  by (auto simp: GetBridgeNamePrefix_def GetClusterNetworkFromBridgeName_def IsBridgeNameValid_def
      Let_def device_consts HasSuffix_iff split: if_splits)

lemma CheckBridgeName_None:
  "CheckBridgeName br = None \<longleftrightarrow> (\<exists>cn. GetBridgeNamePrefix br = Inr cn)"
  by (auto simp: CheckBridgeName_def GetBridgeNamePrefix_def GetClusterNetworkFromBridgeName_def)

lemma GenerateBridgeName_take: "GenerateBridgeName p = take 12 p @ BridgeSuffix"
  by (simp add: GenerateBridgeName_def generateName_def Let_def device_consts)

lemma GenerateBondName_take: "GenerateBondName p = take 12 p @ BondSuffix"
  by (simp add: GenerateBondName_def generateName_def Let_def device_consts)

section \<open>Cluster network names\<close>

definition MaxClusterNetworkNameLen :: nat where
  "MaxClusterNetworkNameLen = MaxDeviceNameLen - LenOfBridgeSuffix"

definition IsClusterNetworkNameValid :: "string \<Rightarrow> bool res" where
  "IsClusterNetworkNameValid nm =
     (if length nm > MaxClusterNetworkNameLen
      then Inl (Errorf ''the length of the clusterNetwork name %v is more than %d'') else Inr True)"

definition AreClusterNetworkVlanAnnotationsUnchanged :: "ClusterNetwork option \<Rightarrow> string \<Rightarrow> string \<Rightarrow> bool" where
  "AreClusterNetworkVlanAnnotationsUnchanged cn vidstr vidhash =
     (case cn of
        None \<Rightarrow> False
      | Some c \<Rightarrow>
          if o_annotations c = None then False
          else mget (o_annotations c) KeyVlanIDSetStr = vidstr
               \<and> mget (o_annotations c) KeyVlanIDSetStrHash = vidhash)"

definition SetClusterNetworkVlanAnnotations :: "ClusterNetwork \<Rightarrow> string \<Rightarrow> string \<Rightarrow> ClusterNetwork" where
  "SetClusterNetworkVlanAnnotations cn vidstr vidhash =
     cn\<lparr>o_annotations := mput KeyVlanIDSetStrHash vidhash (mput KeyVlanIDSetStr vidstr (o_annotations cn))\<rparr>"

definition GetClusterNetworkName :: "string \<Rightarrow> string res" where
  "GetClusterNetworkName iface =
     (case Cut iface BridgeSuffix of
        None \<Rightarrow> Inl (Errorf ''invalid interface format: %s'')
      | Some (cnName, _) \<Rightarrow> Inr cnName)"

section \<open>Node selectors\<close>

definition NewSelector :: "(string \<times> string) list \<Rightarrow> selector res" where
  "NewSelector selector =
     bind_res (concat_res (\<lambda>(key, value). bind_res (NewRequirement key ''='' [value]) id (\<lambda>req. Inr [req])) selector) id
       (\<lambda>requirements. Inr (Requirements requirements))"

lemma NewRequirement_eq: "NewRequirement k ''='' [v] = Inr r \<Longrightarrow> r = ReqIn k [v]"
  by (auto simp: NewRequirement_def split: if_splits)

lemma NewSelector_matches:
  assumes "NewSelector m = Inr sel"
  shows "sel_matches sel ls \<longleftrightarrow> (\<forall>(k, v) \<in> set m. mlookup ls k = Some v)"
proof -
  have "concat_res (\<lambda>(key, value). bind_res (NewRequirement key ''='' [value]) id (\<lambda>req. Inr [req])) xs = Inr rs \<Longrightarrow>
      rs = map (\<lambda>(k, v). ReqIn k [v]) xs" for xs rs
    by (induction xs arbitrary: rs) (auto dest: NewRequirement_eq split: sum.splits)
  with assms have "sel = SelectorFromSet m" by (auto simp: NewSelector_def SelectorFromSet_def)
  then show ?thesis by simp
qed

section \<open>Object names\<close>

text \<open>\<open>crc32.ChecksumIEEE\<close>, bit by bit with the reflected polynomial.\<close>

unbundle bit_operations_syntax

definition crc32_bit :: "32 word \<Rightarrow> 32 word" where
  "crc32_bit c = (if bit c 0 then drop_bit 1 c XOR 0xEDB88320 else drop_bit 1 c)"

definition crc32_byte :: "char \<Rightarrow> 32 word \<Rightarrow> 32 word" where
  "crc32_byte b c = (crc32_bit ^^ 8) (c XOR of_nat (of_char b))"

definition ChecksumIEEE :: "string \<Rightarrow> 32 word" where
  "ChecksumIEEE s = NOT (fold crc32_byte s (NOT 0))"

definition hex_digit :: "nat \<Rightarrow> char" where
  "hex_digit d = (if d < 10 then char_of (48 + d) else char_of (87 + d))"

text \<open>\<open>%08x\<close> of a 32-bit word.\<close>

definition hex8 :: "32 word \<Rightarrow> string" where
  "hex8 w = map (\<lambda>i. hex_digit (unat (drop_bit (4 * i) w AND 15))) [7, 6, 5, 4, 3, 2, 1, 0]"

definition maxLengthOfName :: nat where "maxLengthOfName = 63"

definition Name :: "string \<Rightarrow> string list \<Rightarrow> string" where
  "Name prefix s =
     (let name = prefix @ Join s ''-'';
          digest = ChecksumIEEE name;
          suffix = hex8 digest;
          maxLength = maxLengthOfName - 1 - length suffix;
          name' = (if length name > maxLength then take maxLength name else name)
      in name' @ ''-'' @ suffix)"

lemma length_hex8 [simp]: "length (hex8 w) = 8"
  by (simp add: hex8_def)

section \<open>Reserved subnets\<close>

definition ovnProvider :: string where "ovnProvider = ''ovn''"
definition joinSubnet :: string where "joinSubnet = ''join''"
definition ovnDefaultSubnet :: string where "ovnDefaultSubnet = ''ovn-default''"

definition IsReservedSubnet :: "string \<Rightarrow> string \<Rightarrow> bool \<times> go_error option" where
  "IsReservedSubnet subnetName provider =
     (if subnetName = joinSubnet \<or> subnetName = ovnDefaultSubnet then
        (if provider \<noteq> ovnProvider then (True, Some (Errorf ''not a default subnet %s as provider is %s''))
         else (True, None))
      else (False, None))"

section \<open>MTU values\<close>

definition DefaultMTU :: int where "DefaultMTU = 1500"
definition MaxMTU :: int where "MaxMTU = 9000"
definition MinMTU :: int where "MinMTU = 576"

lemmas mtu_consts = DefaultMTU_def MaxMTU_def MinMTU_def

definition IsValidMTU :: "int \<Rightarrow> bool" where
  "IsValidMTU MTU = (MTU = 0 \<or> (MTU \<ge> MinMTU \<and> MTU \<le> MaxMTU))"

definition IsDefaultMTU :: "int \<Rightarrow> bool" where
  "IsDefaultMTU MTU = (MTU = DefaultMTU)"

definition AreEqualMTUs :: "int \<Rightarrow> int \<Rightarrow> bool" where
  "AreEqualMTUs MTU1 MTU2 =
     (MTU1 = MTU2 \<or> (MTU1 = 0 \<and> MTU2 = DefaultMTU) \<or> (MTU1 = DefaultMTU \<and> MTU2 = 0))"

definition GetMTUFromString :: "string \<Rightarrow> int res" where
  "GetMTUFromString s =
     bind_res (Atoi s) (wrap ''value %v is not an integer: %w'') (\<lambda>MTU.
     if \<not> IsValidMTU MTU then Inl (Errorf ''value %v is not in range [0, %v..%v]'')
     else Inr MTU)"

definition GetMTUFromVlanConfig :: "VlanConfig option \<Rightarrow> int" where
  "GetMTUFromVlanConfig p =
     (case p of None \<Rightarrow> 0
      | Some vc \<Rightarrow> (case up_LinkAttrs (vc_Uplink vc) of None \<Rightarrow> 0 | Some la \<Rightarrow> la_MTU la))"

definition MTUDefaultTo :: "int \<Rightarrow> int" where
  "MTUDefaultTo MTU = (if MTU = 0 then DefaultMTU else MTU)"

lemma AreEqualMTUs_default: "AreEqualMTUs a b \<longleftrightarrow> MTUDefaultTo a = MTUDefaultTo b"
  by (auto simp: AreEqualMTUs_def MTUDefaultTo_def mtu_consts)

lemma AreEqualMTUs_refl [simp]: "AreEqualMTUs a a"
  by (simp add: AreEqualMTUs_def)

lemma GetMTUFromString_Itoa:
  assumes "IsValidMTU m" shows "GetMTUFromString (Itoa m) = Inr m"
proof -
  have "- (2 ^ 63) \<le> m" "m < 2 ^ 63" using assms by (auto simp: IsValidMTU_def mtu_consts)
  then have "Atoi (Itoa m) = Inr m" by (rule Atoi_Itoa)
  with assms show ?thesis by (simp add: GetMTUFromString_def)
qed

lemma GetMTUFromString_valid: "GetMTUFromString s = Inr m \<Longrightarrow> IsValidMTU m"
  by (auto simp: GetMTUFromString_def split: if_splits)

section \<open>Properties\<close>

text \<open>
  Device names fit the kernel's limit of 15 bytes, a generated bridge name is always
  accepted, and for a cluster network name the webhook admits the name is read back from the
  bridge name.
\<close>

lemma bridge_name_roundtrip:
  assumes "IsClusterNetworkNameValid cn = Inr True" "cn \<noteq> []"
  shows "GetBridgeNamePrefix (GenerateBridgeName cn) = Inr cn
     \<and> CheckBridgeName (GenerateBridgeName cn) = None
     \<and> length (GenerateBridgeName cn) \<le> MaxDeviceNameLen \<and> length (GenerateBondName cn) \<le> MaxDeviceNameLen
     \<and> GenerateBondName cn \<noteq> GenerateBridgeName cn"
proof -
  have "length cn \<le> 12"
    using assms by (simp add: IsClusterNetworkNameValid_def MaxClusterNetworkNameLen_def device_consts split: if_splits)
  with assms have "GetBridgeNamePrefix (GenerateBridgeName cn) = Inr cn"
    by (simp add: BridgeName_prefix_Inr GenerateBridgeName_take)
  then show ?thesis
    by (auto simp: CheckBridgeName_None GenerateBridgeName_take GenerateBondName_take device_consts)
qed

lemma bridge_name_roundtrip_witness: "GetBridgeNamePrefix (GenerateBridgeName ''mgmt'') = Inr ''mgmt''"
proof -
  have "IsClusterNetworkNameValid ''mgmt'' = Inr True"
    by (simp add: IsClusterNetworkNameValid_def MaxClusterNetworkNameLen_def device_consts)
  with bridge_name_roundtrip [of "''mgmt''"] show ?thesis by simp
qed

text \<open>
  Two MTU values are treated as equal exactly when they are equal after 0 is read as the
  default, so equality of MTUs is an equivalence; and a valid MTU written to an annotation is
  read back unchanged.
\<close>

lemma mtu_equivalence:
  "(AreEqualMTUs a b \<longleftrightarrow> MTUDefaultTo a = MTUDefaultTo b)
   \<and> (GetMTUFromString (Itoa m) = Inr m' \<longleftrightarrow> IsValidMTU m \<and> m' = m)"
proof -
  have "Atoi (Itoa m) = Inr m \<or> (\<exists>e. Atoi (Itoa m) = Inl (EOther e))"
    using Atoi_Itoa_cases [of m] by blast
  then have "GetMTUFromString (Itoa m) = Inr m' \<longrightarrow> IsValidMTU m \<and> m' = m"
    by (auto simp: GetMTUFromString_def split: if_splits)
  then show ?thesis
    using GetMTUFromString_Itoa [of m] by (auto simp: AreEqualMTUs_default)
qed

text \<open>
  C37. A name made by \<open>Name\<close> is at most 63 bytes long, as Kubernetes requires, and short
  inputs are kept whole in front of the checksum. The prefix and the first part are joined
  without a separator, so different pairs of them, and hence the NADs of different namespaces,
  can get the same name.
\<close>

theorem Name_bounds:
  "length (Name prefix s) \<le> maxLengthOfName
   \<and> (if length (prefix @ Join s ''-'') \<le> 54
      then Name prefix s = prefix @ Join s ''-'' @ ''-'' @ hex8 (ChecksumIEEE (prefix @ Join s ''-''))
      else length (Name prefix s) = maxLengthOfName)
   \<and> Name (p @ q) [n] = Name p [q @ n]"
  by (auto simp: Name_def Let_def maxLengthOfName_def)

end
