(* ===== verification/Vlan_Id_Set.thy ===== *)
theory Vlan_Id_Set
  imports Prelude
begin

text \<open>
  \<open>pkg/utils/vlan.go\<close>: the set of VLAN ids of a network. A set is either in single mode
  (one tag, or 0 for untagged) or in trunk mode (a table of 4096 flags and a 32-bit counter).
  Methods with a pointer receiver return the error and the receiver as they leave it; an
  index outside the table is a panic. The invariant \<open>vis_ok\<close> ties the counter to the table,
  and \<open>vids\<close> abstracts both modes to a set of integers.
\<close>

section \<open>The set and its operations\<close>

definition MaxVlanID :: int where "MaxVlanID = 4094"
definition MinVlanID :: int where "MinVlanID = 0"
definition MinTrunkVlanID :: int where "MinTrunkVlanID = 1"
definition DefaultVlanID :: int where "DefaultVlanID = 1"
definition VlanIDCount :: nat where "VlanIDCount = 4096"
definition VlanIDStringJoinChar :: string where "VlanIDStringJoinChar = '',''"

lemmas vlan_consts = MaxVlanID_def MinVlanID_def MinTrunkVlanID_def DefaultVlanID_def VlanIDCount_def

record VlanIDSet =
  vlanCount :: "32 word"
  vidSet :: "bool list"
  vid :: int
  isTrunkMode :: bool

text \<open>\<open>_setVID\<close> and \<open>_unsetVID\<close>: the unexported updates, without a range check of their own.\<close>

definition setVID_raw :: "int \<Rightarrow> VlanIDSet \<Rightarrow> go_error option \<times> VlanIDSet" where
  "setVID_raw i vis =
     (if i = MinVlanID then (None, vis)
      else if \<not> isTrunkMode vis then (None, vis\<lparr>vid := i\<rparr>)
      else case slice_at (vidSet vis) i of
             Inl e \<Rightarrow> (Some e, vis)
           | Inr b \<Rightarrow>
               if \<not> b then (None, vis\<lparr>vidSet := (vidSet vis)[nat i := True], vlanCount := vlanCount vis + 1\<rparr>)
               else (None, vis))"

definition unsetVID_raw :: "int \<Rightarrow> VlanIDSet \<Rightarrow> go_error option \<times> VlanIDSet" where
  "unsetVID_raw i vis =
     (if \<not> isTrunkMode vis then (None, vis)
      else case slice_at (vidSet vis) i of
             Inl e \<Rightarrow> (Some e, vis)
           | Inr b \<Rightarrow>
               if \<not> b then (None, vis)
               else (None, vis\<lparr>vidSet := (vidSet vis)[nat i := False], vlanCount := vlanCount vis - 1\<rparr>))"

definition SetVID :: "int \<Rightarrow> VlanIDSet \<Rightarrow> go_error option \<times> VlanIDSet" where
  "SetVID i vis =
     (if i < MinVlanID \<or> i > MaxVlanID then (Some (Errorf ''vlan %v is out of range [%v .. %v]''), vis)
      else setVID_raw i vis)"

definition SetUint16VID :: "16 word \<Rightarrow> VlanIDSet \<Rightarrow> go_error option \<times> VlanIDSet" where
  "SetUint16VID i vis = SetVID (uint i) vis"

text \<open>The body of the loop of \<open>Append\<close>.\<close>

definition append_step :: "VlanIDSet \<Rightarrow> int \<Rightarrow> VlanIDSet \<Rightarrow> go_error option \<times> VlanIDSet" where
  "append_step other i vis =
     (case slice_at (vidSet other) i of
        Inl e \<Rightarrow> (Some e, vis)
      | Inr b \<Rightarrow> if b then SetVID i vis else (None, vis))"

definition Append :: "VlanIDSet option \<Rightarrow> VlanIDSet \<Rightarrow> go_error option \<times> VlanIDSet" where
  "Append other_ptr vis =
     (if \<not> isTrunkMode vis then (Some (Errorf ''target vidset is not trunk mode, can't append''), vis)
      else case other_ptr of
             None \<Rightarrow> (None, vis)
           | Some other \<Rightarrow>
               if \<not> isTrunkMode other then SetVID (vid other) vis
               else if vlanCount other = 0 then (None, vis)
               else fold_err (append_step other) (int_range DefaultVlanID MaxVlanID) vis)"

text \<open>\<open>VidSetToString\<close> writes the k-th id into a slice made with \<open>vlanCount\<close> entries.\<close>

definition to_string_step :: "VlanIDSet \<Rightarrow> int \<Rightarrow> string list \<times> int \<Rightarrow> go_error option \<times> string list \<times> int" where
  "to_string_step vis i st =
     (case st of (target, k) \<Rightarrow>
        (case slice_at (vidSet vis) i of
           Inl e \<Rightarrow> (Some e, st)
         | Inr b \<Rightarrow>
             if b then (case slice_set target k (Itoa i) of
                          Inl e \<Rightarrow> (Some e, st)
                        | Inr target' \<Rightarrow> (None, target', k + 1))
             else (None, st)))"

definition VidSetToString :: "VlanIDSet \<Rightarrow> string res" where
  "VidSetToString vis =
     (if \<not> isTrunkMode vis then
        (if vid vis = MinVlanID then Inr [] else Inr (Itoa (vid vis)))
      else case fold_err (to_string_step vis) (int_range DefaultVlanID MaxVlanID)
                  (replicate (unat (vlanCount vis)) [], 0) of
             (Some e, _) \<Rightarrow> Inl e
           | (None, target, _) \<Rightarrow> Inr (Join target VlanIDStringJoinChar))"

definition NewVlanIDSet :: VlanIDSet where
  "NewVlanIDSet = \<lparr>vlanCount = 0, vidSet = replicate VlanIDCount False, vid = 0, isTrunkMode = True\<rparr>"

definition diff_step :: "VlanIDSet \<Rightarrow> VlanIDSet \<Rightarrow> int \<Rightarrow> VlanIDSet \<times> VlanIDSet
                          \<Rightarrow> go_error option \<times> VlanIDSet \<times> VlanIDSet" where
  "diff_step vis existing i st =
     (case st of (added, removed) \<Rightarrow>
        (case (slice_at (vidSet vis) i, slice_at (vidSet existing) i) of
           (Inr b, Inr c) \<Rightarrow>
             if b \<noteq> c then
               (if b then (case setVID_raw i added of (e, added') \<Rightarrow> (e, added', removed))
                else (case setVID_raw i removed of (e, removed') \<Rightarrow> (e, added, removed')))
             else (None, st)
         | (Inl e, _) \<Rightarrow> (Some e, st)
         | (_, Inl e) \<Rightarrow> (Some e, st)))"

definition Diff :: "VlanIDSet option \<Rightarrow> VlanIDSet \<Rightarrow> (VlanIDSet \<times> VlanIDSet) res" where
  "Diff existing_ptr vis =
     (case existing_ptr of
        None \<Rightarrow> Inl (Errorf ''can't run diff on an empty vidset'')
      | Some existing \<Rightarrow>
          if \<not> isTrunkMode vis \<or> \<not> isTrunkMode existing
          then Inl (Errorf ''can only run diff between trunk mode vidset'')
          else case fold_err (diff_step vis existing) (int_range (DefaultVlanID + 1) MaxVlanID)
                      (NewVlanIDSet, NewVlanIDSet) of
                 (Some e, _) \<Rightarrow> Inl e
               | (None, added, removed) \<Rightarrow> Inr (added, removed))"

text \<open>\<open>sha256.Sum256\<close> printed in hexadecimal is the parameter \<open>sha256hex\<close>.\<close>

definition VidSetToStringHash :: "(string \<Rightarrow> string) \<Rightarrow> VlanIDSet \<Rightarrow> (string \<times> string) res" where
  "VidSetToStringHash sha256hex vis =
     (case VidSetToString vis of Inl e \<Rightarrow> Inl e | Inr str \<Rightarrow> Inr (str, sha256hex str))"

definition GetVlanCount :: "VlanIDSet \<Rightarrow> 32 word" where
  "GetVlanCount vis =
     (if isTrunkMode vis then vlanCount vis
      else if vid vis > MinVlanID then 1 else 0)"

text \<open>\<open>WalkVIDs\<close> calls back with a \<open>uint16\<close>; the callback works on a state of its own.\<close>

definition walk_step :: "VlanIDSet \<Rightarrow> (16 word \<Rightarrow> 's \<Rightarrow> go_error option \<times> 's) \<Rightarrow> int \<Rightarrow> 's \<Rightarrow> go_error option \<times> 's" where
  "walk_step vis callback i s =
     (case slice_at (vidSet vis) i of
        Inl e \<Rightarrow> (Some e, s)
      | Inr b \<Rightarrow>
          if b then (case callback (word_of_int i) s of
                       (Some e, s') \<Rightarrow> (Some (wrap ''failed to walk %v on trunk vid %v, error: %w '' e), s')
                     | (None, s') \<Rightarrow> (None, s'))
          else (None, s))"

definition WalkVIDs :: "(16 word \<Rightarrow> 's \<Rightarrow> go_error option \<times> 's) \<Rightarrow> VlanIDSet \<Rightarrow> 's \<Rightarrow> go_error option \<times> 's" where
  "WalkVIDs callback vis s =
     (if \<not> isTrunkMode vis then
        (if vid vis \<le> DefaultVlanID then (None, s)
         else case callback (word_of_int (vid vis)) s of
                (Some e, s') \<Rightarrow> (Some (wrap ''failed to walk %v on vid %v, error: %w '' e), s')
              | (None, s') \<Rightarrow> (None, s'))
      else if vlanCount vis = 0 then (None, s)
      else fold_err (walk_step vis callback) (int_range (DefaultVlanID + 1) MaxVlanID) s)"

definition ConvertToTrunkMode :: "VlanIDSet \<Rightarrow> go_error option \<times> VlanIDSet" where
  "ConvertToTrunkMode vis =
     (if isTrunkMode vis then (None, vis)
      else setVID_raw (vid vis) (vis\<lparr>vidSet := replicate VlanIDCount False, isTrunkMode := True\<rparr>))"

definition NewVlanIDSetFromSingleVID :: "int \<Rightarrow> VlanIDSet res" where
  "NewVlanIDSetFromSingleVID i =
     (case SetVID i \<lparr>vlanCount = 0, vidSet = [], vid = 0, isTrunkMode = False\<rparr> of
        (Some e, _) \<Rightarrow> Inl e
      | (None, vis) \<Rightarrow> Inr vis)"

section \<open>Invariant and abstraction\<close>

definition vis_ok :: "VlanIDSet \<Rightarrow> bool" where
  "vis_ok vis \<longleftrightarrow>
     (if isTrunkMode vis
      then length (vidSet vis) = VlanIDCount \<and> unat (vlanCount vis) = length (filter id (vidSet vis))
           \<and> \<not> vidSet vis ! 0 \<and> \<not> vidSet vis ! 4095
      else MinVlanID \<le> vid vis \<and> vid vis \<le> MaxVlanID \<and> vlanCount vis = 0)"

definition vids :: "VlanIDSet \<Rightarrow> int set" where
  "vids vis =
     (if isTrunkMode vis then {i. 0 \<le> i \<and> i < 4096 \<and> vidSet vis ! nat i}
      else {vid vis} - {0})"

lemma vis_ok_bounds: "vis_ok vis \<Longrightarrow> i \<in> vids vis \<Longrightarrow> 1 \<le> i \<and> i \<le> MaxVlanID"
proof (cases "isTrunkMode vis")
  case True
  assume a: "vis_ok vis" "i \<in> vids vis"
  have "i \<noteq> 0" "i \<noteq> 4095"
    using a True by (auto simp: vis_ok_def vids_def)
  with a True show ?thesis by (auto simp: vids_def MaxVlanID_def)
qed (auto simp: vis_ok_def vids_def vlan_consts)

lemma vids_vidSet:
  "vis_ok vis \<Longrightarrow> isTrunkMode vis \<Longrightarrow> 0 \<le> i \<Longrightarrow> i \<le> MaxVlanID \<Longrightarrow>
     slice_at (vidSet vis) i = Inr (i \<in> vids vis)"
  by (auto simp: vis_ok_def vids_def vlan_consts slice_at_def)

lemma length_filter_update_True:
  "n < length xs \<Longrightarrow> \<not> xs ! n \<Longrightarrow> length (filter id (xs[n := True])) = Suc (length (filter id xs))"
  by (induction xs arbitrary: n) (auto simp: nth_Cons split: nat.splits)

lemma length_filter_update_False:
  "n < length xs \<Longrightarrow> xs ! n \<Longrightarrow> Suc (length (filter id (xs[n := False]))) = length (filter id xs)"
  by (induction xs arbitrary: n) (auto simp: nth_Cons split: nat.splits)

lemma vis_count_bound: "vis_ok vis \<Longrightarrow> isTrunkMode vis \<Longrightarrow> unat (vlanCount vis) \<le> 4096"
  using length_filter_le [of id "vidSet vis"] by (simp add: vis_ok_def VlanIDCount_def)

lemma setVID_raw_trunk:
  assumes "vis_ok vis" "isTrunkMode vis" "1 \<le> i" "i \<le> MaxVlanID"
  shows "\<exists>vis'. setVID_raw i vis = (None, vis') \<and> vis_ok vis' \<and> isTrunkMode vis' \<and> vids vis' = insert i (vids vis)"
proof (cases "vidSet vis ! nat i")
  case True
  with assms show ?thesis
    by (auto simp: setVID_raw_def vis_ok_def vids_def vlan_consts slice_at_def)
next
  case False
  have len: "nat i < length (vidSet vis)" using assms by (simp add: vis_ok_def vlan_consts)
  let ?v = "vis\<lparr>vidSet := (vidSet vis)[nat i := True], vlanCount := vlanCount vis + 1\<rparr>"
  have "unat (vlanCount vis + 1) = Suc (unat (vlanCount vis))"
    using vis_count_bound [OF assms(1,2)] by (subst unat_add_lem [THEN iffD1]) auto
  then have "vis_ok ?v"
    using assms False len by (auto simp: vis_ok_def vlan_consts length_filter_update_True)
  moreover have "vids ?v = insert i (vids vis)"
    using assms len by (auto simp: vids_def vis_ok_def vlan_consts nth_list_update)
  moreover have "setVID_raw i vis = (None, ?v)"
    using assms False len by (simp add: setVID_raw_def vlan_consts)
  ultimately show ?thesis using assms(2) by auto
qed

lemma unsetVID_raw_trunk:
  assumes "vis_ok vis" "isTrunkMode vis" "0 \<le> i" "i \<le> MaxVlanID"
  shows "\<exists>vis'. unsetVID_raw i vis = (None, vis') \<and> vis_ok vis' \<and> isTrunkMode vis' \<and> vids vis' = vids vis - {i}"
proof (cases "vidSet vis ! nat i")
  case False
  with assms show ?thesis
    by (auto simp: unsetVID_raw_def vis_ok_def vids_def vlan_consts slice_at_def)
next
  case True
  have len: "nat i < length (vidSet vis)" using assms by (simp add: vis_ok_def vlan_consts)
  let ?v = "vis\<lparr>vidSet := (vidSet vis)[nat i := False], vlanCount := vlanCount vis - 1\<rparr>"
  note drop1 = length_filter_update_False [OF len True]
  have "unat (vlanCount vis) = Suc (length (filter id ((vidSet vis)[nat i := False])))"
    using assms drop1 by (simp add: vis_ok_def)
  then have "unat (vlanCount vis - 1) = length (filter id ((vidSet vis)[nat i := False]))"
    by (metis One_nat_def diff_Suc_1 nat.distinct(1) unat_0 unat_minus_one)
  then have "vis_ok ?v"
    using assms len by (auto simp: vis_ok_def vlan_consts nth_list_update)
  moreover have "vids ?v = vids vis - {i}"
    using assms len by (auto simp: vids_def vis_ok_def vlan_consts nth_list_update)
  moreover have "unsetVID_raw i vis = (None, ?v)"
    using assms True len by (simp add: unsetVID_raw_def vlan_consts)
  ultimately show ?thesis using assms(2) by auto
qed

lemma NewVlanIDSet_ok: "vis_ok NewVlanIDSet \<and> isTrunkMode NewVlanIDSet \<and> vids NewVlanIDSet = {}"
  by (auto simp: NewVlanIDSet_def vis_ok_def vids_def VlanIDCount_def simp del: replicate.simps)

lemma card_vids: "vis_ok vis \<Longrightarrow> unat (GetVlanCount vis) = card (vids vis)"
proof (cases "isTrunkMode vis")
  case True
  assume ok: "vis_ok vis"
  let ?N = "{i. i < length (vidSet vis) \<and> id (vidSet vis ! i)}"
  have "vids vis = int ` ?N"
    using ok True by (force simp: vids_def vis_ok_def VlanIDCount_def image_iff intro: exI [of _ "nat i" for i])
  then have "card (vids vis) = card ?N" by (simp add: card_image)
  with ok True show ?thesis
    by (simp add: GetVlanCount_def vis_ok_def length_filter_conv_card)
qed (auto simp: GetVlanCount_def vids_def vis_ok_def vlan_consts)

lemma finite_vids [simp]: "vis_ok vis \<Longrightarrow> finite (vids vis)"
  by (rule finite_subset [of _ "{1..MaxVlanID}"]) (auto dest: vis_ok_bounds)

lemma vids_sorted_list:
  assumes "vis_ok vis"
  shows "filter (\<lambda>i. i \<in> vids vis) (int_range 1 MaxVlanID) = sorted_list_of_set (vids vis)"
proof (rule sorted_distinct_set_unique)
  show "set (filter (\<lambda>i. i \<in> vids vis) (int_range 1 MaxVlanID)) = set (sorted_list_of_set (vids vis))"
    using vis_ok_bounds [OF assms] finite_vids [OF assms] by auto
qed (simp_all add: sorted_filter [where f = id, simplified])

section \<open>Each operation on the abstract set\<close>

lemma SetVID_refines:
  assumes "vis_ok vis"
  shows "\<exists>vis'. SetVID i vis =
            (if MinVlanID \<le> i \<and> i \<le> MaxVlanID then None
             else Some (Errorf ''vlan %v is out of range [%v .. %v]''), vis')
       \<and> vis_ok vis' \<and> isTrunkMode vis' = isTrunkMode vis
       \<and> vids vis' = (if i \<le> MinVlanID \<or> MaxVlanID < i then vids vis
                      else if isTrunkMode vis then insert i (vids vis) else {i})"
proof -
  consider "i < 0 \<or> i > MaxVlanID" | "i = 0" | "1 \<le> i" "i \<le> MaxVlanID" "isTrunkMode vis"
    | "1 \<le> i" "i \<le> MaxVlanID" "\<not> isTrunkMode vis" by linarith
  then show ?thesis
  proof cases
    case 3
    with setVID_raw_trunk [OF assms 3(3,1,2)] show ?thesis by (auto simp: SetVID_def MinVlanID_def)
  qed (use assms in \<open>auto simp: SetVID_def setVID_raw_def vlan_consts vis_ok_def vids_def\<close>)
qed

lemma SetVID_trunk_ok:
  "vis_ok vis \<Longrightarrow> isTrunkMode vis \<Longrightarrow> 0 \<le> i \<Longrightarrow> i \<le> MaxVlanID \<Longrightarrow>
     \<exists>vis'. SetVID i vis = (None, vis') \<and> vis_ok vis' \<and> isTrunkMode vis' \<and> vids vis' = vids vis \<union> ({i} - {0})"
  using SetVID_refines [of vis i] by (auto simp: MinVlanID_def split: if_splits)

lemma Append_trunk:
  assumes "vis_ok vis" "isTrunkMode vis" "vis_ok other" "isTrunkMode other"
  shows "\<exists>vis'. fold_err (append_step other) (int_range DefaultVlanID MaxVlanID) vis = (None, vis')
           \<and> (vis_ok vis' \<and> isTrunkMode vis') \<and> vids vis' = vids vis \<union> vids other"
proof -
  have "\<exists>v'. append_step other i v = (None, v') \<and> (vis_ok v' \<and> isTrunkMode v')
           \<and> vids v' = (if i \<in> vids other then insert i (vids v) else vids v)"
    if "i \<in> set (int_range DefaultVlanID MaxVlanID)" "vis_ok v \<and> isTrunkMode v" for i v
    using that vids_vidSet [OF assms(3,4), of i] SetVID_trunk_ok [of v i]
    by (auto simp: append_step_def DefaultVlanID_def)
  from fold_err_insert [where A = vids and I = "\<lambda>v. vis_ok v \<and> isTrunkMode v"
      and P = "\<lambda>i. i \<in> vids other" and xs = "int_range DefaultVlanID MaxVlanID" and s = vis, OF this]
  obtain v' where "fold_err (append_step other) (int_range DefaultVlanID MaxVlanID) vis = (None, v')"
    "vis_ok v' \<and> isTrunkMode v'"
    "vids v' = vids vis \<union> {i \<in> set (int_range DefaultVlanID MaxVlanID). i \<in> vids other}"
    using assms by auto
  moreover have "{i \<in> set (int_range DefaultVlanID MaxVlanID). i \<in> vids other} = vids other"
    using vis_ok_bounds [OF assms(3)] by (auto simp: DefaultVlanID_def)
  ultimately show ?thesis by auto
qed

lemma count_zero: "vis_ok vis \<Longrightarrow> isTrunkMode vis \<Longrightarrow> vlanCount vis = 0 \<longleftrightarrow> vids vis = {}"
  using card_vids [of vis] finite_vids [of vis]
  by (metis GetVlanCount_def card_eq_0_iff unat_eq_zero)

lemma Append_refines:
  assumes "vis_ok vis" "isTrunkMode vis" "\<And>w. p = Some w \<Longrightarrow> vis_ok w"
  shows "\<exists>vis'. Append p vis = (None, vis') \<and> vis_ok vis' \<and> isTrunkMode vis'
           \<and> vids vis' = vids vis \<union> (case p of None \<Rightarrow> {} | Some w \<Rightarrow> vids w)"
proof (cases p)
  case None
  with assms show ?thesis by (simp add: Append_def)
next
  case (Some w)
  have ok: "vis_ok w" using assms(3) Some by simp
  show ?thesis
  proof (cases "isTrunkMode w")
    case True
    with Some assms ok Append_trunk [of vis w] count_zero [of w] show ?thesis
      by (auto simp: Append_def)
  next
    case False
    with Some assms ok SetVID_trunk_ok [of vis "vid w"] show ?thesis
      by (auto simp: Append_def vids_def vis_ok_def vlan_consts)
  qed
qed

lemma ConvertToTrunkMode_refines:
  assumes "vis_ok vis"
  shows "\<exists>vis'. ConvertToTrunkMode vis = (None, vis') \<and> vis_ok vis' \<and> isTrunkMode vis' \<and> vids vis' = vids vis"
proof (cases "isTrunkMode vis")
  case True
  with assms show ?thesis by (simp add: ConvertToTrunkMode_def)
next
  case False
  let ?e = "vis\<lparr>vidSet := replicate VlanIDCount False, isTrunkMode := True\<rparr>"
  have e: "vis_ok ?e" "isTrunkMode ?e" "vids ?e = {}"
    using assms False by (auto simp: vis_ok_def vids_def VlanIDCount_def simp del: replicate.simps)
  show ?thesis
  proof (cases "vid vis = 0")
    case True
    with False e show ?thesis
      by (auto simp: ConvertToTrunkMode_def setVID_raw_def MinVlanID_def vids_def)
  next
    case nz: False
    with assms False have "1 \<le> vid vis" "vid vis \<le> MaxVlanID" by (auto simp: vis_ok_def MinVlanID_def)
    from setVID_raw_trunk [OF e(1,2) this] e(3) have
      "\<exists>vis'. setVID_raw (vid vis) ?e = (None, vis') \<and> vis_ok vis' \<and> isTrunkMode vis' \<and> vids vis' = {vid vis}"
      by simp
    with False nz show ?thesis by (simp add: ConvertToTrunkMode_def vids_def [of vis])
  qed
qed

lemma NewVlanIDSetFromSingleVID_ok:
  "NewVlanIDSetFromSingleVID i =
     (if 0 \<le> i \<and> i \<le> MaxVlanID then Inr \<lparr>vlanCount = 0, vidSet = [], vid = i, isTrunkMode = False\<rparr>
      else Inl (Errorf ''vlan %v is out of range [%v .. %v]''))"
  by (auto simp: NewVlanIDSetFromSingleVID_def SetVID_def setVID_raw_def vlan_consts)

lemma single_vis_ok:
  "0 \<le> i \<Longrightarrow> i \<le> MaxVlanID \<Longrightarrow> vis_ok \<lparr>vlanCount = 0, vidSet = xs, vid = i, isTrunkMode = False\<rparr>"
  by (simp add: vis_ok_def vlan_consts)

lemma single_vids [simp]:
  "vids \<lparr>vlanCount = c, vidSet = xs, vid = i, isTrunkMode = False\<rparr> = {i} - {0}"
  by (simp add: vids_def)

text \<open>\<open>Diff\<close>: one step, then the loop, which fills both result sets at once.\<close>

lemma diff_step_ok:
  assumes "vis_ok vis" "isTrunkMode vis" "vis_ok ex" "isTrunkMode ex"
    and "2 \<le> i" "i \<le> MaxVlanID"
    and "vis_ok a \<and> isTrunkMode a" "vis_ok r \<and> isTrunkMode r"
  shows "\<exists>a' r'. diff_step vis ex i (a, r) = (None, a', r')
     \<and> (vis_ok a' \<and> isTrunkMode a') \<and> (vis_ok r' \<and> isTrunkMode r')
     \<and> vids a' = (if i \<in> vids vis - vids ex then insert i (vids a) else vids a)
     \<and> vids r' = (if i \<in> vids ex - vids vis then insert i (vids r) else vids r)"
  using vids_vidSet [OF assms(1,2), of i] vids_vidSet [OF assms(3,4), of i] assms(5-8)
    setVID_raw_trunk [of a i] setVID_raw_trunk [of r i]
  by (auto simp: diff_step_def)

lemma diff_loop:
  assumes "vis_ok vis" "isTrunkMode vis" "vis_ok ex" "isTrunkMode ex"
    and "\<forall>i \<in> set xs. 2 \<le> i \<and> i \<le> MaxVlanID"
    and "vis_ok a \<and> isTrunkMode a" "vis_ok r \<and> isTrunkMode r"
  shows "\<exists>a' r'. fold_err (diff_step vis ex) xs (a, r) = (None, a', r')
     \<and> (vis_ok a' \<and> isTrunkMode a') \<and> (vis_ok r' \<and> isTrunkMode r')
     \<and> vids a' = vids a \<union> {i \<in> set xs. i \<in> vids vis - vids ex}
     \<and> vids r' = vids r \<union> {i \<in> set xs. i \<in> vids ex - vids vis}"
  using assms(5-7)
proof (induction xs arbitrary: a r)
  case Nil
  then show ?case by simp
next
  case (Cons i xs)
  then have i: "2 \<le> i" "i \<le> MaxVlanID" by auto
  from diff_step_ok [OF assms(1-4) i Cons.prems(2,3)]
  obtain a' r' where step: "diff_step vis ex i (a, r) = (None, a', r')"
    "vis_ok a' \<and> isTrunkMode a'" "vis_ok r' \<and> isTrunkMode r'"
    "vids a' = (if i \<in> vids vis - vids ex then insert i (vids a) else vids a)"
    "vids r' = (if i \<in> vids ex - vids vis then insert i (vids r) else vids r)" by blast
  have "\<forall>i \<in> set xs. 2 \<le> i \<and> i \<le> MaxVlanID" using Cons.prems(1) by simp
  from Cons.IH [OF this step(2,3)] step show ?case by (auto split: if_splits)
qed

lemma Diff_refines:
  assumes "vis_ok vis" "isTrunkMode vis" "vis_ok ex" "isTrunkMode ex"
  shows "\<exists>a r. Diff (Some ex) vis = Inr (a, r) \<and> vis_ok a \<and> isTrunkMode a \<and> vis_ok r \<and> isTrunkMode r
     \<and> vids a = vids vis - vids ex - {1} \<and> vids r = vids ex - vids vis - {1}"
proof -
  let ?xs = "int_range (DefaultVlanID + 1) MaxVlanID"
  have "\<forall>i \<in> set ?xs. 2 \<le> i \<and> i \<le> MaxVlanID" by (simp add: DefaultVlanID_def)
  from diff_loop [OF assms this, of NewVlanIDSet NewVlanIDSet] NewVlanIDSet_ok
  obtain a r where l: "fold_err (diff_step vis ex) ?xs (NewVlanIDSet, NewVlanIDSet) = (None, a, r)"
    "vis_ok a \<and> isTrunkMode a" "vis_ok r \<and> isTrunkMode r"
    "vids a = {i \<in> set ?xs. i \<in> vids vis - vids ex}"
    "vids r = {i \<in> set ?xs. i \<in> vids ex - vids vis}" by auto
  have "{i \<in> set ?xs. i \<in> vids v - vids w} = vids v - vids w - {1}" if "vis_ok v" for v w
    using vis_ok_bounds [OF that] by (force simp: DefaultVlanID_def)
  then show ?thesis using l assms by (auto simp: Diff_def)
qed

text \<open>\<open>VidSetToString\<close>: the loop fills the prefix of the slice.\<close>

lemma to_string_loop:
  assumes "\<forall>i \<in> set xs. slice_at (vidSet vis) i = Inr (P i)"
    and "length pre + length (filter P xs) \<le> n" "length pre = k"
  shows "fold_err (to_string_step vis) xs (pre @ replicate (n - k) [], int k)
     = (None, pre @ map Itoa (filter P xs) @ replicate (n - k - length (filter P xs)) [],
        int (k + length (filter P xs)))"
  using assms
proof (induction xs arbitrary: pre k)
  case (Cons i xs)
  show ?case
  proof (cases "P i")
    case True
    with Cons.prems have nk: "n - k = Suc (n - Suc k)" by simp
    have "to_string_step vis i (pre @ replicate (n - k) [], int k)
        = (None, (pre @ [Itoa i]) @ replicate (n - Suc k) [], int (Suc k))"
      using Cons.prems True by (simp add: to_string_step_def nk list_update_append)
    moreover have "fold_err (to_string_step vis) xs ((pre @ [Itoa i]) @ replicate (n - Suc k) [], int (Suc k))
        = (None, (pre @ [Itoa i]) @ map Itoa (filter P xs) @ replicate (n - Suc k - length (filter P xs)) [],
           int (Suc k + length (filter P xs)))"
      by (rule Cons.IH) (use Cons.prems True in auto)
    ultimately show ?thesis using True by simp
  next
    case False
    with Cons show ?thesis by (simp add: to_string_step_def)
  qed
qed simp

lemma VidSetToString_canonical:
  assumes "vis_ok vis"
  shows "VidSetToString vis = Inr (Join (map Itoa (sorted_list_of_set (vids vis))) '','')"
proof (cases "isTrunkMode vis")
  case True
  let ?xs = "int_range DefaultVlanID MaxVlanID" and ?P = "\<lambda>i. i \<in> vids vis"
  have f: "filter ?P ?xs = sorted_list_of_set (vids vis)"
    using vids_sorted_list [OF assms] by (simp add: DefaultVlanID_def)
  have n: "unat (vlanCount vis) = length (sorted_list_of_set (vids vis))"
    using card_vids [OF assms] True by (simp add: GetVlanCount_def)
  have sl: "\<forall>i \<in> set ?xs. slice_at (vidSet vis) i = Inr (?P i)"
    using vids_vidSet [OF assms True] by (auto simp: DefaultVlanID_def)
  have "fold_err (to_string_step vis) ?xs ([] @ replicate (unat (vlanCount vis) - 0) [], int 0)
     = (None, [] @ map Itoa (filter ?P ?xs) @ replicate (unat (vlanCount vis) - 0 - length (filter ?P ?xs)) [],
        int (0 + length (filter ?P ?xs)))"
    by (rule to_string_loop [OF sl]) (simp_all add: f n)
  then show ?thesis
    using True by (simp add: VidSetToString_def f n VlanIDStringJoinChar_def)
next
  case False
  then show ?thesis by (simp add: VidSetToString_def vids_def MinVlanID_def)
qed

text \<open>The ids read back from the string.\<close>

definition string_vids :: "string \<Rightarrow> int set" where
  "string_vids s = (if s = [] then {} else {i. \<exists>t \<in> set (Split CHR '','' s). Atoi t = Inr i})"

lemma Join_map_Itoa_empty: "Join (map Itoa xs) '','' = [] \<longleftrightarrow> xs = []"
  by (induction xs rule: induct_list012) auto

lemma string_vids_Join:
  assumes "\<forall>i \<in> set xs. 0 \<le> i \<and> i \<le> MaxVlanID"
  shows "string_vids (Join (map Itoa xs) '','') = set xs"
proof (cases "xs = []")
  case False
  then have "Split CHR '','' (Join (map Itoa xs) '','') = map Itoa xs"
    by (intro Split_Join) auto
  moreover have "Atoi (Itoa i) = Inr i" if "i \<in> set xs" for i
    using assms that by (force simp: MaxVlanID_def intro: Atoi_Itoa)
  ultimately show ?thesis
    using False by (auto simp: string_vids_def Join_map_Itoa_empty)
qed (simp add: string_vids_def)

text \<open>\<open>WalkVIDs\<close> is the loop over the sorted ids.\<close>

definition walk_callback :: "string \<Rightarrow> (16 word \<Rightarrow> 's \<Rightarrow> go_error option \<times> 's) \<Rightarrow> int \<Rightarrow> 's \<Rightarrow> go_error option \<times> 's" where
  "walk_callback f callback i s =
     (case callback (word_of_int i) s of (Some e, s') \<Rightarrow> (Some (wrap f e), s') | (None, s') \<Rightarrow> (None, s'))"

lemma walk_loop:
  assumes "\<forall>i \<in> set xs. slice_at (vidSet vis) i = Inr (P i)"
  shows "fold_err (walk_step vis cb) xs s =
     fold_err (walk_callback ''failed to walk %v on trunk vid %v, error: %w '' cb) (filter P xs) s"
  using assms
  by (induction xs arbitrary: s) (auto simp: walk_step_def walk_callback_def split: prod.splits option.splits)

lemma WalkVIDs_refines:
  assumes "vis_ok vis"
  shows "WalkVIDs cb vis s =
     fold_err (walk_callback (if isTrunkMode vis then ''failed to walk %v on trunk vid %v, error: %w ''
                              else ''failed to walk %v on vid %v, error: %w '') cb)
       (sorted_list_of_set (vids vis - {1})) s"
proof (cases "isTrunkMode vis")
  case True
  let ?xs = "int_range (DefaultVlanID + 1) MaxVlanID" and ?P = "\<lambda>i. i \<in> vids vis"
  have "filter ?P ?xs = sorted_list_of_set (vids vis - {1})"
  proof (rule sorted_distinct_set_unique)
    show "set (filter ?P ?xs) = set (sorted_list_of_set (vids vis - {1}))"
      using vis_ok_bounds [OF assms] finite_vids [OF assms] by (force simp: DefaultVlanID_def)
  qed (simp_all add: sorted_filter [where f = id, simplified])
  moreover have "\<forall>i \<in> set ?xs. slice_at (vidSet vis) i = Inr (?P i)"
    using vids_vidSet [OF assms True] by (auto simp: DefaultVlanID_def)
  ultimately show ?thesis
    using True count_zero [OF assms True] walk_loop [of ?xs vis ?P cb s] by (simp add: WalkVIDs_def)
next
  case False
  have "vids vis - {1} = (if vid vis \<le> 1 then {} else {vid vis})"
    using False assms by (auto simp: vids_def vis_ok_def vlan_consts)
  with False show ?thesis
    by (auto simp: WalkVIDs_def walk_callback_def DefaultVlanID_def split: prod.splits option.splits)
qed

section \<open>The interface its clients rely on\<close>

text \<open>
  What \<open>pkg/utils/nad.go\<close> and the agents use of the set: a fresh trunk set, merging another
  set into it, and the members. \<open>merge_all\<close> is the loop that merges a list of sets.
\<close>

locale vlan_collection =
  fixes fresh :: 's
    and merge :: "'s option \<Rightarrow> 's \<Rightarrow> go_error option \<times> 's"
    and ok :: "'s \<Rightarrow> bool"
    and trunk :: "'s \<Rightarrow> bool"
    and ids :: "'s \<Rightarrow> int set"
  assumes fresh_ok: "ok fresh \<and> trunk fresh \<and> ids fresh = {}"
    and merge_ok: "ok v \<Longrightarrow> trunk v \<Longrightarrow> (\<And>w. p = Some w \<Longrightarrow> ok w) \<Longrightarrow>
      \<exists>v'. merge p v = (None, v') \<and> ok v' \<and> trunk v' \<and> ids v' = ids v \<union> (case p of None \<Rightarrow> {} | Some w \<Rightarrow> ids w)"
begin

lemma merge_all:
  assumes "ok v \<and> trunk v" "\<forall>p \<in> set ps. \<forall>w. p = Some w \<longrightarrow> ok w"
  shows "\<exists>v'. fold_err merge ps v = (None, v') \<and> (ok v' \<and> trunk v')
           \<and> ids v' = ids v \<union> (\<Union>p \<in> set ps. case p of None \<Rightarrow> {} | Some w \<Rightarrow> ids w)"
  using assms
proof (induction ps arbitrary: v)
  case (Cons p ps)
  then obtain v1 where v1: "merge p v = (None, v1)" "ok v1" "trunk v1"
    "ids v1 = ids v \<union> (case p of None \<Rightarrow> {} | Some w \<Rightarrow> ids w)"
    using merge_ok [of v p] by auto
  with Cons.IH [of v1] Cons.prems show ?case by (auto simp: Un_assoc)
qed simp

end

interpretation vis: vlan_collection NewVlanIDSet Append vis_ok isTrunkMode vids
  by unfold_locales (use NewVlanIDSet_ok Append_refines in auto)

text \<open>The sets a program can build with the operations of this file.\<close>

inductive vis_reachable :: "VlanIDSet \<Rightarrow> bool" where
  fresh: "vis_reachable NewVlanIDSet"
| single: "NewVlanIDSetFromSingleVID i = Inr vis \<Longrightarrow> vis_reachable vis"
| set: "vis_reachable vis \<Longrightarrow> SetVID i vis = (e, vis') \<Longrightarrow> vis_reachable vis'"
| set16: "vis_reachable vis \<Longrightarrow> SetUint16VID j vis = (e, vis') \<Longrightarrow> vis_reachable vis'"
| append: "vis_reachable vis \<Longrightarrow> vis_reachable w \<Longrightarrow> Append (Some w) vis = (e, vis') \<Longrightarrow> vis_reachable vis'"
| convert: "vis_reachable vis \<Longrightarrow> ConvertToTrunkMode vis = (e, vis') \<Longrightarrow> vis_reachable vis'"
| diff_added: "vis_reachable vis \<Longrightarrow> vis_reachable w \<Longrightarrow> Diff (Some w) vis = Inr (a, r) \<Longrightarrow> vis_reachable a"
| diff_removed: "vis_reachable vis \<Longrightarrow> vis_reachable w \<Longrightarrow> Diff (Some w) vis = Inr (a, r) \<Longrightarrow> vis_reachable r"

lemma SetVID_keeps_ok: "vis_ok vis \<Longrightarrow> SetVID i vis = (e, vis') \<Longrightarrow> vis_ok vis'"
  using SetVID_refines [of vis i] by auto

lemma Append_keeps_ok: "vis_ok vis \<Longrightarrow> vis_ok w \<Longrightarrow> Append (Some w) vis = (e, vis') \<Longrightarrow> vis_ok vis'"
  using Append_refines [of vis "Some w"] by (cases "isTrunkMode vis") (auto simp: Append_def)

lemma Diff_keeps_ok: "vis_ok vis \<Longrightarrow> vis_ok w \<Longrightarrow> Diff (Some w) vis = Inr (a, r) \<Longrightarrow> vis_ok a \<and> vis_ok r"
  using Diff_refines [of vis w]
  by (cases "isTrunkMode vis"; cases "isTrunkMode w") (auto simp: Diff_def split: prod.splits)

lemma reachable_vis_ok: "vis_reachable vis \<Longrightarrow> vis_ok vis"
proof (induction rule: vis_reachable.induct)
  case (single i vis)
  then show ?case by (auto simp: NewVlanIDSetFromSingleVID_ok intro: single_vis_ok split: if_splits)
next
  case (convert vis e vis')
  then show ?case using ConvertToTrunkMode_refines [of vis] by auto
qed (use NewVlanIDSet_ok in \<open>auto simp: SetUint16VID_def dest: SetVID_keeps_ok Append_keeps_ok Diff_keeps_ok\<close>)

lemma sample_set:
  "vis_reachable (snd (SetVID 100 NewVlanIDSet)) \<and> vids (snd (SetVID 100 NewVlanIDSet)) = {100}
   \<and> isTrunkMode (snd (SetVID 100 NewVlanIDSet))"
proof -
  have "vis_reachable (snd (SetVID 100 NewVlanIDSet))"
    by (rule vis_reachable.set [OF vis_reachable.fresh surjective_pairing])
  then show ?thesis
    using SetVID_trunk_ok [of NewVlanIDSet 100] NewVlanIDSet_ok by (auto simp: MaxVlanID_def)
qed

section \<open>Properties\<close>

lemma VidSetToString_reads_back:
  assumes "vis_ok vis" shows "\<exists>s. VidSetToString vis = Inr s \<and> string_vids s = vids vis"
proof -
  have "\<forall>i \<in> set (sorted_list_of_set (vids vis)). 0 \<le> i \<and> i \<le> MaxVlanID"
    using vis_ok_bounds [OF assms] finite_vids [OF assms] by force
  from string_vids_Join [OF this] show ?thesis
    using VidSetToString_canonical [OF assms] finite_vids [OF assms] by simp
qed

text \<open>
  C3. In every set a program can build, the 32-bit counter is exact: \<open>GetVlanCount\<close> is the
  number of ids, the ids are in [1 .. 4094] and rendering the set never panics. The string
  lists the ids, and reading it back gives the same set.
\<close>

theorem vlan_set_invariant:
  assumes "vis_reachable vis"
  shows "unat (GetVlanCount vis) = card (vids vis) \<and> vids vis \<subseteq> {1..MaxVlanID}
     \<and> (\<exists>s. VidSetToString vis = Inr s \<and> string_vids s = vids vis)"
proof -
  have ok: "vis_ok vis" using assms by (rule reachable_vis_ok)
  with card_vids [OF ok] vis_ok_bounds [OF ok] VidSetToString_reads_back [OF ok] show ?thesis by auto
qed

theorem vlan_set_invariant_witness:
  "unat (GetVlanCount (snd (SetVID 100 NewVlanIDSet))) = 1"
  using vlan_set_invariant [of "snd (SetVID 100 NewVlanIDSet)"] sample_set by simp

text \<open>
  C4. \<open>Diff\<close> gives exactly the change to make: applied to the existing set, adding and
  removing its two results leads to the wanted set (the default id 1 apart, which is never
  touched), nothing is added that is there and nothing removed that is not.
\<close>

theorem Diff_converges:
  assumes "vis_reachable vis" "isTrunkMode vis" "vis_reachable ex" "isTrunkMode ex"
  shows "\<exists>a r. Diff (Some ex) vis = Inr (a, r)
     \<and> ((vids ex \<union> vids a) - vids r) - {1} = vids vis - {1}
     \<and> vids a \<inter> vids ex = {} \<and> vids r \<subseteq> vids ex \<and> 1 \<notin> vids a \<and> 1 \<notin> vids r"
  using Diff_refines [OF reachable_vis_ok assms(2) reachable_vis_ok assms(4)] assms by blast

theorem Diff_converges_witness:
  "\<exists>a r. Diff (Some NewVlanIDSet) (snd (SetVID 100 NewVlanIDSet)) = Inr (a, r) \<and> vids a - vids r = {100}"
  using Diff_converges [of "snd (SetVID 100 NewVlanIDSet)" NewVlanIDSet] sample_set
    vis_reachable.fresh NewVlanIDSet_ok by auto

text \<open>
  \<open>WalkVIDs\<close> calls back once per id, in ascending order and never with the default id 1
  (the conversion to \<open>uint16\<close> loses nothing), and stops at the first callback that fails,
  whose error it wraps.
\<close>

lemma WalkVIDs_visits:
  assumes "vis_reachable vis"
  shows "\<exists>f. WalkVIDs (\<lambda>j log. (if bad (uint j) then Some e else None, log @ [uint j])) vis [] =
     (let xs = sorted_list_of_set (vids vis - {1}); good = takeWhile (\<lambda>i. \<not> bad i) xs
      in if good = xs then (None, xs) else (Some (wrap f e), good @ [xs ! length good]))"
proof -
  have ok: "vis_ok vis" using assms by (rule reachable_vis_ok)
  let ?cb = "\<lambda>j log. (if bad (uint j) then Some e else None, log @ [uint j])"
  let ?xs = "sorted_list_of_set (vids vis - {1})"
  have small: "uint (word_of_int i :: 16 word) = i" if "i \<in> set ?xs" for i
    using that vis_ok_bounds [OF ok] finite_vids [OF ok]
    by (auto simp: MaxVlanID_def uint_word_of_int intro!: mod_pos_pos_trivial) (smt (verit))+
  have "fold_err (walk_callback f ?cb) ys l =
     (let good = takeWhile (\<lambda>i. \<not> bad i) ys
      in if good = ys then (None, l @ ys) else (Some (wrap f e), l @ good @ [ys ! length good]))"
    if "set ys \<subseteq> set ?xs" for f ys l
    using that by (induction ys arbitrary: l) (auto simp: walk_callback_def small Let_def)
  from this [of ?xs _ "[]"] show ?thesis
    unfolding WalkVIDs_refines [OF ok] Let_def by auto
qed

lemma WalkVIDs_visits_witness:
  "WalkVIDs (\<lambda>j log. (if uint j = 7 then Some (EOther []) else None, log @ [uint j]))
     (snd (SetVID 100 NewVlanIDSet)) [] = (None, [100])"
  using WalkVIDs_visits [of "snd (SetVID 100 NewVlanIDSet)" "\<lambda>i. i = 7" "EOther []"] sample_set by simp

end
