(* ===== verification/Net_Conf.thy ===== *)
theory Net_Conf
  imports Names Vlan_Id_Set
begin

text \<open>
  \<open>pkg/utils/nad.go\<close>: the CNI configuration inside a \<open>NetworkAttachmentDefinition\<close> (NAD), the
  layer-3 route annotation, the classification of networks, the VLAN ids a NAD uses and the
  labels derived from it. JSON decoding and IP parsing are arguments (the record \<open>golib\<close>):
  the code below them is modelled for any decoder.
\<close>

section \<open>Data\<close>

definition CNITypeKubeOVN :: string where "CNITypeKubeOVN = ''kube-ovn''"
definition CNITypeBridge :: string where "CNITypeBridge = ''bridge''"
definition CNITypeDefaultEmpty :: string where "CNITypeDefaultEmpty = []"
definition Auto :: string where "Auto = ''auto''"
definition Manual :: string where "Manual = ''manual''"
definition L2VlanNetwork :: string where "L2VlanNetwork = ''L2VlanNetwork''"
definition L2VlanTrunkNetwork :: string where "L2VlanTrunkNetwork = ''L2VlanTrunkNetwork''"
definition UntaggedNetwork :: string where "UntaggedNetwork = ''UntaggedNetwork''"
definition OverlayNetwork :: string where "OverlayNetwork = ''OverlayNetwork''"

lemmas network_types = L2VlanNetwork_def L2VlanTrunkNetwork_def UntaggedNetwork_def OverlayNetwork_def
lemmas cni_types = CNITypeKubeOVN_def CNITypeBridge_def CNITypeDefaultEmpty_def

record Layer3NetworkConf =
  l3_Mode :: string
  l3_CIDR :: string
  l3_Gateway :: string
  l3_ServerIPAddr :: string
  l3_Connectivity :: string
  l3_Outdated :: bool

definition L3empty :: Layer3NetworkConf where
  "L3empty = \<lparr>l3_Mode = [], l3_CIDR = [], l3_Gateway = [], l3_ServerIPAddr = [], l3_Connectivity = [],
              l3_Outdated = False\<rparr>"

record VlanTrunk =
  MinID :: "int option"
  MaxID :: "int option"
  ID :: "int option"

text \<open>
  \<open>NetConf\<close> embeds \<open>cniv1.NetConf\<close>, of which only \<open>Type\<close> is read; \<open>nc_cni\<close> stands for its other
  fields, which take part in comparisons only. An entry of \<open>VlanTrunk\<close> is a pointer.
\<close>

record NetConf =
  nc_cni :: string
  nc_Type :: string
  BrName :: string
  IsGW :: bool
  IsDefaultGW :: bool
  ForceAddress :: bool
  IPMasq :: bool
  nc_MTU :: int
  HairpinMode :: bool
  PromiscMode :: bool
  Vlan :: int
  Provider :: string
  nc_VlanTrunk :: "VlanTrunk option list option"

definition NetConf0 :: NetConf where
  "NetConf0 = \<lparr>nc_cni = [], nc_Type = [], BrName = [], IsGW = False, IsDefaultGW = False, ForceAddress = False,
     IPMasq = False, nc_MTU = 0, HairpinMode = False, PromiscMode = False, Vlan = 0, Provider = [], nc_VlanTrunk = None\<rparr>"

record IPNet =
  net_IP :: "8 word list"
  net_Mask :: "8 word list"

text \<open>The library functions the code calls: \<open>json.Unmarshal\<close> and \<open>json.Marshal\<close> at each type,
  \<open>net.ParseCIDR\<close>, \<open>net.ParseIP\<close> (nil is \<open>None\<close>) and SHA-256 in hexadecimal.\<close>

record golib =
  UnmarshalNetConf :: "string \<Rightarrow> NetConf res"
  UnmarshalL3 :: "string \<Rightarrow> Layer3NetworkConf res"
  MarshalL3 :: "Layer3NetworkConf \<Rightarrow> string res"
  UnmarshalStrings :: "string \<Rightarrow> (string list) res"
  MarshalStrings :: "string list \<Rightarrow> string res"
  ParseCIDR :: "string \<Rightarrow> (8 word list \<times> IPNet) res"
  ParseIP :: "string \<Rightarrow> 8 word list option"
  sha256hex :: "string \<Rightarrow> string"

section \<open>The layer-3 configuration\<close>

definition isMaskZero :: "IPNet \<Rightarrow> bool" where
  "isMaskZero ipnet = list_all (\<lambda>b. b = 0) (net_Mask ipnet)"

text \<open>The checks \<open>NewLayer3NetworkConf\<close> and \<open>NewLayer3NetworkConfFromNad\<close> both make.\<close>

definition validateL3 :: "golib \<Rightarrow> Layer3NetworkConf \<Rightarrow> Layer3NetworkConf res" where
  "validateL3 g c =
     (if l3_Mode c \<noteq> [] \<and> l3_Mode c \<noteq> Auto \<and> l3_Mode c \<noteq> Manual then Inl (Errorf ''unknown mode %s'')
      else if l3_Mode c = Manual then
        (if (case ParseCIDR g (l3_CIDR c) of Inl _ \<Rightarrow> True | Inr (_, ipnet) \<Rightarrow> isMaskZero ipnet)
         then Inl (Errorf ''the CIDR %s is invalid'')
         else if ParseIP g (l3_Gateway c) = None then Inl (Errorf ''the gateway %s is invalid'')
         else Inr c)
      else Inr c)"

definition NewLayer3NetworkConf :: "golib \<Rightarrow> string \<Rightarrow> Layer3NetworkConf res" where
  "NewLayer3NetworkConf g conf =
     (if conf = [] then Inr L3empty
      else bind_res (UnmarshalL3 g conf) (wrap ''unmarshal %s faield, error: %w'') (validateL3 g))"

text \<open>Marking a route as outdated when the mode is auto, and not outdated otherwise.\<close>

definition outdate :: "Layer3NetworkConf \<Rightarrow> Layer3NetworkConf" where
  "outdate c = (if l3_Mode c = Auto then c\<lparr>l3_Outdated := True\<rparr> else c\<lparr>l3_Outdated := False\<rparr>)"

definition OutdateLayer3NetworkConfPerMode :: "golib \<Rightarrow> string \<Rightarrow> string res" where
  "OutdateLayer3NetworkConfPerMode g conf =
     (if conf = [] then Inr []
      else bind_res (UnmarshalL3 g conf) (wrap ''unmarshal %s failed, error: %w'') (\<lambda>c.
           bind_res (MarshalL3 g (outdate c)) (wrap ''marshal %v failed, error: %w'') Inr))"

definition OutdateNadLayer3NetworkConf :: "golib \<Rightarrow> Nad option \<Rightarrow> NetConf option \<Rightarrow> strmap res" where
  "OutdateNadLayer3NetworkConf g nad_ptr nadConf =
     (case nad_ptr of
        None \<Rightarrow> Inr None
      | Some nad \<Rightarrow>
          (let annotations = o_annotations nad; routeAnnotation = mget annotations KeyNetworkRoute
           in if routeAnnotation = [] then Inr annotations
              else if (case nadConf of None \<Rightarrow> False | Some c \<Rightarrow> Vlan c = 0)
              then Inr (mdelete KeyNetworkRoute annotations)
              else bind_res (OutdateLayer3NetworkConfPerMode g routeAnnotation) id (\<lambda>new.
                   Inr (mput KeyNetworkRoute new annotations))))"

definition OutdateNadLayer3NetworkConfWhenRouteModeChanges :: "golib \<Rightarrow> Nad option \<Rightarrow> Nad option \<Rightarrow> strmap res" where
  "OutdateNadLayer3NetworkConfWhenRouteModeChanges g oldNad newNad =
     (case (newNad, oldNad) of
        (Some new, Some old) \<Rightarrow>
          (let annotations = o_annotations new;
               newRoute = mget annotations KeyNetworkRoute;
               oldRoute = mget (o_annotations old) KeyNetworkRoute
           in if newRoute = [] \<or> oldRoute = [] then Inr None
              else bind_res (UnmarshalL3 g newRoute) (wrap ''unmarshal new nad route %v failed, error: %w'') (\<lambda>n.
                   bind_res (UnmarshalL3 g oldRoute) (wrap ''unmarshal old nad route %v failed, error: %w'') (\<lambda>o'.
                   if l3_Mode n = l3_Mode o' then Inr None
                   else bind_res (MarshalL3 g (outdate n)) (wrap ''marshal new route %v failed, error: %w'') (\<lambda>r.
                        Inr (mput KeyNetworkRoute r annotations)))))
      | _ \<Rightarrow> Inr None)"

definition NewLayer3NetworkConfFromNad :: "golib \<Rightarrow> Nad option \<Rightarrow> Layer3NetworkConf res" where
  "NewLayer3NetworkConfFromNad g nad_ptr =
     (case nad_ptr of
        None \<Rightarrow> Inr L3empty
      | Some nad \<Rightarrow>
          (let routeStr = mget (o_annotations nad) KeyNetworkRoute
           in if routeStr = [] then Inr L3empty
              else bind_res (UnmarshalL3 g routeStr)
                     (wrap ''unmarshal nad %v/%v annotation %v %s faield, error: %w'') (validateL3 g)))"

definition L3ToString :: "golib \<Rightarrow> Layer3NetworkConf \<Rightarrow> string res" where
  "L3ToString g c = bind_res (MarshalL3 g c) id Inr"

definition GetDHCPServerIPAddr :: "Layer3NetworkConf option \<Rightarrow> string" where
  "GetDHCPServerIPAddr c = (case c of None \<Rightarrow> [] | Some l \<Rightarrow> l3_ServerIPAddr l)"

section \<open>Labels and annotations of a NAD\<close>

definition GetNadLabel :: "Nad option \<Rightarrow> string \<Rightarrow> string" where
  "GetNadLabel nad key = (case nad of None \<Rightarrow> [] | Some n \<Rightarrow> mget (o_labels n) key)"

definition SetNadLabel :: "string \<Rightarrow> string \<Rightarrow> Nad \<Rightarrow> Nad" where
  "SetNadLabel key value nad = nad\<lparr>o_labels := mput key value (o_labels nad)\<rparr>"

definition GetNadAnnotation :: "Nad option \<Rightarrow> string \<Rightarrow> string" where
  "GetNadAnnotation nad key = (case nad of None \<Rightarrow> [] | Some n \<Rightarrow> mget (o_annotations n) key)"

definition SetNadAnnotation :: "string \<Rightarrow> string \<Rightarrow> Nad \<Rightarrow> Nad" where
  "SetNadAnnotation key value nad = nad\<lparr>o_annotations := mput key value (o_annotations nad)\<rparr>"

definition IsNadNetworkLabelSet :: "Nad \<Rightarrow> bool" where
  "IsNadNetworkLabelSet nad =
     (o_labels nad \<noteq> None \<and> mget (o_labels nad) KeyNetworkType \<noteq> [] \<and> mget (o_labels nad) KeyClusterNetworkLabel \<noteq> [])"

definition IsVlanNad :: "Nad option \<Rightarrow> bool" where
  "IsVlanNad nad_ptr =
     (case nad_ptr of None \<Rightarrow> False
      | Some nad \<Rightarrow>
          \<not> (nad_Config nad = [] \<or> o_labels nad = None \<or> mget (o_labels nad) KeyVlanLabel = []
             \<or> mget (o_labels nad) KeyNetworkType = [] \<or> mget (o_labels nad) KeyClusterNetworkLabel = []))"

definition IsOverlayNad :: "Nad option \<Rightarrow> bool" where
  "IsOverlayNad nad_ptr =
     (case nad_ptr of None \<Rightarrow> False
      | Some nad \<Rightarrow> o_labels nad \<noteq> None \<and> mget (o_labels nad) KeyNetworkType = OverlayNetwork)"

definition DecodeNadConfigToNetConf :: "golib \<Rightarrow> Nad option \<Rightarrow> NetConf res" where
  "DecodeNadConfigToNetConf g nad_ptr =
     (case nad_ptr of None \<Rightarrow> Inr NetConf0
      | Some nad \<Rightarrow>
          if nad_Config nad = [] then Inr NetConf0
          else bind_res (UnmarshalNetConf g (nad_Config nad)) (wrap ''failed to unmarshal nad %v/%v config %s %w'') Inr)"

section \<open>The VLAN part of the configuration\<close>

definition trunk_items :: "NetConf \<Rightarrow> VlanTrunk option list" where
  "trunk_items nc = slice_elems (nc_VlanTrunk nc)"

text \<open>\<open>(*VlanTrunk).IsValid\<close>: a nil entry is valid.\<close>

definition VlanTrunk_IsValid :: "VlanTrunk option \<Rightarrow> bool res" where
  "VlanTrunk_IsValid item_ptr =
     (case item_ptr of
        None \<Rightarrow> Inr True
      | Some item \<Rightarrow>
          guard_res
            (case (MinID item, MaxID item) of
               (Some minID, Some maxID) \<Rightarrow>
                 if minID < MinTrunkVlanID \<or> minID > MaxVlanID then Some (Errorf ''incorrect trunk minID parameter %v'')
                 else if maxID < MinTrunkVlanID \<or> maxID > MaxVlanID then Some (Errorf ''incorrect trunk maxID parameter %v'')
                 else if maxID < minID then Some (Errorf ''minID %v is greater than maxID %v in trunk parameter'')
                 else None
             | (None, Some _) \<Rightarrow>
                 Some (Errorf ''minID and maxID should be configured simultaneously, minID is missing'')
             | (Some _, None) \<Rightarrow>
                 Some (Errorf ''minID and maxID should be configured simultaneously, maxID is missing'')
             | (None, None) \<Rightarrow> None) id
         (guard_res
            (case ID item of
               Some i \<Rightarrow> if i < MinTrunkVlanID \<or> i > MaxVlanID then Some (Errorf ''incorrect trunk id parameter %v'') else None
             | None \<Rightarrow> None) id
         (if ID item = None \<and> MinID item = None \<and> MaxID item = None
          then Inl (Errorf ''all fields in this VlanTrunk are empty'')
          else Inr True)))"

definition IsVlanConfigValid :: "NetConf \<Rightarrow> bool res" where
  "IsVlanConfigValid nc =
     (if Vlan nc < MinVlanID \<or> Vlan nc > MaxVlanID then Inl (Errorf ''vlan %v is out of range [%v .. %v]'')
      else if Vlan nc \<noteq> 0 \<and> length (trunk_items nc) > 0
      then Inl (Errorf ''vlan can only be 0 when vlanTrunk is set'')
      else guard_res (first_err (\<lambda>vt. with_res (VlanTrunk_IsValid vt) id (\<lambda>_. None)) (trunk_items nc)) id (Inr True))"

definition IsVlanTrunkMode :: "NetConf \<Rightarrow> bool" where
  "IsVlanTrunkMode nc = (length (trunk_items nc) > 0)"

definition IsVlanAccessMode :: "NetConf \<Rightarrow> bool" where
  "IsVlanAccessMode nc = (length (trunk_items nc) = 0)"

definition IsL2VlanNetwork :: "NetConf \<Rightarrow> bool" where
  "IsL2VlanNetwork nc = (Vlan nc \<noteq> 0)"

definition IsUntaggedNetwork :: "NetConf \<Rightarrow> bool" where
  "IsUntaggedNetwork nc = (Vlan nc = 0 \<and> length (trunk_items nc) = 0)"

definition IsL2VlanTrunkNetwork :: "NetConf \<Rightarrow> bool" where
  "IsL2VlanTrunkNetwork nc = (Vlan nc = 0 \<and> length (trunk_items nc) > 0)"

definition IsBridgeCNI :: "NetConf \<Rightarrow> bool" where
  "IsBridgeCNI nc = (nc_Type nc = CNITypeBridge \<or> nc_Type nc = CNITypeDefaultEmpty)"

definition IsKubeOVNCNI :: "NetConf \<Rightarrow> bool" where
  "IsKubeOVNCNI nc = (nc_Type nc = CNITypeKubeOVN)"

definition GetVlanID :: "NetConf \<Rightarrow> int" where
  "GetVlanID nc = (if IsVlanAccessMode nc then Vlan nc else 0)"

definition GetNetworkType :: "NetConf \<Rightarrow> string res" where
  "GetNetworkType nc =
     (if nc_Type nc = CNITypeKubeOVN then Inr OverlayNetwork
      else if nc_Type nc = CNITypeBridge \<or> nc_Type nc = CNITypeDefaultEmpty then
        (if Vlan nc \<noteq> 0 then Inr L2VlanNetwork
         else if Vlan nc = 0 \<and> length (trunk_items nc) = 0 then Inr UntaggedNetwork
         else if Vlan nc = 0 \<and> length (trunk_items nc) \<noteq> 0 then Inr L2VlanTrunkNetwork
         else Inl (Errorf ''unknown network type''))
      else Inl (Errorf ''unknown network type''))"

definition GetVlan :: "NetConf \<Rightarrow> int" where
  "GetVlan nc = Vlan nc"

definition GetVlanString :: "NetConf option \<Rightarrow> string" where
  "GetVlanString nc = (case nc of None \<Rightarrow> ''0'' | Some c \<Rightarrow> Itoa (Vlan c))"

text \<open>The job labels with the VLAN id and the DHCP server.\<close>

definition SetDHCPInfo2JobLabels :: "strmap \<Rightarrow> NetConf option \<Rightarrow> Layer3NetworkConf option \<Rightarrow> strmap" where
  "SetDHCPInfo2JobLabels lb l2 l3 =
     (if lb = None then None
      else let lb1 = (if l2 \<noteq> None then mput KeyVlanLabel (GetVlanString l2) lb else lb)
           in if l3 \<noteq> None then mput KeyVlanDHCPServerIP (GetDHCPServerIPAddr l3) lb1 else lb1)"

definition AreJobLabelsDHCPInfoUnchanged :: "strmap \<Rightarrow> NetConf option \<Rightarrow> Layer3NetworkConf option \<Rightarrow> bool" where
  "AreJobLabelsDHCPInfoUnchanged lb l2 l3 =
     (if lb = None then False
      else if l2 \<noteq> None \<and> l3 \<noteq> None
      then mget lb KeyVlanLabel = GetVlanString l2 \<and> mget lb KeyVlanDHCPServerIP = GetDHCPServerIPAddr l3
      else False)"

text \<open>\<open>SetNetworkInfoToLabels\<close> changes the map it is given, also before it returns an error.\<close>

definition SetNetworkInfoToLabels :: "NetConf \<Rightarrow> strmap \<Rightarrow> go_error option \<times> strmap" where
  "SetNetworkInfoToLabels nc label =
     (if label = None then (None, label)
      else let label1 = mdelete KeyVlanLabel label
           in if IsKubeOVNCNI nc
              then (None, mput KeyNetworkType OverlayNetwork
                            (mput KeyClusterNetworkLabel ManagementClusterNetworkName label1))
              else if \<not> IsBridgeCNI nc
              then (Some (Errorf ''cannot determin the network type from netconf type %v''), label1)
              else case GetBridgeNamePrefix (BrName nc) of
                     Inl e \<Rightarrow> (Some e, label1)
                   | Inr cnname \<Rightarrow>
                       let label2 = mput KeyClusterNetworkLabel cnname label1
                       in if IsL2VlanNetwork nc
                          then (None, mput KeyVlanLabel (Itoa (Vlan nc)) (mput KeyNetworkType L2VlanNetwork label2))
                          else if IsL2VlanTrunkNetwork nc
                          then (None, mput KeyNetworkType L2VlanTrunkNetwork label2)
                          else if IsUntaggedNetwork nc
                          then (None, mput KeyNetworkType UntaggedNetwork label2)
                          else (Some (Errorf ''cannot determin the l2 network type from netconf vid %v length of vlantrunk %v''),
                                label2))"

definition NetConf_GetClusterNetworkName :: "NetConf \<Rightarrow> string res" where
  "NetConf_GetClusterNetworkName nc =
     (if IsKubeOVNCNI nc then Inr ManagementClusterNetworkName
      else if \<not> IsBridgeCNI nc then Inl (Errorf ''cannot determin the network type from netconf type %v'')
      else bind_res (GetBridgeNamePrefix (BrName nc)) id Inr)"

section \<open>The VLAN ids of a NAD\<close>

text \<open>The body of the loop of \<open>dumpVlanIDSet\<close>: a nil entry is dereferenced.\<close>

definition dump_step :: "VlanTrunk option \<Rightarrow> VlanIDSet \<Rightarrow> go_error option \<times> VlanIDSet" where
  "dump_step vt_ptr vis =
     (case vt_ptr of
        None \<Rightarrow> (Some (GoPanic ''nil pointer dereference''), vis)
      | Some vt \<Rightarrow>
          (case (case ID vt of Some i \<Rightarrow> SetVID i vis | None \<Rightarrow> (None, vis)) of
             (Some e, vis1) \<Rightarrow> (Some e, vis1)
           | (None, vis1) \<Rightarrow>
               (case (MinID vt, MaxID vt) of
                  (Some lo, Some hi) \<Rightarrow> fold_err SetVID (int_range lo hi) vis1
                | _ \<Rightarrow> (None, vis1))))"

definition dumpVlanIDSet :: "NetConf \<Rightarrow> VlanIDSet res" where
  "dumpVlanIDSet nc =
     (if IsVlanAccessMode nc then NewVlanIDSetFromSingleVID (Vlan nc)
      else case fold_err dump_step (trunk_items nc) NewVlanIDSet of
             (Some e, _) \<Rightarrow> Inl e
           | (None, vis) \<Rightarrow> Inr vis)"

definition nad_list_step :: "golib \<Rightarrow> Nad \<Rightarrow> VlanIDSet \<Rightarrow> go_error option \<times> VlanIDSet" where
  "nad_list_step g nad vis =
     (if o_deleting nad then (None, vis)
      else case DecodeNadConfigToNetConf g (Some nad) of
             Inl e \<Rightarrow> (Some e, vis)
           | Inr nc \<Rightarrow>
               if \<not> IsBridgeCNI nc then (None, vis)
               else case dumpVlanIDSet nc of
                      Inl e \<Rightarrow> (Some e, vis)
                    | Inr tmpvis \<Rightarrow> Append (Some tmpvis) vis)"

definition NewVlanIDSetFromNadList :: "golib \<Rightarrow> Nad list \<Rightarrow> VlanIDSet res" where
  "NewVlanIDSetFromNadList g nads =
     (if length nads = 0 then Inr NewVlanIDSet
      else case fold_err (nad_list_step g) nads NewVlanIDSet of
             (Some e, _) \<Rightarrow> Inl e
           | (None, vis) \<Rightarrow> Inr vis)"

text \<open>\<open>HasTrunkVlanID\<close> dereferences nil entries too.\<close>

fun has_trunk_vid :: "int \<Rightarrow> VlanTrunk option list \<Rightarrow> bool res" where
  "has_trunk_vid target [] = Inr False"
| "has_trunk_vid target (None # vts) = Inl (GoPanic ''nil pointer dereference'')"
| "has_trunk_vid target (Some vt # vts) =
     (if ID vt = Some target then Inr True
      else if (case (MinID vt, MaxID vt) of (Some lo, Some hi) \<Rightarrow> target \<ge> lo \<and> target \<le> hi | _ \<Rightarrow> False)
      then Inr True
      else has_trunk_vid target vts)"

definition HasTrunkVlanID :: "int \<Rightarrow> NetConf \<Rightarrow> bool res" where
  "HasTrunkVlanID target nc = has_trunk_vid target (trunk_items nc)"

definition IsVlanOverlapping :: "NetConf \<Rightarrow> NetConf \<Rightarrow> bool res" where
  "IsVlanOverlapping nadConf snNadConf =
     (let vmVlan = GetVlanID nadConf; snVlan = GetVlanID snNadConf
      in bind_res (HasTrunkVlanID snVlan nadConf) id (\<lambda>b. Inr (b \<or> snVlan = vmVlan)))"

definition IsSystemNetworkNad :: "Nad option \<Rightarrow> bool" where
  "IsSystemNetworkNad nad_ptr =
     (case nad_ptr of None \<Rightarrow> False
      | Some nad \<Rightarrow>
          if o_namespace nad \<noteq> HarvesterSystemNamespaceName then False
          else let isMatch = (\<lambda>annotation prefix.
                     if o_annotations nad \<noteq> None \<and> mget (o_annotations nad) annotation = ''true'' then True
                     else HasPrefix (o_name nad) prefix)
               in isMatch StorageNetworkAnnotation StorageNetworkNetAttachDefPrefix
                  \<or> isMatch RWXNetworkAnnotation RWXNetworkNetAttachDefPrefix)"

definition FilterFirstActiveSystemNetworkNad :: "Nad list \<Rightarrow> Nad option" where
  "FilterFirstActiveSystemNetworkNad nads =
     find (\<lambda>nad. \<not> o_deleting nad \<and> IsSystemNetworkNad (Some nad)) nads"

section \<open>Reading NADs from the cache\<close>

type_synonym nad_lister = "string \<Rightarrow> selector \<Rightarrow> (Nad list) res"

definition ListAllNads :: "nad_lister \<Rightarrow> (Nad list) res" where
  "ListAllNads nadList = bind_res (nadList [] Everything) id Inr"

definition ListNadsOnClusterNetwork :: "nad_lister \<Rightarrow> string \<Rightarrow> (Nad list) res" where
  "ListNadsOnClusterNetwork nadList cnName =
     bind_res (nadList [] (SelectorFromSet [(KeyClusterNetworkLabel, cnName)])) id Inr"

definition generateNadNameList :: "Nad list \<Rightarrow> string list" where
  "generateNadNameList nads = map (\<lambda>nad. o_namespace nad @ ''/'' @ o_name nad) nads"

definition NadNamesOnClusterNetwork :: "nad_lister \<Rightarrow> string \<Rightarrow> (string list) res" where
  "NadNamesOnClusterNetwork nadList cnName =
     bind_res (ListNadsOnClusterNetwork nadList cnName) id (\<lambda>nads. Inr (generateNadNameList nads))"

definition GeVlanIDSetFromClusterNetwork :: "golib \<Rightarrow> nad_lister \<Rightarrow> string \<Rightarrow> VlanIDSet res" where
  "GeVlanIDSetFromClusterNetwork g nadList cnName =
     bind_res (ListNadsOnClusterNetwork nadList cnName) id (\<lambda>nads.
     bind_res (NewVlanIDSetFromNadList g nads)
       (wrap ''failed to get cluster network %v vlan id set, error: %w'') Inr)"

section \<open>Providers\<close>

definition GetNadNameFromProvider :: "string \<Rightarrow> (string \<times> string) res" where
  "GetNadNameFromProvider provider =
     (if provider = [] then Inl (Errorf ''provider is empty for cni type %s'')
      else let nad = Split CHR ''.'' provider
           in if length nad < 3 then Inl (Errorf ''invalid provider length %d for provider %s'')
              else Inr (nad ! 0, nad ! 1))"

definition GetProviderFromNad :: "string \<Rightarrow> string \<Rightarrow> string res" where
  "GetProviderFromNad nadName nadNamespace =
     (if nadName = [] then Inl (Errorf ''nad name %s is empty'')
      else let ns = (if nadNamespace = [] then defaultNamespace else nadNamespace)
           in Inr (nadName @ ''.'' @ ns @ ''.'' @ ovnProvider))"

section \<open>The ids a configuration stands for\<close>

fun item_vids :: "VlanTrunk option \<Rightarrow> int set" where
  "item_vids None = {}"
| "item_vids (Some vt) =
     (case ID vt of Some i \<Rightarrow> {i} | None \<Rightarrow> {}) \<union>
     (case (MinID vt, MaxID vt) of (Some lo, Some hi) \<Rightarrow> {lo..hi} | _ \<Rightarrow> {})"

text \<open>The abstract meaning of a configuration: its tag, or the union of its trunk entries.\<close>

definition nc_vids :: "NetConf \<Rightarrow> int set" where
  "nc_vids nc = (if IsVlanAccessMode nc then {Vlan nc} - {0} else \<Union> (item_vids ` set (trunk_items nc)))"

text \<open>A configuration the webhook accepts, without nil trunk entries.\<close>

definition nc_ok :: "NetConf \<Rightarrow> bool" where
  "nc_ok nc \<longleftrightarrow> IsVlanConfigValid nc = Inr True \<and> None \<notin> set (trunk_items nc)"

lemma VlanTrunk_IsValid_Inr:
  "VlanTrunk_IsValid (Some vt) = Inr b \<longleftrightarrow>
     b \<and> ((MinID vt = None \<and> MaxID vt = None) \<or>
          (\<exists>lo hi. MinID vt = Some lo \<and> MaxID vt = Some hi \<and> 1 \<le> lo \<and> lo \<le> hi \<and> hi \<le> MaxVlanID))
     \<and> (\<forall>i. ID vt = Some i \<longrightarrow> 1 \<le> i \<and> i \<le> MaxVlanID)
     \<and> (ID vt \<noteq> None \<or> MinID vt \<noteq> None)"
  by (cases "MinID vt"; cases "MaxID vt"; cases "ID vt")
     (auto simp: VlanTrunk_IsValid_def MinTrunkVlanID_def)

lemma IsVlanConfigValid_Inr:
  "IsVlanConfigValid nc = Inr b \<longleftrightarrow>
     b \<and> 0 \<le> Vlan nc \<and> Vlan nc \<le> MaxVlanID \<and> (Vlan nc = 0 \<or> trunk_items nc = [])
     \<and> (\<forall>vt \<in> set (trunk_items nc). VlanTrunk_IsValid vt = Inr True)"
proof -
  have "VlanTrunk_IsValid vt = Inr b \<longleftrightarrow> b \<and> VlanTrunk_IsValid vt = Inr True" for vt b
    by (cases vt) (auto simp: VlanTrunk_IsValid_Inr, simp_all add: VlanTrunk_IsValid_def)
  then have "(\<exists>b. VlanTrunk_IsValid vt = Inr b) \<longleftrightarrow> VlanTrunk_IsValid vt = Inr True" for vt
    by blast
  then show ?thesis by (auto simp: IsVlanConfigValid_def MinVlanID_def)
qed

lemma item_vids_bounds:
  "VlanTrunk_IsValid vt = Inr True \<Longrightarrow> i \<in> item_vids vt \<Longrightarrow> 1 \<le> i \<and> i \<le> MaxVlanID"
  by (cases vt) (auto simp: VlanTrunk_IsValid_Inr split: option.splits)

lemma nc_vids_bounds: "IsVlanConfigValid nc = Inr True \<Longrightarrow> i \<in> nc_vids nc \<Longrightarrow> 1 \<le> i \<and> i \<le> MaxVlanID"
  using item_vids_bounds by (auto simp: nc_vids_def IsVlanConfigValid_Inr split: if_splits)

lemma SetVID_range:
  assumes "vis_ok vis \<and> isTrunkMode vis" "1 \<le> lo" "hi \<le> MaxVlanID"
  shows "\<exists>vis'. fold_err SetVID (int_range lo hi) vis = (None, vis') \<and> (vis_ok vis' \<and> isTrunkMode vis')
           \<and> vids vis' = vids vis \<union> {lo..hi}"
proof -
  have "\<exists>v'. SetVID i v = (None, v') \<and> (vis_ok v' \<and> isTrunkMode v')
           \<and> vids v' = (if True then insert i (vids v) else vids v)"
    if "i \<in> set (int_range lo hi)" "vis_ok v \<and> isTrunkMode v" for i v
    using that assms SetVID_trunk_ok [of v i] by auto
  from fold_err_insert [where A = vids and I = "\<lambda>v. vis_ok v \<and> isTrunkMode v" and P = "\<lambda>_. True"
      and xs = "int_range lo hi", OF this assms(1)] show ?thesis by (simp add: atLeastAtMost_def atLeast_def atMost_def Int_def)
qed

lemma dump_step_ok:
  assumes "vis_ok vis \<and> isTrunkMode vis" "VlanTrunk_IsValid (Some vt) = Inr True"
  shows "\<exists>vis'. dump_step (Some vt) vis = (None, vis') \<and> (vis_ok vis' \<and> isTrunkMode vis')
           \<and> vids vis' = vids vis \<union> item_vids (Some vt)"
proof -
  obtain v1 where v1: "(case ID vt of Some i \<Rightarrow> SetVID i vis | None \<Rightarrow> (None, vis)) = (None, v1)"
    "vis_ok v1 \<and> isTrunkMode v1" "vids v1 = vids vis \<union> (case ID vt of Some i \<Rightarrow> {i} | None \<Rightarrow> {})"
  proof (cases "ID vt")
    case (Some i)
    with assms SetVID_trunk_ok [of vis i] that show ?thesis by (auto simp: VlanTrunk_IsValid_Inr)
  qed (use assms that in auto)
  show ?thesis
  proof (cases "MinID vt")
    case None
    with v1 show ?thesis by (simp add: dump_step_def)
  next
    case (Some lo)
    with assms(2) obtain hi where "MaxID vt = Some hi" "1 \<le> lo" "hi \<le> MaxVlanID"
      by (auto simp: VlanTrunk_IsValid_Inr)
    with Some v1 SetVID_range [OF v1(2), of lo hi] show ?thesis by (auto simp: dump_step_def)
  qed
qed

lemma dump_loop:
  assumes "vis_ok vis \<and> isTrunkMode vis" "\<forall>p \<in> set ps. p \<noteq> None \<and> VlanTrunk_IsValid p = Inr True"
  shows "\<exists>vis'. fold_err dump_step ps vis = (None, vis') \<and> (vis_ok vis' \<and> isTrunkMode vis')
           \<and> vids vis' = vids vis \<union> \<Union> (item_vids ` set ps)"
  using assms
proof (induction ps arbitrary: vis)
  case (Cons p ps)
  then obtain vt where "p = Some vt" "VlanTrunk_IsValid (Some vt) = Inr True" by auto
  with dump_step_ok [OF Cons.prems(1)] obtain v1 where "dump_step p vis = (None, v1)"
    "vis_ok v1 \<and> isTrunkMode v1" "vids v1 = vids vis \<union> item_vids p" by blast
  with Cons.IH [of v1] Cons.prems show ?case by (auto simp: Un_assoc)
qed simp

lemma dumpVlanIDSet_refines:
  assumes "nc_ok nc"
  shows "\<exists>vis. dumpVlanIDSet nc = Inr vis \<and> vis_ok vis \<and> vids vis = nc_vids nc"
proof (cases "IsVlanAccessMode nc")
  case True
  with assms show ?thesis
    by (auto simp: dumpVlanIDSet_def NewVlanIDSetFromSingleVID_ok nc_vids_def nc_ok_def IsVlanConfigValid_Inr
        intro: single_vis_ok)
next
  case False
  have "\<forall>p \<in> set (trunk_items nc). p \<noteq> None \<and> VlanTrunk_IsValid p = Inr True"
    using assms by (metis IsVlanConfigValid_Inr nc_ok_def)
  from dump_loop [OF _ this, of NewVlanIDSet] NewVlanIDSet_ok False show ?thesis
    by (auto simp: dumpVlanIDSet_def nc_vids_def)
qed

text \<open>The ids of the live bridge NADs of a list.\<close>

definition nad_idset :: "golib \<Rightarrow> Nad \<Rightarrow> VlanIDSet option" where
  "nad_idset g nad =
     (if o_deleting nad then None
      else case DecodeNadConfigToNetConf g (Some nad) of
             Inl _ \<Rightarrow> None
           | Inr nc \<Rightarrow>
               if IsBridgeCNI nc
               then (case dumpVlanIDSet nc of Inl _ \<Rightarrow> None | Inr vis \<Rightarrow> Some vis)
               else None)"

definition nad_ok :: "golib \<Rightarrow> Nad \<Rightarrow> bool" where
  "nad_ok g nad \<longleftrightarrow>
     o_deleting nad \<or> (\<exists>nc. DecodeNadConfigToNetConf g (Some nad) = Inr nc \<and> (\<not> IsBridgeCNI nc \<or> nc_ok nc))"

definition nads_vids :: "golib \<Rightarrow> Nad list \<Rightarrow> int set" where
  "nads_vids g nads =
     {i. \<exists>nad nc. nad \<in> set nads \<and> \<not> o_deleting nad \<and> DecodeNadConfigToNetConf g (Some nad) = Inr nc
           \<and> IsBridgeCNI nc \<and> i \<in> nc_vids nc}"

lemma nad_list_step_append:
  assumes "nad_ok g nad" "isTrunkMode vis"
  shows "nad_list_step g nad vis = Append (nad_idset g nad) vis"
proof (cases "o_deleting nad")
  case False
  with assms obtain nc where nc: "DecodeNadConfigToNetConf g (Some nad) = Inr nc" "\<not> IsBridgeCNI nc \<or> nc_ok nc"
    by (auto simp: nad_ok_def)
  then consider "\<not> IsBridgeCNI nc" | v where "IsBridgeCNI nc" "dumpVlanIDSet nc = Inr v"
    using dumpVlanIDSet_refines by blast
  then show ?thesis
    by cases (use False nc(1) assms(2) in \<open>simp_all add: nad_list_step_def nad_idset_def Append_def\<close>)
qed (use assms in \<open>simp add: nad_list_step_def nad_idset_def Append_def\<close>)

lemma nad_idset_ok: "nad_ok g nad \<Longrightarrow> nad_idset g nad = Some v \<Longrightarrow> vis_ok v"
  by (auto simp: nad_idset_def nad_ok_def split: if_splits sum.splits dest!: dumpVlanIDSet_refines)

lemma nad_idset_vids:
  assumes "nad_ok g nad"
  shows "(case nad_idset g nad of None \<Rightarrow> {} | Some v \<Rightarrow> vids v) = nads_vids g [nad]"
proof (cases "o_deleting nad")
  case True
  then show ?thesis by (simp add: nad_idset_def nads_vids_def)
next
  case False
  with assms obtain nc where nc: "DecodeNadConfigToNetConf g (Some nad) = Inr nc" "\<not> IsBridgeCNI nc \<or> nc_ok nc"
    by (auto simp: nad_ok_def)
  have "nads_vids g [nad] = (if IsBridgeCNI nc then nc_vids nc else {})"
    using False nc(1) by (auto simp: nads_vids_def)
  moreover have "(case nad_idset g nad of None \<Rightarrow> {} | Some v \<Rightarrow> vids v) = (if IsBridgeCNI nc then nc_vids nc else {})"
  proof (cases "IsBridgeCNI nc")
    case True
    with nc(2) obtain v where "dumpVlanIDSet nc = Inr v" "vids v = nc_vids nc"
      using dumpVlanIDSet_refines by blast
    with False nc(1) True show ?thesis by (simp add: nad_idset_def)
  qed (use False nc(1) in \<open>simp add: nad_idset_def\<close>)
  ultimately show ?thesis by simp
qed

lemma nads_vids_set: "nads_vids g nads = (\<Union>nad \<in> set nads. nads_vids g [nad])"
  by (auto simp: nads_vids_def)

lemma nad_list_loop:
  assumes "\<forall>nad \<in> set nads. nad_ok g nad" "vis_ok v" "isTrunkMode v"
  shows "fold_err (nad_list_step g) nads v = fold_err Append (map (nad_idset g) nads) v"
  using assms
proof (induction nads arbitrary: v)
  case (Cons nad nads)
  have "nad_list_step g nad v = Append (nad_idset g nad) v"
    using Cons.prems by (intro nad_list_step_append) auto
  moreover obtain v' where "Append (nad_idset g nad) v = (None, v')" "vis_ok v'" "isTrunkMode v'"
    using vis.merge_ok [OF Cons.prems(2,3), of "nad_idset g nad"] nad_idset_ok [of g nad] Cons.prems(1) by auto
  ultimately show ?case using Cons.IH [of v'] Cons.prems(1) by simp
qed simp

lemma NewVlanIDSetFromNadList_refines:
  assumes "\<forall>nad \<in> set nads. nad_ok g nad"
  shows "\<exists>vis. NewVlanIDSetFromNadList g nads = Inr vis \<and> vis_ok vis \<and> isTrunkMode vis \<and> vids vis = nads_vids g nads"
proof -
  have "\<exists>v'. fold_err Append (map (nad_idset g) nads) NewVlanIDSet = (None, v') \<and> (vis_ok v' \<and> isTrunkMode v')
     \<and> vids v' = vids NewVlanIDSet \<union> (\<Union>p \<in> set (map (nad_idset g) nads). case p of None \<Rightarrow> {} | Some w \<Rightarrow> vids w)"
    using assms nad_idset_ok vis.fresh_ok by (intro vis.merge_all) auto
  moreover have "(\<Union>p \<in> set (map (nad_idset g) nads). case p of None \<Rightarrow> {} | Some w \<Rightarrow> vids w) = nads_vids g nads"
    using assms nad_idset_vids [of g] by (subst nads_vids_set) simp
  ultimately show ?thesis
    using nad_list_loop [OF assms, of NewVlanIDSet] vis.fresh_ok
    by (auto simp: NewVlanIDSetFromNadList_def nads_vids_def)
qed

lemma has_trunk_vid_set:
  "None \<notin> set vts \<Longrightarrow> has_trunk_vid t vts = Inr (t \<in> \<Union> (item_vids ` set vts))"
  by (induction t vts rule: has_trunk_vid.induct) (auto split: option.splits)

lemma dump_nil_panics:
  assumes "vis_ok vis \<and> isTrunkMode vis" "\<forall>p \<in> set ps. VlanTrunk_IsValid p = Inr True" "None \<in> set ps"
  shows "fst (fold_err dump_step ps vis) = Some (GoPanic ''nil pointer dereference'')"
  using assms
proof (induction ps arbitrary: vis)
  case (Cons p ps)
  show ?case
  proof (cases p)
    case None
    then show ?thesis by (simp add: dump_step_def)
  next
    case (Some vt)
    with Cons.prems have "VlanTrunk_IsValid (Some vt) = Inr True" by simp
    with dump_step_ok [OF Cons.prems(1)] Some obtain v1 where
      "dump_step p vis = (None, v1)" "vis_ok v1 \<and> isTrunkMode v1" by blast
    with Cons.IH [of v1] Cons.prems Some show ?thesis by simp
  qed
qed simp

lemma outdate_flag: "outdate c = c\<lparr>l3_Outdated := (l3_Mode c = Auto)\<rparr>"
  by (simp add: outdate_def)

section \<open>Properties\<close>

lemma has_trunk_vid_nil:
  "None \<in> set vts \<Longrightarrow> has_trunk_vid t vts =
     (if t \<in> \<Union> (item_vids ` set (takeWhile (\<lambda>p. p \<noteq> None) vts)) then Inr True
      else Inl (GoPanic ''nil pointer dereference''))"
  by (induction t vts rule: has_trunk_vid.induct) (auto split: option.splits)

text \<open>
  C34. For a configuration the validation accepts and without a nil entry in \<open>vlanTrunk\<close>,
  \<open>dumpVlanIDSet\<close> returns exactly the ids of the configuration (its tag, or the ids its trunk entries
  name); \<open>HasTrunkVlanID\<close> is membership in this set for a trunk configuration and false for any id,
  the tag included, otherwise. Validation also accepts nil entries (the JSON \<open>[null]\<close>): with one,
  \<open>dumpVlanIDSet\<close> panics, and \<open>HasTrunkVlanID\<close> panics for every id that no entry before the first nil
  one names, and is true for the others.
\<close>

theorem dump_of_accepted_config:
  assumes "IsVlanConfigValid nc = Inr True"
  shows "if None \<in> set (trunk_items nc)
         then dumpVlanIDSet nc = Inl (GoPanic ''nil pointer dereference'')
              \<and> (\<forall>t. HasTrunkVlanID t nc =
                    (if t \<in> \<Union> (item_vids ` set (takeWhile (\<lambda>p. p \<noteq> None) (trunk_items nc))) then Inr True
                     else Inl (GoPanic ''nil pointer dereference'')))
         else \<exists>vis. dumpVlanIDSet nc = Inr vis \<and> vids vis = nc_vids nc
                \<and> (\<forall>t. HasTrunkVlanID t nc = Inr (IsVlanTrunkMode nc \<and> t \<in> vids vis))"
proof (cases "None \<in> set (trunk_items nc)")
  case True
  then have "\<not> IsVlanAccessMode nc" by (auto simp: IsVlanAccessMode_def)
  moreover have "\<forall>p \<in> set (trunk_items nc). VlanTrunk_IsValid p = Inr True"
    using assms by (metis IsVlanConfigValid_Inr)
  ultimately show ?thesis
    using dump_nil_panics [of NewVlanIDSet "trunk_items nc"] NewVlanIDSet_ok True
    by (auto simp: dumpVlanIDSet_def HasTrunkVlanID_def has_trunk_vid_nil split: prod.splits option.splits)
next
  case False
  then have "nc_ok nc" using assms by (simp add: nc_ok_def)
  from dumpVlanIDSet_refines [OF this] False show ?thesis
    by (auto simp: HasTrunkVlanID_def has_trunk_vid_set IsVlanTrunkMode_def nc_vids_def IsVlanAccessMode_def)
qed

theorem dump_of_accepted_config_witness:
  "dumpVlanIDSet (NetConf0\<lparr>nc_VlanTrunk := Some [None]\<rparr>) = Inl (GoPanic ''nil pointer dereference'')
   \<and> HasTrunkVlanID 7 (NetConf0\<lparr>nc_VlanTrunk := Some [None]\<rparr>) = Inl (GoPanic ''nil pointer dereference'')"
  using dump_of_accepted_config [of "NetConf0\<lparr>nc_VlanTrunk := Some [None]\<rparr>"]
  by (simp add: IsVlanConfigValid_def NetConf0_def trunk_items_def VlanTrunk_IsValid_def vlan_consts)

definition network_vids :: "golib \<Rightarrow> Nad list \<Rightarrow> string \<Rightarrow> int set" where
  "network_vids g nads cnName =
     {i. \<exists>nad nc. nad \<in> set (indexer nads) \<and> mlookup (o_labels nad) KeyClusterNetworkLabel = Some cnName
            \<and> \<not> o_deleting nad \<and> DecodeNadConfigToNetConf g (Some nad) = Inr nc \<and> IsBridgeCNI nc \<and> i \<in> nc_vids nc}"

lemma GeVlanIDSet_refines:
  assumes "\<forall>nad \<in> set (indexer nads). nad_ok g nad"
  shows "\<exists>vis. GeVlanIDSetFromClusterNetwork g (store_list (indexer nads)) cnName = Inr vis
     \<and> vis_ok vis \<and> isTrunkMode vis \<and> vids vis = network_vids g nads cnName"
proof -
  obtain sel where sel: "store_list (indexer nads) [] (SelectorFromSet [(KeyClusterNetworkLabel, cnName)]) = Inr sel"
    "set sel = {x \<in> set (indexer nads). mlookup (o_labels x) KeyClusterNetworkLabel = Some cnName}"
    using store.list_Inr [of nads "[]" "SelectorFromSet [(KeyClusterNetworkLabel, cnName)]"] by auto
  have "\<forall>nad \<in> set sel. nad_ok g nad" using assms sel(2) by simp
  from NewVlanIDSetFromNadList_refines [OF this] obtain vis where vis:
    "NewVlanIDSetFromNadList g sel = Inr vis" "vis_ok vis" "isTrunkMode vis" "vids vis = nads_vids g sel" by blast
  with sel show ?thesis
    by (auto simp: GeVlanIDSetFromClusterNetwork_def ListNadsOnClusterNetwork_def nads_vids_def network_vids_def)
qed

text \<open>
  The id set of a cluster network, computed from the NAD cache, is the union of the ids of
  the live bridge NADs that carry the network's label; NADs being deleted and other CNI types
  do not count.
\<close>

lemma cluster_network_vlan_set:
  assumes "\<forall>nad \<in> set (indexer nads). nad_ok g nad"
  shows "\<exists>vis. GeVlanIDSetFromClusterNetwork g (store_list (indexer nads)) cnName = Inr vis
     \<and> isTrunkMode vis \<and> vids vis = network_vids g nads cnName
     \<and> unat (GetVlanCount vis) = card (vids vis)"
  using GeVlanIDSet_refines [OF assms, of cnName] card_vids by blast

definition demo_golib :: golib where
  "demo_golib = \<lparr>UnmarshalNetConf = (\<lambda>s. Inr (NetConf0\<lparr>BrName := ''cn1-br'', Vlan := int (length s)\<rparr>)),
     UnmarshalL3 = (\<lambda>s. case s of [] \<Rightarrow> Inl (EOther ''EOF'')
        | c # t \<Rightarrow> Inr (L3empty\<lparr>l3_Mode := t, l3_Outdated := (c = CHR ''t'')\<rparr>)),
     MarshalL3 = (\<lambda>c. if c = L3empty\<lparr>l3_Mode := l3_Mode c, l3_Outdated := l3_Outdated c\<rparr>
        then Inr ((if l3_Outdated c then CHR ''t'' else CHR ''f'') # l3_Mode c) else Inl (EOther ''unsupported'')),
     UnmarshalStrings = (\<lambda>s. if s = [] then Inl (EOther ''EOF'') else Inr (butlast (Split CHR ''/'' s))),
     MarshalStrings = (\<lambda>xs. if list_all (\<lambda>x. CHR ''/'' \<notin> set x) xs
        then Inr (concat (map (\<lambda>x. x @ ''/'') xs) @ '' '') else Inl (EOther ''unsupported'')),
     ParseCIDR = (\<lambda>_. Inl (EOther ''invalid CIDR'')), ParseIP = (\<lambda>_. None), sha256hex = id\<rparr>"

lemma demo_strings_law:
  assumes "MarshalStrings demo_golib xs = Inr s"
  shows "s \<noteq> [] \<and> UnmarshalStrings demo_golib s = Inr xs"
proof -
  have "Split CHR ''/'' (concat (map (\<lambda>x. x @ ''/'') ys) @ '' '') = ys @ ['' '']"
    if "list_all (\<lambda>x. CHR ''/'' \<notin> set x) ys" for ys
    using that by (induction ys) (auto simp: Split_append)
  with assms show ?thesis by (auto simp: demo_golib_def split: if_splits)
qed

definition demo_nad :: "string \<Rightarrow> Nad" where
  "demo_nad conf = \<lparr>o_name = ''n1'', o_namespace = ''default'',
     o_labels = Some [KeyClusterNetworkLabel \<mapsto> ''cn1''], o_annotations = Some [KeyNetworkRoute \<mapsto> ''fauto''],
     o_deleting = False, nad_Config = conf, nad_Finalizers = []\<rparr>"

lemma cluster_network_vlan_set_witness:
  "\<exists>vis. GeVlanIDSetFromClusterNetwork demo_golib (store_list (indexer [demo_nad ''{}''])) ''cn1'' = Inr vis
     \<and> 2 \<in> vids vis"
proof -
  have dec: "DecodeNadConfigToNetConf demo_golib (Some (demo_nad ''{}'')) = Inr (NetConf0\<lparr>BrName := ''cn1-br'', Vlan := 2\<rparr>)"
    by (simp add: DecodeNadConfigToNetConf_def demo_golib_def demo_nad_def)
  have idx: "indexer [demo_nad ''{}''] = [demo_nad ''{}'']" by (simp add: indexer_def store_put_def)
  have ok: "nad_ok demo_golib (demo_nad ''{}'')"
    by (simp add: nad_ok_def dec nc_ok_def IsVlanConfigValid_Inr NetConf0_def trunk_items_def vlan_consts)
  have "2 \<in> nc_vids (NetConf0\<lparr>BrName := ''cn1-br'', Vlan := 2\<rparr>)"
    "IsBridgeCNI (NetConf0\<lparr>BrName := ''cn1-br'', Vlan := 2\<rparr>)"
    by (simp_all add: nc_vids_def IsVlanAccessMode_def NetConf0_def trunk_items_def IsBridgeCNI_def cni_types)
  then show ?thesis
    using cluster_network_vlan_set [of "[demo_nad ''{}'']" demo_golib "''cn1''"] dec ok
    by (auto simp: idx network_vids_def) (auto simp: demo_nad_def)
qed

text \<open>
  When \<open>SetNetworkInfoToLabels\<close> succeeds the labels say what the configuration is: the
  cluster network, the network type, and the VLAN id exactly for a tagged bridge network. No
  other label changes, and doing it again changes nothing.
\<close>

lemma network_info_labels:
  assumes "SetNetworkInfoToLabels nc (Some m) = (None, l)"
  shows "NetConf_GetClusterNetworkName nc = Inr (mget l KeyClusterNetworkLabel)
     \<and> GetNetworkType nc = Inr (mget l KeyNetworkType)
     \<and> mlookup l KeyVlanLabel = (if IsBridgeCNI nc \<and> Vlan nc \<noteq> 0 then Some (Itoa (Vlan nc)) else None)
     \<and> mlookup l k = (if k \<in> {KeyVlanLabel, KeyClusterNetworkLabel, KeyNetworkType} then mlookup l k else m k)
     \<and> SetNetworkInfoToLabels nc l = (None, l)"
proof -
  have ovn: "IsKubeOVNCNI nc \<Longrightarrow> \<not> IsBridgeCNI nc"
    by (simp add: IsKubeOVNCNI_def IsBridgeCNI_def cni_types)
  have main: "NetConf_GetClusterNetworkName nc = Inr (mget l KeyClusterNetworkLabel)
     \<and> GetNetworkType nc = Inr (mget l KeyNetworkType)
     \<and> mlookup l KeyVlanLabel = (if IsBridgeCNI nc \<and> Vlan nc \<noteq> 0 then Some (Itoa (Vlan nc)) else None)"
    using assms ovn
    by (auto simp: SetNetworkInfoToLabels_def Let_def NetConf_GetClusterNetworkName_def GetNetworkType_def
        IsKubeOVNCNI_def IsBridgeCNI_def IsL2VlanNetwork_def IsL2VlanTrunkNetwork_def IsUntaggedNetwork_def cni_types
        split: if_splits sum.splits)
  have other: "mlookup l k = (if k \<in> {KeyVlanLabel, KeyClusterNetworkLabel, KeyNetworkType} then mlookup l k else m k)" for k
    using assms
    by (auto simp: SetNetworkInfoToLabels_def Let_def mdelete_def split: if_splits sum.splits)
  have "SetNetworkInfoToLabels nc l = (None, l)"
    using assms
    by (auto simp: SetNetworkInfoToLabels_def Let_def mput_def mdelete_def mmake_def fun_eq_iff split: if_splits sum.splits)
  with main other [of k] show ?thesis by blast
qed

lemma network_info_labels_witness:
  "mget (snd (SetNetworkInfoToLabels (NetConf0\<lparr>BrName := ''mgmt-br'', Vlan := 7\<rparr>) (Some Map.empty)))
     KeyClusterNetworkLabel = ''mgmt''"
proof -
  let ?nc = "NetConf0\<lparr>BrName := ''mgmt-br'', Vlan := 7\<rparr>"
  have cn: "GetBridgeNamePrefix ''mgmt-br'' = Inr ''mgmt''"
    by (simp add: BridgeName_prefix_Inr BridgeSuffix_def)
  have "fst (SetNetworkInfoToLabels ?nc (Some Map.empty)) = None"
    by (simp add: SetNetworkInfoToLabels_def cn NetConf0_def IsKubeOVNCNI_def IsBridgeCNI_def cni_types IsL2VlanNetwork_def)
  then have "SetNetworkInfoToLabels ?nc (Some Map.empty) = (None, snd (SetNetworkInfoToLabels ?nc (Some Map.empty)))"
    by (simp add: prod_eq_iff)
  from network_info_labels [OF this] cn show ?thesis
    by (simp add: NetConf_GetClusterNetworkName_def NetConf0_def IsKubeOVNCNI_def IsBridgeCNI_def cni_types)
qed

text \<open>
  C36. The provider string of a NAD leads back to the NAD's name and namespace exactly when
  neither contains a dot (a Kubernetes object name may).
\<close>

theorem provider_roundtrip:
  assumes "GetProviderFromNad nadName ns = Inr p"
  shows "GetNadNameFromProvider p = Inr (nadName, if ns = [] then defaultNamespace else ns)
     \<longleftrightarrow> CHR ''.'' \<notin> set nadName \<and> CHR ''.'' \<notin> set ns"
proof -
  let ?ns = "if ns = [] then defaultNamespace else ns"
  have p: "p = nadName @ CHR ''.'' # ?ns @ CHR ''.'' # ''ovn''" "p \<noteq> []"
    using assms by (auto simp: GetProviderFromNad_def Let_def ovnProvider_def split: if_splits)
  have dns: "CHR ''.'' \<in> set ?ns \<longleftrightarrow> CHR ''.'' \<in> set ns" by (auto simp: defaultNamespace_def)
  show ?thesis
  proof (cases "CHR ''.'' \<in> set nadName \<or> CHR ''.'' \<in> set ?ns")
    case True
    have "CHR ''.'' \<notin> set a \<and> CHR ''.'' \<notin> set b" if "GetNadNameFromProvider p = Inr (a, b)" for a b
    proof -
      from that have "a = Split CHR ''.'' p ! 0" "b = Split CHR ''.'' p ! 1" "3 \<le> length (Split CHR ''.'' p)"
        using p(2) by (auto simp: GetNadNameFromProvider_def Let_def split: if_splits)
      then have "a \<in> set (Split CHR ''.'' p)" "b \<in> set (Split CHR ''.'' p)" by simp_all
      then show ?thesis by (blast dest: Split_parts_no_sep)
    qed
    with True dns show ?thesis by blast
  next
    case False
    then have "Split CHR ''.'' p = [nadName, ?ns, ''ovn'']"
      unfolding p(1) by (simp add: Split_append)
    with p(2) False dns show ?thesis by (simp add: GetNadNameFromProvider_def)
  qed
qed

theorem provider_roundtrip_witness: "GetNadNameFromProvider ''vswitch1.default.ovn'' = Inr (''vswitch1'', ''default'')"
proof -
  have "GetProviderFromNad ''vswitch1'' [] = Inr ''vswitch1.default.ovn''"
    by (simp add: GetProviderFromNad_def defaultNamespace_def ovnProvider_def)
  from provider_roundtrip [OF this] show ?thesis by (simp add: defaultNamespace_def)
qed

text \<open>
  Marking the route of a NAD as outdated keeps every field of the route but the flag,
  which afterwards says whether the mode is auto, provided JSON decodes what it encoded; for
  an untagged or trunk network the route is removed instead.
\<close>

lemma outdate_route:
  assumes "\<And>c s. MarshalL3 g c = Inr s \<Longrightarrow> UnmarshalL3 g s = Inr c"
    and "OutdateNadLayer3NetworkConf g (Some nad) (Some nc) = Inr ann"
    and "mget (o_annotations nad) KeyNetworkRoute = route" "route \<noteq> []"
  shows "if Vlan nc = 0 then mlookup ann KeyNetworkRoute = None
         else \<exists>c new. UnmarshalL3 g route = Inr c \<and> mlookup ann KeyNetworkRoute = Some new
                \<and> UnmarshalL3 g new = Inr (c\<lparr>l3_Outdated := (l3_Mode c = Auto)\<rparr>)"
  using assms(2-4)
  by (auto simp: OutdateNadLayer3NetworkConf_def OutdateLayer3NetworkConfPerMode_def outdate_flag
      dest!: assms(1) split: if_splits)

lemma outdate_route_witness:
  "\<exists>ann new. OutdateNadLayer3NetworkConf demo_golib (Some (demo_nad ''{}'')) (Some (NetConf0\<lparr>Vlan := 5\<rparr>)) = Inr ann
     \<and> mlookup ann KeyNetworkRoute = Some new \<and> UnmarshalL3 demo_golib new = Inr (L3empty\<lparr>l3_Mode := Auto, l3_Outdated := True\<rparr>)"
proof -
  have law: "UnmarshalL3 demo_golib s = Inr c" if "MarshalL3 demo_golib c = Inr s" for c s
    using that by (cases c) (auto simp: demo_golib_def L3empty_def split: if_splits)
  have route: "mget (o_annotations (demo_nad ''{}'')) KeyNetworkRoute = ''fauto''"
    by (simp add: demo_nad_def mget_def)
  have c: "UnmarshalL3 demo_golib ''fauto'' = Inr (L3empty\<lparr>l3_Mode := Auto, l3_Outdated := False\<rparr>)"
    by (simp add: demo_golib_def Auto_def)
  obtain ann where "OutdateNadLayer3NetworkConf demo_golib (Some (demo_nad ''{}'')) (Some (NetConf0\<lparr>Vlan := 5\<rparr>)) = Inr ann"
    by (simp add: OutdateNadLayer3NetworkConf_def route OutdateLayer3NetworkConfPerMode_def c)
       (simp add: demo_golib_def outdate_def L3empty_def)
  with outdate_route [OF law this route] c show ?thesis by auto
qed

end
