(* ===== verification/Caches.thy ===== *)
theory Caches
  imports Net_Conf
begin

text \<open>
  What the webhooks read: virtual machines and the index over the networks they attach to
  (\<open>cmd/webhook/main.go\<close>), the getters of \<open>pkg/utils/vm.go\<close> and \<open>pkg/utils/vmi.go\<close>, and the record
  of informer caches the validators, mutators and controllers are built with. \<open>caches_of\<close> gives the caches
  over a state of the cluster.
\<close>

section \<open>Machines and their networks\<close>

text \<open>A network of a machine: the multus network name, if its source is multus.\<close>

record VM = objmeta +
  vm_Networks :: "string option list"

record VMI = objmeta +
  vmi_Networks :: "string option list"
  vmi_NodeName :: string

definition vmiByNetwork :: "VMI \<Rightarrow> string list" where
  "vmiByNetwork obj = concat (map (\<lambda>n. case n of None \<Rightarrow> [] | Some m \<Rightarrow> [m]) (vmi_Networks obj))"

definition vmByNetwork :: "VM \<Rightarrow> string list" where
  "vmByNetwork obj = concat (map (\<lambda>n. case n of None \<Rightarrow> [] | Some m \<Rightarrow> [m]) (vm_Networks obj))"

text \<open>\<open>GetByIndex\<close> on the network index: the objects one of whose network names is the key.\<close>

definition get_by_index :: "('a \<Rightarrow> string list) \<Rightarrow> 'a list \<Rightarrow> string \<Rightarrow> ('a list) res" where
  "get_by_index index xs key = Inr (filter (\<lambda>x. key \<in> set (index x)) xs)"

definition nad_full_name :: "Nad \<Rightarrow> string" where
  "nad_full_name nad = o_namespace nad @ ''/'' @ o_name nad"

definition VmiWhoUseNad :: "(string \<Rightarrow> (VMI list) res) \<Rightarrow> Nad \<Rightarrow> bool \<Rightarrow> string list option \<Rightarrow> (VMI list) res" where
  "VmiWhoUseNad byIndex nad filterFlag nodesFilter =
     (if filterFlag \<and> (nodesFilter = None \<or> nodesFilter = Some []) then Inr []
      else bind_res (byIndex (nad_full_name nad))
             (wrap ''failed to get vmi via VMByNetworkIndex %v, error %w'') (\<lambda>vmis.
           bind_res (byIndex (o_name nad))
             (wrap ''failed to get vmi via VMByNetworkIndex %v, error %w'') (\<lambda>vmisTmp.
           let vmis1 = vmis @ filter (\<lambda>vmi. o_namespace vmi = o_namespace nad) vmisTmp
           in if \<not> filterFlag then Inr vmis1
              else Inr (filter (\<lambda>vmi. vmi_NodeName vmi \<in> set (slice_elems nodesFilter)) vmis1))))"

definition VmiWhoUseNads :: "(string \<Rightarrow> (VMI list) res) \<Rightarrow> Nad list \<Rightarrow> bool \<Rightarrow> string list option \<Rightarrow> (VMI list) res" where
  "VmiWhoUseNads byIndex nads filterFlag nodesFilter =
     concat_res (\<lambda>nad. VmiWhoUseNad byIndex nad filterFlag nodesFilter) nads"

definition generateVmiNameList :: "VMI list \<Rightarrow> string list" where
  "generateVmiNameList vmis = map (\<lambda>vmi. o_namespace vmi @ ''/'' @ o_name vmi) vmis"

definition VmiNamesWhoUseNad :: "(string \<Rightarrow> (VMI list) res) \<Rightarrow> Nad \<Rightarrow> bool \<Rightarrow> string list option \<Rightarrow> (string list) res" where
  "VmiNamesWhoUseNad byIndex nad filterFlag nodesFilter =
     bind_res (VmiWhoUseNad byIndex nad filterFlag nodesFilter) id (\<lambda>vmis. Inr (generateVmiNameList vmis))"

text \<open>The names of a group: the set is listed in an order of its own, here that of first use.\<close>

definition VmiNamesWhoUseNads :: "(string \<Rightarrow> (VMI list) res) \<Rightarrow> Nad list \<Rightarrow> bool \<Rightarrow> string list option \<Rightarrow> (string list) res" where
  "VmiNamesWhoUseNads byIndex nads filterFlag nodesFilter =
     bind_res (VmiWhoUseNads byIndex nads filterFlag nodesFilter) id (\<lambda>vmis.
     let cnt = length vmis
     in if cnt = 0 then Inr []
        else if cnt = 1 then Inr (generateVmiNameList vmis)
        else Inr (remdups (generateVmiNameList vmis)))"

definition VMWhoUseNad :: "(string \<Rightarrow> (VM list) res) \<Rightarrow> Nad \<Rightarrow> (VM list) res" where
  "VMWhoUseNad byIndex nad =
     bind_res (byIndex (nad_full_name nad))
       (wrap ''failed to get vm via VMByNetworkIndex %v, error %w'') (\<lambda>vms.
     bind_res (byIndex (o_name nad))
       (wrap ''failed to get vm via VMByNetworkIndex %v, error %w'') (\<lambda>vmsTmp.
     Inr (vms @ filter (\<lambda>vm. o_namespace vm = o_namespace nad) vmsTmp)))"

definition VMWhoUseNads :: "(string \<Rightarrow> (VM list) res) \<Rightarrow> Nad list \<Rightarrow> (VM list) res" where
  "VMWhoUseNads byIndex nads = concat_res (VMWhoUseNad byIndex) nads"

definition generateVMNameList :: "VM list \<Rightarrow> string list" where
  "generateVMNameList vms = map (\<lambda>vm. o_namespace vm @ ''/'' @ o_name vm) vms"

definition VMNamesWhoUseNad :: "(string \<Rightarrow> (VM list) res) \<Rightarrow> Nad \<Rightarrow> (string list) res" where
  "VMNamesWhoUseNad byIndex nad = bind_res (VMWhoUseNad byIndex nad) id (\<lambda>vms. Inr (generateVMNameList vms))"

definition VMNamesWhoUseNads :: "(string \<Rightarrow> (VM list) res) \<Rightarrow> Nad list \<Rightarrow> (string list) res" where
  "VMNamesWhoUseNads byIndex nads =
     bind_res (VMWhoUseNads byIndex nads) id (\<lambda>vms.
     let cnt = length vms
     in if cnt = 0 then Inr []
        else if cnt = 1 then Inr (generateVMNameList vms)
        else Inr (remdups (generateVMNameList vms)))"

section \<open>Who attaches to a network\<close>

text \<open>A machine refers to a NAD by its full name, or by its bare name from the same namespace.\<close>

definition attaches :: "('a objmeta_scheme \<Rightarrow> string list) \<Rightarrow> 'a objmeta_scheme \<Rightarrow> Nad \<Rightarrow> bool" where
  "attaches networks x nad \<longleftrightarrow>
     nad_full_name nad \<in> set (networks x)
     \<or> (o_name nad \<in> set (networks x) \<and> o_namespace x = o_namespace nad)"

text \<open>The law of a cache with a network index, and what the two-lookup search gives from it.\<close>

locale network_index =
  fixes objs :: "'a objmeta_scheme set"
    and networks :: "'a objmeta_scheme \<Rightarrow> string list"
    and byIndex :: "string \<Rightarrow> ('a objmeta_scheme list) res"
  assumes byIndex_law: "\<exists>xs. byIndex key = Inr xs \<and> set xs = {x \<in> objs. key \<in> set (networks x)}"
begin

lemma two_lookups:
  "\<exists>xs ys. byIndex (nad_full_name nad) = Inr xs \<and> byIndex (o_name nad) = Inr ys
     \<and> set (xs @ filter (\<lambda>x. o_namespace x = o_namespace nad) ys) = {x \<in> objs. attaches networks x nad}"
  using byIndex_law [of "nad_full_name nad"] byIndex_law [of "o_name nad"]
  by (auto simp: attaches_def)

end

interpretation vmix: network_index "set (indexer vms)" vmByNetwork "get_by_index vmByNetwork (indexer vms)" for vms
  by unfold_locales (auto simp: get_by_index_def)

interpretation vmiix: network_index "set (indexer vmis)" vmiByNetwork "get_by_index vmiByNetwork (indexer vmis)" for vmis
  by unfold_locales (auto simp: get_by_index_def)

lemma VMWhoUseNad_store:
  "\<exists>vs. VMWhoUseNad (get_by_index vmByNetwork (indexer vms)) nad = Inr vs
     \<and> set vs = {v \<in> set (indexer vms). attaches vmByNetwork v nad}"
  using vmix.two_lookups [of vms nad] by (auto simp: VMWhoUseNad_def)

lemma VmiWhoUseNad_store:
  "\<exists>vs. VmiWhoUseNad (get_by_index vmiByNetwork (indexer vmis)) nad flag nodes = Inr vs
     \<and> set vs = {v \<in> set (indexer vmis). attaches vmiByNetwork v nad
                   \<and> (flag \<longrightarrow> vmi_NodeName v \<in> set (slice_elems nodes))}"
proof -
  from vmiix.two_lookups [of vmis nad] obtain xs ys where
    l: "get_by_index vmiByNetwork (indexer vmis) (nad_full_name nad) = Inr xs"
       "get_by_index vmiByNetwork (indexer vmis) (o_name nad) = Inr ys"
       "set (xs @ filter (\<lambda>x. o_namespace x = o_namespace nad) ys) = {x \<in> set (indexer vmis). attaches vmiByNetwork x nad}"
    by blast
  let ?ws = "xs @ filter (\<lambda>x. o_namespace x = o_namespace nad) ys"
  consider "flag" "nodes = None \<or> nodes = Some []" | "flag" "\<not> (nodes = None \<or> nodes = Some [])" | "\<not> flag"
    by blast
  then show ?thesis
  proof cases
    case 1
    then show ?thesis by (auto simp: VmiWhoUseNad_def)
  next
    case 2
    then have "VmiWhoUseNad (get_by_index vmiByNetwork (indexer vmis)) nad flag nodes =
        Inr (filter (\<lambda>vmi. vmi_NodeName vmi \<in> set (slice_elems nodes)) ?ws)"
      by (simp add: VmiWhoUseNad_def l(1,2))
    moreover have "set (filter (\<lambda>vmi. vmi_NodeName vmi \<in> set (slice_elems nodes)) ?ws) =
        {v \<in> set (indexer vmis). attaches vmiByNetwork v nad \<and> vmi_NodeName v \<in> set (slice_elems nodes)}"
      unfolding set_filter [of _ ?ws] l(3) by blast
    ultimately show ?thesis using 2 by (simp del: set_append filter_append)
  next
    case 3
    then have "VmiWhoUseNad (get_by_index vmiByNetwork (indexer vmis)) nad flag nodes = Inr ?ws"
      by (simp add: VmiWhoUseNad_def l(1,2))
    then show ?thesis using 3 l(3) by (simp del: set_append)
  qed
qed

lemma VmiWhoUseNads_store:
  "\<exists>vs. VmiWhoUseNads (get_by_index vmiByNetwork (indexer vmis)) nads flag nodes = Inr vs
     \<and> set vs = {v \<in> set (indexer vmis). \<exists>nad \<in> set nads. attaches vmiByNetwork v nad
                   \<and> (flag \<longrightarrow> vmi_NodeName v \<in> set (slice_elems nodes))}"
proof (induction nads)
  case Nil
  then show ?case by (simp add: VmiWhoUseNads_def)
next
  case (Cons nad nads)
  then obtain vs where vs: "VmiWhoUseNads (get_by_index vmiByNetwork (indexer vmis)) nads flag nodes = Inr vs"
    "set vs = {v \<in> set (indexer vmis). \<exists>nad \<in> set nads. attaches vmiByNetwork v nad
                   \<and> (flag \<longrightarrow> vmi_NodeName v \<in> set (slice_elems nodes))}" by blast
  obtain ws where ws: "VmiWhoUseNad (get_by_index vmiByNetwork (indexer vmis)) nad flag nodes = Inr ws"
    "set ws = {v \<in> set (indexer vmis). attaches vmiByNetwork v nad
                   \<and> (flag \<longrightarrow> vmi_NodeName v \<in> set (slice_elems nodes))}"
    using VmiWhoUseNad_store by blast
  from vs ws show ?case by (auto simp: VmiWhoUseNads_def)
qed

text \<open>Whether the name lists are empty, over a state of the cluster.\<close>

lemma VMNames_store:
  "\<exists>ns. VMNamesWhoUseNad (get_by_index vmByNetwork (indexer vms)) nad = Inr ns
     \<and> (ns = [] \<longleftrightarrow> (\<forall>v \<in> set (indexer vms). \<not> attaches vmByNetwork v nad))"
proof -
  obtain vs where vs: "VMWhoUseNad (get_by_index vmByNetwork (indexer vms)) nad = Inr vs"
    "set vs = {v \<in> set (indexer vms). attaches vmByNetwork v nad}" using VMWhoUseNad_store by blast
  then have "vs = [] \<longleftrightarrow> (\<forall>v \<in> set (indexer vms). \<not> attaches vmByNetwork v nad)"
    by (metis (mono_tags, lifting) empty_Collect_eq set_empty)
  with vs(1) show ?thesis by (simp add: VMNamesWhoUseNad_def generateVMNameList_def)
qed

definition vmi_uses :: "bool \<Rightarrow> string list option \<Rightarrow> VMI \<Rightarrow> Nad \<Rightarrow> bool" where
  "vmi_uses flag nodes v nad \<longleftrightarrow>
     attaches vmiByNetwork v nad \<and> (flag \<longrightarrow> vmi_NodeName v \<in> set (slice_elems nodes))"

lemma VmiNames_store:
  "\<exists>ns. VmiNamesWhoUseNad (get_by_index vmiByNetwork (indexer vmis)) nad flag nodes = Inr ns
     \<and> (ns = [] \<longleftrightarrow> (\<forall>v \<in> set (indexer vmis). \<not> vmi_uses flag nodes v nad))"
proof -
  obtain vs where vs: "VmiWhoUseNad (get_by_index vmiByNetwork (indexer vmis)) nad flag nodes = Inr vs"
    "set vs = {v \<in> set (indexer vmis). vmi_uses flag nodes v nad}"
    using VmiWhoUseNad_store [of vmis nad flag nodes] unfolding vmi_uses_def by blast
  then have "vs = [] \<longleftrightarrow> (\<forall>v \<in> set (indexer vmis). \<not> vmi_uses flag nodes v nad)"
    by (metis (mono_tags, lifting) empty_Collect_eq set_empty)
  with vs(1) show ?thesis by (simp add: VmiNamesWhoUseNad_def generateVmiNameList_def)
qed

lemma VmiNamesOfNads_store:
  "\<exists>ns. VmiNamesWhoUseNads (get_by_index vmiByNetwork (indexer vmis)) nads flag nodes = Inr ns
     \<and> (ns = [] \<longleftrightarrow> (\<forall>v \<in> set (indexer vmis). \<forall>nad \<in> set nads. \<not> vmi_uses flag nodes v nad))"
proof -
  obtain vs where vs: "VmiWhoUseNads (get_by_index vmiByNetwork (indexer vmis)) nads flag nodes = Inr vs"
    "set vs = {v \<in> set (indexer vmis). \<exists>nad \<in> set nads. vmi_uses flag nodes v nad}"
    using VmiWhoUseNads_store [of vmis nads flag nodes] unfolding vmi_uses_def by blast
  have "vs = [] \<longleftrightarrow> (\<forall>v \<in> set (indexer vmis). \<forall>nad \<in> set nads. \<not> vmi_uses flag nodes v nad)"
    unfolding set_empty [symmetric] vs(2) by blast
  with vs(1) show ?thesis
    by (auto simp: VmiNamesWhoUseNads_def generateVmiNameList_def Let_def)
qed

section \<open>Subnets\<close>

text \<open>A kube-ovn subnet; \<open>sp_rest\<close> stands for the fields of the spec that are only compared.\<close>

record SubnetSpec =
  sp_Provider :: string
  sp_Vpc :: string
  sp_EnableDHCP :: bool
  sp_rest :: string

record Subnet = objmeta +
  sn_Spec :: SubnetSpec
  sn_V4UsingIPs :: int

section \<open>The caches of the webhook server and the controllers\<close>

record caches =
  cnGet :: "string \<Rightarrow> ClusterNetwork res"
  vcList :: "selector \<Rightarrow> (VlanConfig list) res"
  vsGet :: "string \<Rightarrow> VlanStatus res"
  vsList :: "selector \<Rightarrow> (VlanStatus list) res"
  nadGet :: "string \<Rightarrow> string \<Rightarrow> Nad res"
  nadList :: nad_lister
  nodeList :: "selector \<Rightarrow> (Node list) res"
  hncList :: "selector \<Rightarrow> (HostNetworkConfig list) res"
  subnetList :: "selector \<Rightarrow> (Subnet list) res"
  vpcGet :: "string \<Rightarrow> objmeta res"
  vmByIndex :: "string \<Rightarrow> (VM list) res"
  vmiByIndex :: "string \<Rightarrow> (VMI list) res"
  subnetEnabled :: bool
  lmGet :: "string \<Rightarrow> LinkMonitor res"
  lmList :: "selector \<Rightarrow> (LinkMonitor list) res"
  jobGet :: "string \<Rightarrow> string \<Rightarrow> Job res"
  vcGet :: "string \<Rightarrow> VlanConfig res"
  nodeGet :: "string \<Rightarrow> Node res"

text \<open>An operation of a JSON patch, as the mutators build them.\<close>

datatype patch_value = PatchString string | PatchMap strmap

record PatchOp =
  Op :: string
  Path :: string
  Value :: patch_value

definition PatchOpReplace :: string where "PatchOpReplace = ''replace''"

definition replace_op :: "string \<Rightarrow> patch_value \<Rightarrow> PatchOp" where
  "replace_op path val = \<lparr>Op = PatchOpReplace, Path = path, Value = val\<rparr>"

text \<open>A state of the cluster, as the sequences of objects the informers have seen.\<close>

record cluster =
  cl_cns :: "ClusterNetwork list"
  cl_vcs :: "VlanConfig list"
  cl_vss :: "VlanStatus list"
  cl_nads :: "Nad list"
  cl_nodes :: "Node list"
  cl_hncs :: "HostNetworkConfig list"
  cl_subnets :: "Subnet list"
  cl_vpcs :: "objmeta list"
  cl_vms :: "VM list"
  cl_vmis :: "VMI list"
  cl_kubeovn :: bool
  cl_lms :: "LinkMonitor list"
  cl_jobs :: "Job list"

definition caches_of :: "cluster \<Rightarrow> caches" where
  "caches_of c =
     \<lparr>cnGet = store_get (indexer (cl_cns c)) [],
      vcList = store_list (indexer (cl_vcs c)) [],
      vsGet = store_get (indexer (cl_vss c)) [],
      vsList = store_list (indexer (cl_vss c)) [],
      nadGet = store_get (indexer (cl_nads c)),
      nadList = store_list (indexer (cl_nads c)),
      nodeList = store_list (indexer (cl_nodes c)) [],
      hncList = store_list (indexer (cl_hncs c)) [],
      subnetList = store_list (indexer (cl_subnets c)) [],
      vpcGet = store_get (indexer (cl_vpcs c)) [],
      vmByIndex = get_by_index vmByNetwork (indexer (cl_vms c)),
      vmiByIndex = get_by_index vmiByNetwork (indexer (cl_vmis c)),
      subnetEnabled = cl_kubeovn c,
      lmGet = store_get (indexer (cl_lms c)) [],
      lmList = store_list (indexer (cl_lms c)) [],
      jobGet = store_get (indexer (cl_jobs c)),
      vcGet = store_get (indexer (cl_vcs c)) [],
      nodeGet = store_get (indexer (cl_nodes c)) []\<rparr>"

definition cluster0 :: cluster where
  "cluster0 = \<lparr>cl_cns = [], cl_vcs = [], cl_vss = [], cl_nads = [], cl_nodes = [], cl_hncs = [],
               cl_subnets = [], cl_vpcs = [], cl_vms = [], cl_vmis = [], cl_kubeovn = True,
               cl_lms = [], cl_jobs = []\<rparr>"

lemma caches_of_simps [simp]:
  "cnGet (caches_of c) = store_get (indexer (cl_cns c)) []"
  "vcList (caches_of c) = store_list (indexer (cl_vcs c)) []"
  "vsGet (caches_of c) = store_get (indexer (cl_vss c)) []"
  "vsList (caches_of c) = store_list (indexer (cl_vss c)) []"
  "nadGet (caches_of c) = store_get (indexer (cl_nads c))"
  "nadList (caches_of c) = store_list (indexer (cl_nads c))"
  "nodeList (caches_of c) = store_list (indexer (cl_nodes c)) []"
  "hncList (caches_of c) = store_list (indexer (cl_hncs c)) []"
  "subnetList (caches_of c) = store_list (indexer (cl_subnets c)) []"
  "vpcGet (caches_of c) = store_get (indexer (cl_vpcs c)) []"
  "vmByIndex (caches_of c) = get_by_index vmByNetwork (indexer (cl_vms c))"
  "vmiByIndex (caches_of c) = get_by_index vmiByNetwork (indexer (cl_vmis c))"
  "subnetEnabled (caches_of c) = cl_kubeovn c"
  "lmGet (caches_of c) = store_get (indexer (cl_lms c)) []"
  "lmList (caches_of c) = store_list (indexer (cl_lms c)) []"
  "jobGet (caches_of c) = store_get (indexer (cl_jobs c))"
  "vcGet (caches_of c) = store_get (indexer (cl_vcs c)) []"
  "nodeGet (caches_of c) = store_get (indexer (cl_nodes c)) []"
  by (simp_all add: caches_of_def)

lemma store_list_labelled:
  "\<exists>xs. store_list (indexer added) [] (SelectorFromSet [(k, v)]) = Inr xs
     \<and> set xs = {x \<in> set (indexer added). mlookup (o_labels x) k = Some v}"
  using store.list_Inr [of added "[]" "SelectorFromSet [(k, v)]"] by auto

lemma store_list_all:
  "\<exists>xs. store_list (indexer added) [] Everything = Inr xs \<and> set xs = set (indexer added)"
  using store.list_Inr [of added "[]" Everything] by auto

end
