(* ===== verification/Webhook_Nad.thy ===== *)
theory Webhook_Nad
  imports Caches
begin

text \<open>
  \<open>pkg/webhook/nad\<close>: the admission validator and mutator of network attachment definitions.
  A validator method returns the error it reports, a mutator method its patch or an error.
  \<open>sjson_Set_mtu\<close> stands for \<open>sjson.Set(config, "mtu", value)\<close>.
\<close>

section \<open>The validator\<close>

definition nad_createErr :: string where "nad_createErr = ''can't create nad %s/%s because %w''"
definition nad_updateErr :: string where "nad_updateErr = ''can't update nad %s/%s because %w''"
definition nad_deleteErr :: string where "nad_deleteErr = ''can't delete nad %s/%s because %w''"

definition nad_checkSubnetsUsingNAD :: "caches \<Rightarrow> Nad \<Rightarrow> go_error option" where
  "nad_checkSubnetsUsingNAD v nad =
     with_res (subnetList v Everything) (render ''failed to retrieve subnets err=%v'') (\<lambda>subnets.
     with_res (GetProviderFromNad (o_name nad) (o_namespace nad)) id (\<lambda>provider.
     first_err (\<lambda>subnet. if sp_Provider (sn_Spec subnet) = provider
                          then Some (Errorf ''subnet %s is still using the nad %s %s'') else None) subnets))"

text \<open>
  The MTU of a cluster network: its annotation, or else the MTU of the first of its VLAN
  configs, which are found by the label value \<open>sel\<close>.
\<close>

definition target_mtu :: "caches \<Rightarrow> ClusterNetwork \<Rightarrow> string \<Rightarrow> int res" where
  "target_mtu v cn sel =
     (case mlookup (o_annotations cn) KeyUplinkMTU of
        Some mtuStr \<Rightarrow>
          bind_res (GetMTUFromString mtuStr)
            (wrap ''nad's host cluster network %v has invalid MTU annotation %v/%v %w'') (\<lambda>mtu.
          Inr (if mtu \<noteq> 0 then mtu else DefaultMTU))
      | None \<Rightarrow>
          bind_res (vcList v (SelectorFromSet [(KeyClusterNetworkLabel, sel)])) id (\<lambda>vcs.
          Inr (case vcs of
                 [] \<Rightarrow> DefaultMTU
               | vc # _ \<Rightarrow> (let mtu = GetMTUFromVlanConfig (Some vc)
                            in if IsValidMTU mtu \<and> mtu \<noteq> 0 then mtu else DefaultMTU))))"

definition checkNadConfig :: "caches \<Rightarrow> NetConf option \<Rightarrow> Nad \<Rightarrow> go_error option" where
  "checkNadConfig v conf_ptr nad =
     (case conf_ptr of
        None \<Rightarrow> Some (Errorf ''config is empty'')
      | Some nadConf \<Rightarrow>
          (let clusterNetwork = GetNadLabel (Some nad) KeyClusterNetworkLabel
           in if IsKubeOVNCNI nadConf then
                with_res (GetNadNameFromProvider (Provider nadConf)) id (\<lambda>(nadName, nadNamespace).
                if o_name nad \<noteq> nadName \<or> o_namespace nad \<noteq> nadNamespace
                then Some (Errorf ''invalid provider name %s %s for nad %s %s'') else None)
              else
                with_res (IsVlanConfigValid nadConf) id (\<lambda>_.
                with_res (GetBridgeNamePrefix (BrName nadConf)) id (\<lambda>cnName.
                if clusterNetwork \<noteq> [] \<and> cnName \<noteq> clusterNetwork
                then Some (Errorf ''the nad label %s does not match bridge name %s'')
                else
                with_res (cnGet v cnName) (wrap ''nad refers to a none-existing cluster network %s or error %w'') (\<lambda>cn.
                with_res (target_mtu v cn clusterNetwork) id (\<lambda>targetMTU.
                if \<not> AreEqualMTUs targetMTU (nc_MTU nadConf)
                then Some (Errorf ''nad MTU %v does not match cluster network MTU %v'')
                else None))))))"

definition checkNadTypes :: "NetConf \<Rightarrow> NetConf \<Rightarrow> go_error option" where
  "checkNadTypes oldNC newNC =
     (if nc_Type oldNC \<noteq> nc_Type newNC
      then Some (Errorf ''nad cannot be updated from network type %s to network type %s'') else None)"

definition checkNadConfigBridgeName :: "NetConf \<Rightarrow> NetConf \<Rightarrow> go_error option" where
  "checkNadConfigBridgeName oldNC newNC =
     (if BrName oldNC \<noteq> BrName newNC
      then Some (Errorf ''nad bridge name can't be changed from %v to %v'') else None)"

definition checkRoute :: "golib \<Rightarrow> string \<Rightarrow> go_error option" where
  "checkRoute g config = with_res (NewLayer3NetworkConf g config) id (\<lambda>_. None)"

definition nad_checkVmi :: "caches \<Rightarrow> Nad \<Rightarrow> go_error option" where
  "nad_checkVmi v nad =
     with_res (VmiNamesWhoUseNad (vmiByIndex v) nad False None) id (\<lambda>vmiStrList.
     if length vmiStrList > 0
     then Some (Errorf ''it's still used by VM(s) %s which must be stopped at first'') else None)"

definition nad_checkVM :: "caches \<Rightarrow> Nad \<Rightarrow> go_error option" where
  "nad_checkVM v nad =
     with_res (VMNamesWhoUseNad (vmByIndex v) nad) id (\<lambda>vmStrList.
     if length vmStrList > 0
     then Some (Errorf ''it's still used by VM(s) %s which must remove the related networks and interfaces'')
     else None)"

definition checkSystemNetwork :: "Nad \<Rightarrow> go_error option" where
  "checkSystemNetwork nad =
     (if IsSystemNetworkNad (Some nad) then Some (Errorf ''system network nad's params can't be changed'') else None)"

definition nad_checkifVMExistsForOverlayNADs :: "caches \<Rightarrow> go_error option" where
  "nad_checkifVMExistsForOverlayNADs v =
     with_res (ListAllNads (nadList v)) (wrap ''nad does not exist err %w'') (\<lambda>nads.
     first_err (\<lambda>nad. if IsOverlayNad (Some nad) then nad_checkVM v nad else None) nads)"

definition checkOverlayVMsUsingClusterNetwork :: "caches \<Rightarrow> Nad \<Rightarrow> int \<Rightarrow> go_error option" where
  "checkOverlayVMsUsingClusterNetwork v nad vlanID =
     (if vlanID = 0 then None
      else let clusterNetwork = GetNadLabel (Some nad) KeyClusterNetworkLabel
           in with_res (hncList v Everything) id (\<lambda>hncs.
              first_err (\<lambda>hnc.
                if hs_ClusterNetwork (hnc_Spec hnc) \<noteq> clusterNetwork then None
                else if o_deleting hnc then None
                else if hs_Underlay (hnc_Spec hnc) \<and> uint (hs_VlanID (hnc_Spec hnc)) = vlanID
                then guard_err (nad_checkifVMExistsForOverlayNADs v)
                       (wrap ''hostnetworkconfig %s is using nad %s vid %d as underlay on cluster network %s, %w'') None
                else None) hncs))"

definition checkVlanOverlapWithSN :: "golib \<Rightarrow> caches \<Rightarrow> Nad \<Rightarrow> NetConf \<Rightarrow> go_error option" where
  "checkVlanOverlapWithSN g v nad nadConf =
     (if IsSystemNetworkNad (Some nad) \<or> IsKubeOVNCNI nadConf then None
      else with_res (nadList v [] (SelectorFromSet [(ExclusiveVlanStorageNetworkLabel, ''true'')]))
             (wrap ''failed to list storage network nads with exclusive vlan enabled, err %w'') (\<lambda>snNads.
           case snNads of
             [] \<Rightarrow> None
           | sn # _ \<Rightarrow>
               with_res (DecodeNadConfigToNetConf g (Some sn))
                 (wrap ''failed to decode storage network nad %s/%s config, err %w'') (\<lambda>snNadConf.
               with_res (IsVlanOverlapping nadConf snNadConf) id (\<lambda>overlap.
               if overlap then Some (Errorf ''vlan %d is exclusively reserved for storage network'') else None))))"

definition NadValidator_Create :: "golib \<Rightarrow> caches \<Rightarrow> Nad \<Rightarrow> go_error option" where
  "NadValidator_Create g v nad =
     with_res (DecodeNadConfigToNetConf g (Some nad)) (wrap nad_createErr) (\<lambda>conf.
     guard_err (checkVlanOverlapWithSN g v nad conf) (wrap nad_createErr)
     (guard_err (if IsKubeOVNCNI conf \<and> \<not> subnetEnabled v then Some (Errorf ''kubeovn is not yet enabled'') else None)
        (wrap nad_createErr)
     (guard_err (checkNadConfig v (Some conf) nad) (wrap nad_createErr)
     (guard_err (checkRoute g (mget (o_annotations nad) KeyNetworkRoute)) (wrap nad_createErr) None))))"

definition NadValidator_Update :: "golib \<Rightarrow> caches \<Rightarrow> Nad \<Rightarrow> Nad \<Rightarrow> go_error option" where
  "NadValidator_Update g v oldNad newNad =
     (if o_deleting newNad then None
      else with_res (DecodeNadConfigToNetConf g (Some newNad)) (wrap nad_updateErr) (\<lambda>newConf.
           with_res (DecodeNadConfigToNetConf g (Some oldNad)) (wrap nad_updateErr) (\<lambda>oldConf.
           guard_err (checkRoute g (mget (o_annotations newNad) KeyNetworkRoute)) (wrap nad_updateErr)
           (if newConf = oldConf then None
            else
             guard_err (checkVlanOverlapWithSN g v newNad newConf) (wrap nad_updateErr)
             (guard_err (checkNadTypes oldConf newConf) (wrap nad_updateErr)
             (guard_err (checkNadConfigBridgeName oldConf newConf) (wrap nad_updateErr)
             (guard_err (checkNadConfig v (Some newConf) newNad) (wrap nad_updateErr)
             (guard_err (nad_checkVmi v newNad) (wrap nad_updateErr)
             (guard_err (checkSystemNetwork newNad) (wrap nad_updateErr) None)))))))))"

definition NadValidator_Delete :: "golib \<Rightarrow> caches \<Rightarrow> Nad \<Rightarrow> go_error option" where
  "NadValidator_Delete g v nad =
     with_res (DecodeNadConfigToNetConf g (Some nad)) (wrap nad_updateErr) (\<lambda>nadConf.
     if IsKubeOVNCNI nadConf then
       (if \<not> subnetEnabled v then None else nad_checkSubnetsUsingNAD v nad)
     else
       guard_err (nad_checkVmi v nad) (wrap nad_deleteErr)
       (guard_err (nad_checkVM v nad) (wrap nad_deleteErr)
       (guard_err (checkOverlayVMsUsingClusterNetwork v nad (GetVlanID nadConf)) (wrap nad_deleteErr) None)))"

section \<open>The mutator\<close>

text \<open>The first live node that has a tunnel interface decides.\<close>

fun cn_from_nodes :: "Node list \<Rightarrow> string res" where
  "cn_from_nodes [] = Inr ManagementClusterNetworkName"
| "cn_from_nodes (node # nodes) =
     (if o_deleting node then cn_from_nodes nodes
      else if o_annotations node = None then cn_from_nodes nodes
      else case mlookup (o_annotations node) KeyUnderlayIntf of
             None \<Rightarrow> cn_from_nodes nodes
           | Some iface \<Rightarrow>
               if iface = [] then cn_from_nodes nodes
               else bind_res (GetClusterNetworkName iface)
                      (wrap ''failed to get bridge name from node %s annotation, error: %w'') Inr)"

definition getClusterNetworkFromNodeAnnotation :: "caches \<Rightarrow> string res" where
  "getClusterNetworkFromNodeAnnotation m = bind_res (nodeList m Everything) id cn_from_nodes"

definition ensureLabels :: "caches \<Rightarrow> Nad \<Rightarrow> NetConf \<Rightarrow> (PatchOp list) res" where
  "ensureLabels m nad newConf =
     (let labels = Some (mmake (o_labels nad))
      in if IsKubeOVNCNI newConf then
           bind_res (getClusterNetworkFromNodeAnnotation m)
             (wrap ''failed to get cluster network from node annotation, error: %w'') (\<lambda>overlayCn.
           Inr [replace_op ''/metadata/labels'' (PatchMap
                  (mdelete KeyVlanLabel
                    (mput KeyClusterNetworkLabel overlayCn
                      (mput KeyNetworkReady ValueTrue
                        (mput KeyNetworkType OverlayNetwork labels)))))])
         else case SetNetworkInfoToLabels newConf labels of
                (Some e, _) \<Rightarrow> Inl e
              | (None, labels1) \<Rightarrow>
                  bind_res (cnGet m (mget labels1 KeyClusterNetworkLabel)) id (\<lambda>cn.
                  Inr [replace_op ''/metadata/labels'' (PatchMap
                        (mput KeyNetworkReady (if CondIsTrue Ready (cn_Conditions cn) then ValueTrue else ValueFalse)
                           labels1))]))"

text \<open>\<open>len(newNad.Annotations) == 0\<close>.\<close>

definition map_empty :: "strmap \<Rightarrow> bool" where
  "map_empty m = (mmake m = Map.empty)"

definition tagRouteOutdated :: "golib \<Rightarrow> Nad \<Rightarrow> Nad \<Rightarrow> NetConf \<Rightarrow> NetConf \<Rightarrow> (PatchOp list) res" where
  "tagRouteOutdated g oldNad newNad oldConf newConf =
     (if IsKubeOVNCNI newConf then Inr []
      else if map_empty (o_annotations newNad) then Inr []
      else if Vlan oldConf \<noteq> Vlan newConf then
        bind_res (OutdateNadLayer3NetworkConf g (Some newNad) (Some newConf)) id (\<lambda>annotations.
        Inr [replace_op ''/metadata/annotations'' (PatchMap annotations)])
      else
        bind_res (OutdateNadLayer3NetworkConfWhenRouteModeChanges g (Some oldNad) (Some newNad)) id (\<lambda>annotations.
        if annotations = None then Inr []
        else Inr [replace_op ''/metadata/annotations'' (PatchMap annotations)]))"

definition patchMTU :: "golib \<Rightarrow> (string \<Rightarrow> int \<Rightarrow> string res) \<Rightarrow> caches \<Rightarrow> Nad \<Rightarrow> (PatchOp list) res" where
  "patchMTU g sjson_Set_mtu m nad =
     bind_res (DecodeNadConfigToNetConf g (Some nad)) id (\<lambda>netConf.
     if IsKubeOVNCNI netConf then Inr []
     else bind_res (GetClusterNetworkFromBridgeName (BrName netConf)) id (\<lambda>clusterNetwork.
          bind_res (cnGet m clusterNetwork) id (\<lambda>cn.
          bind_res (target_mtu m cn clusterNetwork) id (\<lambda>targetMTU.
          if AreEqualMTUs targetMTU (nc_MTU netConf) then Inr []
          else bind_res (sjson_Set_mtu (nad_Config nad) targetMTU) (wrap ''set mtu failed, error: %w'') (\<lambda>newConfig.
               Inr [replace_op ''/spec/config'' (PatchString newConfig)])))))"

definition NadMutator_Create :: "golib \<Rightarrow> (string \<Rightarrow> int \<Rightarrow> string res) \<Rightarrow> caches \<Rightarrow> Nad \<Rightarrow> (PatchOp list) res" where
  "NadMutator_Create g sjson_Set_mtu m nad =
     bind_res (patchMTU g sjson_Set_mtu m nad) (wrap nad_createErr) Inr"

definition NadMutator_Update :: "golib \<Rightarrow> caches \<Rightarrow> Nad \<Rightarrow> Nad \<Rightarrow> (PatchOp list) res" where
  "NadMutator_Update g m oldNad newNad =
     (if o_deleting newNad then Inr []
      else bind_res (DecodeNadConfigToNetConf g (Some oldNad)) (wrap nad_updateErr) (\<lambda>oldNetconf.
           bind_res (DecodeNadConfigToNetConf g (Some newNad)) (wrap nad_updateErr) (\<lambda>newNetconf.
           bind_res (ensureLabels m newNad newNetconf) (wrap nad_updateErr) (\<lambda>patch.
           bind_res (tagRouteOutdated g oldNad newNad oldNetconf newNetconf) (wrap nad_updateErr) (\<lambda>annotationPatch.
           Inr (patch @ annotationPatch))))))"

text \<open>What the API server does with these patches.\<close>

definition apply_op :: "PatchOp \<Rightarrow> Nad \<Rightarrow> Nad" where
  "apply_op p nad =
     (case Value p of
        PatchString s \<Rightarrow> if Path p = ''/spec/config'' then nad\<lparr>nad_Config := s\<rparr> else nad
      | PatchMap m \<Rightarrow> if Path p = ''/metadata/labels'' then nad\<lparr>o_labels := m\<rparr>
                      else if Path p = ''/metadata/annotations'' then nad\<lparr>o_annotations := m\<rparr> else nad)"

definition apply_patch :: "PatchOp list \<Rightarrow> Nad \<Rightarrow> Nad" where
  "apply_patch ps nad = fold apply_op ps nad"

section \<open>What the checks mean on a state of the cluster\<close>

definition vm_attached :: "cluster \<Rightarrow> Nad \<Rightarrow> bool" where
  "vm_attached c nad \<longleftrightarrow> (\<exists>v \<in> set (indexer (cl_vms c)). attaches vmByNetwork v nad)"

definition vmi_attached :: "cluster \<Rightarrow> Nad \<Rightarrow> bool" where
  "vmi_attached c nad \<longleftrightarrow> (\<exists>v \<in> set (indexer (cl_vmis c)). attaches vmiByNetwork v nad)"

definition subnet_uses :: "cluster \<Rightarrow> string \<Rightarrow> bool" where
  "subnet_uses c provider \<longleftrightarrow> (\<exists>s \<in> set (indexer (cl_subnets c)). sp_Provider (sn_Spec s) = provider)"

definition overlay_in_use :: "cluster \<Rightarrow> bool" where
  "overlay_in_use c \<longleftrightarrow> (\<exists>nad \<in> set (indexer (cl_nads c)). IsOverlayNad (Some nad) \<and> vm_attached c nad)"

text \<open>A live host network config uses this VLAN of the cluster network as the underlay.\<close>

definition underlay_on :: "cluster \<Rightarrow> string \<Rightarrow> int \<Rightarrow> bool" where
  "underlay_on c cn vlan \<longleftrightarrow>
     (\<exists>h \<in> set (indexer (cl_hncs c)). hs_ClusterNetwork (hnc_Spec h) = cn \<and> \<not> o_deleting h
        \<and> hs_Underlay (hnc_Spec h) \<and> uint (hs_VlanID (hnc_Spec h)) = vlan)"

lemma nad_checkVM_None: "nad_checkVM (caches_of c) nad = None \<longleftrightarrow> \<not> vm_attached c nad"
  using VMNames_store [of "cl_vms c" nad] by (auto simp: nad_checkVM_def vm_attached_def)

lemma nad_checkVmi_None: "nad_checkVmi (caches_of c) nad = None \<longleftrightarrow> \<not> vmi_attached c nad"
  using VmiNames_store [of "cl_vmis c" nad False None]
  by (auto simp: nad_checkVmi_def vmi_attached_def vmi_uses_def)

lemma nad_checkOverlay_None: "nad_checkifVMExistsForOverlayNADs (caches_of c) = None \<longleftrightarrow> \<not> overlay_in_use c"
  using store_list_all [of "cl_nads c"]
  by (auto simp: nad_checkifVMExistsForOverlayNADs_def ListAllNads_def overlay_in_use_def nad_checkVM_None)

lemma checkOverlayVMs_None:
  "checkOverlayVMsUsingClusterNetwork (caches_of c) nad vlan = None \<longleftrightarrow>
     (if vlan = 0 then True else \<not> (underlay_on c (GetNadLabel (Some nad) KeyClusterNetworkLabel) vlan \<and> overlay_in_use c))"
  using store_list_all [of "cl_hncs c"]
  by (auto simp: checkOverlayVMsUsingClusterNetwork_def underlay_on_def nad_checkOverlay_None Let_def)

lemma nad_checkSubnets_None:
  "nad_checkSubnetsUsingNAD (caches_of c) nad = None \<longleftrightarrow>
     (\<exists>p. GetProviderFromNad (o_name nad) (o_namespace nad) = Inr p \<and> \<not> subnet_uses c p)"
  using store_list_all [of "cl_subnets c"]
  by (auto simp: nad_checkSubnetsUsingNAD_def subnet_uses_def split: if_splits)

section \<open>Properties\<close>

text \<open>
  C28. The webhook admits the deletion of a NAD exactly when its configuration can be decoded and,
  for a CNI other than kube-ovn, no VM and no running VM is attached to it and, if its VLAN (not 0)
  carries the underlay of the overlay networks, no VM is attached to any overlay network. A kube-ovn
  NAD is not checked for VMs: while kube-ovn is enabled its name and namespace must give a provider
  that no subnet names, and otherwise nothing is asked of it.
\<close>

theorem nad_delete_iff:
  "NadValidator_Delete g (caches_of c) nad = None \<longleftrightarrow>
     (\<exists>conf. DecodeNadConfigToNetConf g (Some nad) = Inr conf \<and>
        (if IsKubeOVNCNI conf
         then if cl_kubeovn c then \<exists>p. GetProviderFromNad (o_name nad) (o_namespace nad) = Inr p \<and> \<not> subnet_uses c p
              else True
         else \<not> vmi_attached c nad \<and> \<not> vm_attached c nad
              \<and> (if GetVlanID conf = 0 then True
                 else \<not> (underlay_on c (GetNadLabel (Some nad) KeyClusterNetworkLabel) (GetVlanID conf)
                         \<and> overlay_in_use c))))"
  by (auto simp: NadValidator_Delete_def nad_checkSubnets_None nad_checkVM_None nad_checkVmi_None
      checkOverlayVMs_None)

text \<open>
  C29. An update that changes the configuration of a NAD which is not being deleted, and gives it a CNI
  other than kube-ovn, is admitted only while no running VM is attached and the NAD is not a system
  network; the CNI type and the bridge stay the same, the VLAN part is valid, and the MTU is the one of
  the existing cluster network the bridge belongs to. An update of a NAD that is being deleted is not
  checked at all: it is admitted whatever it changes, running VMs or not.
\<close>

theorem nad_update_safe:
  assumes "DecodeNadConfigToNetConf g (Some new) = Inr nc" "DecodeNadConfigToNetConf g (Some old) = Inr oc" "nc \<noteq> oc"
    and "\<not> IsKubeOVNCNI nc"
  shows "if o_deleting new then NadValidator_Update g (caches_of c) old new = None
     else NadValidator_Update g (caches_of c) old new = None \<longrightarrow>
       \<not> vmi_attached c new \<and> \<not> IsSystemNetworkNad (Some new) \<and> nc_Type nc = nc_Type oc \<and> BrName nc = BrName oc
       \<and> IsVlanConfigValid nc = Inr True
       \<and> (\<exists>cn m. cn \<in> set (indexer (cl_cns c)) \<and> BrName nc = o_name cn @ BridgeSuffix
            \<and> target_mtu (caches_of c) cn (GetNadLabel (Some new) KeyClusterNetworkLabel) = Inr m
            \<and> AreEqualMTUs m (nc_MTU nc))"
  using assms
  by (auto simp: NadValidator_Update_def nad_checkVmi_None checkSystemNetwork_def checkNadTypes_def
      checkNadConfigBridgeName_def checkNadConfig_def Let_def BridgeName_prefix_Inr store.get_Inr key_of_def
      IsVlanConfigValid_Inr split: if_splits)

text \<open>
  The VLAN of an exclusive storage network is kept apart: with a valid configuration of
  an ordinary bridge NAD the check passes exactly when the NAD does not use the storage
  VLAN, as its tag or within its trunk ranges (an untagged storage network conflicts with
  untagged and trunk NADs).
\<close>

lemma storage_vlan_exclusive:
  assumes "nc_ok nc" "\<not> IsSystemNetworkNad (Some nad)" "\<not> IsKubeOVNCNI nc"
    and "nadList v [] (SelectorFromSet [(ExclusiveVlanStorageNetworkLabel, ''true'')]) = Inr (sn # sns)"
    and "DecodeNadConfigToNetConf g (Some sn) = Inr snc"
  shows "checkVlanOverlapWithSN g v nad nc = None \<longleftrightarrow>
     (if GetVlanID snc = 0 then GetVlanID nc \<noteq> 0 else GetVlanID snc \<notin> nc_vids nc)"
proof -
  have trunk: "HasTrunkVlanID t nc = Inr (t \<in> \<Union> (item_vids ` set (trunk_items nc)))" for t
    using assms(1) by (simp add: HasTrunkVlanID_def nc_ok_def has_trunk_vid_set)
  have "0 \<notin> \<Union> (item_vids ` set (trunk_items nc))"
    using assms(1) item_vids_bounds by (fastforce simp: nc_ok_def IsVlanConfigValid_Inr)
  with assms(2-) trunk show ?thesis
    by (auto simp: checkVlanOverlapWithSN_def IsVlanOverlapping_def Let_def nc_vids_def GetVlanID_def IsVlanAccessMode_def)
qed

text \<open>
  C30. The MTU the mutator writes into a new bridge NAD is the one the validator asks for:
  when the NAD carries the label of the bridge's cluster network, or that network has its MTU
  annotation, the MTU check of the patched NAD passes.
\<close>

theorem mutated_mtu_is_admitted:
  assumes law: "\<And>cfg m cfg' conf. set_mtu cfg m = Inr cfg' \<Longrightarrow> UnmarshalNetConf g cfg = Inr conf \<Longrightarrow>
             cfg' \<noteq> [] \<and> UnmarshalNetConf g cfg' = Inr (conf\<lparr>nc_MTU := m\<rparr>)"
    and "NadMutator_Create g set_mtu v nad = Inr patch"
    and "DecodeNadConfigToNetConf g (Some nad) = Inr conf" "nad_Config nad \<noteq> []"
    and "\<not> IsKubeOVNCNI conf" "IsVlanConfigValid conf = Inr True"
    and "cnGet v cnName = Inr cn" "GetBridgeNamePrefix (BrName conf) = Inr cnName"
    and "GetNadLabel (Some nad) KeyClusterNetworkLabel = cnName
         \<or> (GetNadLabel (Some nad) KeyClusterNetworkLabel = [] \<and> mlookup (o_annotations cn) KeyUplinkMTU \<noteq> None)"
  shows "\<exists>conf'. DecodeNadConfigToNetConf g (Some (apply_patch patch nad)) = Inr conf'
     \<and> checkNadConfig v (Some conf') (apply_patch patch nad) = None"
proof -
  have dec: "UnmarshalNetConf g (nad_Config nad) = Inr conf"
    using assms(3,4) by (auto simp: DecodeNadConfigToNetConf_def)
  obtain m where m: "target_mtu v cn cnName = Inr m"
    using assms by (auto simp: NadMutator_Create_def patchMTU_def GetBridgeNamePrefix_def)
  have same: "target_mtu v cn (GetNadLabel (Some nad) KeyClusterNetworkLabel) = Inr m"
    using assms(9) m by (auto simp: target_mtu_def)
  have check: "checkNadConfig v (Some conf') nad' = None"
    if "conf' = conf\<lparr>nc_MTU := x\<rparr>" "AreEqualMTUs m x" "o_labels nad' = o_labels nad" for conf' x and nad' :: Nad
  proof -
    have "GetNadLabel (Some nad') KeyClusterNetworkLabel = GetNadLabel (Some nad) KeyClusterNetworkLabel"
      using that(3) by (simp add: GetNadLabel_def)
    then show ?thesis
      using assms(5-9) that(1,2) same
      by (auto simp: checkNadConfig_def Let_def IsKubeOVNCNI_def IsVlanConfigValid_Inr trunk_items_def)
  qed
  show ?thesis
  proof (cases "AreEqualMTUs m (nc_MTU conf)")
    case True
    then have "patch = []"
      using assms(2,3,5,7,8) m by (auto simp: NadMutator_Create_def patchMTU_def GetBridgeNamePrefix_def)
    then show ?thesis
      using check [of conf "nc_MTU conf" nad] True assms(3) by (auto simp: apply_patch_def)
  next
    case False
    then obtain cfg' where cfg': "set_mtu (nad_Config nad) m = Inr cfg'"
      "patch = [replace_op ''/spec/config'' (PatchString cfg')]"
      using assms(2,3,5,7,8) m by (auto simp: NadMutator_Create_def patchMTU_def GetBridgeNamePrefix_def)
    then have p: "apply_patch patch nad = nad\<lparr>nad_Config := cfg'\<rparr>"
      by (simp add: apply_patch_def apply_op_def replace_op_def)
    from law [OF cfg'(1) dec] have "DecodeNadConfigToNetConf g (Some (apply_patch patch nad)) = Inr (conf\<lparr>nc_MTU := m\<rparr>)"
      by (simp add: p DecodeNadConfigToNetConf_def)
    with check [of "conf\<lparr>nc_MTU := m\<rparr>" m "apply_patch patch nad"] p show ?thesis by simp
  qed
qed

text \<open>
  After an admitted update of a bridge NAD the labels the mutator writes name the
  cluster network of the bridge and say whether that network is ready.
\<close>

lemma mutated_labels:
  assumes "NadMutator_Update g (caches_of c) old new = Inr patch" "\<not> o_deleting new"
    and "DecodeNadConfigToNetConf g (Some new) = Inr nc" "IsBridgeCNI nc"
  shows "\<exists>cn. cn \<in> set (indexer (cl_cns c)) \<and> BrName nc = o_name cn @ BridgeSuffix
     \<and> mget (o_labels (apply_patch patch new)) KeyClusterNetworkLabel = o_name cn
     \<and> mget (o_labels (apply_patch patch new)) KeyNetworkReady
         = (if CondIsTrue Ready (cn_Conditions cn) then ValueTrue else ValueFalse)"
proof -
  have nov: "\<not> IsKubeOVNCNI nc" using assms(4) by (auto simp: IsBridgeCNI_def IsKubeOVNCNI_def cni_types)
  obtain oc p q where pq: "ensureLabels (caches_of c) new nc = Inr p"
    "tagRouteOutdated g old new oc nc = Inr q" "patch = p @ q"
    using assms(1-3) by (auto simp: NadMutator_Update_def)
  obtain l where l: "SetNetworkInfoToLabels nc (Some (mmake (o_labels new))) = (None, l)"
    using pq(1) nov by (auto simp: ensureLabels_def split: prod.splits option.splits)
  then have br: "GetBridgeNamePrefix (BrName nc) = Inr (mget l KeyClusterNetworkLabel)"
    using nov assms(4)
    by (auto simp: SetNetworkInfoToLabels_def Let_def split: if_splits sum.splits)
  obtain cn where cn: "store_get (indexer (cl_cns c)) [] (mget l KeyClusterNetworkLabel) = Inr cn"
    "p = [replace_op ''/metadata/labels'' (PatchMap
            (mput KeyNetworkReady (if CondIsTrue Ready (cn_Conditions cn) then ValueTrue else ValueFalse) l))]"
    using pq(1) nov l by (auto simp: ensureLabels_def)
  have q: "q = [] \<or> (\<exists>a. q = [replace_op ''/metadata/annotations'' (PatchMap a)])"
    using pq(2) nov by (auto simp: tagRouteOutdated_def split: if_splits)
  have "o_labels (apply_patch patch new) =
      mput KeyNetworkReady (if CondIsTrue Ready (cn_Conditions cn) then ValueTrue else ValueFalse) l"
    using q by (auto simp: pq(3) cn(2) apply_patch_def apply_op_def replace_op_def)
  with cn(1) br show ?thesis
    by (auto simp: store.get_Inr key_of_def BridgeName_prefix_Inr)
qed

definition demo_cn :: "string \<Rightarrow> strmap \<Rightarrow> ClusterNetwork" where
  "demo_cn n ann = \<lparr>o_name = n, o_namespace = [], o_labels = None, o_annotations = ann, o_deleting = False,
     cn_Conditions = []\<rparr>"

definition demo_cluster :: cluster where
  "demo_cluster = cluster0\<lparr>cl_cns := [demo_cn ''cn1'' None], cl_nads := [demo_nad ''{}'']\<rparr>"

lemma demo_decode:
  "DecodeNadConfigToNetConf demo_golib (Some (demo_nad ''{}'')) = Inr (NetConf0\<lparr>BrName := ''cn1-br'', Vlan := 2\<rparr>)"
  "DecodeNadConfigToNetConf demo_golib (Some (demo_nad ''{ }'')) = Inr (NetConf0\<lparr>BrName := ''cn1-br'', Vlan := 3\<rparr>)"
  by (simp_all add: DecodeNadConfigToNetConf_def demo_golib_def demo_nad_def)

lemma demo_prefix: "GetBridgeNamePrefix ''cn1-br'' = Inr ''cn1''"
  by (simp add: BridgeName_prefix_Inr BridgeSuffix_def)

lemma demo_not_system: "\<not> IsSystemNetworkNad (Some (demo_nad cfg))"
  by (simp add: IsSystemNetworkNad_def demo_nad_def HarvesterSystemNamespaceName_def)

lemma demo_not_ovn: "\<not> IsKubeOVNCNI (NetConf0\<lparr>BrName := b, Vlan := i\<rparr>)" "IsBridgeCNI (NetConf0\<lparr>BrName := b, Vlan := i\<rparr>)"
  by (simp_all add: IsKubeOVNCNI_def IsBridgeCNI_def NetConf0_def cni_types)

lemma demo_valid: "0 \<le> i \<Longrightarrow> i \<le> 4094 \<Longrightarrow> IsVlanConfigValid (NetConf0\<lparr>BrName := b, Vlan := i\<rparr>) = Inr True"
  by (simp add: IsVlanConfigValid_Inr NetConf0_def trunk_items_def MaxVlanID_def)

lemma demo_cluster_lists:
  "indexer (cl_cns demo_cluster) = [demo_cn ''cn1'' None]" "indexer (cl_nads demo_cluster) = [demo_nad ''{}'']"
  "indexer (cl_vms demo_cluster) = []" "indexer (cl_vmis demo_cluster) = []" "indexer (cl_vcs demo_cluster) = []"
  by (simp_all add: demo_cluster_def cluster0_def indexer_def store_put_def)

lemma demo_label: "GetNadLabel (Some (demo_nad cfg)) KeyClusterNetworkLabel = ''cn1''"
  by (simp add: GetNadLabel_def demo_nad_def mget_def)

lemma demo_get: "store_get [demo_cn ''cn1'' a] [] ''cn1'' = Inr (demo_cn ''cn1'' a)"
  by (simp add: store_get_def key_of_def demo_cn_def)

lemma demo_route: "checkRoute demo_golib (mget (o_annotations (demo_nad cfg)) KeyNetworkRoute) = None"
  by (simp add: checkRoute_def NewLayer3NetworkConf_def demo_nad_def mget_def demo_golib_def validateL3_def
      L3empty_def Auto_def Manual_def)

lemma demo_no_sn: "checkVlanOverlapWithSN demo_golib (caches_of demo_cluster) (demo_nad cfg) nc = None"
  by (simp add: checkVlanOverlapWithSN_def demo_cluster_lists store_list_def)
     (simp add: demo_nad_def label_keys StorageNetworkAnnotation_def ExclusiveVlanStorageNetworkLabel_def GroupName_def)

lemma demo_mtu: "target_mtu (caches_of demo_cluster) (demo_cn ''cn1'' None) l = Inr 1500"
  by (simp add: target_mtu_def demo_cn_def demo_cluster_lists store_list_def DefaultMTU_def)

lemma demo_config:
  assumes "0 \<le> i" "i \<le> 4094"
  shows "checkNadConfig (caches_of demo_cluster) (Some (NetConf0\<lparr>BrName := ''cn1-br'', Vlan := i\<rparr>)) (demo_nad cfg) = None"
  using assms
  by (simp add: checkNadConfig_def Let_def demo_not_ovn demo_valid demo_label demo_prefix demo_cluster_lists
      demo_get demo_mtu)
     (simp add: NetConf0_def AreEqualMTUs_def DefaultMTU_def)

theorem nad_update_safe_witness:
  "\<not> vmi_attached demo_cluster (demo_nad ''{ }'') \<and> \<not> IsSystemNetworkNad (Some (demo_nad ''{ }''))
   \<and> NadValidator_Update demo_golib (caches_of demo_cluster) (demo_nad ''{}'') (demo_nad ''{ }''\<lparr>o_deleting := True\<rparr>) = None"
proof -
  let ?del = "demo_nad ''{ }''\<lparr>o_deleting := True\<rparr>"
  have d: "o_deleting (demo_nad ''{ }'') = False" "o_deleting ?del = True" by (simp_all add: demo_nad_def)
  have upd: "NadValidator_Update demo_golib (caches_of demo_cluster) (demo_nad ''{}'') (demo_nad ''{ }'') = None"
    by (simp add: NadValidator_Update_def d demo_decode demo_no_sn demo_route checkNadTypes_def
        checkNadConfigBridgeName_def nad_checkVmi_None checkSystemNetwork_def demo_not_system vmi_attached_def
        demo_cluster_lists demo_config)
  have ne: "NetConf0\<lparr>BrName := ''cn1-br'', Vlan := 3\<rparr> \<noteq> NetConf0\<lparr>BrName := ''cn1-br'', Vlan := 2\<rparr>"
    by (simp add: NetConf0_def)
  have dec: "DecodeNadConfigToNetConf demo_golib (Some ?del) = Inr (NetConf0\<lparr>BrName := ''cn1-br'', Vlan := 3\<rparr>)"
    using demo_decode(2) by (simp add: DecodeNadConfigToNetConf_def demo_nad_def)
  note live = nad_update_safe [OF demo_decode(2,1) ne demo_not_ovn(1), of demo_cluster]
    and deleting = nad_update_safe [OF dec demo_decode(1) ne demo_not_ovn(1), of demo_cluster]
  from live upd have "\<not> vmi_attached demo_cluster (demo_nad ''{ }'') \<and> \<not> IsSystemNetworkNad (Some (demo_nad ''{ }''))"
    by (simp only: d if_False simp_thms)
  with deleting show ?thesis by (simp only: d if_True simp_thms)
qed

lemma storage_vlan_exclusive_witness:
  "checkVlanOverlapWithSN demo_golib
     ((caches_of demo_cluster)\<lparr>nadList := (\<lambda>_ _. Inr [demo_nad ''{}''])\<rparr>)
     (demo_nad ''{}'') (NetConf0\<lparr>BrName := ''cn1-br'', Vlan := 2\<rparr>) \<noteq> None"
proof -
  let ?nc = "NetConf0\<lparr>BrName := ''cn1-br'', Vlan := 2\<rparr>"
  let ?v = "(caches_of demo_cluster)\<lparr>nadList := (\<lambda>_ _. Inr [demo_nad ''{}''])\<rparr>"
  have ok: "nc_ok ?nc" by (simp add: nc_ok_def demo_valid) (simp add: NetConf0_def trunk_items_def)
  have l: "nadList ?v [] (SelectorFromSet [(ExclusiveVlanStorageNetworkLabel, ''true'')]) = Inr (demo_nad ''{}'' # [])"
    by simp
  from storage_vlan_exclusive [OF ok demo_not_system demo_not_ovn(1) l demo_decode(1)] show ?thesis
    by (simp add: GetVlanID_def nc_vids_def IsVlanAccessMode_def trunk_items_def NetConf0_def)
qed

text \<open>A decoder that reads a configuration as its MTU in decimal, with an inverse setter.\<close>

definition mtu_golib :: golib where
  "mtu_golib = demo_golib\<lparr>UnmarshalNetConf := (\<lambda>s. bind_res (Atoi s) id (\<lambda>m. Inr (NetConf0\<lparr>BrName := ''cn1-br'', nc_MTU := m\<rparr>)))\<rparr>"

definition mtu_set :: "string \<Rightarrow> int \<Rightarrow> string res" where
  "mtu_set cfg m = (if Atoi (Itoa m) = Inr m then Inr (Itoa m) else Inl (EOther ''out of range''))"

theorem mutated_mtu_is_admitted_witness:
  "\<exists>patch conf'. NadMutator_Create mtu_golib mtu_set (caches_of demo_cluster) (demo_nad ''9000'') = Inr patch
     \<and> DecodeNadConfigToNetConf mtu_golib (Some (apply_patch patch (demo_nad ''9000''))) = Inr conf'
     \<and> checkNadConfig (caches_of demo_cluster) (Some conf') (apply_patch patch (demo_nad ''9000'')) = None"
proof -
  let ?conf = "NetConf0\<lparr>BrName := ''cn1-br'', nc_MTU := 9000\<rparr>"
  have law: "cfg' \<noteq> [] \<and> UnmarshalNetConf mtu_golib cfg' = Inr (conf\<lparr>nc_MTU := m\<rparr>)"
    if "mtu_set cfg m = Inr cfg'" "UnmarshalNetConf mtu_golib cfg = Inr conf" for cfg m cfg' conf
    using that by (auto simp: mtu_set_def mtu_golib_def split: if_splits)
  have atoi: "Atoi ''9000'' = Inr 9000" by (simp add: Atoi_def char_digit_def)
  have dec: "DecodeNadConfigToNetConf mtu_golib (Some (demo_nad ''9000'')) = Inr ?conf"
    by (simp add: DecodeNadConfigToNetConf_def mtu_golib_def demo_nad_def atoi)
  have cfg: "nad_Config (demo_nad ''9000'') \<noteq> []" by (simp add: demo_nad_def)
  have ovn: "\<not> IsKubeOVNCNI ?conf" by (simp add: IsKubeOVNCNI_def NetConf0_def cni_types)
  have val: "IsVlanConfigValid ?conf = Inr True"
    by (simp add: IsVlanConfigValid_Inr NetConf0_def trunk_items_def MaxVlanID_def)
  have cn: "cnGet (caches_of demo_cluster) ''cn1'' = Inr (demo_cn ''cn1'' None)"
    by (simp add: demo_cluster_lists demo_get)
  have br: "GetBridgeNamePrefix (BrName ?conf) = Inr ''cn1''" by (simp add: demo_prefix)
  have i1500: "Atoi (Itoa 1500) = Inr 1500" by (rule Atoi_Itoa) simp_all
  obtain patch where p: "NadMutator_Create mtu_golib mtu_set (caches_of demo_cluster) (demo_nad ''9000'') = Inr patch"
    using br cn ovn
    by (simp add: NadMutator_Create_def patchMTU_def dec GetBridgeNamePrefix_def demo_mtu mtu_set_def i1500
        AreEqualMTUs_def DefaultMTU_def)
  from mutated_mtu_is_admitted [OF law p dec cfg ovn val cn br] p show ?thesis by (simp add: demo_label)
qed

lemma mutated_labels_witness:
  "\<exists>patch. NadMutator_Update demo_golib (caches_of demo_cluster) (demo_nad ''{}'') (demo_nad ''{}'') = Inr patch
     \<and> mget (o_labels (apply_patch patch (demo_nad ''{}''))) KeyClusterNetworkLabel = ''cn1''"
proof -
  let ?nc = "NetConf0\<lparr>BrName := ''cn1-br'', Vlan := 2\<rparr>"
  have d: "\<not> o_deleting (demo_nad ''{}'')" by (simp add: demo_nad_def)
  have e: "\<exists>p. ensureLabels (caches_of demo_cluster) (demo_nad ''{}'') ?nc = Inr p"
    by (simp add: ensureLabels_def demo_not_ovn SetNetworkInfoToLabels_def Let_def demo_prefix IsL2VlanNetwork_def
        demo_cluster_lists demo_get)
  have r: "mget (o_annotations (demo_nad ''{}'')) KeyNetworkRoute = ''fauto''" by (simp add: demo_nad_def mget_def)
  have u: "UnmarshalL3 demo_golib ''fauto'' = Inr (L3empty\<lparr>l3_Mode := ''auto'', l3_Outdated := False\<rparr>)"
    by (simp add: demo_golib_def)
  have t: "tagRouteOutdated demo_golib (demo_nad ''{}'') (demo_nad ''{}'') ?nc ?nc = Inr []"
    by (simp add: tagRouteOutdated_def demo_not_ovn OutdateNadLayer3NetworkConfWhenRouteModeChanges_def r u)
  obtain patch where p: "NadMutator_Update demo_golib (caches_of demo_cluster) (demo_nad ''{}'') (demo_nad ''{}'') = Inr patch"
    using e t d by (auto simp: NadMutator_Update_def demo_decode)
  from mutated_labels [OF p d demo_decode(1) demo_not_ovn(2)] p show ?thesis
    by (auto simp: demo_cluster_lists) (simp add: demo_cn_def)
qed

end
