(* ===== verification/Webhook_VlanConfig.thy ===== *)
theory Webhook_VlanConfig
  imports Caches
begin

text \<open>
  \<open>pkg/webhook/vlanconfig\<close>: the admission validator and mutator of VLAN configs. A set of node
  names (\<open>mapset.Set\<close>) is the list of its elements.
\<close>

section \<open>The validator\<close>

definition vc_createErr :: string where "vc_createErr = ''can't create vlanConfig %s because %w''"
definition vc_updateErr :: string where "vc_updateErr = ''can't update vlanConfig %s because %w''"
definition vc_deleteErr :: string where "vc_deleteErr = ''can't delete vlanConfig %s because %w''"

definition vc_getMatchNodes :: "golib \<Rightarrow> VlanConfig \<Rightarrow> (string list) res" where
  "vc_getMatchNodes g vc =
     (if o_annotations vc = None \<or> mget (o_annotations vc) KeyMatchedNodes = [] then Inr []
      else bind_res (UnmarshalStrings g (mget (o_annotations vc) KeyMatchedNodes)) id (\<lambda>matchedNodes.
           Inr (remdups matchedNodes)))"

definition getAffectedNodes :: "VlanConfig \<Rightarrow> VlanConfig \<Rightarrow> string list \<Rightarrow> string list \<Rightarrow> string list" where
  "getAffectedNodes oldVc newVc oldNodes newNodes =
     (if vc_ClusterNetwork oldVc \<noteq> vc_ClusterNetwork newVc \<or> vc_Uplink oldVc \<noteq> vc_Uplink newVc then oldNodes
      else filter (\<lambda>n. n \<notin> set newNodes) oldNodes)"

definition checkOverlaps :: "caches \<Rightarrow> VlanConfig \<Rightarrow> string list \<Rightarrow> go_error option" where
  "checkOverlaps v vc nodes =
     with_res (concat_res (\<lambda>node.
         case vsGet v (Name [] [vc_ClusterNetwork vc, node]) of
           Inl e \<Rightarrow> if \<not> IsNotFound e then Inl e else Inr []
         | Inr vs \<Rightarrow> if vs_VlanConfig vs \<noteq> o_name vc then Inr [node] else Inr []) nodes) id (\<lambda>overlapNods.
     if length overlapNods > 0
     then Some (Errorf ''it overlaps with other vlanconfigs matching node(s) %v'') else None)"

definition vc_checkVmi :: "caches \<Rightarrow> VlanConfig \<Rightarrow> string list \<Rightarrow> go_error option" where
  "vc_checkVmi v vc nodes =
     (if nodes = [] then None
      else with_res (ListNadsOnClusterNetwork (nadList v) (vc_ClusterNetwork vc)) id (\<lambda>nads.
           with_res (VmiNamesWhoUseNads (vmiByIndex v) nads True (Some nodes)) id (\<lambda>vmiStrList.
           if length vmiStrList > 0
           then Some (Errorf ''it is blocked by VM(s) %s which must be stopped at first'') else None)))"

definition validateMTU :: "caches \<Rightarrow> VlanConfig \<Rightarrow> go_error option" where
  "validateMTU v current =
     (if vc_ClusterNetwork current = ManagementClusterNetworkName then None
      else let mtu = GetMTUFromVlanConfig (Some current)
           in if \<not> IsValidMTU mtu then Some (Errorf ''the MTU %v is out of range [0, %v..%v]'')
              else with_res (vcList v (SelectorFromSet [(KeyClusterNetworkLabel, vc_ClusterNetwork current)])) id (\<lambda>vcs.
                   first_err (\<lambda>vc.
                     if o_name vc = o_name current \<or> o_deleting vc then None
                     else if \<not> AreEqualMTUs mtu (GetMTUFromVlanConfig (Some vc))
                     then Some (Errorf ''the vlanconfig %s MTU %v is different with another vlanconfig %s MTU %v, all vlanconfigs on one clusternetwork need to have same MTU'')
                     else None) vcs))"

definition checkNetworkNadsAttached :: "caches \<Rightarrow> VlanConfig \<Rightarrow> string list \<Rightarrow> go_error option" where
  "checkNetworkNadsAttached v vc nodes =
     (if nodes = [] then None
      else with_res (nadList v HarvesterSystemNamespaceName
                       (SelectorFromSet [(KeyClusterNetworkLabel, vc_ClusterNetwork vc)])) id (\<lambda>nads.
           case FilterFirstActiveSystemNetworkNad nads of
             Some nad \<Rightarrow> Some (Errorf ''the system network nad %s is still attached'')
           | None \<Rightarrow> None))"

definition VlanConfigValidator_Create :: "golib \<Rightarrow> caches \<Rightarrow> request option \<Rightarrow> VlanConfig \<Rightarrow> go_error option" where
  "VlanConfigValidator_Create g v req vc =
     guard_err (if IsUserRequestForMgmtCluster req (vc_ClusterNetwork vc)
                then Some (Errorf ''users can't create vlanConfig for %s cluster network'') else None) (wrap vc_createErr)
     (with_res (IsClusterNetworkNameValid (vc_ClusterNetwork vc)) (wrap vc_createErr) (\<lambda>_.
     with_res (cnGet v (vc_ClusterNetwork vc))
       (\<lambda>e. wrap vc_createErr (wrap ''it refers to a none-existing cluster network %s or error %w'' e)) (\<lambda>_.
     guard_err (validateMTU v vc) (wrap vc_createErr)
     (with_res (vc_getMatchNodes g vc) (wrap vc_createErr) (\<lambda>nodes.
     guard_err (checkOverlaps v vc nodes) (wrap vc_createErr) None)))))"

definition VlanConfigValidator_Update :: "golib \<Rightarrow> caches \<Rightarrow> request option \<Rightarrow> VlanConfig \<Rightarrow> VlanConfig \<Rightarrow> go_error option" where
  "VlanConfigValidator_Update g v req oldVc newVc =
     (if o_deleting newVc then None
      else
        guard_err (if IsUserRequestForMgmtCluster req (vc_ClusterNetwork newVc)
                   then Some (Errorf ''users can't update vlanConfig for %s cluster network'') else None) (wrap vc_updateErr)
        (guard_err (if \<not> fst (IsClusterNetworkLabelValid newVc)
                   then Some (Errorf ''cluster network label %s is invalid and must not be updated by user'') else None)
           (wrap vc_updateErr)
        (with_res (cnGet v (vc_ClusterNetwork newVc))
           (\<lambda>e. wrap vc_updateErr (wrap ''it refers to a none-existing cluster network %s or error %w'' e)) (\<lambda>_.
        guard_err (validateMTU v newVc) (wrap vc_updateErr)
        (with_res (vc_getMatchNodes g newVc) (wrap vc_updateErr) (\<lambda>newNodes.
        guard_err (checkOverlaps v newVc newNodes) (wrap vc_updateErr)
        (with_res (vc_getMatchNodes g oldVc) (wrap vc_updateErr) (\<lambda>oldNodes.
        let affectedNodes = getAffectedNodes oldVc newVc oldNodes newNodes
        in guard_err (vc_checkVmi v oldVc affectedNodes) (wrap vc_updateErr)
           (guard_err (checkNetworkNadsAttached v oldVc affectedNodes) (wrap vc_updateErr) None)))))))))"

definition VlanConfigValidator_Delete :: "golib \<Rightarrow> caches \<Rightarrow> request option \<Rightarrow> VlanConfig \<Rightarrow> go_error option" where
  "VlanConfigValidator_Delete g v req vc =
     guard_err (if IsUserRequestForMgmtCluster req (vc_ClusterNetwork vc)
                then Some (Errorf ''users can't delete vlanConfig for %s cluster network'') else None) (wrap vc_deleteErr)
     (with_res (vc_getMatchNodes g vc) (wrap vc_deleteErr) (\<lambda>nodes.
     guard_err (vc_checkVmi v vc nodes) (wrap vc_deleteErr)
     (guard_err (checkNetworkNadsAttached v vc nodes) (wrap vc_deleteErr) None)))"

section \<open>The mutator\<close>

definition getCnLabelPatch :: "VlanConfig \<Rightarrow> PatchOp list" where
  "getCnLabelPatch v =
     (if o_labels v \<noteq> None \<and> mget (o_labels v) KeyClusterNetworkLabel = vc_ClusterNetwork v then []
      else [replace_op ''/metadata/labels''
              (PatchMap (mput KeyClusterNetworkLabel (vc_ClusterNetwork v) (o_labels v)))])"

definition matchedNodesToPatch :: "golib \<Rightarrow> VlanConfig \<Rightarrow> string list \<Rightarrow> (PatchOp list) res" where
  "matchedNodesToPatch g vc matchedNodes =
     bind_res (MarshalStrings g matchedNodes) id (\<lambda>nodesBytes.
     Inr [replace_op ''/metadata/annotations''
            (PatchMap (mput KeyMatchedNodes nodesBytes (o_annotations vc)))])"

text \<open>The node selector with the requirement that the witness label does not exist.\<close>

definition node_selector :: "VlanConfig \<Rightarrow> selector" where
  "node_selector vc =
     Requirements (map (\<lambda>(k, v). ReqIn k [v]) (vc_NodeSelector vc) @ [ReqDoesNotExist HarvesterWitnessNodeLabelKey])"

definition matchNodes :: "golib \<Rightarrow> caches \<Rightarrow> VlanConfig \<Rightarrow> (PatchOp list) res" where
  "matchNodes g m vc =
     bind_res (nodeList m (node_selector vc)) id (\<lambda>nodes.
     if length nodes = 0 then Inr []
     else matchedNodesToPatch g vc (map o_name nodes))"

definition VlanConfigMutator_Create :: "golib \<Rightarrow> caches \<Rightarrow> VlanConfig \<Rightarrow> (PatchOp list) res" where
  "VlanConfigMutator_Create g m vlanConfig =
     (if vc_ClusterNetwork vlanConfig = ManagementClusterNetworkName then Inr []
      else bind_res (matchNodes g m vlanConfig) (wrap vc_createErr) (\<lambda>annotationPatch.
           Inr (getCnLabelPatch vlanConfig @ annotationPatch)))"

definition VlanConfigMutator_Update :: "golib \<Rightarrow> caches \<Rightarrow> VlanConfig \<Rightarrow> VlanConfig \<Rightarrow> (PatchOp list) res" where
  "VlanConfigMutator_Update g m oldVc newVc =
     (if o_deleting newVc then Inr []
      else if vc_ClusterNetwork newVc = ManagementClusterNetworkName then Inr []
      else let cnLabelPatch = (if vc_ClusterNetwork newVc \<noteq> vc_ClusterNetwork oldVc then getCnLabelPatch newVc else [])
           in bind_res (matchNodes g m newVc) (wrap vc_updateErr) (\<lambda>annotationPatch.
              Inr (cnLabelPatch @ annotationPatch)))"

definition apply_vc_op :: "PatchOp \<Rightarrow> VlanConfig \<Rightarrow> VlanConfig" where
  "apply_vc_op p vc =
     (case Value p of
        PatchString _ \<Rightarrow> vc
      | PatchMap m \<Rightarrow> if Path p = ''/metadata/labels'' then vc\<lparr>o_labels := m\<rparr>
                      else if Path p = ''/metadata/annotations'' then vc\<lparr>o_annotations := m\<rparr> else vc)"

definition apply_vc_patch :: "PatchOp list \<Rightarrow> VlanConfig \<Rightarrow> VlanConfig" where
  "apply_vc_patch ps vc = fold apply_vc_op ps vc"

section \<open>What the checks mean on a state of the cluster\<close>

text \<open>The live VLAN configs of a cluster network, and that they agree on the MTU.\<close>

definition live_vcs :: "cluster \<Rightarrow> string \<Rightarrow> VlanConfig set" where
  "live_vcs c cn = {vc \<in> set (indexer (cl_vcs c)). mlookup (o_labels vc) KeyClusterNetworkLabel = Some cn \<and> \<not> o_deleting vc}"

definition mtu_uniform :: "cluster \<Rightarrow> string \<Rightarrow> bool" where
  "mtu_uniform c cn \<longleftrightarrow>
     (\<forall>vc \<in> live_vcs c cn. \<forall>vc' \<in> live_vcs c cn.
        AreEqualMTUs (GetMTUFromVlanConfig (Some vc)) (GetMTUFromVlanConfig (Some vc')))"

lemma validateMTU_None:
  "validateMTU (caches_of c) vc = None \<longleftrightarrow>
     vc_ClusterNetwork vc = ManagementClusterNetworkName \<or>
     (IsValidMTU (GetMTUFromVlanConfig (Some vc))
      \<and> (\<forall>w \<in> live_vcs c (vc_ClusterNetwork vc). o_name w \<noteq> o_name vc \<longrightarrow>
           AreEqualMTUs (GetMTUFromVlanConfig (Some vc)) (GetMTUFromVlanConfig (Some w))))"
  using store_list_labelled [of "cl_vcs c" KeyClusterNetworkLabel "vc_ClusterNetwork vc"]
  by (auto simp: validateMTU_def live_vcs_def Let_def split: if_splits)

text \<open>A node of the set is taken by another VLAN config of the same cluster network.\<close>

definition node_taken :: "cluster \<Rightarrow> VlanConfig \<Rightarrow> string \<Rightarrow> bool" where
  "node_taken c vc node \<longleftrightarrow>
     (\<exists>vs \<in> set (indexer (cl_vss c)). key_of vs = ([], Name [] [vc_ClusterNetwork vc, node]) \<and> vs_VlanConfig vs \<noteq> o_name vc)"

lemma overlap_node:
  "(case store_get (indexer (cl_vss c)) [] (Name [] [vc_ClusterNetwork vc, node]) of
      Inl e \<Rightarrow> if \<not> IsNotFound e then Inl e else Inr []
    | Inr vs \<Rightarrow> if vs_VlanConfig vs \<noteq> o_name vc then Inr [node] else Inr [])
   = Inr (if node_taken c vc node then [node] else [])"
proof (cases "store_get (indexer (cl_vss c)) [] (Name [] [vc_ClusterNetwork vc, node])")
  case (Inl e)
  then have "IsNotFound e" "\<not> node_taken c vc node"
    using store.get_Inl [OF Inl] by (auto simp: node_taken_def)
  with Inl show ?thesis by simp
next
  case (Inr vs)
  then have vs: "vs \<in> set (indexer (cl_vss c))" "key_of vs = ([], Name [] [vc_ClusterNetwork vc, node])"
    by (simp_all add: store.get_Inr)
  then have "node_taken c vc node \<longleftrightarrow> vs_VlanConfig vs \<noteq> o_name vc"
    unfolding node_taken_def by (metis store.key_unique)
  with Inr show ?thesis by simp
qed

lemma checkOverlaps_None:
  "checkOverlaps (caches_of c) vc nodes = None \<longleftrightarrow> (\<forall>n \<in> set nodes. \<not> node_taken c vc n)"
proof -
  have "concat_res (\<lambda>n. Inr (if P n then [n] else [])) ns = Inr (filter P ns)" for P :: "string \<Rightarrow> bool" and ns
    by (induction ns) auto
  then show ?thesis
    by (auto simp: checkOverlaps_def overlap_node filter_empty_conv)
qed

lemma vc_checkVmi_None:
  "vc_checkVmi (caches_of c) vc nodes = None \<longleftrightarrow>
     (\<forall>nad \<in> set (indexer (cl_nads c)). \<forall>v \<in> set (indexer (cl_vmis c)).
        mlookup (o_labels nad) KeyClusterNetworkLabel = Some (vc_ClusterNetwork vc) \<and> vmi_NodeName v \<in> set nodes \<longrightarrow>
        \<not> attaches vmiByNetwork v nad)"
proof (cases "nodes = []")
  case False
  obtain nads where n: "store_list (indexer (cl_nads c)) [] (SelectorFromSet [(KeyClusterNetworkLabel, vc_ClusterNetwork vc)]) = Inr nads"
    "set nads = {x \<in> set (indexer (cl_nads c)). mlookup (o_labels x) KeyClusterNetworkLabel = Some (vc_ClusterNetwork vc)}"
    using store_list_labelled by blast
  obtain ns where "VmiNamesWhoUseNads (get_by_index vmiByNetwork (indexer (cl_vmis c))) nads True (Some nodes) = Inr ns"
    "ns = [] \<longleftrightarrow> (\<forall>v \<in> set (indexer (cl_vmis c)). \<forall>nad \<in> set nads. \<not> vmi_uses True (Some nodes) v nad)"
    using VmiNamesOfNads_store by blast
  with n False show ?thesis
    by (auto simp: vc_checkVmi_def ListNadsOnClusterNetwork_def vmi_uses_def)
qed (simp add: vc_checkVmi_def)

section \<open>Admission as a state machine\<close>

text \<open>
  The changes of the VLAN configs of a cluster: a request passes the mutator, then the
  validator, then the object is stored; an object goes away; anything else changes. VLAN
  configs are cluster-scoped, and those of the management network, which only the agent makes,
  carry that network's label.
\<close>

inductive vc_admission :: "golib \<Rightarrow> cluster \<Rightarrow> cluster \<Rightarrow> bool" for g where
  create: "\<lbrakk>VlanConfigMutator_Create g (caches_of c) vc0 = Inr p; vc = apply_vc_patch p vc0;
            VlanConfigValidator_Create g (caches_of c) req vc = None; o_namespace vc0 = [];
            vc_ClusterNetwork vc0 = ManagementClusterNetworkName \<Longrightarrow>
              mlookup (o_labels vc0) KeyClusterNetworkLabel = Some ManagementClusterNetworkName;
            cl_vcs c' = store_put vc (indexer (cl_vcs c))\<rbrakk>
           \<Longrightarrow> vc_admission g c c'"
| update: "\<lbrakk>old \<in> set (indexer (cl_vcs c)); VlanConfigMutator_Update g (caches_of c) old new0 = Inr p;
            new = apply_vc_patch p new0; key_of new0 = key_of old;
            VlanConfigValidator_Update g (caches_of c) req old new = None;
            cl_vcs c' = store_put new (indexer (cl_vcs c))\<rbrakk>
           \<Longrightarrow> vc_admission g c c'"
| remove: "cl_vcs c' = filter (\<lambda>x. key_of x \<noteq> k) (indexer (cl_vcs c)) \<Longrightarrow> vc_admission g c c'"
| other: "cl_vcs c' = cl_vcs c \<Longrightarrow> vc_admission g c c'"

inductive vc_reachable :: "golib \<Rightarrow> cluster \<Rightarrow> bool" for g where
  init: "cl_vcs c = [] \<Longrightarrow> vc_reachable g c"
| step: "vc_reachable g c \<Longrightarrow> vc_admission g c c' \<Longrightarrow> vc_reachable g c'"

definition vcs_inv :: "cluster \<Rightarrow> bool" where
  "vcs_inv c \<longleftrightarrow> (\<forall>vc \<in> set (indexer (cl_vcs c)). o_namespace vc = [])
     \<and> (\<forall>cn. cn \<noteq> ManagementClusterNetworkName \<longrightarrow>
           mtu_uniform c cn \<and> (\<forall>vc \<in> live_vcs c cn. IsValidMTU (GetMTUFromVlanConfig (Some vc))))"

lemma apply_vc_patch_frame [simp]:
  "o_namespace (apply_vc_patch ps vc) = o_namespace vc" "o_name (apply_vc_patch ps vc) = o_name vc"
  "o_deleting (apply_vc_patch ps vc) = o_deleting vc" "vc_ClusterNetwork (apply_vc_patch ps vc) = vc_ClusterNetwork vc"
  "vc_Uplink (apply_vc_patch ps vc) = vc_Uplink vc"
  unfolding apply_vc_patch_def
  by (induction ps arbitrary: vc) (simp_all add: apply_vc_op_def split: patch_value.splits)

lemma matchNodes_patch:
  "matchNodes g m vc = Inr p \<Longrightarrow>
     p = [] \<or> (\<exists>a. p = [replace_op ''/metadata/annotations'' (PatchMap (mput KeyMatchedNodes a (o_annotations vc)))])"
  by (auto simp: matchNodes_def matchedNodesToPatch_def split: if_splits)

lemma label_patch:
  assumes "p = [] \<or> (\<exists>a. p = [replace_op ''/metadata/annotations'' (PatchMap a)])"
  shows "mget (o_labels (apply_vc_patch (getCnLabelPatch vc @ p) vc)) KeyClusterNetworkLabel = vc_ClusterNetwork vc
     \<and> o_labels (apply_vc_patch (getCnLabelPatch vc @ p) vc) \<noteq> None"
  using assms by (auto simp: apply_vc_patch_def apply_vc_op_def getCnLabelPatch_def replace_op_def)

lemma mget_label: "mlookup m k = Some v \<Longrightarrow> mget m k = v" "mget m k = v \<Longrightarrow> v \<noteq> [] \<Longrightarrow> mlookup m k = Some v"
  by (auto simp: mget_mlookup split: option.splits)

lemma set_store_put: "set (store_put x xs) = insert x {y \<in> set xs. key_of y \<noteq> key_of x}"
  by (auto simp: store_put_def)

lemma indexer_put: "indexer (store_put x (indexer xs)) = store_put x (indexer xs)"
  by (simp add: indexer_distinct store_ok_put)

text \<open>Storing a VLAN config whose MTU was checked keeps the invariant.\<close>

lemma put_checked:
  assumes "vcs_inv c" "validateMTU (caches_of c) vc = None \<or> o_deleting vc" "o_namespace vc = []"
    and "o_deleting vc \<or> (\<forall>cn. mlookup (o_labels vc) KeyClusterNetworkLabel = Some cn \<longrightarrow> cn = vc_ClusterNetwork vc)"
    and "cl_vcs c' = store_put vc (indexer (cl_vcs c))"
  shows "vcs_inv c'"
proof -
  have idx: "set (indexer (cl_vcs c')) = insert vc {y \<in> set (indexer (cl_vcs c)). key_of y \<noteq> key_of vc}"
    by (simp add: assms(5) indexer_put set_store_put)
  have ns: "\<forall>w \<in> set (indexer (cl_vcs c)). o_namespace w = []" using assms(1) by (simp add: vcs_inv_def)
  have "mtu_uniform c' cn" if cn: "cn \<noteq> ManagementClusterNetworkName" for cn
  proof -
    have u: "mtu_uniform c cn" using assms(1) cn by (simp add: vcs_inv_def)
    have old: "w \<in> live_vcs c cn \<and> key_of w \<noteq> key_of vc" if "w \<in> live_vcs c' cn" "w \<noteq> vc" for w
      using that by (auto simp: live_vcs_def idx)
    have new: "AreEqualMTUs (GetMTUFromVlanConfig (Some vc)) (GetMTUFromVlanConfig (Some w))"
      if "vc \<in> live_vcs c' cn" "w \<in> live_vcs c' cn" "w \<noteq> vc" for w
    proof -
      have live: "\<not> o_deleting vc" "cn = vc_ClusterNetwork vc"
        using that(1) assms(4) by (auto simp: live_vcs_def)
      have w: "w \<in> live_vcs c cn" "o_name w \<noteq> o_name vc"
        using old [OF that(2,3)] ns assms(3) by (auto simp: live_vcs_def key_of_def)
      with assms(2) live cn show ?thesis by (auto simp: validateMTU_None)
    qed
    show ?thesis
      unfolding mtu_uniform_def
    proof (intro ballI)
      fix a b assume ab: "a \<in> live_vcs c' cn" "b \<in> live_vcs c' cn"
      consider "a = vc" "b = vc" | "a = vc" "b \<noteq> vc" | "a \<noteq> vc" "b = vc" | "a \<noteq> vc" "b \<noteq> vc" by blast
      then show "AreEqualMTUs (GetMTUFromVlanConfig (Some a)) (GetMTUFromVlanConfig (Some b))"
      proof cases
        case 3
        with new ab show ?thesis by (metis AreEqualMTUs_default)
      next
        case 4
        with old ab u show ?thesis by (auto simp: mtu_uniform_def)
      qed (use new ab in auto)
    qed
  qed
  moreover have "\<forall>w \<in> set (indexer (cl_vcs c')). o_namespace w = []" using ns assms(3) by (auto simp: idx)
  moreover have "IsValidMTU (GetMTUFromVlanConfig (Some w))" if "cn \<noteq> ManagementClusterNetworkName" "w \<in> live_vcs c' cn" for w cn
  proof (cases "w = vc")
    case True
    then show ?thesis using that assms(2,4) by (auto simp: live_vcs_def validateMTU_None)
  next
    case False
    then show ?thesis using that assms(1) by (auto simp: live_vcs_def idx vcs_inv_def)
  qed
  ultimately show ?thesis by (simp add: vcs_inv_def)
qed

lemma created_label:
  assumes "VlanConfigMutator_Create g (caches_of c) vc0 = Inr p"
    and "vc_ClusterNetwork vc0 = ManagementClusterNetworkName \<Longrightarrow>
           mlookup (o_labels vc0) KeyClusterNetworkLabel = Some ManagementClusterNetworkName"
    and "mlookup (o_labels (apply_vc_patch p vc0)) KeyClusterNetworkLabel = Some cn"
  shows "cn = vc_ClusterNetwork vc0"
proof (cases "vc_ClusterNetwork vc0 = ManagementClusterNetworkName")
  case True
  with assms show ?thesis by (simp add: VlanConfigMutator_Create_def apply_vc_patch_def)
next
  case False
  with assms(1) obtain q where "matchNodes g (caches_of c) vc0 = Inr q" "p = getCnLabelPatch vc0 @ q"
    by (auto simp: VlanConfigMutator_Create_def)
  with label_patch [of q vc0] matchNodes_patch [of g _ vc0 q] assms(3) show ?thesis
    by (metis mget_label(1))
qed

lemma admission_keeps_inv: "vc_admission g c c' \<Longrightarrow> vcs_inv c \<Longrightarrow> vcs_inv c'"
proof (induction rule: vc_admission.induct)
  case (create c vc0 p vc req c')
  have "validateMTU (caches_of c) vc = None" using create.hyps(3) by (auto simp: VlanConfigValidator_Create_def)
  moreover have "\<forall>cn. mlookup (o_labels vc) KeyClusterNetworkLabel = Some cn \<longrightarrow> cn = vc_ClusterNetwork vc"
    using created_label [OF create.hyps(1,5)] create.hyps(2) by simp
  ultimately show ?case
    using create by (intro put_checked [OF create.prems _ _ _ create.hyps(6)]) auto
next
  case (update old c new0 p new req c')
  have ns: "o_namespace new = []"
    using update by (auto simp: vcs_inv_def key_of_def)
  have "o_deleting new \<or> validateMTU (caches_of c) new = None \<and> fst (IsClusterNetworkLabelValid new)"
    using update.hyps(5) by (auto simp: VlanConfigValidator_Update_def split: if_splits)
  moreover have "cn = vc_ClusterNetwork new"
    if "fst (IsClusterNetworkLabelValid new)" "mlookup (o_labels new) KeyClusterNetworkLabel = Some cn" for cn
    using that by (auto simp: IsClusterNetworkLabelValid_def Let_def dest: mget_label(1) split: if_splits)
  ultimately show ?case
    using put_checked [OF update.prems _ ns _ update.hyps(6)] by blast
next
  case (remove c' k c)
  have "store_ok (cl_vcs c')" unfolding remove.hyps
    using store_ok_indexer [of "cl_vcs c"] by (simp add: store_ok_def distinct_map_filter)
  then have "set (indexer (cl_vcs c')) \<subseteq> set (indexer (cl_vcs c))"
    using remove.hyps by (auto simp: indexer_distinct)
  then have "live_vcs c' cn \<subseteq> live_vcs c cn" for cn by (auto simp: live_vcs_def)
  with remove.prems \<open>set (indexer (cl_vcs c')) \<subseteq> _\<close> show ?case
    unfolding vcs_inv_def mtu_uniform_def by (meson subsetD)
next
  case (other c' c)
  then show ?case by (simp add: vcs_inv_def mtu_uniform_def live_vcs_def)
qed

lemma reachable_vcs_inv: "vc_reachable g c \<Longrightarrow> vcs_inv c"
proof (induction rule: vc_reachable.induct)
  case (init c)
  then show ?case by (simp add: vcs_inv_def mtu_uniform_def live_vcs_def indexer_def)
next
  case (step c c')
  then show ?case by (blast intro: admission_keeps_inv)
qed

section \<open>Properties\<close>

text \<open>
  C1. Whatever sequence of requests the webhook admits, all live VLAN configs of a cluster
  network other than the management network have the same MTU (0 counting as the default).
\<close>

theorem admitted_mtus_agree:
  assumes "vc_reachable g c" "cn \<noteq> ManagementClusterNetworkName" "vc \<in> live_vcs c cn" "vc' \<in> live_vcs c cn"
  shows "AreEqualMTUs (GetMTUFromVlanConfig (Some vc)) (GetMTUFromVlanConfig (Some vc'))"
  using reachable_vcs_inv [OF assms(1)] assms(2-) by (auto simp: vcs_inv_def mtu_uniform_def)

lemma VlanConfigValidator_Create_None:
  "VlanConfigValidator_Create g (caches_of c) req vc = None \<longleftrightarrow>
     \<not> IsUserRequestForMgmtCluster req (vc_ClusterNetwork vc)
     \<and> length (vc_ClusterNetwork vc) \<le> 12
     \<and> ([], vc_ClusterNetwork vc) \<in> key_of ` set (indexer (cl_cns c))
     \<and> validateMTU (caches_of c) vc = None
     \<and> (\<exists>nodes. vc_getMatchNodes g vc = Inr nodes \<and> set nodes \<inter> {n. node_taken c vc n} = {})"
proof -
  have "(\<exists>cn. store_get (indexer (cl_cns c)) [] (vc_ClusterNetwork vc) = Inr cn) \<longleftrightarrow>
      ([], vc_ClusterNetwork vc) \<in> key_of ` set (indexer (cl_cns c))"
    unfolding store.get_Inr by force
  then show ?thesis
    by (auto simp: VlanConfigValidator_Create_def IsClusterNetworkNameValid_def MaxClusterNetworkNameLen_def
        device_consts checkOverlaps_None split: if_splits)
qed

text \<open>
  A VLAN config is admitted exactly when no user touches the management network, its
  cluster network exists and has a name short enough for a bridge, its MTU is valid and the one
  of the network's other live configs, and none of its matched nodes is held by another
  config of the same network.
\<close>

lemma vlanconfig_create_iff:
  "VlanConfigValidator_Create g (caches_of c) req vc = None \<longleftrightarrow>
     \<not> IsUserRequestForMgmtCluster req (vc_ClusterNetwork vc)
     \<and> length (vc_ClusterNetwork vc) \<le> 12
     \<and> ([], vc_ClusterNetwork vc) \<in> key_of ` set (indexer (cl_cns c))
     \<and> validateMTU (caches_of c) vc = None
     \<and> (\<exists>nodes. vc_getMatchNodes g vc = Inr nodes \<and> set nodes \<inter> {n. node_taken c vc n} = {})"
  by (rule VlanConfigValidator_Create_None)

text \<open>
  C5. While a running VM on a node of a VLAN config is attached to a network of its cluster network,
  the webhook does not admit the deletion of the config; and it admits an update only if the config
  is not being deleted and the update leaves the cluster network and the uplink as they are and
  keeps the node matched, or if the config is being deleted. An update of a config that is being
  deleted is not checked at all: it is admitted whatever it changes, running VMs or not.
\<close>

theorem vlanconfig_change_safe:
  assumes "vc_getMatchNodes g old = Inr nodes" "vmi_NodeName v \<in> set nodes" "v \<in> set (indexer (cl_vmis c))"
    and "nad \<in> set (indexer (cl_nads c))" "mlookup (o_labels nad) KeyClusterNetworkLabel = Some (vc_ClusterNetwork old)"
    and "attaches vmiByNetwork v nad"
  shows "VlanConfigValidator_Delete g (caches_of c) req old \<noteq> None
     \<and> (if o_deleting new then VlanConfigValidator_Update g (caches_of c) req old new = None
        else VlanConfigValidator_Update g (caches_of c) req old new = None \<longrightarrow>
               vc_ClusterNetwork new = vc_ClusterNetwork old \<and> vc_Uplink new = vc_Uplink old
               \<and> (\<exists>nodes'. vc_getMatchNodes g new = Inr nodes' \<and> vmi_NodeName v \<in> set nodes'))"
proof -
  have vmi: "vc_checkVmi (caches_of c) old ns \<noteq> None" if "vmi_NodeName v \<in> set ns" for ns
    using assms(3-6) that by (auto simp: vc_checkVmi_None)
  have "VlanConfigValidator_Delete g (caches_of c) req old \<noteq> None"
    using vmi [OF assms(2)] assms(1) by (auto simp: VlanConfigValidator_Delete_def)
  moreover have "vc_ClusterNetwork new = vc_ClusterNetwork old \<and> vc_Uplink new = vc_Uplink old
      \<and> (\<exists>nodes'. vc_getMatchNodes g new = Inr nodes' \<and> vmi_NodeName v \<in> set nodes')"
    if "VlanConfigValidator_Update g (caches_of c) req old new = None" "\<not> o_deleting new"
  proof -
    from that assms(1) obtain nodes' where n: "vc_getMatchNodes g new = Inr nodes'"
      "vc_checkVmi (caches_of c) old (getAffectedNodes old new nodes nodes') = None"
      by (auto simp: VlanConfigValidator_Update_def Let_def)
    with vmi have "vmi_NodeName v \<notin> set (getAffectedNodes old new nodes nodes')" by blast
    with n(1) assms(2) show ?thesis by (auto simp: getAffectedNodes_def split: if_splits)
  qed
  ultimately show ?thesis by (auto simp: VlanConfigValidator_Update_def)
qed

text \<open>
  The nodes the validator reads are those the mutator matched: the live selection of
  nodes without the witness label, provided JSON decodes what it encoded. When the selector
  matches no node the mutator writes no annotation, so that one already there stays.
\<close>

lemma matched_nodes_annotation:
  assumes "\<And>xs s. MarshalStrings g xs = Inr s \<Longrightarrow> s \<noteq> [] \<and> UnmarshalStrings g s = Inr xs"
    and "VlanConfigMutator_Update g (caches_of c) old new = Inr p" "\<not> o_deleting new"
    and "vc_ClusterNetwork new \<noteq> ManagementClusterNetworkName"
  shows "if {n \<in> set (indexer (cl_nodes c)). sel_matches (node_selector new) (o_labels n)} = {}
         then o_annotations (apply_vc_patch p new) = o_annotations new
         else \<exists>ns. vc_getMatchNodes g (apply_vc_patch p new) = Inr ns
                \<and> set ns = o_name ` {n \<in> set (indexer (cl_nodes c)). sel_matches (node_selector new) (o_labels n)}"
proof -
  let ?N = "{n \<in> set (indexer (cl_nodes c)). sel_matches (node_selector new) (o_labels n)}"
  obtain nodes where nodes: "store_list (indexer (cl_nodes c)) [] (node_selector new) = Inr nodes" "set nodes = ?N"
    using store.list_Inr [of "cl_nodes c" "[]" "node_selector new"] by auto
  obtain q where q: "matchNodes g (caches_of c) new = Inr q"
    "p = (if vc_ClusterNetwork new \<noteq> vc_ClusterNetwork old then getCnLabelPatch new else []) @ q"
    using assms(2-4) by (auto simp: VlanConfigMutator_Update_def Let_def)
  have lab: "o_annotations (apply_vc_patch (getCnLabelPatch new @ r) new) = o_annotations (apply_vc_patch r new)"
    if "r = [] \<or> (\<exists>a. r = [replace_op ''/metadata/annotations'' (PatchMap a)])" for r
    using that by (auto simp: apply_vc_patch_def apply_vc_op_def getCnLabelPatch_def replace_op_def)
  have qform: "q = [] \<or> (\<exists>a. q = [replace_op ''/metadata/annotations'' (PatchMap a)])"
    using matchNodes_patch [OF q(1)] by blast
  have ann: "o_annotations (apply_vc_patch p new) = o_annotations (apply_vc_patch q new)"
    using lab [OF qform] q(2) by auto
  show ?thesis
  proof (cases "?N = {}")
    case True
    then have "nodes = []" using nodes(2) by (metis set_empty)
    then have "q = []" using q(1) nodes(1) by (simp add: matchNodes_def)
    with ann True show ?thesis by (simp add: apply_vc_patch_def)
  next
    case False
    then have "nodes \<noteq> []" using nodes(2) by auto
    then obtain s where s: "MarshalStrings g (map o_name nodes) = Inr s"
      "q = [replace_op ''/metadata/annotations'' (PatchMap (mput KeyMatchedNodes s (o_annotations new)))]"
      using q(1) nodes(1) by (auto simp: matchNodes_def matchedNodesToPatch_def)
    have "o_annotations (apply_vc_patch p new) = mput KeyMatchedNodes s (o_annotations new)"
      unfolding ann by (simp add: s(2) apply_vc_patch_def apply_vc_op_def replace_op_def)
    then have "vc_getMatchNodes g (apply_vc_patch p new) = Inr (remdups (map o_name nodes))"
      using assms(1) [OF s(1)] by (simp add: vc_getMatchNodes_def)
    with False nodes(2) show ?thesis by auto
  qed
qed

section \<open>Witnesses\<close>

definition demo_vc :: "string \<Rightarrow> string \<Rightarrow> strmap \<Rightarrow> int \<Rightarrow> VlanConfig" where
  "demo_vc n cn ann mtu = \<lparr>o_name = n, o_namespace = [], o_labels = Some [KeyClusterNetworkLabel \<mapsto> cn],
     o_annotations = ann, o_deleting = False, vc_Description = [], vc_ClusterNetwork = cn, vc_NodeSelector = [],
     vc_Uplink = \<lparr>up_NICs = Some [''eth1''], up_LinkAttrs = Some \<lparr>la_MTU = mtu, la_TxQLen = -1, la_HardwareAddr = []\<rparr>,
                  up_BondOptions = None\<rparr>\<rparr>"

definition demo_cn1 :: ClusterNetwork where
  "demo_cn1 = \<lparr>o_name = ''cn1'', o_namespace = [], o_labels = None, o_annotations = None, o_deleting = False,
     cn_Conditions = []\<rparr>"

definition vc_cluster :: "VlanConfig list \<Rightarrow> cluster" where
  "vc_cluster vcs = cluster0\<lparr>cl_cns := [demo_cn1], cl_vcs := vcs\<rparr>"

lemma vc_cluster_lists [simp]:
  "indexer (cl_cns (vc_cluster vcs)) = [demo_cn1]" "cl_vcs (vc_cluster vcs) = vcs"
  "cl_nodes (vc_cluster vcs) = []" "cl_vss (vc_cluster vcs) = []" "indexer [] = []" "indexer [x] = [x]"
  "indexer (cl_vmis (vc_cluster vcs)) = []" "indexer (cl_nads (vc_cluster vcs)) = []"
  by (simp_all add: vc_cluster_def cluster0_def indexer_def store_put_def)

lemma demo_vc_admitted:
  "VlanConfigMutator_Create g (caches_of (vc_cluster [])) (demo_vc n ''cn1'' None 1500) = Inr []"
  "VlanConfigValidator_Create g (caches_of (vc_cluster [])) req (demo_vc n ''cn1'' None 1500) = None"
  by (simp_all add: VlanConfigMutator_Create_def matchNodes_def getCnLabelPatch_def store_list_def demo_vc_def mget_def
      ManagementClusterNetworkName_def VlanConfigValidator_Create_None IsUserRequestForMgmtCluster_def validateMTU_None
      live_vcs_def vc_getMatchNodes_def key_of_def demo_cn1_def GetMTUFromVlanConfig_def IsValidMTU_def mtu_consts)

lemma demo_vc_reachable: "vc_reachable demo_golib (vc_cluster [demo_vc ''vc1'' ''cn1'' None 1500])"
proof -
  let ?vc = "demo_vc ''vc1'' ''cn1'' None 1500"
  have "vc_admission demo_golib (vc_cluster []) (vc_cluster [?vc])"
  proof (rule vc_admission.create [OF demo_vc_admitted(1) _ demo_vc_admitted(2)])
    show "?vc = apply_vc_patch [] ?vc" by (simp add: apply_vc_patch_def)
  qed (simp_all add: demo_vc_def store_put_def)
  moreover have "vc_reachable demo_golib (vc_cluster [])" by (rule vc_reachable.init) simp
  ultimately show ?thesis by (rule vc_reachable.step [rotated])
qed

lemma demo_vc_live: "demo_vc ''vc1'' ''cn1'' None m \<in> live_vcs (vc_cluster [demo_vc ''vc1'' ''cn1'' None m]) ''cn1''"
  by (simp add: live_vcs_def demo_vc_def)

theorem admitted_mtus_agree_witness:
  "vc_reachable demo_golib (vc_cluster [demo_vc ''vc1'' ''cn1'' None 1500])
   \<and> demo_vc ''vc1'' ''cn1'' None 1500 \<in> live_vcs (vc_cluster [demo_vc ''vc1'' ''cn1'' None 1500]) ''cn1''
   \<and> AreEqualMTUs 1500 (GetMTUFromVlanConfig (Some (demo_vc ''vc1'' ''cn1'' None 1500)))"
proof -
  have m: "GetMTUFromVlanConfig (Some (demo_vc ''vc1'' ''cn1'' None 1500)) = 1500"
    by (simp add: GetMTUFromVlanConfig_def demo_vc_def)
  from admitted_mtus_agree [OF demo_vc_reachable _ demo_vc_live demo_vc_live] demo_vc_reachable demo_vc_live m show ?thesis
    by (simp add: ManagementClusterNetworkName_def)
qed

definition demo_vmi :: VMI where
  "demo_vmi = \<lparr>o_name = ''vm1'', o_namespace = ''default'', o_labels = None, o_annotations = None, o_deleting = False,
     vmi_Networks = [Some ''default/n1''], vmi_NodeName = ''node1''\<rparr>"

definition vmi_cluster :: cluster where
  "vmi_cluster = cluster0\<lparr>cl_nads := [demo_nad ''{}''], cl_vmis := [demo_vmi]\<rparr>"

text \<open>A VM on the node of a config: the config is not deleted, and its MTU is changed only while it is being deleted.\<close>

theorem vlanconfig_change_safe_witness:
  "VlanConfigValidator_Delete demo_golib (caches_of vmi_cluster) None (demo_vc ''vc1'' ''cn1'' (Some [KeyMatchedNodes \<mapsto> ''node1/'']) 1500) \<noteq> None
   \<and> VlanConfigValidator_Update demo_golib (caches_of vmi_cluster) None (demo_vc ''vc1'' ''cn1'' (Some [KeyMatchedNodes \<mapsto> ''node1/'']) 1500)
       (demo_vc ''vc1'' ''cn1'' (Some [KeyMatchedNodes \<mapsto> ''node1/'']) 9000) \<noteq> None
   \<and> VlanConfigValidator_Update demo_golib (caches_of vmi_cluster) None (demo_vc ''vc1'' ''cn1'' (Some [KeyMatchedNodes \<mapsto> ''node1/'']) 1500)
       (demo_vc ''vc1'' ''cn1'' (Some [KeyMatchedNodes \<mapsto> ''node1/'']) 9000\<lparr>o_deleting := True\<rparr>) = None"
proof -
  let ?a = "Some [KeyMatchedNodes \<mapsto> ''node1/'']"
  let ?old = "demo_vc ''vc1'' ''cn1'' ?a 1500" and ?new = "demo_vc ''vc1'' ''cn1'' ?a 9000"
  have n: "vc_getMatchNodes demo_golib ?old = Inr [''node1'']"
    by (simp add: vc_getMatchNodes_def demo_vc_def mget_def demo_golib_def)
  have v: "vmi_NodeName demo_vmi \<in> set [''node1'']" "demo_vmi \<in> set (indexer (cl_vmis vmi_cluster))"
    "demo_nad ''{}'' \<in> set (indexer (cl_nads vmi_cluster))"
    "mlookup (o_labels (demo_nad ''{}'')) KeyClusterNetworkLabel = Some (vc_ClusterNetwork ?old)"
    by (simp_all add: vmi_cluster_def demo_vmi_def demo_nad_def demo_vc_def)
  have att: "attaches vmiByNetwork demo_vmi (demo_nad ''{}'')"
    by (simp add: attaches_def demo_nad_def vmiByNetwork_def demo_vmi_def nad_full_name_def)
  have u: "vc_Uplink ?new \<noteq> vc_Uplink ?old" by (simp add: demo_vc_def)
  have d: "\<not> o_deleting ?new" by (simp add: demo_vc_def)
  show ?thesis
    using vlanconfig_change_safe [OF n v att, of None ?new]
      vlanconfig_change_safe [OF n v att, of None "?new\<lparr>o_deleting := True\<rparr>"] u d by auto
qed

definition demo_node :: "string \<Rightarrow> Node" where
  "demo_node n = \<lparr>o_name = n, o_namespace = [], o_labels = Some [''zone'' \<mapsto> ''a''], o_annotations = None,
     o_deleting = False, nd_ready = True\<rparr>"

lemma matched_nodes_annotation_witness:
  "\<exists>p ns. VlanConfigMutator_Update demo_golib (caches_of (cluster0\<lparr>cl_nodes := [demo_node ''node1'']\<rparr>))
        (demo_vc ''vc1'' ''cn1'' None 1500) (demo_vc ''vc1'' ''cn1'' None 1500) = Inr p
     \<and> vc_getMatchNodes demo_golib (apply_vc_patch p (demo_vc ''vc1'' ''cn1'' None 1500)) = Inr ns \<and> set ns = {''node1''}"
proof -
  let ?vc = "demo_vc ''vc1'' ''cn1'' None 1500"
  let ?c = "cluster0\<lparr>cl_nodes := [demo_node ''node1'']\<rparr>"
  have mgmt: "vc_ClusterNetwork ?vc \<noteq> ManagementClusterNetworkName" and d: "\<not> o_deleting ?vc"
    by (simp_all add: demo_vc_def ManagementClusterNetworkName_def)
  have m: "sel_matches (node_selector ?vc) (o_labels (demo_node ''node1''))"
    by (simp add: node_selector_def demo_vc_def demo_node_def HarvesterWitnessNodeLabelKey_def)
  then have sel: "{n \<in> set (indexer (cl_nodes ?c)). sel_matches (node_selector ?vc) (o_labels n)} = {demo_node ''node1''}"
    by auto
  obtain p where p: "VlanConfigMutator_Update demo_golib (caches_of ?c) ?vc ?vc = Inr p"
    using m mgmt d
    by (simp add: VlanConfigMutator_Update_def matchNodes_def store_list_def matchedNodesToPatch_def)
       (simp add: demo_node_def demo_golib_def)
  have "\<exists>ns. vc_getMatchNodes demo_golib (apply_vc_patch p ?vc) = Inr ns \<and> set ns = o_name ` {demo_node ''node1''}"
    using matched_nodes_annotation [OF demo_strings_law p d mgmt] unfolding sel by simp
  with p show ?thesis by (auto simp: demo_node_def)
qed

text \<open>
  The guard of the management network looks at the new object only: a user's update that
  moves a VLAN config of the management network to another cluster network is admitted.
\<close>

lemma mgmt_vlanconfig_moved_by_user:
  "VlanConfigValidator_Update demo_golib (caches_of (vc_cluster [])) (Some \<lparr>isFromController = False\<rparr>)
     (demo_vc ''mgmt-vlanconfig-node1'' ManagementClusterNetworkName None 1500)
     (demo_vc ''mgmt-vlanconfig-node1'' ''cn1'' None 1500) = None"
proof -
  have [simp]: "validateMTU (caches_of (vc_cluster [])) (demo_vc n ''cn1'' None 1500) = None" for n
    by (simp add: validateMTU_None live_vcs_def GetMTUFromVlanConfig_def demo_vc_def IsValidMTU_def mtu_consts)
  have [simp]: "vc_getMatchNodes demo_golib (demo_vc n cn None 1500) = Inr []" for n cn
    by (simp add: vc_getMatchNodes_def demo_vc_def)
  have [simp]: "store_get [demo_cn1] [] (vc_ClusterNetwork (demo_vc n ''cn1'' None 1500)) = Inr demo_cn1" for n
    by (simp add: store_get_def key_of_def demo_cn1_def demo_vc_def)
  have [simp]: "\<not> o_deleting (demo_vc n cn None 1500)" "fst (IsClusterNetworkLabelValid (demo_vc n ''cn1'' None 1500))" for n cn
    by (simp_all add: demo_vc_def IsClusterNetworkLabelValid_def mget_def)
  have [simp]: "\<not> IsUserRequestForMgmtCluster r (vc_ClusterNetwork (demo_vc n ''cn1'' None 1500))" for r n
    by (simp add: demo_vc_def IsUserRequestForMgmtCluster_def ManagementClusterNetworkName_def)
  show ?thesis
    by (simp add: VlanConfigValidator_Update_def checkOverlaps_None getAffectedNodes_def vc_checkVmi_None
        checkNetworkNadsAttached_def Let_def)
qed

end
