(* ===== verification/Webhook_ClusterNetwork.thy ===== *)
theory Webhook_ClusterNetwork
  imports Webhook_VlanConfig
begin

text \<open>\<open>pkg/webhook/clusternetwork\<close>: the admission validator of cluster networks.\<close>

definition cn_createErr :: string where "cn_createErr = ''can't create cluster network %s because %w''"
definition cn_updateErr :: string where "cn_updateErr = ''can't update cluster network %s because %w''"
definition cn_deleteErr :: string where "cn_deleteErr = ''can't delete cluster network %s because %w''"

definition checkMTUOfNewClusterNetwork :: "ClusterNetwork \<Rightarrow> go_error option" where
  "checkMTUOfNewClusterNetwork cn =
     (if o_annotations cn = None then None
      else if mlookup (o_annotations cn) KeyUplinkMTU \<noteq> None
      then Some (Errorf ''annotation %v can't be added'') else None)"

text \<open>The MTU annotation of a cluster network, or the default without one.\<close>

definition annotated_mtu :: "ClusterNetwork \<Rightarrow> int res" where
  "annotated_mtu cn =
     (case mlookup (o_annotations cn) KeyUplinkMTU of
        Some mtuStr \<Rightarrow> GetMTUFromString mtuStr
      | None \<Rightarrow> Inr DefaultMTU)"

definition checkMTUOfUpdatedClusterNetwork :: "caches \<Rightarrow> ClusterNetwork \<Rightarrow> ClusterNetwork \<Rightarrow> go_error option" where
  "checkMTUOfUpdatedClusterNetwork c oldCn newCn =
     (if o_name newCn = ManagementClusterNetworkName then None
      else with_res (annotated_mtu newCn) id (\<lambda>newMtu.
           with_res (vcList c (SelectorFromSet [(KeyClusterNetworkLabel, o_name newCn)])) id (\<lambda>vcs.
           first_err (\<lambda>vc.
             if o_deleting vc then None
             else if \<not> AreEqualMTUs (GetMTUFromVlanConfig (Some vc)) newMtu
             then Some (Errorf ''clusternetwork has MTU %v, but the vlanconfigs %v has another MTU %v'')
             else None) vcs)))"

definition checkMTUOfUpdatedMgmtClusterNetwork :: "caches \<Rightarrow> ClusterNetwork \<Rightarrow> ClusterNetwork \<Rightarrow> go_error option" where
  "checkMTUOfUpdatedMgmtClusterNetwork c oldCn newCn =
     (if o_name newCn \<noteq> ManagementClusterNetworkName then None
      else with_res (annotated_mtu newCn) id (\<lambda>newMtu.
           with_res (annotated_mtu oldCn) id (\<lambda>oldMtu.
           if AreEqualMTUs oldMtu newMtu then None
           else with_res (ListNadsOnClusterNetwork (nadList c) (o_name newCn)) id (\<lambda>nads.
                case FilterFirstActiveSystemNetworkNad nads of
                  Some nad \<Rightarrow> Some (Errorf ''the MTU can't be changed from %v to %v as nad %s is still attached'')
                | None \<Rightarrow>
                    with_res (VmiNamesWhoUseNads (vmiByIndex c) nads False None) id (\<lambda>vmiStrList.
                    if length vmiStrList > 0
                    then Some (Errorf ''the MTU can't be changed from %v to %v as following VMs must be stopped at first: %s'')
                    else None)))))"

definition CnValidator_Create :: "caches \<Rightarrow> ClusterNetwork \<Rightarrow> go_error option" where
  "CnValidator_Create c cn =
     with_res (IsClusterNetworkNameValid (o_name cn)) (wrap cn_createErr) (\<lambda>_.
     guard_err (checkMTUOfNewClusterNetwork cn) (wrap cn_createErr) None)"

definition CnValidator_Update :: "caches \<Rightarrow> ClusterNetwork \<Rightarrow> ClusterNetwork \<Rightarrow> go_error option" where
  "CnValidator_Update c oldCn newCn =
     (if o_deleting newCn then None
      else guard_err (checkMTUOfUpdatedClusterNetwork c oldCn newCn) (wrap cn_updateErr)
           (guard_err (checkMTUOfUpdatedMgmtClusterNetwork c oldCn newCn) (wrap cn_updateErr) None))"

definition CnValidator_Delete :: "caches \<Rightarrow> ClusterNetwork \<Rightarrow> go_error option" where
  "CnValidator_Delete c cn =
     (if o_name cn = ManagementClusterNetworkName then Some (wrap cn_deleteErr (Errorf ''it is not allowed''))
      else with_res (vcList c (SelectorFromSet [(KeyClusterNetworkLabel, o_name cn)]))
             (\<lambda>e. wrap cn_deleteErr (wrap ''failed to list vlanconfig error %w'' e)) (\<lambda>vcs.
           guard_err (if length vcs > 0
                      then Some (Errorf ''vlanconfig(s) %v under this clusternetwork are still existing'') else None)
             (wrap cn_deleteErr)
           (with_res (NadNamesOnClusterNetwork (nadList c) (o_name cn)) (wrap cn_deleteErr) (\<lambda>nadStrList.
           guard_err (if length nadStrList > 0
                      then Some (Errorf ''nads(s) %v under this clusternetwork are still existing'') else None)
             (wrap cn_deleteErr) None))))"

section \<open>Properties\<close>

definition labelled :: "'a objmeta_scheme list \<Rightarrow> string \<Rightarrow> bool" where
  "labelled xs cn \<longleftrightarrow> (\<exists>x \<in> set (indexer xs). mlookup (o_labels x) KeyClusterNetworkLabel = Some cn)"

lemma store_list_labelled_empty:
  "store_list (indexer xs) [] (SelectorFromSet [(KeyClusterNetworkLabel, cn)]) = Inr ys \<Longrightarrow> ys = [] \<longleftrightarrow> \<not> labelled xs cn"
  using store_list_labelled [of xs KeyClusterNetworkLabel cn]
  by (auto simp: labelled_def simp flip: set_empty)

text \<open>
  A cluster network can be deleted exactly when it is not the management network and no
  VLAN config and no NAD carries its label, so deleting it leaves no dangling reference.
\<close>

lemma cluster_network_delete_iff:
  "CnValidator_Delete (caches_of c) cn = None \<longleftrightarrow>
     o_name cn \<noteq> ManagementClusterNetworkName \<and> \<not> labelled (cl_vcs c) (o_name cn) \<and> \<not> labelled (cl_nads c) (o_name cn)"
proof -
  obtain vcs nads where
    "store_list (indexer (cl_vcs c)) [] (SelectorFromSet [(KeyClusterNetworkLabel, o_name cn)]) = Inr vcs"
    "store_list (indexer (cl_nads c)) [] (SelectorFromSet [(KeyClusterNetworkLabel, o_name cn)]) = Inr nads"
    using store_list_labelled [of "cl_vcs c"] store_list_labelled [of "cl_nads c"] by blast
  with store_list_labelled_empty [OF this(1)] store_list_labelled_empty [OF this(2)] show ?thesis
    by (auto simp: CnValidator_Delete_def NadNamesOnClusterNetwork_def ListNadsOnClusterNetwork_def generateNadNameList_def)
qed

lemma CnValidator_Update_iff:
  assumes "\<not> o_deleting new" "o_name new \<noteq> ManagementClusterNetworkName"
  shows "CnValidator_Update (caches_of c) old new = None \<longleftrightarrow>
     (\<exists>m. annotated_mtu new = Inr m \<and>
        (\<forall>vc \<in> live_vcs c (o_name new). AreEqualMTUs (GetMTUFromVlanConfig (Some vc)) m))"
  using assms store_list_labelled [of "cl_vcs c" KeyClusterNetworkLabel "o_name new"]
  by (auto simp: CnValidator_Update_def checkMTUOfUpdatedClusterNetwork_def checkMTUOfUpdatedMgmtClusterNetwork_def
      live_vcs_def split: if_splits)

text \<open>
  An update of a live cluster network other than the management network is admitted
  exactly when its MTU annotation, if any, is valid and every live VLAN config of the network
  has that MTU; without an annotation they must have the default.
\<close>

lemma cluster_network_update_mtu:
  assumes "\<not> o_deleting new" "o_name new \<noteq> ManagementClusterNetworkName"
  shows "CnValidator_Update (caches_of c) old new = None \<longleftrightarrow>
     (\<exists>m. annotated_mtu new = Inr m \<and>
        (\<forall>vc \<in> live_vcs c (o_name new). AreEqualMTUs (GetMTUFromVlanConfig (Some vc)) m))"
  by (rule CnValidator_Update_iff [OF assms])

lemma cluster_network_update_mtu_witness:
  "CnValidator_Update (caches_of (vc_cluster [demo_vc ''vc1'' ''cn1'' None 0])) demo_cn1
     (demo_cn1\<lparr>o_annotations := Some [KeyUplinkMTU \<mapsto> ''1500'']\<rparr>) = None"
proof -
  let ?new = "demo_cn1\<lparr>o_annotations := Some [KeyUplinkMTU \<mapsto> ''1500'']\<rparr>"
  have a: "Atoi ''1500'' = Inr 1500" by (simp add: Atoi_def char_digit_def)
  have "annotated_mtu ?new = Inr 1500"
    by (simp add: annotated_mtu_def GetMTUFromString_def a IsValidMTU_def mtu_consts)
  moreover have "live_vcs (vc_cluster [demo_vc ''vc1'' ''cn1'' None 0]) (o_name ?new) \<subseteq> {demo_vc ''vc1'' ''cn1'' None 0}"
    by (auto simp: live_vcs_def)
  moreover have "AreEqualMTUs (GetMTUFromVlanConfig (Some (demo_vc ''vc1'' ''cn1'' None 0))) 1500"
    by (simp add: GetMTUFromVlanConfig_def demo_vc_def AreEqualMTUs_def DefaultMTU_def)
  moreover have "\<not> o_deleting ?new" "o_name ?new \<noteq> ManagementClusterNetworkName"
    by (simp_all add: demo_cn1_def ManagementClusterNetworkName_def)
  ultimately show ?thesis
    using cluster_network_update_mtu [of ?new "vc_cluster [demo_vc ''vc1'' ''cn1'' None 0]" demo_cn1] by blast
qed

end
