(* ===== verification/Webhook_Subnet.thy ===== *)
theory Webhook_Subnet
  imports Webhook_Nad
begin

text \<open>\<open>pkg/webhook/subnet\<close>: the admission validator of kube-ovn subnets.\<close>

definition subnet_checkVmi :: "caches \<Rightarrow> Nad \<Rightarrow> go_error option" where
  "subnet_checkVmi v nad =
     with_res (VmiNamesWhoUseNad (vmiByIndex v) nad False None) id (\<lambda>vmiStrList.
     if length vmiStrList > 0
     then Some (Errorf ''it's still used by VM(s) %s which must be stopped at first'') else None)"

definition canUpdateDHCPSetting :: "caches \<Rightarrow> Subnet \<Rightarrow> Subnet \<Rightarrow> go_error option" where
  "canUpdateDHCPSetting v oldSubnet newSubnet =
     (if sp_EnableDHCP (sn_Spec oldSubnet) = sp_EnableDHCP (sn_Spec newSubnet) then None
      else with_res (GetNadNameFromProvider (sp_Provider (sn_Spec newSubnet))) id (\<lambda>(nadName, nadNamespace).
           with_res (nadGet v nadNamespace nadName)
             (render ''failed to get nad %s in namespace %s for subnet %s err=%v'') (\<lambda>subnetNad.
           guard_err (subnet_checkVmi v subnetNad)
             (wrap ''cannot update DHCP setting for subnet %s as VMs are still using it, stop the VMs and update err:%w'')
             None)))"

definition checkIfValidNad :: "caches \<Rightarrow> string \<Rightarrow> go_error option" where
  "checkIfValidNad v subnetProvider =
     with_res (GetNadNameFromProvider subnetProvider) id (\<lambda>(nadName, nadNamespace).
     case nadGet v nadNamespace nadName of
       Inl err \<Rightarrow>
         if IsNotFound err
         then Some (Errorf ''nad %s not created in namespace %s, create the nad before subnet creation'')
         else Some err
     | Inr nad \<Rightarrow>
         if o_labels nad = None then Some (Errorf ''lables are empty for nad %s/%s'')
         else if mget (o_labels nad) KeyNetworkType \<noteq> OverlayNetwork
         then Some (Errorf ''network type of nad is not kubeovn instead %s'')
         else None)"

definition checkIfVpcExists :: "caches \<Rightarrow> string \<Rightarrow> go_error option" where
  "checkIfVpcExists v subnetVpc =
     (if subnetVpc \<noteq> [] then
        (case vpcGet v subnetVpc of
           Inl err \<Rightarrow>
             if IsNotFound err then Some (Errorf ''vpc %s not created for subnet, create vpc before subnet creation'')
             else Some err
         | Inr _ \<Rightarrow> None)
      else None)"

definition subnet_checkSubnetsUsingNAD :: "caches \<Rightarrow> string \<Rightarrow> go_error option" where
  "subnet_checkSubnetsUsingNAD v provider =
     with_res (subnetList v Everything) (render ''failed to retrieve subnets err=%v'') (\<lambda>subnets.
     first_err (\<lambda>subnet. if sp_Provider (sn_Spec subnet) = provider
                          then Some (Errorf ''subnet %s is using the provider %s already'') else None) subnets)"

definition SubnetValidator_Create :: "caches \<Rightarrow> Subnet \<Rightarrow> go_error option" where
  "SubnetValidator_Create v subnet =
     (let subnetSpec = sn_Spec subnet;
          (isReserved, err) = IsReservedSubnet (o_name subnet) (sp_Provider subnetSpec)
      in if isReserved then err
         else guard_err (checkIfValidNad v (sp_Provider subnetSpec)) id
              (guard_err (subnet_checkSubnetsUsingNAD v (sp_Provider subnetSpec)) id
              (guard_err (checkIfVpcExists v (sp_Vpc subnetSpec))
                 (render ''vpc does not exist for subnet %s err=%v'') None)))"

definition SubnetValidator_Update :: "caches \<Rightarrow> Subnet \<Rightarrow> Subnet \<Rightarrow> go_error option" where
  "SubnetValidator_Update v oldSubnet newSubnet =
     (if o_deleting newSubnet then None
      else let newSpec = sn_Spec newSubnet; oldSpec = sn_Spec oldSubnet
           in if newSpec = oldSpec then None
              else let (isReserved, err) = IsReservedSubnet (o_name newSubnet) (sp_Provider newSpec)
                   in if isReserved then err
                      else if sp_Provider newSpec \<noteq> sp_Provider oldSpec \<and> sn_V4UsingIPs oldSubnet \<noteq> 0
                      then Some (Errorf ''cannot update provider %s for subnet %s as VMs are still using it'')
                      else if sp_Vpc newSpec \<noteq> sp_Vpc oldSpec \<and> sn_V4UsingIPs oldSubnet \<noteq> 0
                      then Some (Errorf ''cannot update vpc %s for subnet %s as VMs are still using it'')
                      else
                        guard_err (checkIfValidNad v (sp_Provider newSpec)) id
                        (guard_err (if sp_Provider newSpec \<noteq> sp_Provider oldSpec
                                    then subnet_checkSubnetsUsingNAD v (sp_Provider newSpec) else None) id
                        (guard_err (checkIfVpcExists v (sp_Vpc newSpec))
                           (render ''vpc does not exist for subnet %s err=%v'')
                        (guard_err (canUpdateDHCPSetting v oldSubnet newSubnet) id None))))"

section \<open>What the checks mean on a state of the cluster\<close>

definition overlay_nad :: "cluster \<Rightarrow> string \<Rightarrow> Nad \<Rightarrow> bool" where
  "overlay_nad c provider nad \<longleftrightarrow>
     nad \<in> set (indexer (cl_nads c)) \<and> GetNadNameFromProvider provider = Inr (o_name nad, o_namespace nad)
     \<and> IsOverlayNad (Some nad)"

lemma checkIfValidNad_None:
  "checkIfValidNad (caches_of c) p = None \<longleftrightarrow> (\<exists>nad. overlay_nad c p nad)"
proof (cases "GetNadNameFromProvider p")
  case (Inr nm)
  obtain n ns where nm: "nm = (n, ns)" by force
  show ?thesis
  proof (cases "store_get (indexer (cl_nads c)) ns n")
    case (Inl e)
    with store.get_Inl [OF Inl] Inr nm show ?thesis
      by (auto simp: checkIfValidNad_def overlay_nad_def key_of_def)
  next
    case (Inr nad)
    note get = this
    then have nad: "nad \<in> set (indexer (cl_nads c))" "key_of nad = (ns, n)" by (simp_all add: store.get_Inr)
    have "x = nad" if "overlay_nad c p x" for x
      using that nad \<open>GetNadNameFromProvider p = Inr nm\<close> nm
      by (auto simp: overlay_nad_def key_of_def intro: store.key_unique)
    then have "overlay_nad c p x \<longleftrightarrow> x = nad \<and> IsOverlayNad (Some nad)" for x
      using nad \<open>GetNadNameFromProvider p = Inr nm\<close> nm by (auto simp: overlay_nad_def key_of_def)
    moreover have "checkIfValidNad (caches_of c) p = None \<longleftrightarrow> IsOverlayNad (Some nad)"
      using get \<open>GetNadNameFromProvider p = Inr nm\<close> nm by (auto simp: checkIfValidNad_def IsOverlayNad_def)
    ultimately show ?thesis by simp
  qed
qed (auto simp: checkIfValidNad_def overlay_nad_def)

lemma subnet_checkSubnets_None:
  "subnet_checkSubnetsUsingNAD (caches_of c) p = None \<longleftrightarrow> \<not> subnet_uses c p"
  using store_list_all [of "cl_subnets c"]
  by (auto simp: subnet_checkSubnetsUsingNAD_def subnet_uses_def split: if_splits)

lemma checkIfVpcExists_None:
  "checkIfVpcExists (caches_of c) vpc = None \<longleftrightarrow> vpc = [] \<or> ([], vpc) \<in> key_of ` set (indexer (cl_vpcs c))"
proof (cases "store_get (indexer (cl_vpcs c)) [] vpc")
  case (Inl e)
  with store.get_Inl [OF Inl] show ?thesis by (auto simp: checkIfVpcExists_def)
next
  case (Inr x)
  then have "x \<in> set (indexer (cl_vpcs c))" "key_of x = ([], vpc)" by (simp_all add: store.get_Inr)
  with Inr show ?thesis by (force simp: checkIfVpcExists_def)
qed

section \<open>Properties\<close>

text \<open>
  A subnet that is not one of kube-ovn's own is admitted exactly when its provider names
  an existing overlay NAD that no other subnet uses and its VPC, if given, exists: a NAD and
  its subnet correspond one to one.
\<close>

lemma subnet_create_iff:
  assumes "o_name subnet \<noteq> joinSubnet" "o_name subnet \<noteq> ovnDefaultSubnet"
  shows "SubnetValidator_Create (caches_of c) subnet = None \<longleftrightarrow>
     (\<exists>nad. overlay_nad c (sp_Provider (sn_Spec subnet)) nad) \<and> \<not> subnet_uses c (sp_Provider (sn_Spec subnet))
     \<and> (sp_Vpc (sn_Spec subnet) = [] \<or> ([], sp_Vpc (sn_Spec subnet)) \<in> key_of ` set (indexer (cl_vpcs c)))"
  using assms
  by (auto simp: SubnetValidator_Create_def IsReservedSubnet_def checkIfValidNad_None subnet_checkSubnets_None
      checkIfVpcExists_None Let_def)

definition demo_subnet :: "string \<Rightarrow> Subnet" where
  "demo_subnet p = \<lparr>o_name = ''sn1'', o_namespace = [], o_labels = None, o_annotations = None, o_deleting = False,
     sn_Spec = \<lparr>sp_Provider = p, sp_Vpc = [], sp_EnableDHCP = False, sp_rest = []\<rparr>, sn_V4UsingIPs = 0\<rparr>"

definition ovn_nad :: Nad where
  "ovn_nad = \<lparr>o_name = ''vsw'', o_namespace = ''default'', o_labels = Some [KeyNetworkType \<mapsto> OverlayNetwork],
     o_annotations = None, o_deleting = False, nad_Config = [], nad_Finalizers = []\<rparr>"

lemma subnet_create_iff_witness:
  "SubnetValidator_Create (caches_of (cluster0\<lparr>cl_nads := [ovn_nad]\<rparr>)) (demo_subnet ''vsw.default.ovn'') = None"
proof -
  let ?c = "cluster0\<lparr>cl_nads := [ovn_nad]\<rparr>" and ?s = "demo_subnet ''vsw.default.ovn''"
  have "overlay_nad ?c (sp_Provider (sn_Spec ?s)) ovn_nad"
    by (simp add: overlay_nad_def indexer_def store_put_def GetNadNameFromProvider_def IsOverlayNad_def ovn_nad_def
        demo_subnet_def mget_def)
  moreover have "\<not> subnet_uses ?c (sp_Provider (sn_Spec ?s))"
    by (simp add: subnet_uses_def cluster0_def indexer_def)
  moreover have "o_name ?s \<noteq> joinSubnet" "o_name ?s \<noteq> ovnDefaultSubnet"
    by (simp_all add: demo_subnet_def joinSubnet_def ovnDefaultSubnet_def)
  moreover have "sp_Vpc (sn_Spec ?s) = []" by (simp add: demo_subnet_def)
  ultimately show ?thesis using subnet_create_iff [of ?s ?c] by blast
qed

text \<open>
  While addresses of a subnet are in use, its provider and its VPC stay as they are, and
  its DHCP setting changes only when no running VM is attached to its NAD.
\<close>

lemma subnet_update_safe:
  assumes "SubnetValidator_Update (caches_of c) old new = None" "\<not> o_deleting new"
    and "o_name new \<noteq> joinSubnet" "o_name new \<noteq> ovnDefaultSubnet"
  shows "(if sn_V4UsingIPs old \<noteq> 0
          then sp_Provider (sn_Spec new) = sp_Provider (sn_Spec old) \<and> sp_Vpc (sn_Spec new) = sp_Vpc (sn_Spec old)
          else True)
     \<and> (if sp_EnableDHCP (sn_Spec new) = sp_EnableDHCP (sn_Spec old) then True
        else \<exists>nad. overlay_nad c (sp_Provider (sn_Spec new)) nad \<and> \<not> vmi_attached c nad)"
proof (cases "sn_Spec new = sn_Spec old")
  case False
  have vmi: "subnet_checkVmi (caches_of c) nad = nad_checkVmi (caches_of c) nad" for nad
    by (simp add: subnet_checkVmi_def nad_checkVmi_def)
  have dhcp: "\<exists>nad. overlay_nad c (sp_Provider (sn_Spec new)) nad \<and> \<not> vmi_attached c nad"
    if ne: "sp_EnableDHCP (sn_Spec new) \<noteq> sp_EnableDHCP (sn_Spec old)"
      and can: "canUpdateDHCPSetting (caches_of c) old new = None"
      and valid: "checkIfValidNad (caches_of c) (sp_Provider (sn_Spec new)) = None"
  proof -
    obtain nad where nad: "overlay_nad c (sp_Provider (sn_Spec new)) nad"
      using valid by (auto simp: checkIfValidNad_None)
    then have "store_get (indexer (cl_nads c)) (o_namespace nad) (o_name nad) = Inr nad"
      by (simp add: store.get_Inr overlay_nad_def key_of_def)
    with ne can nad have "\<not> vmi_attached c nad"
      by (auto simp: canUpdateDHCPSetting_def overlay_nad_def vmi nad_checkVmi_None)
    with nad show ?thesis by blast
  qed
  have checks: "canUpdateDHCPSetting (caches_of c) old new = None"
      "checkIfValidNad (caches_of c) (sp_Provider (sn_Spec new)) = None"
    using assms False by (auto simp: SubnetValidator_Update_def IsReservedSubnet_def Let_def split: if_splits)
  from assms False show ?thesis
    using dhcp [OF _ checks]
    by (auto simp: SubnetValidator_Update_def IsReservedSubnet_def Let_def split: if_splits)
qed simp

lemma subnet_update_safe_witness:
  "\<exists>c nad. SubnetValidator_Update (caches_of c) (demo_subnet ''vsw.default.ovn'')
       ((demo_subnet ''vsw.default.ovn'')\<lparr>sn_Spec := \<lparr>sp_Provider = ''vsw.default.ovn'', sp_Vpc = [], sp_EnableDHCP = True, sp_rest = []\<rparr>\<rparr>) = None
     \<and> overlay_nad c ''vsw.default.ovn'' nad \<and> \<not> vmi_attached c nad"
proof -
  let ?c = "cluster0\<lparr>cl_nads := [ovn_nad]\<rparr>" and ?old = "demo_subnet ''vsw.default.ovn''"
  let ?new = "?old\<lparr>sn_Spec := \<lparr>sp_Provider = ''vsw.default.ovn'', sp_Vpc = [], sp_EnableDHCP = True, sp_rest = []\<rparr>\<rparr>"
  have prov: "GetNadNameFromProvider ''vsw.default.ovn'' = Inr (''vsw'', ''default'')"
    by (simp add: GetNadNameFromProvider_def)
  have get: "store_get (indexer (cl_nads ?c)) ''default'' ''vsw'' = Inr ovn_nad"
    by (simp add: indexer_def store_put_def store_get_def key_of_def ovn_nad_def)
  have ov: "overlay_nad ?c ''vsw.default.ovn'' ovn_nad"
    by (simp add: overlay_nad_def indexer_def store_put_def prov IsOverlayNad_def ovn_nad_def mget_def)
  have novm: "nad_checkVmi (caches_of ?c) ovn_nad = None"
    by (simp add: nad_checkVmi_None vmi_attached_def) (simp add: cluster0_def indexer_def)
  then have "subnet_checkVmi (caches_of ?c) ovn_nad = None" by (simp add: subnet_checkVmi_def nad_checkVmi_def)
  moreover have "checkIfValidNad (caches_of ?c) ''vsw.default.ovn'' = None"
    using ov by (auto simp: checkIfValidNad_None)
  ultimately have u: "SubnetValidator_Update (caches_of ?c) ?old ?new = None"
    using prov get
    by (simp add: SubnetValidator_Update_def demo_subnet_def IsReservedSubnet_def joinSubnet_def ovnDefaultSubnet_def
        checkIfVpcExists_def canUpdateDHCPSetting_def)
  moreover have "\<not> o_deleting ?new" "o_name ?new \<noteq> joinSubnet" "o_name ?new \<noteq> ovnDefaultSubnet"
    by (simp_all add: demo_subnet_def joinSubnet_def ovnDefaultSubnet_def)
  ultimately have "\<exists>nad. overlay_nad ?c ''vsw.default.ovn'' nad \<and> \<not> vmi_attached ?c nad"
    using subnet_update_safe [OF u] by (simp add: demo_subnet_def)
  with u show ?thesis by blast
qed

end
