(* ===== verification/Go_Net.thy ===== *)
theory Go_Net
  imports Net_Conf
begin

text \<open>
  What the code uses of Go's package \<open>net\<close> beside the parsers: sizes of masks, equality and text form of
  addresses and networks. An address or mask is its list of bytes; nil is the empty list.
\<close>

unbundle bit_operations_syntax

section \<open>Masks\<close>

text \<open>\<open>IPMask.Size\<close>: leading ones and length in bits, or (0, 0) when ones follow a zero.\<close>

definition mask_bits :: "8 word list \<Rightarrow> bool list" where
  "mask_bits m = concat (map (\<lambda>b. map (bit b) [7, 6, 5, 4, 3, 2, 1, 0]) m)"

definition IPMask_Size :: "8 word list \<Rightarrow> nat \<times> nat" where
  "IPMask_Size m =
     (let bs = mask_bits m; ones = length (takeWhile id bs) in
      if list_all Not (drop ones bs) then (ones, length bs) else (0, 0))"

text \<open>The mask of a prefix length.\<close>

definition CIDRMask :: "nat \<Rightarrow> 8 word list" where
  "CIDRMask n = map (\<lambda>i. word_of_int (256 - 2 ^ (8 - min 8 (n - 8 * i)))) [0, 1, 2, 3]"

lemma CIDRMask_Size: "n \<le> 32 \<Longrightarrow> IPMask_Size (CIDRMask n) = (n, 32)"
proof -
  assume "n \<le> 32"
  then have "n \<in> set [0..<33]" by simp
  moreover have "list_all (\<lambda>n. IPMask_Size (CIDRMask n) = (n, 32)) [0..<33]" by code_simp
  ultimately show ?thesis by (auto simp: list_all_iff)
qed

lemma IPMask_Size_bits:
  assumes "IPMask_Size m = (ones, bits)" "bits \<noteq> 0"
  shows "mask_bits m = replicate ones True @ replicate (bits - ones) False" "ones \<le> bits"
proof -
  let ?bs = "mask_bits m"
  from assms have z: "list_all Not (drop (length (takeWhile id ?bs)) ?bs)" "ones = length (takeWhile id ?bs)" "bits = length ?bs"
    by (auto simp: IPMask_Size_def Let_def split: if_splits)
  have "takeWhile id ?bs = replicate ones True"
    unfolding z(2) by (rule replicate_eqI) (auto dest: set_takeWhileD)
  moreover have "drop ones ?bs = replicate (bits - ones) False"
    using z by (intro replicate_eqI) (auto simp: list_all_iff)
  moreover have "takeWhile id ?bs @ drop ones ?bs = ?bs" by (simp add: z(2) dropWhile_eq_drop [symmetric])
  ultimately show "?bs = replicate ones True @ replicate (bits - ones) False" by metis
  show "ones \<le> bits" unfolding z by (rule length_takeWhile_le)
qed

lemma byte_eqI: "map (bit a) [7, 6, 5, 4, 3, 2, 1, 0] = map (bit b) [7, 6, 5, 4, 3, 2, 1, 0] \<Longrightarrow> a = b" for a b :: "8 word"
proof (rule bit_word_eqI)
  fix n :: nat
  assume eq: "map (bit a) [7, 6, 5, 4, 3, 2, 1, 0] = map (bit b) [7, 6, 5, 4, 3, 2, 1, 0]" and "n < LENGTH(8)"
  then have "n < 8" by simp
  then have "n = 7 \<or> n = 6 \<or> n = 5 \<or> n = 4 \<or> n = 3 \<or> n = 2 \<or> n = 1 \<or> n = 0" by arith
  then have "n \<in> set [7, 6, 5, 4, 3, 2, 1, 0]" by simp
  with eq show "bit a n \<longleftrightarrow> bit b n" unfolding map_eq_conv by blast
qed

lemma mask_bits_inj: "length m = length m' \<Longrightarrow> mask_bits m = mask_bits m' \<Longrightarrow> m = m'"
proof (induction m m' rule: list_induct2)
  case (Cons a m b m')
  then have "map (bit a) [7, 6, 5, 4, 3, 2, 1, 0] = map (bit b) [7, 6, 5, 4, 3, 2, 1, 0] \<and> mask_bits m = mask_bits m'"
    by (simp add: mask_bits_def)
  with Cons.IH byte_eqI show ?case by blast
qed simp

section \<open>Addresses\<close>

definition v4InV6Prefix :: "8 word list" where
  "v4InV6Prefix = replicate 10 0 @ [0xff, 0xff]"

text \<open>\<open>IP.Equal\<close> identifies an IPv4 address with its IPv4-in-IPv6 form.\<close>

definition ip_equal :: "8 word list \<Rightarrow> 8 word list \<Rightarrow> bool" where
  "ip_equal ip x =
     (if length ip = length x then ip = x
      else if length ip = 4 \<and> length x = 16 then take 12 x = v4InV6Prefix \<and> ip = drop 12 x
      else if length ip = 16 \<and> length x = 4 then take 12 ip = v4InV6Prefix \<and> drop 12 ip = x
      else False)"

definition To4 :: "8 word list \<Rightarrow> 8 word list" where
  "To4 ip =
     (if length ip = 4 then ip
      else if length ip = 16 \<and> take 12 ip = v4InV6Prefix then drop 12 ip
      else [])"

text \<open>\<open>IP.Mask\<close>: nil when the lengths do not fit.\<close>

definition IP_Mask :: "8 word list \<Rightarrow> 8 word list \<Rightarrow> 8 word list" where
  "IP_Mask ip m =
     (let m1 = (if length m = 16 \<and> length ip = 4 \<and> list_all (\<lambda>b. b = 0xff) (take 12 m) then drop 12 m else m);
          ip' = (if length m1 = 4 \<and> length ip = 16 \<and> take 12 ip = v4InV6Prefix then drop 12 ip else ip)
      in if length ip' \<noteq> length m1 then [] else map2 (AND) ip' m1)"

section \<open>Text\<close>

definition hexString :: "8 word list \<Rightarrow> string" where
  "hexString bs = concat (map (\<lambda>b. [hex_digit (unat b div 16), hex_digit (unat b mod 16)]) bs)"

definition dotted :: "8 word list \<Rightarrow> string" where
  "dotted bs = Join (map (\<lambda>b. Itoa (int (unat b))) bs) ''.''"

text \<open>
  An IPv6 address: the sixteen-bit groups in hexadecimal without leading zeros; the first longest run
  of at least two zero groups is written as two colons.
\<close>

definition hex_group :: "nat \<Rightarrow> string" where
  "hex_group n = (let ds = dropWhile (\<lambda>d. d = 0) [n div 4096, n div 256 mod 16, n div 16 mod 16]
                  in map hex_digit (ds @ [n mod 16]))"

fun groups :: "8 word list \<Rightarrow> nat list" where
  "groups (a # b # bs) = (256 * unat a + unat b) # groups bs"
| "groups _ = []"

definition zero_run :: "nat list \<Rightarrow> nat \<times> nat" where
  "zero_run gs =
     foldl (\<lambda>(s, e) i. let l = length (takeWhile (\<lambda>g. g = 0) (drop i gs)) in
              if 2 \<le> l \<and> e - s < l then (i, i + l) else (s, e)) (255, 255) [0..<8]"

definition string6 :: "8 word list \<Rightarrow> string" where
  "string6 ip =
     (let gs = groups ip; (s, e) = zero_run gs in
      if s = 255 then Join (map hex_group gs) '':''
      else Join (map hex_group (take s gs)) '':'' @ ''::'' @ Join (map hex_group (drop e gs)) '':'')"

definition IP_String :: "8 word list \<Rightarrow> string" where
  "IP_String ip =
     (if ip = [] then ''<nil>''
      else if length ip \<noteq> 4 \<and> length ip \<noteq> 16 then ''?'' @ hexString ip
      else if To4 ip \<noteq> [] then dotted (To4 ip)
      else string6 ip)"

definition IPMask_String :: "8 word list \<Rightarrow> string" where
  "IPMask_String m = (if m = [] then ''<nil>'' else hexString m)"

definition networkNumberAndMask :: "IPNet \<Rightarrow> (8 word list \<times> 8 word list) option" where
  "networkNumberAndMask n =
     (let ip = (if To4 (net_IP n) \<noteq> [] then To4 (net_IP n) else net_IP n); m = net_Mask n in
      if To4 (net_IP n) = [] \<and> length ip \<noteq> 16 then None
      else if length m = 4 then if length ip \<noteq> 4 then None else Some (ip, m)
      else if length m = 16 then Some (ip, if length ip = 4 then drop 12 m else m)
      else None)"

text \<open>\<open>IPNet.String\<close>: a mask that is not a prefix is written in hexadecimal.\<close>

definition IPNet_String :: "IPNet \<Rightarrow> string" where
  "IPNet_String n =
     (case networkNumberAndMask n of
        None \<Rightarrow> ''<nil>''
      | Some (nn, m) \<Rightarrow>
          IP_String nn @ ''/'' @
          (if snd (IPMask_Size m) = 0 then IPMask_String m else Itoa (int (fst (IPMask_Size m)))))"

end
