(* ===== verification/Webhook_HostNetworkConfig.thy ===== *)
theory Webhook_HostNetworkConfig
  imports Webhook_Nad Go_Net
begin

text \<open>\<open>pkg/webhook/hostnetworkconfig\<close>: the admission validator of host network configs.\<close>

section \<open>The validator\<close>

definition hnc_createErr :: string where "hnc_createErr = ''can't create hostnetworkConfig %s because %w''"
definition hnc_updateErr :: string where "hnc_updateErr = ''can't update hostnetworkConfig %s because %w''"
definition hnc_deleteErr :: string where "hnc_deleteErr = ''can't delete hostnetworkConfig %s because %w''"
definition IPModeDHCP :: string where "IPModeDHCP = ''dhcp''"
definition IPModeStatic :: string where "IPModeStatic = ''static''"

datatype ValidateOp = ValidateCreate | ValidateUpdate

definition hnc_checkVM :: "caches \<Rightarrow> Nad \<Rightarrow> go_error option" where
  "hnc_checkVM v nad =
     with_res (VMNamesWhoUseNad (vmByIndex v) nad) id (\<lambda>vmStrList.
     if length vmStrList > 0
     then Some (Errorf ''it's still used by VM(s) %s which must remove the related networks and interfaces'')
     else None)"

definition hnc_checkifVMExistsForOverlayNADs :: "caches \<Rightarrow> go_error option" where
  "hnc_checkifVMExistsForOverlayNADs v =
     with_res (ListAllNads (nadList v)) (wrap ''nad does not exist err %w'') (\<lambda>nads.
     first_err (\<lambda>nad. if IsOverlayNad (Some nad) then hnc_checkVM v nad else None) nads)"

text \<open>The first result of \<open>IPMask.Size\<close>.\<close>

definition mask_size :: "8 word list \<Rightarrow> nat" where
  "mask_size bs = fst (IPMask_Size bs)"

fun same_subnet_loop :: "golib \<Rightarrow> nat \<Rightarrow> 8 word list \<Rightarrow> string list \<Rightarrow> bool res" where
  "same_subnet_loop g refMaskLength refIP [] = Inr True"
| "same_subnet_loop g refMaskLength refIP (c # cs) =
     bind_res (ParseCIDR g c) id (\<lambda>(_, net1).
     if refMaskLength \<noteq> mask_size (net_Mask net1) \<or> \<not> ip_equal refIP (net_IP net1) then Inr False
     else same_subnet_loop g refMaskLength refIP cs)"

definition sameSubnet :: "golib \<Rightarrow> string list \<Rightarrow> bool res" where
  "sameSubnet g cidrs =
     (case cidrs of
        [] \<Rightarrow> Inr True
      | c # cs \<Rightarrow>
          bind_res (ParseCIDR g c) id (\<lambda>(_, refNet).
          same_subnet_loop g (mask_size (net_Mask refNet)) (net_IP refNet) cs))"

definition require_same_subnet :: "golib \<Rightarrow> string list \<Rightarrow> go_error option" where
  "require_same_subnet g cidrs =
     (if sameSubnet g cidrs \<noteq> Inr True then Some (Errorf ''static IPs are not in the same subnet: %v'') else None)"

text \<open>The addresses of the nodes, in the order of the nodes.\<close>

definition static_ip :: "strmap \<Rightarrow> Node \<Rightarrow> (string list) res" where
  "static_ip hostIPs node =
     (case mlookup hostIPs (o_name node) of
        None \<Rightarrow> Inl (Errorf ''static IP not found for node %s'')
      | Some ip \<Rightarrow> Inr [ip])"

definition validateStaticIPsForAllNodes :: "golib \<Rightarrow> Node list \<Rightarrow> strmap \<Rightarrow> go_error option" where
  "validateStaticIPsForAllNodes g nodes hostIPs =
     with_res (concat_res (static_ip hostIPs) nodes) id (require_same_subnet g)"

text \<open>The nodes come from a lister, which returns no nil entries.\<close>

definition hnc_matchNode :: "Node \<Rightarrow> selector \<Rightarrow> bool" where
  "hnc_matchNode node sel = (if o_deleting node then False else if \<not> sel_matches sel (o_labels node) then False else True)"

definition validateStaticIPsForNodeWithLabel :: "golib \<Rightarrow> Node list \<Rightarrow> strmap \<Rightarrow> selector \<Rightarrow> go_error option" where
  "validateStaticIPsForNodeWithLabel g nodes hostIPs sel =
     with_res (concat_res (\<lambda>node. if hnc_matchNode node sel then static_ip hostIPs node else Inr []) nodes) id
       (require_same_subnet g)"

definition validateStaticIPs :: "golib \<Rightarrow> caches \<Rightarrow> strmap \<Rightarrow> LabelSelector option \<Rightarrow> go_error option" where
  "validateStaticIPs g v hostIPs nodeSelector =
     with_res (nodeList v Everything) id (\<lambda>nodes.
     if nodeSelector = None then validateStaticIPsForAllNodes g nodes hostIPs
     else with_res (LabelSelectorAsSelector nodeSelector) id (validateStaticIPsForNodeWithLabel g nodes hostIPs))"

definition validateHostNetworkConfig :: "golib \<Rightarrow> caches \<Rightarrow> HostNetworkConfig \<Rightarrow> ValidateOp \<Rightarrow> go_error option" where
  "validateHostNetworkConfig g v newhnc op =
     with_res (hncList v Everything) id (\<lambda>hncs.
     guard_err (first_err (\<lambda>h.
         if o_deleting h then None
         else if hs_Underlay (hnc_Spec h) \<and> hs_Underlay (hnc_Spec newhnc)
         then Some (Errorf ''hostnetworkconfig %s already exists for cluster network %s vlanid %d with underlay enabled'')
         else if hs_ClusterNetwork (hnc_Spec h) \<noteq> hs_ClusterNetwork (hnc_Spec newhnc) then None
         else if op = ValidateCreate \<and> hs_VlanID (hnc_Spec h) = hs_VlanID (hnc_Spec newhnc)
         then Some (Errorf ''hostnetworkconfig %s already exists for cluster network %s with vlanID %d'')
         else None) hncs) id
     (if hs_Mode (hnc_Spec newhnc) = IPModeStatic
      then guard_err (validateStaticIPs g v (hs_HostIPs (hnc_Spec newhnc)) (hs_NodeSelector (hnc_Spec newhnc))) id None
      else None))"

definition checkVlanStatusReady :: "caches \<Rightarrow> string \<Rightarrow> go_error option" where
  "checkVlanStatusReady v clusterNetwork =
     (if clusterNetwork = ManagementClusterNetworkName then None
      else with_res (cnGet v clusterNetwork) (render ''cluster network %s not found because %v'') (\<lambda>_.
           with_res (vsList v (SelectorFromSet [(KeyClusterNetworkLabel, clusterNetwork)])) id (\<lambda>vss.
           if length vss = 0 then Some (Errorf ''vlan status not present for cluster network %s'')
           else first_err (\<lambda>vs. if CondIsFalse Ready (vs_Conditions vs)
                                 then Some (Errorf ''vs %s status is not Ready'') else None) vss)))"

definition hnc_getMatchNodes :: "golib \<Rightarrow> VlanConfig \<Rightarrow> (string list) res" where
  "hnc_getMatchNodes g vc =
     (if o_annotations vc = None \<or> mget (o_annotations vc) KeyMatchedNodes = [] \<or> mget (o_annotations vc) KeyMatchedNodes = ''[]''
      then Inr []
      else bind_res (UnmarshalStrings g (mget (o_annotations vc) KeyMatchedNodes)) id Inr)"

definition nodeSelectorMatchesAllNodes :: "caches \<Rightarrow> LabelSelector option \<Rightarrow> bool res" where
  "nodeSelectorMatchesAllNodes v nodeSelector =
     (if nodeSelector = None then Inr True
      else bind_res (LabelSelectorAsSelector nodeSelector) id (\<lambda>sel.
           bind_res (nodeList v Everything) id (\<lambda>nodes. Inr (list_all (\<lambda>node. hnc_matchNode node sel) nodes))))"

definition checkVCSpansAllNodes :: "golib \<Rightarrow> caches \<Rightarrow> string \<Rightarrow> go_error option" where
  "checkVCSpansAllNodes g v clusterNetwork =
     (if clusterNetwork = ManagementClusterNetworkName then None
      else with_res (vcList v (SelectorFromSet [(KeyClusterNetworkLabel, clusterNetwork)])) id (\<lambda>vcs.
           if length vcs = 0 then Some (Errorf ''vlan config not present for cluster network %s'')
           else with_res (concat_res (hnc_getMatchNodes g) vcs) id (\<lambda>matchedNodes.
                with_res (nodeList v Everything) id (\<lambda>nodes.
                first_err (\<lambda>node.
                  if o_deleting node then None
                  else if HasWitnessNodeLabelKey (o_labels node) then None
                  else if o_name node \<notin> set matchedNodes then Some (Errorf ''vlanconfig does not span %s'')
                  else None) nodes))))"

text \<open>Note the update format of the errors about the node selector, also at creation.\<close>

definition HncValidator_Create :: "golib \<Rightarrow> caches \<Rightarrow> HostNetworkConfig \<Rightarrow> go_error option" where
  "HncValidator_Create g v hnc =
     (let sp = hnc_Spec hnc
      in with_res (IsClusterNetworkNameValid (hs_ClusterNetwork sp)) (wrap hnc_createErr) (\<lambda>_.
         guard_err (IsHostNetworkIntfNameValid (hs_ClusterNetwork sp) (hs_VlanID sp)) (wrap hnc_createErr)
         (with_res (cnGet v (hs_ClusterNetwork sp))
            (\<lambda>e. wrap hnc_createErr (wrap ''it refers to a none-existing cluster network %s or error %w'' e)) (\<lambda>_.
         guard_err (validateHostNetworkConfig g v hnc ValidateCreate) (wrap hnc_createErr)
         (guard_err (checkVlanStatusReady v (hs_ClusterNetwork sp)) (wrap hnc_createErr)
         (if \<not> hs_Underlay sp then None
          else guard_err (checkVCSpansAllNodes g v (hs_ClusterNetwork sp)) (wrap hnc_createErr)
               (with_res (nodeSelectorMatchesAllNodes v (hs_NodeSelector sp)) (wrap hnc_updateErr) (\<lambda>matchedNode.
               if \<not> matchedNode then Some (wrap hnc_updateErr (Errorf ''node selector does not match all nodes''))
               else None))))))))"

definition HncValidator_Update :: "golib \<Rightarrow> caches \<Rightarrow> HostNetworkConfig \<Rightarrow> HostNetworkConfig \<Rightarrow> go_error option" where
  "HncValidator_Update g v oldhnc newhnc =
     (let old = hnc_Spec oldhnc; new = hnc_Spec newhnc
      in if new = old then None
         else if hs_ClusterNetwork old \<noteq> hs_ClusterNetwork new \<or> hs_VlanID old \<noteq> hs_VlanID new
         then Some (wrap hnc_updateErr (Errorf ''cannot update clusterNetwork or vlanID field,instead delete the old hostnetworkconfig and create a new one''))
         else
           guard_err (if hs_Underlay old \<noteq> hs_Underlay new \<and> \<not> hs_Underlay new
                      then hnc_checkifVMExistsForOverlayNADs v else None) (wrap hnc_updateErr)
           (guard_err (validateHostNetworkConfig g v newhnc ValidateUpdate) (wrap hnc_updateErr)
           (if \<not> hs_Underlay new then None
            else guard_err (checkVCSpansAllNodes g v (hs_ClusterNetwork new)) (wrap hnc_updateErr)
                 (with_res (nodeSelectorMatchesAllNodes v (hs_NodeSelector new)) (wrap hnc_updateErr) (\<lambda>matchedNode.
                 if \<not> matchedNode then Some (wrap hnc_updateErr (Errorf ''node selector does not match all nodes''))
                 else None)))))"

definition HncValidator_Delete :: "HostNetworkConfig \<Rightarrow> go_error option" where
  "HncValidator_Delete hnc =
     (if hs_Underlay (hnc_Spec hnc)
      then Some (wrap hnc_deleteErr (Errorf ''underlay is enabled, disable underlay first'')) else None)"

section \<open>Admission as a state machine\<close>

definition live_hncs :: "cluster \<Rightarrow> HostNetworkConfig set" where
  "live_hncs c = {h \<in> set (indexer (cl_hncs c)). \<not> o_deleting h}"

text \<open>The requests the webhook admits, and how they change the stored objects. The API server
  never takes a deletion back, and an object goes away once it is being deleted.\<close>

inductive hnc_admission :: "golib \<Rightarrow> cluster \<Rightarrow> cluster \<Rightarrow> bool" for g where
  create: "\<lbrakk>HncValidator_Create g (caches_of c) h = None; key_of h \<notin> key_of ` set (indexer (cl_hncs c));
            cl_hncs c' = store_put h (indexer (cl_hncs c))\<rbrakk> \<Longrightarrow> hnc_admission g c c'"
| update: "\<lbrakk>old \<in> set (indexer (cl_hncs c)); HncValidator_Update g (caches_of c) old new = None;
            key_of new = key_of old; o_deleting old \<Longrightarrow> o_deleting new;
            cl_hncs c' = store_put new (indexer (cl_hncs c))\<rbrakk> \<Longrightarrow> hnc_admission g c c'"
| delete: "\<lbrakk>h \<in> set (indexer (cl_hncs c)); HncValidator_Delete h = None;
            cl_hncs c' = store_put (h\<lparr>o_deleting := True\<rparr>) (indexer (cl_hncs c))\<rbrakk> \<Longrightarrow> hnc_admission g c c'"
| remove: "\<lbrakk>cl_hncs c' = filter (\<lambda>x. key_of x \<noteq> k) (indexer (cl_hncs c))\<rbrakk> \<Longrightarrow> hnc_admission g c c'"
| other: "cl_hncs c' = cl_hncs c \<Longrightarrow> hnc_admission g c c'"

inductive hnc_reachable :: "golib \<Rightarrow> cluster \<Rightarrow> bool" for g where
  init: "cl_hncs c = [] \<Longrightarrow> hnc_reachable g c"
| step: "hnc_reachable g c \<Longrightarrow> hnc_admission g c c' \<Longrightarrow> hnc_reachable g c'"

text \<open>At most one live underlay, and at most one live config per cluster network and VLAN.\<close>

definition hncs_inv :: "HostNetworkConfig set \<Rightarrow> bool" where
  "hncs_inv H \<longleftrightarrow>
     (\<forall>a \<in> H. \<forall>b \<in> H. hs_Underlay (hnc_Spec a) \<and> hs_Underlay (hnc_Spec b) \<longrightarrow> a = b)
     \<and> (\<forall>a \<in> H. \<forall>b \<in> H. hs_ClusterNetwork (hnc_Spec a) = hs_ClusterNetwork (hnc_Spec b)
           \<and> hs_VlanID (hnc_Spec a) = hs_VlanID (hnc_Spec b) \<longrightarrow> a = b)"

lemma hncs_inv_mono: "hncs_inv H \<Longrightarrow> H' \<subseteq> H \<Longrightarrow> hncs_inv H'"
  unfolding hncs_inv_def by blast

lemma hncs_inv_insert:
  assumes "hncs_inv H" "\<And>a. a \<in> H \<Longrightarrow> \<not> (hs_Underlay (hnc_Spec a) \<and> hs_Underlay (hnc_Spec h))"
    and "\<And>a. a \<in> H \<Longrightarrow> \<not> (hs_ClusterNetwork (hnc_Spec a) = hs_ClusterNetwork (hnc_Spec h)
           \<and> hs_VlanID (hnc_Spec a) = hs_VlanID (hnc_Spec h))"
  shows "hncs_inv (insert h H)"
  using assms unfolding hncs_inv_def by (metis insert_iff)

lemma validate_hnc_None:
  assumes "validateHostNetworkConfig g (caches_of c) h op = None" "a \<in> live_hncs c"
  shows "\<not> (hs_Underlay (hnc_Spec a) \<and> hs_Underlay (hnc_Spec h))
     \<and> (op = ValidateCreate \<longrightarrow> \<not> (hs_ClusterNetwork (hnc_Spec a) = hs_ClusterNetwork (hnc_Spec h)
           \<and> hs_VlanID (hnc_Spec a) = hs_VlanID (hnc_Spec h)))"
  using assms store_list_all [of "cl_hncs c"]
  by (auto simp: validateHostNetworkConfig_def live_hncs_def split: if_splits)

lemma live_put:
  assumes "cl_hncs c' = store_put h (indexer (cl_hncs c))"
  shows "live_hncs c' = (if o_deleting h then {} else {h}) \<union> {a \<in> live_hncs c. key_of a \<noteq> key_of h}"
proof -
  have "indexer (cl_hncs c') = store_put h (indexer (cl_hncs c))"
    by (simp add: assms indexer_distinct store_ok_put)
  then show ?thesis by (auto simp: live_hncs_def store_put_def)
qed

lemma admission_keeps_hncs_inv: "hnc_admission g c c' \<Longrightarrow> hncs_inv (live_hncs c) \<Longrightarrow> hncs_inv (live_hncs c')"
proof (induction rule: hnc_admission.induct)
  case (create c h c')
  have "validateHostNetworkConfig g (caches_of c) h ValidateCreate = None"
    using create.hyps(1) by (auto simp: HncValidator_Create_def Let_def)
  note sep = validate_hnc_None [OF this]
  have "hncs_inv (insert h {a \<in> live_hncs c. key_of a \<noteq> key_of h})"
    using sep by (intro hncs_inv_insert hncs_inv_mono [OF create.prems]) auto
  then show ?case
    unfolding live_put [OF create.hyps(3)] by (rule hncs_inv_mono) auto
next
  case (update old c new c')
  show ?case
  proof (cases "o_deleting new")
    case True
    then have "live_hncs c' \<subseteq> live_hncs c" unfolding live_put [OF update.hyps(5)] by auto
    with update.prems show ?thesis by (rule hncs_inv_mono)
  next
    case False
    with update.hyps have old: "old \<in> live_hncs c" by (auto simp: live_hncs_def)
    have others: "a \<in> live_hncs c \<and> a \<noteq> old" if "a \<in> live_hncs c" "key_of a \<noteq> key_of new" for a
      using that update.hyps(3) by auto
    have same: "hs_ClusterNetwork (hnc_Spec new) = hs_ClusterNetwork (hnc_Spec old)
        \<and> hs_VlanID (hnc_Spec new) = hs_VlanID (hnc_Spec old)"
      using update.hyps(2) by (auto simp: HncValidator_Update_def Let_def split: if_splits)
    have und: "\<not> (hs_Underlay (hnc_Spec a) \<and> hs_Underlay (hnc_Spec new))"
      if "a \<in> live_hncs c" "a \<noteq> old" for a
    proof (cases "hnc_Spec new = hnc_Spec old")
      case True
      with update.prems old that show ?thesis by (auto simp: hncs_inv_def)
    next
      case False
      then have "validateHostNetworkConfig g (caches_of c) new ValidateUpdate = None"
        using update.hyps(2) by (auto simp: HncValidator_Update_def Let_def split: if_splits)
      from validate_hnc_None [OF this that(1)] show ?thesis by blast
    qed
    have pair: "\<not> (hs_ClusterNetwork (hnc_Spec a) = hs_ClusterNetwork (hnc_Spec new)
        \<and> hs_VlanID (hnc_Spec a) = hs_VlanID (hnc_Spec new))" if "a \<in> live_hncs c" "a \<noteq> old" for a
      using that same old update.prems unfolding hncs_inv_def by metis
    have "hncs_inv (insert new {a \<in> live_hncs c. key_of a \<noteq> key_of new})"
      using others und pair by (intro hncs_inv_insert hncs_inv_mono [OF update.prems]) auto
    then show ?thesis
      unfolding live_put [OF update.hyps(5)] by (rule hncs_inv_mono) auto
  qed
next
  case (delete h c c')
  then have "live_hncs c' \<subseteq> live_hncs c" unfolding live_put [OF delete.hyps(3)] by auto
  with delete.prems show ?case by (rule hncs_inv_mono)
next
  case (remove c' k c)
  have "store_ok (cl_hncs c')" unfolding remove.hyps
    using store_ok_indexer [of "cl_hncs c"] by (simp add: store_ok_def distinct_map_filter)
  then have "live_hncs c' \<subseteq> live_hncs c"
    using remove.hyps by (auto simp: live_hncs_def indexer_distinct)
  with remove.prems show ?case by (rule hncs_inv_mono)
next
  case (other c' c)
  then show ?case by (simp add: live_hncs_def)
qed

lemma reachable_hncs_inv: "hnc_reachable g c \<Longrightarrow> hncs_inv (live_hncs c)"
proof (induction rule: hnc_reachable.induct)
  case (init c)
  then show ?case by (simp add: hncs_inv_def live_hncs_def indexer_def)
next
  case (step c c')
  then show ?case by (blast intro: admission_keeps_hncs_inv)
qed

section \<open>Properties\<close>

lemma hnc_checkVM_None: "hnc_checkVM (caches_of c) nad = None \<longleftrightarrow> \<not> vm_attached c nad"
  using VMNames_store [of "cl_vms c" nad] by (auto simp: hnc_checkVM_def vm_attached_def)

lemma hnc_checkOverlay_None: "hnc_checkifVMExistsForOverlayNADs (caches_of c) = None \<longleftrightarrow> \<not> overlay_in_use c"
  using store_list_all [of "cl_nads c"]
  by (auto simp: hnc_checkifVMExistsForOverlayNADs_def ListAllNads_def overlay_in_use_def hnc_checkVM_None)

text \<open>
  C2. Whatever sequence of requests the webhook admits, at most one live host network config
  is the underlay of the overlay networks, and no two live ones share a cluster network and a
  VLAN.
\<close>

theorem single_underlay:
  assumes "hnc_reachable g c" "a \<in> live_hncs c" "b \<in> live_hncs c"
    and "(hs_Underlay (hnc_Spec a) \<and> hs_Underlay (hnc_Spec b))
         \<or> (hs_ClusterNetwork (hnc_Spec a) = hs_ClusterNetwork (hnc_Spec b) \<and> hs_VlanID (hnc_Spec a) = hs_VlanID (hnc_Spec b))"
  shows "a = b"
  using reachable_hncs_inv [OF assms(1)] assms(2-4) unfolding hncs_inv_def by blast

definition demo_hnc :: "bool \<Rightarrow> string \<Rightarrow> HostNetworkConfig" where
  "demo_hnc u mode = \<lparr>o_name = ''hnc1'', o_namespace = [], o_labels = None, o_annotations = None, o_deleting = False,
     hnc_Spec = \<lparr>hs_Description = [], hs_NodeSelector = None, hs_ClusterNetwork = ManagementClusterNetworkName,
       hs_Underlay = u, hs_VlanID = 2012, hs_Mode = mode, hs_HostIPs = None\<rparr>,
     hnc_Conditions = [], hnc_NodeStatus = None\<rparr>"

definition mgmt_cluster :: "HostNetworkConfig list \<Rightarrow> cluster" where
  "mgmt_cluster hs = cluster0\<lparr>cl_cns := [demo_cn ''mgmt'' None], cl_hncs := hs\<rparr>"

lemma mgmt_cluster_lists [simp]:
  "indexer (cl_cns (mgmt_cluster hs)) = [demo_cn ''mgmt'' None]" "cl_hncs (mgmt_cluster hs) = hs"
  "indexer ([] :: HostNetworkConfig list) = []" "indexer (cl_nodes (mgmt_cluster hs)) = []"
  "indexer (cl_nads (mgmt_cluster hs)) = []"
  by (simp_all add: mgmt_cluster_def cluster0_def indexer_def store_put_def)

lemma demo_hnc_admitted: "HncValidator_Create g (caches_of (mgmt_cluster [])) (demo_hnc True IPModeDHCP) = None"
proof -
  have d: "length (Sprint16 2012) = 4" by (simp add: Sprint16_def nat_digits.simps)
  have get: "store_get [demo_cn ''mgmt'' None] [] ManagementClusterNetworkName = Inr (demo_cn ''mgmt'' None)"
    by (simp add: store_get_def key_of_def demo_cn_def ManagementClusterNetworkName_def)
  have name: "IsClusterNetworkNameValid ManagementClusterNetworkName = Inr True"
    "IsHostNetworkIntfNameValid ManagementClusterNetworkName 2012 = None"
    by (simp_all add: IsClusterNetworkNameValid_def MaxClusterNetworkNameLen_def device_consts
        ManagementClusterNetworkName_def IsHostNetworkIntfNameValid_def GetClusterNetworkVlanDevice_def
        GetClusterNetworkDevicePrefix_def d)
  show ?thesis
    by (simp add: HncValidator_Create_def demo_hnc_def get name validateHostNetworkConfig_def store_list_def
        checkVlanStatusReady_def checkVCSpansAllNodes_def nodeSelectorMatchesAllNodes_def IPModeDHCP_def IPModeStatic_def)
qed

lemma demo_hnc_reachable: "hnc_reachable g (mgmt_cluster [demo_hnc True IPModeDHCP])"
proof -
  have "hnc_reachable g (mgmt_cluster [])" by (rule hnc_reachable.init) simp
  moreover have "hnc_admission g (mgmt_cluster []) (mgmt_cluster [demo_hnc True IPModeDHCP])"
    by (rule hnc_admission.create [OF demo_hnc_admitted]) (simp_all add: store_put_def)
  ultimately show ?thesis by (rule hnc_reachable.step)
qed

theorem single_underlay_witness:
  "\<forall>b. b \<in> live_hncs (mgmt_cluster [demo_hnc True IPModeDHCP]) \<and> hs_Underlay (hnc_Spec b) \<longleftrightarrow> b = demo_hnc True IPModeDHCP"
proof -
  let ?c = "mgmt_cluster [demo_hnc True IPModeDHCP]"
  have a: "demo_hnc True IPModeDHCP \<in> live_hncs ?c" "hs_Underlay (hnc_Spec (demo_hnc True IPModeDHCP))"
    by (simp_all add: live_hncs_def indexer_def store_put_def demo_hnc_def)
  with single_underlay [OF demo_hnc_reachable [of demo_golib] a(1)] show ?thesis by blast
qed

text \<open>
  C35. The check that only one underlay exists does not leave out the object being updated: a
  live host network config that is the underlay can not be changed in any field unless the
  same update also gives up the underlay.
\<close>

theorem underlay_config_frozen:
  assumes "old \<in> live_hncs c" "hs_Underlay (hnc_Spec old)" "hs_Underlay (hnc_Spec new)" "hnc_Spec new \<noteq> hnc_Spec old"
  shows "HncValidator_Update g (caches_of c) old new \<noteq> None"
proof
  assume "HncValidator_Update g (caches_of c) old new = None"
  then have "validateHostNetworkConfig g (caches_of c) new ValidateUpdate = None"
    using assms(4) by (auto simp: HncValidator_Update_def Let_def split: if_splits)
  from validate_hnc_None [OF this assms(1)] assms(2,3) show False by blast
qed

theorem underlay_config_frozen_witness:
  "HncValidator_Update demo_golib (caches_of (mgmt_cluster [demo_hnc True IPModeDHCP]))
     (demo_hnc True IPModeDHCP) (demo_hnc True IPModeStatic) \<noteq> None"
  by (rule underlay_config_frozen)
     (simp_all add: live_hncs_def indexer_def store_put_def demo_hnc_def IPModeDHCP_def IPModeStatic_def)

lemma same_subnet_loop_True:
  "same_subnet_loop g m ip cs = Inr True \<Longrightarrow> c \<in> set cs \<Longrightarrow>
     \<exists>a n. ParseCIDR g c = Inr (a, n) \<and> mask_size (net_Mask n) = m \<and> ip_equal ip (net_IP n)"
  by (induction g m ip cs rule: same_subnet_loop.induct) (auto split: if_splits)

definition in_subnet :: "golib \<Rightarrow> IPNet \<Rightarrow> string \<Rightarrow> bool" where
  "in_subnet g ref cidr \<longleftrightarrow>
     (\<exists>a n. ParseCIDR g cidr = Inr (a, n) \<and> mask_size (net_Mask n) = mask_size (net_Mask ref) \<and> ip_equal (net_IP ref) (net_IP n))"

lemma require_same_subnet_None:
  assumes "require_same_subnet g cidrs = None"
  shows "\<exists>ref. \<forall>c \<in> set cidrs. in_subnet g ref c"
proof (cases cidrs)
  case (Cons c0 cs)
  with assms obtain a0 n0 where r: "ParseCIDR g c0 = Inr (a0, n0)"
    "same_subnet_loop g (mask_size (net_Mask n0)) (net_IP n0) cs = Inr True"
    by (auto simp: require_same_subnet_def sameSubnet_def split: if_splits)
  have "in_subnet g n0 c" if "c \<in> set cs" for c
    using same_subnet_loop_True [OF r(2) that] by (simp add: in_subnet_def)
  moreover have "in_subnet g n0 c0" using r(1) by (simp add: in_subnet_def ip_equal_def)
  ultimately show ?thesis using Cons by auto
qed simp

text \<open>The nodes a selector applies to: all of them without one, none if it is invalid.\<close>

definition applies_to :: "LabelSelector option \<Rightarrow> Node \<Rightarrow> bool" where
  "applies_to sel node =
     (if sel = None then True
      else case LabelSelectorAsSelector sel of Inl _ \<Rightarrow> False | Inr s \<Rightarrow> hnc_matchNode node s)"

lemma validateStaticIPs_nodes:
  assumes "validateStaticIPs g (caches_of c) ips sel = None"
  shows "\<exists>ref. \<forall>node \<in> set (indexer (cl_nodes c)). applies_to sel node \<longrightarrow>
     (\<exists>ip. mlookup ips (o_name node) = Some ip \<and> in_subnet g ref ip)"
proof -
  let ?pick = "\<lambda>node. if applies_to sel node then static_ip ips node else Inr []"
  obtain nodes where nodes: "store_list (indexer (cl_nodes c)) [] Everything = Inr nodes"
    "set nodes = set (indexer (cl_nodes c))" using store_list_all by blast
  obtain cidrs where cidrs: "concat_res ?pick nodes = Inr cidrs" "require_same_subnet g cidrs = None"
    using assms nodes(1)
    by (cases "sel = None") (auto simp: validateStaticIPs_def validateStaticIPsForAllNodes_def applies_to_def
        validateStaticIPsForNodeWithLabel_def)
  from require_same_subnet_None [OF cidrs(2)] obtain ref where ref: "\<forall>c \<in> set cidrs. in_subnet g ref c" by blast
  have "\<exists>ip. mlookup ips (o_name node) = Some ip \<and> ip \<in> set cidrs"
    if n: "node \<in> set nodes" and a: "applies_to sel node" for node
  proof -
    obtain ys where "?pick node = Inr ys" using concat_res_defined [OF cidrs(1) n] by blast
    with a obtain ip where ip: "?pick node = Inr [ip]" "mlookup ips (o_name node) = Some ip"
      by (auto simp: static_ip_def split: option.splits)
    have "ip \<in> set cidrs" unfolding concat_res_Inr [OF cidrs(1)]
      using n ip(1) by (intro CollectI bexI [of _ node] exI [of _ "[ip]"]) simp_all
    with ip(2) show ?thesis by blast
  qed
  with ref nodes(2) show ?thesis by metis
qed

text \<open>
  An admitted host network config in static mode has an address for every node it applies
  to, and all these addresses lie in the same subnet (the same network address and prefix
  length).
\<close>

lemma static_addresses_admitted:
  assumes "HncValidator_Create g (caches_of c) hnc = None" "hs_Mode (hnc_Spec hnc) = IPModeStatic"
  shows "\<exists>ref. \<forall>node \<in> set (indexer (cl_nodes c)). applies_to (hs_NodeSelector (hnc_Spec hnc)) node \<longrightarrow>
     (\<exists>ip. mlookup (hs_HostIPs (hnc_Spec hnc)) (o_name node) = Some ip \<and> in_subnet g ref ip)"
proof (rule validateStaticIPs_nodes)
  have "validateHostNetworkConfig g (caches_of c) hnc ValidateCreate = None"
    using assms(1) by (auto simp: HncValidator_Create_def Let_def)
  then show "validateStaticIPs g (caches_of c) (hs_HostIPs (hnc_Spec hnc)) (hs_NodeSelector (hnc_Spec hnc)) = None"
    using assms(2) by (auto simp: validateHostNetworkConfig_def)
qed

definition net_golib :: golib where
  "net_golib = demo_golib\<lparr>ParseCIDR := (\<lambda>s. Inr ([10, 0, 0, 1], \<lparr>net_IP = [10, 0, 0, 0], net_Mask = [255, 255, 255, 0]\<rparr>))\<rparr>"

definition static_cluster :: cluster where
  "static_cluster = (mgmt_cluster [])\<lparr>cl_nodes := [\<lparr>o_name = ''node1'', o_namespace = [], o_labels = None,
     o_annotations = None, o_deleting = False, nd_ready = True\<rparr>]\<rparr>"

definition static_hnc :: HostNetworkConfig where
  "static_hnc = (demo_hnc False IPModeStatic)\<lparr>hnc_Spec := (hnc_Spec (demo_hnc False IPModeStatic))\<lparr>hs_HostIPs := Some [''node1'' \<mapsto> ''10.0.0.1/24'']\<rparr>\<rparr>"

lemma static_addresses_admitted_witness: "\<exists>ref. in_subnet net_golib ref ''10.0.0.1/24''"
proof -
  have lists: "indexer (cl_nodes static_cluster) = [\<lparr>o_name = ''node1'', o_namespace = [], o_labels = None,
     o_annotations = None, o_deleting = False, nd_ready = True\<rparr>]"
    "indexer (cl_cns static_cluster) = [demo_cn ''mgmt'' None]" "indexer (cl_hncs static_cluster) = []"
    by (simp_all add: static_cluster_def mgmt_cluster_def cluster0_def indexer_def store_put_def)
  have d: "length (Sprint16 2012) = 4" by (simp add: Sprint16_def nat_digits.simps)
  have get: "store_get [demo_cn ''mgmt'' None] [] ManagementClusterNetworkName = Inr (demo_cn ''mgmt'' None)"
    by (simp add: store_get_def key_of_def demo_cn_def ManagementClusterNetworkName_def)
  have name: "IsClusterNetworkNameValid ManagementClusterNetworkName = Inr True"
    "IsHostNetworkIntfNameValid ManagementClusterNetworkName 2012 = None"
    by (simp_all add: IsClusterNetworkNameValid_def MaxClusterNetworkNameLen_def device_consts
        ManagementClusterNetworkName_def IsHostNetworkIntfNameValid_def GetClusterNetworkVlanDevice_def
        GetClusterNetworkDevicePrefix_def d)
  have "HncValidator_Create net_golib (caches_of static_cluster) static_hnc = None"
    by (simp add: HncValidator_Create_def static_hnc_def demo_hnc_def get name validateHostNetworkConfig_def
        store_list_def lists checkVlanStatusReady_def validateStaticIPs_def validateStaticIPsForAllNodes_def
        static_ip_def require_same_subnet_def sameSubnet_def net_golib_def)
  from static_addresses_admitted [OF this] show ?thesis
    by (simp add: static_hnc_def demo_hnc_def lists applies_to_def)
qed

end
