(* ===== verification/Api_Log.thy ===== *)
theory Api_Log
  imports Caches
begin

text \<open>
  How a controller acts on the cluster. A handler reads informer caches (\<open>Caches\<close>) and writes
  through API clients; here every write is an entry of a log with the answer of the API server,
  in the order the code makes the calls. The server is an argument of the handlers and may answer
  each call as it likes, depending on all calls before it. \<open>cluster_after\<close> is the state of the
  cluster once the successful calls of a log have taken effect. The locale \<open>reconciler\<close> states
  what the update loops of the controllers have in common and what follows from it.
\<close>

named_theorems go_api \<open>which calls an action can make\<close>

section \<open>Calls and logs\<close>

datatype api_call =
    CreateCN ClusterNetwork
  | UpdateCN ClusterNetwork
  | CreateLM LinkMonitor
  | UpdateLM LinkMonitor
  | DeleteLM string
  | UpdateNad Nad
  | UpdateHNC HostNetworkConfig
  | PatchHNCNodeStatus string string HostNetworkConfigNodeStatus
  | UpdateVC VlanConfig
  | DeleteVC string
  | DeleteVS string
  | UpdateNode Node
  | CreateJob Job
  | UpdateJob Job
  | DeleteJob string string
  | CreateVC VlanConfig
  | CreateVS VlanStatus
  | UpdateVS VlanStatus
  | PatchHNCNodeRemoved string string
  | EnqueueCN string
  | EnqueueHNC string
  | EnqueueLM string

type_synonym api_log = "(api_call \<times> go_error option) list"
type_synonym api_server = "api_log \<Rightarrow> api_call \<Rightarrow> go_error option"

text \<open>Stateful code that may return an error, and its instance at the log.\<close>

type_synonym 's act = "'s \<Rightarrow> go_error option \<times> 's"
type_synonym action = "api_log act"

definition call :: "api_server \<Rightarrow> api_call \<Rightarrow> action" where
  "call srv a l = (let r = srv l a in (r, l @ [(a, r)]))"

definition enqueue :: "api_call \<Rightarrow> api_log \<Rightarrow> api_log" where
  "enqueue a l = l @ [(a, None)]"

definition act_ok :: "'s act" where "act_ok l = (None, l)"

definition act_fail :: "go_error \<Rightarrow> 's act" where "act_fail e l = (Some e, l)"

text \<open>\<open>if err := m; err != nil { return w(err) }\<close>, then \<open>k\<close>.\<close>

definition act_then :: "'s act \<Rightarrow> (go_error \<Rightarrow> go_error) \<Rightarrow> 's act \<Rightarrow> 's act" where
  "act_then m w k l = (case m l of (Some e, l') \<Rightarrow> (Some (w e), l') | (None, l') \<Rightarrow> k l')"

text \<open>A pure call that may fail, before the continuation.\<close>

definition act_bind :: "'a res \<Rightarrow> (go_error \<Rightarrow> go_error) \<Rightarrow> ('a \<Rightarrow> 's act) \<Rightarrow> 's act" where
  "act_bind r w k = (case r of Inl e \<Rightarrow> act_fail (w e) | Inr x \<Rightarrow> k x)"

text \<open>\<open>return m\<close> and \<open>if _, err := m; err != nil { return w(err) }; return nil\<close>.\<close>

definition act_wrap :: "(go_error \<Rightarrow> go_error) \<Rightarrow> 's act \<Rightarrow> 's act" where
  "act_wrap w m = act_then m w act_ok"

text \<open>An error the code ignores when \<open>ign\<close> holds of it.\<close>

definition act_ignore :: "(go_error \<Rightarrow> bool) \<Rightarrow> 's act \<Rightarrow> 's act" where
  "act_ignore ign m l =
     (case m l of (Some e, l') \<Rightarrow> (if ign e then None else Some e, l') | (None, l') \<Rightarrow> (None, l'))"

lemma act_simps [simp]:
  "act_ok l = (None, l)" "act_fail e l = (Some e, l)"
  "act_bind (Inr x) w k = k x" "act_bind (Inl e) w k = act_fail (w e)"
  by (simp_all add: act_ok_def act_fail_def act_bind_def)

lemma act_wrap_call:
  "act_wrap w (call srv a) l = (map_option w (srv l a), l @ [(a, srv l a)])"
  by (simp add: act_wrap_def act_then_def call_def Let_def split: option.splits)

lemma act_then_None:
  "act_then m w k l = (None, l') \<longleftrightarrow> (\<exists>l1. m l = (None, l1) \<and> k l1 = (None, l'))"
  by (auto simp: act_then_def split: prod.splits option.splits)

section \<open>Effects\<close>

text \<open>
  The server stores the object sent. Two calls differ: a merge patch of the status of a host
  network config sets the entry of one node, and an update of a host network config keeps the
  stored status, because its CRD declares the \<open>status\<close> subresource
  (\<open>manifests/crds/network.harvesterhci.io_hostnetworkconfigs.yaml\<close>; the other CRDs of the
  repository do not). A deleted object is gone: the state after its finalizers have run. An
  \<open>Enqueue\<close> is a request to the agent's own work queue: it is logged in its place among the calls,
  never fails and changes no object.
\<close>

definition update_hnc :: "HostNetworkConfig \<Rightarrow> HostNetworkConfig list \<Rightarrow> HostNetworkConfig list" where
  "update_hnc h hncs =
     (case find (\<lambda>x. key_of x = key_of h) (indexer hncs) of
        None \<Rightarrow> hncs
      | Some old \<Rightarrow> h\<lparr>hnc_Conditions := hnc_Conditions old, hnc_NodeStatus := hnc_NodeStatus old\<rparr> # hncs)"

definition patch_node_status ::
  "string \<Rightarrow> string \<Rightarrow> HostNetworkConfigNodeStatus \<Rightarrow> HostNetworkConfig list \<Rightarrow> HostNetworkConfig list" where
  "patch_node_status n node st hncs =
     (case find (\<lambda>x. key_of x = ([], n)) (indexer hncs) of
        None \<Rightarrow> hncs
      | Some old \<Rightarrow>
          old\<lparr>hnc_NodeStatus := Some ((case hnc_NodeStatus old of None \<Rightarrow> Map.empty | Some f \<Rightarrow> f)(node \<mapsto> st))\<rparr> # hncs)"

text \<open>A merge patch that sets the entry of a node to null removes it.\<close>

definition unpatch_node_status :: "string \<Rightarrow> string \<Rightarrow> HostNetworkConfig list \<Rightarrow> HostNetworkConfig list" where
  "unpatch_node_status n node hncs =
     (case find (\<lambda>x. key_of x = ([], n)) (indexer hncs) of
        None \<Rightarrow> hncs
      | Some old \<Rightarrow> old\<lparr>hnc_NodeStatus := map_option (\<lambda>f. f(node := None)) (hnc_NodeStatus old)\<rparr> # hncs)"

definition store_remove :: "string \<Rightarrow> string \<Rightarrow> 'a objmeta_scheme list \<Rightarrow> 'a objmeta_scheme list" where
  "store_remove ns n xs = filter (\<lambda>x. key_of x \<noteq> (ns, n)) xs"

fun apply_call :: "api_call \<Rightarrow> cluster \<Rightarrow> cluster" where
  "apply_call (CreateCN x) c = c\<lparr>cl_cns := x # cl_cns c\<rparr>"
| "apply_call (UpdateCN x) c = c\<lparr>cl_cns := x # cl_cns c\<rparr>"
| "apply_call (CreateLM x) c = c\<lparr>cl_lms := x # cl_lms c\<rparr>"
| "apply_call (UpdateLM x) c = c\<lparr>cl_lms := x # cl_lms c\<rparr>"
| "apply_call (DeleteLM n) c = c\<lparr>cl_lms := store_remove [] n (cl_lms c)\<rparr>"
| "apply_call (UpdateNad x) c = c\<lparr>cl_nads := x # cl_nads c\<rparr>"
| "apply_call (UpdateHNC x) c = c\<lparr>cl_hncs := update_hnc x (cl_hncs c)\<rparr>"
| "apply_call (PatchHNCNodeStatus n node st) c = c\<lparr>cl_hncs := patch_node_status n node st (cl_hncs c)\<rparr>"
| "apply_call (UpdateVC x) c = c\<lparr>cl_vcs := x # cl_vcs c\<rparr>"
| "apply_call (DeleteVC n) c = c\<lparr>cl_vcs := store_remove [] n (cl_vcs c)\<rparr>"
| "apply_call (DeleteVS n) c = c\<lparr>cl_vss := store_remove [] n (cl_vss c)\<rparr>"
| "apply_call (UpdateNode x) c = c\<lparr>cl_nodes := x # cl_nodes c\<rparr>"
| "apply_call (CreateJob x) c = c\<lparr>cl_jobs := x # cl_jobs c\<rparr>"
| "apply_call (UpdateJob x) c = c\<lparr>cl_jobs := x # cl_jobs c\<rparr>"
| "apply_call (DeleteJob ns n) c = c\<lparr>cl_jobs := store_remove ns n (cl_jobs c)\<rparr>"
| "apply_call (CreateVC x) c = c\<lparr>cl_vcs := x # cl_vcs c\<rparr>"
| "apply_call (CreateVS x) c = c\<lparr>cl_vss := x # cl_vss c\<rparr>"
| "apply_call (UpdateVS x) c = c\<lparr>cl_vss := x # cl_vss c\<rparr>"
| "apply_call (PatchHNCNodeRemoved n node) c = c\<lparr>cl_hncs := unpatch_node_status n node (cl_hncs c)\<rparr>"
| "apply_call (EnqueueCN n) c = c"
| "apply_call (EnqueueHNC n) c = c"
| "apply_call (EnqueueLM n) c = c"

definition logged :: "api_call \<times> go_error option \<Rightarrow> cluster \<Rightarrow> cluster" where
  "logged a c = (if snd a = None then apply_call (fst a) c else c)"

definition cluster_after :: "api_log \<Rightarrow> cluster \<Rightarrow> cluster" where
  "cluster_after l c = fold logged l c"

lemma cluster_after_simps [simp]:
  "cluster_after [] c = c" "cluster_after (a # l) c = cluster_after l (logged a c)"
  "cluster_after (l @ l') c = cluster_after l' (cluster_after l c)"
  by (simp_all add: cluster_after_def)

lemma logged_simps [simp]: "logged (a, None) c = apply_call a c" "logged (a, Some e) c = c"
  by (simp_all add: logged_def)

section \<open>Stores after updates\<close>

lemma indexer_Cons: "indexer (x # xs) = x # filter (\<lambda>y. key_of y \<noteq> key_of x) (indexer xs)"
  by (simp add: indexer_def store_put_def)

lemma set_indexer_Cons: "set (indexer (x # xs)) = insert x {y \<in> set (indexer xs). key_of y \<noteq> key_of x}"
  by (auto simp: indexer_Cons)

lemma set_indexer_updates:
  assumes "distinct (map key_of ys)"
  shows "set (indexer (rev ys @ xs)) = set ys \<union> {x \<in> set (indexer xs). key_of x \<notin> key_of ` set ys}"
  using assms
proof (induction ys arbitrary: xs)
  case (Cons y ys)
  then have "set (indexer (rev ys @ y # xs)) =
      set ys \<union> {x \<in> set (indexer (y # xs)). key_of x \<notin> key_of ` set ys}" by simp
  with Cons.prems show ?case by (auto simp: set_indexer_Cons)
qed simp

lemma indexer_remove: "indexer (store_remove ns n xs) = store_remove ns n (indexer xs)"
proof (induction xs)
  case (Cons x xs)
  then show ?case
    by (auto simp: store_remove_def indexer_Cons conj_commute intro: filter_cong)
qed (simp add: indexer_def store_remove_def)

lemma set_indexer_remove: "set (indexer (store_remove ns n xs)) = {x \<in> set (indexer xs). key_of x \<noteq> (ns, n)}"
  unfolding indexer_remove by (auto simp: store_remove_def)

lemma indexer_key_unique:
  "x \<in> set (indexer xs) \<Longrightarrow> y \<in> set (indexer xs) \<Longrightarrow> key_of x = key_of y \<Longrightarrow> x = y"
  by (rule store.key_unique)

section \<open>Reconciler loops\<close>

text \<open>
  A loop over cached objects whose body decides per object (\<open>verdict\<close>): fail, leave it alone, or
  send one changed version of it. The laws: the body makes exactly that call, a changed object
  keeps its key and needs no further change, and the store takes it.
\<close>

locale reconciler =
  fixes verdict :: "'a objmeta_scheme \<Rightarrow> ('a objmeta_scheme option) res"
    and send :: "'a objmeta_scheme \<Rightarrow> api_call"
    and objs :: "cluster \<Rightarrow> 'a objmeta_scheme list"
    and body :: "api_server \<Rightarrow> 'a objmeta_scheme \<Rightarrow> action"
    and wrapper :: "'a objmeta_scheme \<Rightarrow> go_error \<Rightarrow> go_error"
  assumes body_fail: "verdict x = Inl e \<Longrightarrow> body srv x l = (Some e, l)"
    and body_skip: "verdict x = Inr None \<Longrightarrow> body srv x l = (None, l)"
    and body_send: "verdict x = Inr (Some y) \<Longrightarrow> body srv x l = act_wrap (wrapper x) (call srv (send y)) l"
    and settled: "verdict x = Inr (Some y) \<Longrightarrow> key_of y = key_of x \<and> verdict y = Inr None"
    and stored: "objs (apply_call (send y) c) = y # objs c"
begin

definition changes :: "'a objmeta_scheme list \<Rightarrow> 'a objmeta_scheme list" where
  "changes xs = concat (map (\<lambda>x. case verdict x of Inr (Some y) \<Rightarrow> [y] | _ \<Rightarrow> []) xs)"

definition result :: "'a objmeta_scheme \<Rightarrow> 'a objmeta_scheme" where
  "result x = (case verdict x of Inr (Some y) \<Rightarrow> y | _ \<Rightarrow> x)"

lemma result_eq: "verdict x = Inr (Some y) \<Longrightarrow> result x = y" "\<nexists>y. verdict x = Inr (Some y) \<Longrightarrow> result x = x"
  by (auto simp: result_def split: sum.splits option.splits)

lemma changes_simps [simp]:
  "changes [] = []"
  "changes (x # xs) = (case verdict x of Inr (Some y) \<Rightarrow> [y] | _ \<Rightarrow> []) @ changes xs"
  by (simp_all add: changes_def)

lemma set_changes: "set (changes xs) = {y. \<exists>x \<in> set xs. verdict x = Inr (Some y)}"
  by (auto simp: changes_def split: sum.splits option.splits)

text \<open>What a run that returns no error has done: one successful call per change, in order.\<close>

lemma run_ok:
  assumes "fold_err (body srv) xs l = (None, l')"
  shows "l' = l @ map (\<lambda>y. (send y, None)) (changes xs) \<and> (\<forall>x \<in> set xs. \<exists>v. verdict x = Inr v)"
  using assms
proof (induction xs arbitrary: l)
  case (Cons x xs)
  from Cons.prems obtain l1 where l1: "body srv x l = (None, l1)" "fold_err (body srv) xs l1 = (None, l')"
    by (auto split: prod.splits option.splits)
  note IH = Cons.IH [OF l1(2)]
  show ?case
  proof (cases "verdict x")
    case (Inl e)
    with l1(1) show ?thesis by (simp add: body_fail)
  next
    case (Inr v)
    then show ?thesis
      using l1(1) IH by (cases v) (auto simp: body_skip body_send act_wrap_call)
  qed
qed simp

text \<open>A run stops at the first failure, after the calls of the objects before it.\<close>

lemma run_err:
  assumes "fold_err (body srv) xs l = (Some e, l')"
  shows "\<exists>ys x zs. xs = ys @ x # zs
     \<and> (let l1 = l @ map (\<lambda>y. (send y, None)) (changes ys)
        in (verdict x = Inl e \<and> l' = l1)
           \<or> (\<exists>y e'. verdict x = Inr (Some y) \<and> srv l1 (send y) = Some e' \<and> e = wrapper x e'
                \<and> l' = l1 @ [(send y, Some e')]))"
  using assms
proof (induction xs arbitrary: l)
  case (Cons x xs)
  show ?case
  proof (cases "body srv x l")
    case (Pair r l1)
    show ?thesis
    proof (cases r)
      case None
      with Pair have b: "body srv x l = (None, l1)" by simp
      with Cons.prems have "fold_err (body srv) xs l1 = (Some e, l')" by simp
      from Cons.IH [OF this] obtain ys z zs where *: "xs = ys @ z # zs"
        "let l2 = l1 @ map (\<lambda>y. (send y, None)) (changes ys)
         in (verdict z = Inl e \<and> l' = l2)
           \<or> (\<exists>y e'. verdict z = Inr (Some y) \<and> srv l2 (send y) = Some e' \<and> e = wrapper z e'
                \<and> l' = l2 @ [(send y, Some e')])" by blast
      have "l1 = l @ map (\<lambda>y. (send y, None)) (changes [x])"
        using run_ok [of srv "[x]" l l1] b by simp
      then have "l1 @ map (\<lambda>y. (send y, None)) (changes ys) = l @ map (\<lambda>y. (send y, None)) (changes (x # ys))"
        by simp
      with * show ?thesis by (intro exI [of _ "x # ys"] exI [of _ z] exI [of _ zs]) simp
    next
      case (Some e1)
      with Pair Cons.prems have b: "body srv x l = (Some e, l')" by simp
      show ?thesis
      proof (intro exI conjI)
        show "x # xs = [] @ x # xs" by simp
        show "let l1 = l @ map (\<lambda>y. (send y, None)) (changes [])
              in (verdict x = Inl e \<and> l' = l1)
               \<or> (\<exists>y e'. verdict x = Inr (Some y) \<and> srv l1 (send y) = Some e' \<and> e = wrapper x e'
                    \<and> l' = l1 @ [(send y, Some e')])"
        proof (cases "verdict x")
          case (Inr v)
          with b show ?thesis by (cases v) (auto simp: body_skip body_send act_wrap_call)
        qed (use b body_fail in auto)
      qed
    qed
  qed
qed simp

text \<open>With no failing verdict and a server that accepts everything, the run returns no error.\<close>

lemma run_accepted:
  assumes "\<And>l a. srv l a = None" "\<forall>x \<in> set xs. \<exists>v. verdict x = Inr v"
  shows "fold_err (body srv) xs l = (None, l @ map (\<lambda>y. (send y, None)) (changes xs))"
  using assms(2)
proof (induction xs arbitrary: l)
  case (Cons x xs)
  then obtain v where "verdict x = Inr v" by auto
  with Cons show ?case by (cases v) (simp_all add: body_skip body_send act_wrap_call assms(1))
qed simp

lemma objs_after: "objs (cluster_after (map (\<lambda>y. (send y, None)) ys) c) = rev ys @ objs c"
  by (induction ys arbitrary: c) (simp_all add: stored)

text \<open>
  After a run over some of the stored objects, the store holds the results of those and the
  others as they were; and a run over settled objects makes no call.
\<close>

lemma changes_keys: "map key_of (changes xs) = map key_of (filter (\<lambda>x. \<exists>y. verdict x = Inr (Some y)) xs)"
  by (induction xs) (auto split: sum.splits option.splits dest: settled)

lemma changes_distinct: "distinct (map key_of xs) \<Longrightarrow> distinct (map key_of (changes xs))"
  unfolding changes_keys by (rule distinct_map_filter)

lemma run_effect_from:
  assumes "fold_err (body srv) xs l = (None, l @ l')"
    and "set xs \<subseteq> set (indexer (objs c))" "distinct (map key_of xs)"
  shows "set (indexer (objs (cluster_after l' c))) = result ` set xs \<union> (set (indexer (objs c)) - set xs)"
proof -
  have l': "l' = map (\<lambda>y. (send y, None)) (changes xs)" using run_ok [OF assms(1)] by simp
  have keys: "key_of x \<in> key_of ` set (changes xs) \<longleftrightarrow> x \<in> set xs \<and> (\<exists>y. verdict x = Inr (Some y))"
    if "x \<in> set (indexer (objs c))" for x
  proof
    assume "key_of x \<in> key_of ` set (changes xs)"
    then obtain x' y where "x' \<in> set xs" "verdict x' = Inr (Some y)" "key_of x = key_of y"
      by (auto simp: set_changes)
    moreover then have "x' = x"
      using indexer_key_unique [OF _ that] assms(2) settled by (metis in_mono)
    ultimately show "x \<in> set xs \<and> (\<exists>y. verdict x = Inr (Some y))" by blast
  next
    assume "x \<in> set xs \<and> (\<exists>y. verdict x = Inr (Some y))"
    then obtain y where "x \<in> set xs" "verdict x = Inr (Some y)" by blast
    then have "y \<in> set (changes xs)" "key_of x = key_of y" using settled by (auto simp: set_changes)
    then show "key_of x \<in> key_of ` set (changes xs)" by blast
  qed
  have "set (indexer (objs (cluster_after l' c))) =
      set (changes xs) \<union> {x \<in> set (indexer (objs c)). key_of x \<notin> key_of ` set (changes xs)}"
    unfolding l' objs_after by (rule set_indexer_updates [OF changes_distinct [OF assms(3)]])
  also have "\<dots> = set (changes xs) \<union> {x \<in> set xs. \<not> (\<exists>y. verdict x = Inr (Some y))} \<union> (set (indexer (objs c)) - set xs)"
    using keys assms(2) by blast
  also have "set (changes xs) \<union> {x \<in> set xs. \<not> (\<exists>y. verdict x = Inr (Some y))} = result ` set xs"
    unfolding set_changes using result_eq by (auto simp: image_iff) metis+
  finally show ?thesis .
qed

lemmas run_effect = run_effect_from [where l = "[]", unfolded append_Nil]

lemma result_settled: "verdict x = Inr v \<Longrightarrow> verdict (result x) = Inr None"
  by (cases v) (auto simp: result_def dest: settled)

lemma rerun_silent: "\<forall>x \<in> set xs. verdict x = Inr None \<Longrightarrow> fold_err (body srv) xs l = (None, l)"
  by (induction xs) (auto simp: body_skip)

end

text \<open>Listing from a store gives stored objects, one per key.\<close>

lemma store_list_set:
  assumes "store_list (indexer added) ns sel = Inr xs"
  shows "set xs \<subseteq> set (indexer added)" "distinct (map key_of xs)"
    "set xs = {x \<in> set (indexer added). (ns = [] \<or> o_namespace x = ns) \<and> sel_matches sel (o_labels x)}"
  using assms store_ok_indexer [of added]
  by (auto simp: store_list_def store_ok_def distinct_map_filter)

text \<open>A loop whose body, when it returns no error, appends \<open>g x\<close> to the log.\<close>

lemma fold_err_log:
  assumes "fold_err body xs l = (None, l')"
    and "\<And>x l l'. x \<in> set xs \<Longrightarrow> body x l = (None, l') \<Longrightarrow> l' = l @ g x"
  shows "l' = l @ concat (map g xs)"
  using assms
proof (induction xs arbitrary: l)
  case (Cons x xs)
  from Cons.prems(1) obtain l1 where l1: "body x l = (None, l1)" "fold_err body xs l1 = (None, l')"
    by (auto split: prod.splits option.splits)
  then have "l1 = l @ g x" using Cons.prems(2) by simp
  with Cons.IH [OF l1(2)] Cons.prems(2) show ?case by simp
qed simp

lemma fold_err_silent:
  assumes "\<And>x. x \<in> set xs \<Longrightarrow> body x l = (None, l)"
  shows "fold_err body xs l = (None, l)"
  using assms by (induction xs) auto

lemma act_wrap_call_ok: "act_wrap w (call srv a) l = (None, l') \<longleftrightarrow> srv l a = None \<and> l' = l @ [(a, None)]"
  by (auto simp: act_wrap_call)

lemma act_wrap_id [simp]: "act_wrap id m = m"
  by (rule ext) (simp add: act_wrap_def act_then_def split: prod.splits option.splits)

lemma act_wrap_None [simp]: "act_wrap w m l = (None, l') \<longleftrightarrow> m l = (None, l')"
  by (auto simp: act_wrap_def act_then_None)

lemma call_ok: "call srv a l = (None, l') \<longleftrightarrow> srv l a = None \<and> l' = l @ [(a, None)]"
  by (auto simp: call_def Let_def)

section \<open>The calls an action can make\<close>

definition makes :: "(api_call \<Rightarrow> bool) \<Rightarrow> action \<Rightarrow> bool" where
  "makes P m \<longleftrightarrow> (\<forall>l. \<exists>k. snd (m l) = l @ k \<and> (\<forall>a \<in> set k. P (fst a)))"

lemma makesI: "(\<And>l r l'. m l = (r, l') \<Longrightarrow> \<exists>k. l' = l @ k \<and> (\<forall>a \<in> set k. P (fst a))) \<Longrightarrow> makes P m"
  unfolding makes_def by (metis prod.collapse)

lemma makesD: "makes P m \<Longrightarrow> m l = (r, l') \<Longrightarrow> \<exists>k. l' = l @ k \<and> (\<forall>a \<in> set k. P (fst a))"
  unfolding makes_def by (metis snd_conv)

lemma makes_ok [go_api]: "makes P act_ok"
  by (auto intro: makesI)

lemma makes_fail [go_api]: "makes P (act_fail e)"
  by (auto intro: makesI)

lemma makes_call [go_api]: "P a \<Longrightarrow> makes P (call srv a)"
  by (auto simp: call_def Let_def intro: makesI)

lemma makes_then [go_api]:
  assumes "makes P m" "makes P k" shows "makes P (act_then m w k)"
proof (rule makesI)
  fix l r l' assume run: "act_then m w k l = (r, l')"
  obtain r1 l1 where m: "m l = (r1, l1)" by fastforce
  with assms(1) obtain k1 where k1: "l1 = l @ k1" "\<forall>a \<in> set k1. P (fst a)" using makesD by blast
  show "\<exists>k. l' = l @ k \<and> (\<forall>a \<in> set k. P (fst a))"
  proof (cases r1)
    case None
    with run m have "k l1 = (r, l')" by (simp add: act_then_def)
    with assms(2) obtain k2 where "l' = l1 @ k2" "\<forall>a \<in> set k2. P (fst a)" using makesD by blast
    with k1 show ?thesis by (intro exI [of _ "k1 @ k2"]) auto
  qed (use run m k1 in \<open>auto simp: act_then_def\<close>)
qed

lemma makes_wrap [go_api]: "makes P m \<Longrightarrow> makes P (act_wrap w m)"
  by (simp add: act_wrap_def makes_then makes_ok)

lemma makes_ignore [go_api]: "makes P m \<Longrightarrow> makes P (act_ignore ign m)"
  by (rule makesI) (auto simp: act_ignore_def split: prod.splits option.splits dest: makesD)

lemma makes_bind [go_api]: "(\<And>x. r = Inr x \<Longrightarrow> makes P (k x)) \<Longrightarrow> makes P (act_bind r w k)"
  by (cases r) (simp_all add: makes_fail)

lemma makes_if [go_api]: "(b \<Longrightarrow> makes P m) \<Longrightarrow> (\<not> b \<Longrightarrow> makes P k) \<Longrightarrow> makes P (if b then m else k)"
  by simp

lemma makes_option [go_api]:
  "(v = None \<Longrightarrow> makes P m) \<Longrightarrow> (\<And>x. v = Some x \<Longrightarrow> makes P (k x)) \<Longrightarrow> makes P (case v of None \<Rightarrow> m | Some x \<Rightarrow> k x)"
  by (cases v) simp_all

lemma makes_sum [go_api]:
  "(\<And>e. v = Inl e \<Longrightarrow> makes P (m e)) \<Longrightarrow> (\<And>x. v = Inr x \<Longrightarrow> makes P (k x)) \<Longrightarrow>
   makes P (case v of Inl e \<Rightarrow> m e | Inr x \<Rightarrow> k x)"
  by (cases v) simp_all

lemma makes_fold [go_api]:
  assumes "\<And>x. x \<in> set xs \<Longrightarrow> makes P (f x)"
  shows "makes P (fold_err f xs)"
  using assms
proof (induction xs)
  case Nil
  then show ?case by (auto intro: makesI)
next
  case (Cons x xs)
  have "fold_err f (x # xs) = act_then (f x) id (fold_err f xs)"
    by (rule ext) (simp add: act_then_def split: prod.splits option.splits)
  with Cons show ?case by (simp add: makes_then)
qed

section \<open>The status of host network configs\<close>

definition stored_hnc :: "cluster \<Rightarrow> string \<times> string \<Rightarrow> HostNetworkConfig option" where
  "stored_hnc c k = find (\<lambda>x. key_of x = k) (indexer (cl_hncs c))"

definition global_conditions :: "cluster \<Rightarrow> string \<times> string \<Rightarrow> Condition list option" where
  "global_conditions c k = map_option hnc_Conditions (stored_hnc c k)"

lemma find_filter_key: "k \<noteq> k' \<Longrightarrow> find (\<lambda>x. key_of x = k) (filter (\<lambda>y. key_of y \<noteq> k') xs) = find (\<lambda>x. key_of x = k) xs"
  by (induction xs) auto

lemma find_indexer_Cons:
  "find (\<lambda>x. key_of x = k) (indexer (y # xs)) = (if key_of y = k then Some y else find (\<lambda>x. key_of x = k) (indexer xs))"
  by (simp add: indexer_Cons find_filter_key)

lemma key_of_status [simp]:
  "key_of (h\<lparr>hnc_Conditions := a\<rparr>) = key_of h" "key_of (h\<lparr>hnc_NodeStatus := b\<rparr>) = key_of h"
  by (simp_all add: key_of_def)

fun hnc_call :: "api_call \<Rightarrow> bool" where
  "hnc_call (UpdateHNC _) = True"
| "hnc_call (PatchHNCNodeStatus _ _ _) = True"
| "hnc_call _ = False"

lemma hnc_call_conditions:
  assumes "hnc_call a" shows "global_conditions (apply_call a c) = global_conditions c"
  using assms
proof (cases a)
  case (UpdateHNC h)
  show ?thesis
    by (rule ext) (auto simp: UpdateHNC global_conditions_def stored_hnc_def update_hnc_def find_indexer_Cons
        split: option.splits)
next
  case (PatchHNCNodeStatus n node st)
  have "key_of old = ([], n)" if "find (\<lambda>x. key_of x = ([], n)) (indexer (cl_hncs c)) = Some old" for old
    using that by (auto simp: find_Some_iff)
  then show ?thesis
    by (intro ext) (auto simp: PatchHNCNodeStatus global_conditions_def stored_hnc_def patch_node_status_def
        find_indexer_Cons split: option.splits)
qed simp_all

lemma hnc_calls_conditions:
  assumes "\<forall>a \<in> set l. hnc_call (fst a)"
  shows "global_conditions (cluster_after l c) = global_conditions c"
  using assms by (induction l arbitrary: c) (auto simp: logged_def hnc_call_conditions)

section \<open>Which objects a call leaves alone\<close>

fun vc_call :: "api_call \<Rightarrow> bool" where
  "vc_call (CreateVC _) = True"
| "vc_call (UpdateVC _) = True"
| "vc_call (DeleteVC _) = True"
| "vc_call _ = False"

lemma vc_frame:
  assumes "\<forall>a \<in> set l. \<not> vc_call (fst a)" shows "cl_vcs (cluster_after l c) = cl_vcs c"
proof -
  have "cl_vcs (apply_call a c) = cl_vcs c" if "\<not> vc_call a" for a c using that by (cases a) auto
  with assms show ?thesis by (induction l arbitrary: c) (auto simp: logged_def)
qed

fun lm_call :: "api_call \<Rightarrow> bool" where
  "lm_call (CreateLM _) = True"
| "lm_call (UpdateLM _) = True"
| "lm_call (DeleteLM _) = True"
| "lm_call _ = False"

lemma lm_frame:
  assumes "\<forall>a \<in> set l. \<not> lm_call (fst a)" shows "cl_lms (cluster_after l c) = cl_lms c"
proof -
  have "cl_lms (apply_call a c) = cl_lms c" if "\<not> lm_call a" for a c using that by (cases a) auto
  with assms show ?thesis by (induction l arbitrary: c) (auto simp: logged_def)
qed

section \<open>The stored cluster network\<close>

definition stored_cn :: "cluster \<Rightarrow> string \<Rightarrow> ClusterNetwork option" where
  "stored_cn c n = find (\<lambda>x. key_of x = ([], n)) (indexer (cl_cns c))"

lemma cnGet_stored:
  "store_get (indexer (cl_cns c)) [] n = (case stored_cn c n of None \<Rightarrow> Inl (ENotFound n) | Some cn \<Rightarrow> Inr cn)"
  by (simp add: store_get_def stored_cn_def)

lemma stored_cn_put [simp]:
  "stored_cn (c\<lparr>cl_cns := cn # cl_cns c\<rparr>) n = (if key_of cn = ([], n) then Some cn else stored_cn c n)"
  by (simp add: stored_cn_def find_indexer_Cons)

lemma stored_cn_key: "stored_cn c n = Some cn \<Longrightarrow> key_of cn = ([], n) \<and> o_name cn = n"
  by (auto simp: stored_cn_def find_Some_iff key_of_def)

end
