(* ===== verification/Mgr_ClusterNetwork.thy ===== *)
theory Mgr_ClusterNetwork
  imports Api_Log
begin

text \<open>
  \<open>pkg/controller/manager/clusternetwork/controller.go\<close>: a change of a cluster network creates or
  deletes its link monitor, sets the ready label of its NADs and the status of its host network
  configs; at start-up the \<open>mgmt\<close> network and the \<open>nic\<close> monitor are created. A handler is a
  function of the caches and the API server and returns the error and the log of its calls; the
  object a handler returns next to the error is its argument or nil. \<open>now\<close> is the time the
  condition helpers write.
\<close>

section \<open>Link monitors\<close>

definition nicMonitorName :: string where "nicMonitorName = ''nic''"
definition TypeDevice :: string where "TypeDevice = ''device''"

definition new_monitor :: "string \<Rightarrow> string \<Rightarrow> string \<Rightarrow> LinkMonitor" where
  "new_monitor name typeRule nameRule =
     \<lparr>o_name = name, o_namespace = [], o_labels = None, o_annotations = None, o_deleting = False,
      lm_NodeSelector = [], lm_TypeRule = typeRule, lm_NameRule = nameRule, lm_Conditions = [], lm_LinkStatus = None\<rparr>"

definition ensureLinkMonitor :: "caches \<Rightarrow> api_server \<Rightarrow> string \<Rightarrow> action" where
  "ensureLinkMonitor h srv name =
     (case lmGet h name of
        Inl e \<Rightarrow>
          if \<not> IsNotFound e then act_fail e
          else act_wrap id (call srv (CreateLM
                 (new_monitor name [] (name @ ''('' @ BridgeSuffix @ ''|'' @ BondSuffix @ '')''))))
      | Inr _ \<Rightarrow> act_ok)"

definition deleteLinkMonitor :: "caches \<Rightarrow> api_server \<Rightarrow> string \<Rightarrow> action" where
  "deleteLinkMonitor h srv name =
     (case lmGet h name of
        Inl e \<Rightarrow> if \<not> IsNotFound e then act_fail e else act_ok
      | Inr _ \<Rightarrow> call srv (DeleteLM name))"

definition EnsureLinkMonitor :: "caches \<Rightarrow> api_server \<Rightarrow> ClusterNetwork option \<Rightarrow> action" where
  "EnsureLinkMonitor h srv cn_ptr =
     (case cn_ptr of None \<Rightarrow> act_ok
      | Some cn \<Rightarrow>
          if o_deleting cn then act_ok
          else if \<not> CondIsTrue Ready (cn_Conditions cn) then act_ok
          else act_wrap (wrap ''ensure link monitor for cluster network %s failed, error: %w'')
                 (ensureLinkMonitor h srv (o_name cn)))"

definition DeleteLinkMonitor :: "caches \<Rightarrow> api_server \<Rightarrow> ClusterNetwork option \<Rightarrow> action" where
  "DeleteLinkMonitor h srv cn_ptr =
     (case cn_ptr of None \<Rightarrow> act_ok
      | Some cn \<Rightarrow>
          act_wrap (wrap ''delete link monitor for cluster network %s failed, error: %w'')
            (deleteLinkMonitor h srv (o_name cn)))"

section \<open>The ready label of NADs\<close>

definition ready_value :: "ClusterNetwork \<Rightarrow> string" where
  "ready_value cn =
     (if \<not> o_deleting cn \<and> CondIsTrue Ready (cn_Conditions cn) then ValueTrue else ValueFalse)"

text \<open>The body of the loop of \<open>setNadReadyLabel\<close>.\<close>

definition ready_label_step :: "string \<Rightarrow> api_server \<Rightarrow> Nad \<Rightarrow> action" where
  "ready_label_step isReady srv nad =
     (if o_deleting nad then act_ok
      else if GetNadLabel (Some nad) KeyNetworkReady = isReady then act_ok
      else act_wrap id (call srv (UpdateNad (SetNadLabel KeyNetworkReady isReady nad))))"

definition setNadReadyLabel :: "caches \<Rightarrow> api_server \<Rightarrow> ClusterNetwork \<Rightarrow> action" where
  "setNadReadyLabel h srv cn =
     (let isReady = ready_value cn
      in act_bind (nadList h [] (SelectorFromSet [(KeyClusterNetworkLabel, o_name cn)])) id
           (fold_err (ready_label_step isReady srv)))"

definition SetNadReadyLabel :: "caches \<Rightarrow> api_server \<Rightarrow> ClusterNetwork option \<Rightarrow> action" where
  "SetNadReadyLabel h srv cn_ptr =
     (case cn_ptr of None \<Rightarrow> act_ok | Some cn \<Rightarrow> act_wrap id (setNadReadyLabel h srv cn))"

section \<open>The status of host network configs\<close>

definition unready_node_status :: "HostNetworkConfig \<Rightarrow> HostNetworkConfigNodeStatus" where
  "unready_node_status hn =
     \<lparr>hn_ClusterNetwork = hs_ClusterNetwork (hnc_Spec hn), hn_VlanID = hs_VlanID (hnc_Spec hn),
      hn_Mode = hs_Mode (hnc_Spec hn),
      hn_Conditions = [\<lparr>c_Type = Ready, c_Status = ''False'', c_LastUpdateTime = [], c_LastTransitionTime = [],
        c_Reason = [], c_Message = ''cluster network is down, setup l3 connectivity failed''\<rparr>]\<rparr>"

text \<open>The body of the loop over nodes; the payload is a map of strings, which always marshals.\<close>

definition node_unready_step :: "api_server \<Rightarrow> HostNetworkConfig \<Rightarrow> Node \<Rightarrow> action" where
  "node_unready_step srv hnCopy node =
     (if o_deleting node then act_ok
      else case hnc_NodeStatus hnCopy of
             None \<Rightarrow> act_ok
           | Some statuses \<Rightarrow>
               if statuses (o_name node) = None then act_ok
               else act_wrap (wrap ''failed to patch HostNetworkConfig status for node %s: %w'')
                      (call srv (PatchHNCNodeStatus (o_name hnCopy) (o_name node) (unready_node_status hnCopy))))"

definition setHNNodeStatusUnready :: "caches \<Rightarrow> api_server \<Rightarrow> HostNetworkConfig \<Rightarrow> action" where
  "setHNNodeStatusUnready h srv hnCopy =
     act_bind (nodeList h Everything) id (fold_err (node_unready_step srv hnCopy))"

definition setHostNetworkReady :: "string \<Rightarrow> api_server \<Rightarrow> HostNetworkConfig \<Rightarrow> action" where
  "setHostNetworkReady now srv hn =
     (if CondIsTrue Ready (hnc_Conditions hn) then act_ok
      else let hnCopy = hn\<lparr>hnc_Conditions :=
                 setMessage now Ready [] (setStatus now Ready ''True'' (hnc_Conditions hn))\<rparr>
           in act_wrap id (call srv (UpdateHNC hnCopy)))"

text \<open>The copy with the changed global condition is only read: no call sends it.\<close>

definition setHostNetworkUnready :: "string \<Rightarrow> caches \<Rightarrow> api_server \<Rightarrow> HostNetworkConfig \<Rightarrow> action" where
  "setHostNetworkUnready now h srv hn =
     (if CondIsFalse Ready (hnc_Conditions hn) then act_ok
      else let hnCopy = hn\<lparr>hnc_Conditions :=
                 setMessage now Ready ''cluster network is down, global host network status is unready''
                   (setStatus now Ready ''False'' (hnc_Conditions hn))\<rparr>
           in act_wrap id (setHNNodeStatusUnready h srv hnCopy))"

definition host_status_step :: "string \<Rightarrow> caches \<Rightarrow> api_server \<Rightarrow> ClusterNetwork \<Rightarrow> HostNetworkConfig \<Rightarrow> action" where
  "host_status_step now h srv cn hn =
     (if hs_ClusterNetwork (hnc_Spec hn) \<noteq> o_name cn then act_ok
      else if o_deleting hn then act_ok
      else act_wrap id (if ready_value cn = ValueTrue then setHostNetworkReady now srv hn
                        else setHostNetworkUnready now h srv hn))"

definition setHostNetworkStatus :: "string \<Rightarrow> caches \<Rightarrow> api_server \<Rightarrow> ClusterNetwork \<Rightarrow> action" where
  "setHostNetworkStatus now h srv cn =
     act_bind (hncList h Everything) id (fold_err (host_status_step now h srv cn))"

definition SetHostNetworkStatus :: "string \<Rightarrow> caches \<Rightarrow> api_server \<Rightarrow> ClusterNetwork option \<Rightarrow> action" where
  "SetHostNetworkStatus now h srv cn_ptr =
     (case cn_ptr of None \<Rightarrow> act_ok | Some cn \<Rightarrow> act_wrap id (setHostNetworkStatus now h srv cn))"

section \<open>Start-up\<close>

definition initializeClusterNetwork :: "string \<Rightarrow> api_server \<Rightarrow> action" where
  "initializeClusterNetwork now srv =
     act_wrap (wrap ''create %s failed, error: %w'') (act_ignore IsAlreadyExists (call srv (CreateCN
       \<lparr>o_name = ManagementClusterNetworkName, o_namespace = [], o_labels = None, o_annotations = None,
        o_deleting = False, cn_Conditions = setStatus now Ready ''True'' []\<rparr>)))"

definition initializeLinkMonitor :: "api_server \<Rightarrow> action" where
  "initializeLinkMonitor srv =
     act_wrap (wrap ''create %s failed, error: %w'') (act_ignore IsAlreadyExists (call srv (CreateLM
       (new_monitor nicMonitorName TypeDevice []))))"

text \<open>The function that \<open>initialize\<close> retries with back-off.\<close>

definition initialize_attempt :: "string \<Rightarrow> api_server \<Rightarrow> action" where
  "initialize_attempt now srv =
     act_then (initializeClusterNetwork now srv) id (act_wrap id (initializeLinkMonitor srv))"

section \<open>The ready label follows the cluster network\<close>

definition ready_label_verdict :: "string \<Rightarrow> Nad \<Rightarrow> (Nad option) res" where
  "ready_label_verdict isReady nad =
     Inr (if o_deleting nad \<or> GetNadLabel (Some nad) KeyNetworkReady = isReady then None
          else Some (SetNadLabel KeyNetworkReady isReady nad))"

interpretation ready_label: reconciler "ready_label_verdict r" UpdateNad cl_nads "ready_label_step r" "\<lambda>_. id" for r
  by unfold_locales
    (auto simp: ready_label_verdict_def ready_label_step_def GetNadLabel_def SetNadLabel_def key_of_def split: if_splits)

definition with_ready_label :: "string \<Rightarrow> Nad \<Rightarrow> Nad" where
  "with_ready_label isReady nad = (if o_deleting nad then nad else SetNadLabel KeyNetworkReady isReady nad)"

lemma ready_value_nonempty [simp]: "ready_value cn \<noteq> []"
  by (simp add: ready_value_def ValueTrue_def ValueFalse_def)

lemma ready_label_result:
  assumes "r \<noteq> []" shows "ready_label.result r nad = with_ready_label r nad"
proof -
  have "mlookup (o_labels nad) KeyNetworkReady = Some r" if "mget (o_labels nad) KeyNetworkReady = r"
    using that assms by (auto simp: mget_mlookup split: option.splits)
  then show ?thesis
    by (auto simp: ready_label.result_def ready_label_verdict_def with_ready_label_def GetNadLabel_def SetNadLabel_def
        mput_idem)
qed

lemma with_ready_label_cluster:
  "mlookup (o_labels (with_ready_label r nad)) KeyClusterNetworkLabel = mlookup (o_labels nad) KeyClusterNetworkLabel"
  by (simp add: with_ready_label_def SetNadLabel_def)

lemma ready_label_verdict_with [simp]: "ready_label_verdict r (with_ready_label r nad) = Inr None"
  by (simp add: ready_label_verdict_def with_ready_label_def GetNadLabel_def SetNadLabel_def)

text \<open>The NADs of a network, as the handler lists them.\<close>

lemma network_nads_listed:
  "\<exists>xs. store_list (indexer nads) [] (SelectorFromSet [(KeyClusterNetworkLabel, n)]) = Inr xs
      \<and> set xs = {nad \<in> set (indexer nads). mlookup (o_labels nad) KeyClusterNetworkLabel = Some n}
      \<and> set xs \<subseteq> set (indexer nads) \<and> distinct (map key_of xs)"
  using store_list_labelled [of nads KeyClusterNetworkLabel n] store_list_set(2) [of nads "[]"] by auto

lemma ready_labels_after:
  assumes "SetNadReadyLabel (caches_of c) srv (Some cn) [] = (None, log)"
  shows "set (indexer (cl_nads (cluster_after log c))) =
      (\<lambda>nad. if mlookup (o_labels nad) KeyClusterNetworkLabel = Some (o_name cn)
             then with_ready_label (ready_value cn) nad else nad) ` set (indexer (cl_nads c))"
proof -
  obtain xs where xs: "store_list (indexer (cl_nads c)) [] (SelectorFromSet [(KeyClusterNetworkLabel, o_name cn)]) = Inr xs"
    "set xs = {nad \<in> set (indexer (cl_nads c)). mlookup (o_labels nad) KeyClusterNetworkLabel = Some (o_name cn)}"
    "set xs \<subseteq> set (indexer (cl_nads c))" "distinct (map key_of xs)"
    using network_nads_listed by blast
  have "fold_err (ready_label_step (ready_value cn) srv) xs [] = (None, log)"
    using assms by (simp add: SetNadReadyLabel_def setNadReadyLabel_def Let_def xs(1))
  from ready_label.run_effect [OF this xs(3,4)]
  have "set (indexer (cl_nads (cluster_after log c))) = with_ready_label (ready_value cn) ` set xs \<union> (set (indexer (cl_nads c)) - set xs)"
    by (simp add: ready_label_result)
  then show ?thesis unfolding xs(2) by auto
qed

text \<open>
  C26. When \<open>SetNadReadyLabel\<close> returns no error, every NAD of the cluster network that is not being
  deleted carries the ready label of the network (false also while the network is being deleted),
  all other NADs are as before, and running the handler again makes no call.
\<close>

theorem nad_ready_label_synced:
  assumes "SetNadReadyLabel (caches_of c) srv (Some cn) [] = (None, log)"
  shows "set (indexer (cl_nads (cluster_after log c))) =
      (\<lambda>nad. if mlookup (o_labels nad) KeyClusterNetworkLabel = Some (o_name cn)
             then with_ready_label (ready_value cn) nad else nad) ` set (indexer (cl_nads c))
    \<and> SetNadReadyLabel (caches_of (cluster_after log c)) srv' (Some cn) l = (None, l)"
proof -
  note after = ready_labels_after [OF assms]
  obtain ys where ys: "store_list (indexer (cl_nads (cluster_after log c))) [] (SelectorFromSet [(KeyClusterNetworkLabel, o_name cn)]) = Inr ys"
    "set ys = {nad \<in> set (indexer (cl_nads (cluster_after log c))). mlookup (o_labels nad) KeyClusterNetworkLabel = Some (o_name cn)}"
    using network_nads_listed by blast
  have "\<forall>y \<in> set ys. ready_label_verdict (ready_value cn) y = Inr None"
    unfolding ys(2) after by auto
  then have "SetNadReadyLabel (caches_of (cluster_after log c)) srv' (Some cn) l = (None, l)"
    by (simp add: SetNadReadyLabel_def setNadReadyLabel_def Let_def ys(1) ready_label.rerun_silent)
  with after show ?thesis by blast
qed

definition ready_cn :: "string \<Rightarrow> ClusterNetwork" where
  "ready_cn n = \<lparr>o_name = n, o_namespace = [], o_labels = None, o_annotations = None, o_deleting = False,
     cn_Conditions = setStatus [] Ready ''True'' []\<rparr>"

theorem nad_ready_label_synced_witness:
  "\<exists>log. SetNadReadyLabel (caches_of (cluster0\<lparr>cl_nads := [demo_nad []]\<rparr>)) (\<lambda>_ _. None) (Some (ready_cn ''cn1'')) [] = (None, log)
     \<and> length log = 1
     \<and> set (indexer (cl_nads (cluster_after log (cluster0\<lparr>cl_nads := [demo_nad []]\<rparr>)))) =
        {SetNadLabel KeyNetworkReady ValueTrue (demo_nad [])}"
proof -
  let ?c = "cluster0\<lparr>cl_nads := [demo_nad []]\<rparr>" and ?cn = "ready_cn ''cn1''"
  let ?log = "[(UpdateNad (SetNadLabel KeyNetworkReady ValueTrue (demo_nad [])), None)]"
  have r: "ready_value ?cn = ValueTrue" by (simp add: ready_value_def ready_cn_def CondIsTrue_def)
  have idx: "indexer [demo_nad []] = [demo_nad []]" by (simp add: indexer_def store_put_def)
  have run: "SetNadReadyLabel (caches_of ?c) (\<lambda>_ _. None) (Some ?cn) [] = (None, ?log)"
    by (simp add: SetNadReadyLabel_def setNadReadyLabel_def Let_def r idx store_list_def ready_label_step_def act_wrap_call)
      (simp add: demo_nad_def ready_cn_def GetNadLabel_def mget_def ValueTrue_def call_def)
  have "mlookup (o_labels (demo_nad [])) KeyClusterNetworkLabel = Some (o_name ?cn)" "\<not> o_deleting (demo_nad [])"
    by (simp_all add: demo_nad_def ready_cn_def)
  then have "set (indexer (cl_nads (cluster_after ?log ?c))) = {SetNadLabel KeyNetworkReady ValueTrue (demo_nad [])}"
    using nad_ready_label_synced [OF run] by (simp add: idx r with_ready_label_def)
  with run show ?thesis by (intro exI [of _ ?log]) simp
qed

section \<open>Host network configs\<close>

lemma makes_SetHostNetworkStatus: "makes hnc_call (SetHostNetworkStatus now h srv cn)"
  unfolding SetHostNetworkStatus_def setHostNetworkStatus_def host_status_step_def setHostNetworkReady_def
    setHostNetworkUnready_def setHNNodeStatusUnready_def node_unready_step_def Let_def
  by (intro go_api) simp_all

text \<open>The patches that mark a host network config unready on its nodes.\<close>

definition unready_patches :: "Node list \<Rightarrow> HostNetworkConfig \<Rightarrow> api_call list" where
  "unready_patches nodes hn =
     map (\<lambda>node. PatchHNCNodeStatus (o_name hn) (o_name node) (unready_node_status hn))
       (filter (\<lambda>node. \<not> o_deleting node
          \<and> (case hnc_NodeStatus hn of None \<Rightarrow> False | Some st \<Rightarrow> st (o_name node) \<noteq> None)) nodes)"

definition hn_affected :: "ClusterNetwork \<Rightarrow> HostNetworkConfig \<Rightarrow> bool" where
  "hn_affected cn hn \<longleftrightarrow> hs_ClusterNetwork (hnc_Spec hn) = o_name cn \<and> \<not> o_deleting hn"

lemma store_list_everything: "store_list (indexer xs) [] Everything = Inr (indexer xs)"
  by (simp add: store_list_def)

lemma node_unready_run:
  assumes "fold_err (node_unready_step srv hn) nodes l = (None, l')"
  shows "l' = l @ map (\<lambda>a. (a, None)) (unready_patches nodes hn)"
proof -
  have "l' = l @ concat (map (\<lambda>node. map (\<lambda>a. (a, None)) (unready_patches [node] hn)) nodes)"
    by (rule fold_err_log [OF assms])
      (auto simp: node_unready_step_def unready_patches_def call_ok split: if_splits option.splits)
  also have "concat (map (\<lambda>node. map (\<lambda>a. (a, None)) (unready_patches [node] hn)) nodes) =
      map (\<lambda>a. (a, None)) (unready_patches nodes hn)"
    by (induction nodes) (auto simp: unready_patches_def)
  finally show ?thesis .
qed

lemma host_status_run:
  assumes "host_status_step now (caches_of c) srv cn hn l = (None, l')" "ready_value cn = ValueFalse"
  shows "l' = l @ map (\<lambda>a. (a, None))
     (if hn_affected cn hn \<and> \<not> CondIsFalse Ready (hnc_Conditions hn) then unready_patches (indexer (cl_nodes c)) hn else [])"
proof -
  have "unready_patches ns (hn\<lparr>hnc_Conditions := cs\<rparr>) = unready_patches ns hn" for ns cs
    by (simp add: unready_patches_def unready_node_status_def)
  moreover have "ValueFalse \<noteq> ValueTrue" by (simp add: ValueTrue_def ValueFalse_def)
  ultimately show ?thesis
    using assms
    by (auto simp: host_status_step_def setHostNetworkUnready_def setHNNodeStatusUnready_def hn_affected_def Let_def
        store_list_everything split: if_splits dest!: node_unready_run)
qed

text \<open>
  C31. Whatever the API server answers, \<open>SetHostNetworkStatus\<close> never changes the global ready
  condition of any host network config: for a ready network it sends an update, of which the
  server drops the status, and for a network that is not ready it only changes a local copy. When
  the network is not ready and no error is returned, exactly the entries of the live nodes of the
  affected configs have been patched to unready.
\<close>

theorem host_network_status:
  assumes "SetHostNetworkStatus now (caches_of c) srv (Some cn) [] = (r, log)"
  shows "global_conditions (cluster_after log c) = global_conditions c
     \<and> (r = None \<and> ready_value cn = ValueFalse \<longrightarrow>
          log = map (\<lambda>a. (a, None)) (concat (map (unready_patches (indexer (cl_nodes c)))
            (filter (\<lambda>hn. hn_affected cn hn \<and> \<not> CondIsFalse Ready (hnc_Conditions hn)) (indexer (cl_hncs c))))))"
proof (intro conjI impI)
  show "global_conditions (cluster_after log c) = global_conditions c"
    using makesD [OF makes_SetHostNetworkStatus assms] hnc_calls_conditions by auto
next
  let ?g = "\<lambda>hn. map (\<lambda>a. (a, None)) (if hn_affected cn hn \<and> \<not> CondIsFalse Ready (hnc_Conditions hn)
     then unready_patches (indexer (cl_nodes c)) hn else [])"
  assume ok: "r = None \<and> ready_value cn = ValueFalse"
  then have "fold_err (host_status_step now (caches_of c) srv cn) (indexer (cl_hncs c)) [] = (None, log)"
    using assms by (simp add: SetHostNetworkStatus_def setHostNetworkStatus_def store_list_everything)
  then have "log = [] @ concat (map ?g (indexer (cl_hncs c)))"
    by (rule fold_err_log) (use ok host_status_run in blast)
  also have "concat (map ?g xs) = map (\<lambda>a. (a, None)) (concat (map (unready_patches (indexer (cl_nodes c)))
            (filter (\<lambda>hn. hn_affected cn hn \<and> \<not> CondIsFalse Ready (hnc_Conditions hn)) xs)))" for xs
    by (induction xs) auto
  finally show "log = map (\<lambda>a. (a, None)) (concat (map (unready_patches (indexer (cl_nodes c)))
            (filter (\<lambda>hn. hn_affected cn hn \<and> \<not> CondIsFalse Ready (hnc_Conditions hn)) (indexer (cl_hncs c)))))"
    by simp
qed

definition demo_host :: HostNetworkConfig where
  "demo_host = \<lparr>o_name = ''h1'', o_namespace = [], o_labels = None, o_annotations = None, o_deleting = False,
     hnc_Spec = \<lparr>hs_Description = [], hs_NodeSelector = None, hs_ClusterNetwork = ''cn1'', hs_Underlay = False,
       hs_VlanID = 5, hs_Mode = ''dhcp'', hs_HostIPs = None\<rparr>,
     hnc_Conditions = [], hnc_NodeStatus = None\<rparr>"

theorem host_network_status_witness:
  "\<exists>log. SetHostNetworkStatus ''t'' (caches_of (cluster0\<lparr>cl_hncs := [demo_host]\<rparr>)) (\<lambda>_ _. None) (Some (ready_cn ''cn1'')) []
        = (None, log)
     \<and> length log = 1
     \<and> global_conditions (cluster_after log (cluster0\<lparr>cl_hncs := [demo_host]\<rparr>)) ([], ''h1'') = Some []"
proof -
  let ?c = "cluster0\<lparr>cl_hncs := [demo_host]\<rparr>" and ?cn = "ready_cn ''cn1''"
  have r: "ready_value ?cn = ValueTrue" by (simp add: ready_value_def ready_cn_def CondIsTrue_def)
  have idx: "indexer [demo_host] = [demo_host]" by (simp add: indexer_def store_put_def)
  have f: "o_name ?cn = ''cn1''" "hs_ClusterNetwork (hnc_Spec demo_host) = ''cn1''" "\<not> o_deleting demo_host"
    "\<not> CondIsTrue Ready (hnc_Conditions demo_host)"
    by (simp_all add: demo_host_def ready_cn_def CondIsTrue_def getStatus_def)
  obtain log where run: "SetHostNetworkStatus ''t'' (caches_of ?c) (\<lambda>_ _. None) (Some ?cn) [] = (None, log)" "length log = 1"
    by (simp add: SetHostNetworkStatus_def setHostNetworkStatus_def idx store_list_def host_status_step_def r f
        setHostNetworkReady_def call_def Let_def)
  have "global_conditions ?c ([], ''h1'') = Some []"
    by (simp add: global_conditions_def stored_hnc_def idx) (simp add: demo_host_def key_of_def)
  with host_network_status [OF run(1)] run show ?thesis by auto
qed

section \<open>Link monitors follow cluster networks\<close>

text \<open>
  A cluster network and its link monitor: after \<open>EnsureLinkMonitor\<close> returns no error for a
  live ready network the monitor exists, after \<open>DeleteLinkMonitor\<close> returns no error it is gone,
  and \<open>EnsureLinkMonitor\<close> never changes an existing one.
\<close>

lemma link_monitor_follows:
  assumes "EnsureLinkMonitor (caches_of c) srv (Some cn) [] = (None, log)"
    and "DeleteLinkMonitor (caches_of c) srv' (Some cn') [] = (None, log')"
  shows "(\<not> o_deleting cn \<and> CondIsTrue Ready (cn_Conditions cn) \<longrightarrow>
           (\<exists>lm \<in> set (indexer (cl_lms (cluster_after log c))). key_of lm = ([], o_name cn)))
     \<and> (\<forall>lm \<in> set (indexer (cl_lms c)). lm \<in> set (indexer (cl_lms (cluster_after log c))))
     \<and> (\<forall>lm \<in> set (indexer (cl_lms (cluster_after log' c))). key_of lm \<noteq> ([], o_name cn'))"
proof -
  have ens: "log = [] \<and> (\<exists>lm \<in> set (indexer (cl_lms c)). key_of lm = ([], o_name cn))
      \<or> (\<exists>lm. log = [(CreateLM lm, None)] \<and> key_of lm = ([], o_name cn)
             \<and> (\<forall>lm \<in> set (indexer (cl_lms c)). key_of lm \<noteq> ([], o_name cn)))
      \<or> log = [] \<and> \<not> (\<not> o_deleting cn \<and> CondIsTrue Ready (cn_Conditions cn))"
    using assms(1) store.get_Inr [of "cl_lms c" "[]" "o_name cn"] store.get_Inl [of "cl_lms c" "[]" "o_name cn"]
    by (auto simp: EnsureLinkMonitor_def ensureLinkMonitor_def call_ok key_of_def new_monitor_def
        split: if_splits sum.splits)
  have "log' = [] \<and> (\<forall>lm \<in> set (indexer (cl_lms c)). key_of lm \<noteq> ([], o_name cn'))
      \<or> log' = [(DeleteLM (o_name cn'), None)]"
    using assms(2) store.get_Inl [of "cl_lms c" "[]" "o_name cn'"]
    by (auto simp: DeleteLinkMonitor_def deleteLinkMonitor_def call_ok split: if_splits sum.splits)
  then have "\<forall>lm \<in> set (indexer (cl_lms (cluster_after log' c))). key_of lm \<noteq> ([], o_name cn')"
    by (auto simp: set_indexer_remove)
  moreover have "(\<not> o_deleting cn \<and> CondIsTrue Ready (cn_Conditions cn) \<longrightarrow>
           (\<exists>lm \<in> set (indexer (cl_lms (cluster_after log c))). key_of lm = ([], o_name cn)))
     \<and> (\<forall>lm \<in> set (indexer (cl_lms c)). lm \<in> set (indexer (cl_lms (cluster_after log c))))"
    using ens by (auto simp: set_indexer_Cons)
  ultimately show ?thesis by blast
qed

lemma link_monitor_follows_witness:
  "\<exists>log. EnsureLinkMonitor (caches_of cluster0) (\<lambda>_ _. None) (Some (ready_cn ''cn1'')) [] = (None, log)
     \<and> (\<exists>lm \<in> set (indexer (cl_lms (cluster_after log cluster0))). o_name lm = ''cn1'')"
proof -
  obtain log where ens: "EnsureLinkMonitor (caches_of cluster0) (\<lambda>_ _. None) (Some (ready_cn ''cn1'')) [] = (None, log)"
    by (simp add: EnsureLinkMonitor_def ensureLinkMonitor_def ready_cn_def CondIsTrue_def cluster0_def indexer_def
        store_get_def act_wrap_call)
  have del: "DeleteLinkMonitor (caches_of cluster0) (\<lambda>_ _. None) (Some (ready_cn ''cn1'')) [] = (None, [])"
    by (simp add: DeleteLinkMonitor_def deleteLinkMonitor_def cluster0_def indexer_def store_get_def)
  have "\<not> o_deleting (ready_cn ''cn1'')" "CondIsTrue Ready (cn_Conditions (ready_cn ''cn1''))" "o_name (ready_cn ''cn1'') = ''cn1''"
    by (simp_all add: ready_cn_def CondIsTrue_def)
  with link_monitor_follows [OF ens del] ens show ?thesis by (auto simp: key_of_def)
qed

end
