(* ===== verification/Mgr_VlanConfig.thy ===== *)
theory Mgr_VlanConfig
  imports Api_Log
begin

text \<open>
  \<open>pkg/controller/manager/vlanconfig/controller.go\<close>: the MTU of a VLAN config is written to the
  annotations of its cluster network, taken over from another config when the source config is
  removed, and the readiness of a cluster network follows its VLAN statuses.
\<close>

section \<open>The MTU of a cluster network\<close>

text \<open>The MTU \<open>ensureClusterNetwork\<close> writes: the default for an unset or invalid one.\<close>

definition vc_target_mtu :: "VlanConfig \<Rightarrow> int" where
  "vc_target_mtu vc =
     (let vcMtu = GetMTUFromVlanConfig (Some vc)
      in if IsValidMTU vcMtu \<and> vcMtu \<noteq> 0 then vcMtu else DefaultMTU)"

text \<open>Writing the two annotations, after allocating the map when it is nil.\<close>

definition set_mtu_annotations :: "int \<Rightarrow> string \<Rightarrow> ClusterNetwork \<Rightarrow> ClusterNetwork" where
  "set_mtu_annotations mtu source cn =
     cn\<lparr>o_annotations := mput KeyMTUSourceVlanConfig source (mput KeyUplinkMTU (Itoa mtu) (o_annotations cn))\<rparr>"

definition new_cn :: "string \<Rightarrow> string \<Rightarrow> string \<Rightarrow> ClusterNetwork" where
  "new_cn name mtu source =
     \<lparr>o_name = name, o_namespace = [], o_labels = None,
      o_annotations = Some [KeyUplinkMTU \<mapsto> mtu, KeyMTUSourceVlanConfig \<mapsto> source], o_deleting = False,
      cn_Conditions = []\<rparr>"

definition ensureClusterNetwork :: "caches \<Rightarrow> api_server \<Rightarrow> VlanConfig \<Rightarrow> action" where
  "ensureClusterNetwork h srv vc =
     (let name = vc_ClusterNetwork vc; MTU = vc_target_mtu vc; targetMTU = Itoa MTU
      in case cnGet h name of
           Inl e \<Rightarrow>
             if \<not> IsNotFound e then act_fail e
             else act_wrap id (call srv (CreateCN (new_cn name targetMTU (o_name vc))))
         | Inr curCn \<Rightarrow>
             if mget (o_annotations curCn) KeyUplinkMTU = targetMTU then act_ok
             else act_wrap (wrap ''failed to update cluster network %s annotation %s with MTU %s: %w'')
                    (call srv (UpdateCN (set_mtu_annotations MTU (o_name vc) curCn))))"

definition EnsureClusterNetwork :: "caches \<Rightarrow> api_server \<Rightarrow> VlanConfig option \<Rightarrow> action" where
  "EnsureClusterNetwork h srv vc_ptr =
     (case vc_ptr of None \<Rightarrow> act_ok
      | Some vc \<Rightarrow>
          if vc_ClusterNetwork vc = ManagementClusterNetworkName \<or> o_deleting vc then act_ok
          else act_wrap id (ensureClusterNetwork h srv vc))"

text \<open>
  The search for another source: the first live config with a valid MTU other than 0, which ends
  the loop, and the first with MTU 0 seen before it.
\<close>

fun candidate_loop :: "string \<Rightarrow> VlanConfig option \<Rightarrow> VlanConfig list \<Rightarrow> VlanConfig option \<times> VlanConfig option" where
  "candidate_loop name zero [] = (None, zero)"
| "candidate_loop name zero (item # items) =
     (if o_name item = name \<or> o_deleting item then candidate_loop name zero items
      else let mtu = GetMTUFromVlanConfig (Some item)
           in if \<not> IsValidMTU mtu then candidate_loop name zero items
              else if mtu = 0 then candidate_loop name (if zero = None then Some item else zero) items
              else (Some item, zero))"

definition vc_candidate :: "string \<Rightarrow> VlanConfig list \<Rightarrow> VlanConfig option" where
  "vc_candidate name vcs =
     (let (vcCandidate, vcCandidateZero) = candidate_loop name None vcs
      in if vcCandidate = None then vcCandidateZero else vcCandidate)"

definition clear_mtu_annotations :: "ClusterNetwork \<Rightarrow> ClusterNetwork" where
  "clear_mtu_annotations cn =
     cn\<lparr>o_annotations := mdelete KeyUplinkMTU (mdelete KeyMTUSourceVlanConfig (Some (mmake (o_annotations cn))))\<rparr>"

definition OnVlanConfigRemove :: "caches \<Rightarrow> api_server \<Rightarrow> VlanConfig option \<Rightarrow> action" where
  "OnVlanConfigRemove h srv vc_ptr =
     (case vc_ptr of None \<Rightarrow> act_ok
      | Some vc \<Rightarrow>
          if vc_ClusterNetwork vc = ManagementClusterNetworkName then act_ok
          else let cnName = vc_ClusterNetwork vc
               in case cnGet h cnName of
                    Inl e \<Rightarrow> if IsNotFound e then act_ok else act_fail e
                  | Inr cn \<Rightarrow>
                      if mget (o_annotations cn) KeyMTUSourceVlanConfig \<noteq> o_name vc then act_ok
                      else act_bind (vcList h (SelectorFromSet [(KeyClusterNetworkLabel, cnName)])) id (\<lambda>vcs.
                           case vc_candidate (o_name vc) vcs of
                             Some cand \<Rightarrow>
                               act_wrap (wrap ''failed to update cluster network %s after deleting source vlan config %s: %w'')
                                 (call srv (UpdateCN (set_mtu_annotations
                                    (MTUDefaultTo (GetMTUFromVlanConfig (Some cand))) (o_name cand) cn)))
                           | None \<Rightarrow>
                               act_wrap (wrap ''failed to clear cluster network %s MTU annotations after deleting source vlan config %s: %w'')
                                 (call srv (UpdateCN (clear_mtu_annotations cn)))))"

section \<open>Readiness\<close>

definition setClusterNetworkReady :: "string \<Rightarrow> caches \<Rightarrow> api_server \<Rightarrow> VlanStatus \<Rightarrow> action" where
  "setClusterNetworkReady now h srv vs =
     act_bind (cnGet h (vs_ClusterNetwork vs)) id (\<lambda>cn.
       if CondIsTrue Ready (cn_Conditions cn) then act_ok
       else act_wrap id (call srv (UpdateCN (cn\<lparr>cn_Conditions := setStatus now Ready ''True'' (cn_Conditions cn)\<rparr>))))"

definition setClusterNetworkUnready :: "string \<Rightarrow> caches \<Rightarrow> api_server \<Rightarrow> VlanStatus \<Rightarrow> action" where
  "setClusterNetworkUnready now h srv vs =
     act_bind (vsList h (SelectorFromSet [(KeyClusterNetworkLabel, vs_ClusterNetwork vs)])) id (\<lambda>vsList.
       if length vsList > 1 then act_ok
       else if length vsList = 1 \<and> o_name (vsList ! 0) \<noteq> o_name vs
       then act_fail (Errorf ''the only remain vlanstatus %s is not %s'')
       else act_bind (cnGet h (vs_ClusterNetwork vs)) id (\<lambda>cn.
            if CondIsFalse Ready (cn_Conditions cn) then act_ok
            else act_wrap id (call srv (UpdateCN (cn\<lparr>cn_Conditions := setStatus now Ready ''False'' (cn_Conditions cn)\<rparr>)))))"

definition SetClusterNetworkReady :: "string \<Rightarrow> caches \<Rightarrow> api_server \<Rightarrow> VlanStatus option \<Rightarrow> action" where
  "SetClusterNetworkReady now h srv vs_ptr =
     (case vs_ptr of None \<Rightarrow> act_ok
      | Some vs \<Rightarrow>
          if vs_ClusterNetwork vs = ManagementClusterNetworkName \<or> o_deleting vs then act_ok
          else act_wrap (wrap ''set cluster network of vs %s ready failed, error: %w'')
                 (setClusterNetworkReady now h srv vs))"

definition SetClusterNetworkUnready :: "string \<Rightarrow> caches \<Rightarrow> api_server \<Rightarrow> VlanStatus option \<Rightarrow> action" where
  "SetClusterNetworkUnready now h srv vs_ptr =
     (case vs_ptr of None \<Rightarrow> act_ok
      | Some vs \<Rightarrow>
          if vs_ClusterNetwork vs = ManagementClusterNetworkName then act_ok
          else act_wrap (wrap ''set cluster network unready before deleting vs %s failed, error: %w'')
                 (setClusterNetworkUnready now h srv vs))"

lemma key_of_cn_update [simp]:
  "key_of (cn\<lparr>cn_Conditions := cs\<rparr>) = key_of cn" "key_of (set_mtu_annotations m s cn) = key_of cn"
  "key_of (clear_mtu_annotations cn) = key_of cn" "key_of (new_cn n mtu s) = ([], n)"
  by (simp_all add: key_of_def set_mtu_annotations_def clear_mtu_annotations_def new_cn_def)

section \<open>Properties\<close>

lemma ensureClusterNetwork_runs:
  assumes "vc_ClusterNetwork vc \<noteq> ManagementClusterNetworkName" "\<not> o_deleting vc"
  shows "EnsureClusterNetwork (caches_of c) srv (Some vc) l =
    (case stored_cn c (vc_ClusterNetwork vc) of
       None \<Rightarrow> call srv (CreateCN (new_cn (vc_ClusterNetwork vc) (Itoa (vc_target_mtu vc)) (o_name vc))) l
     | Some cn \<Rightarrow>
         if mget (o_annotations cn) KeyUplinkMTU = Itoa (vc_target_mtu vc) then (None, l)
         else act_wrap (wrap ''failed to update cluster network %s annotation %s with MTU %s: %w'')
                (call srv (UpdateCN (set_mtu_annotations (vc_target_mtu vc) (o_name vc) cn))) l)"
  using assms by (simp add: EnsureClusterNetwork_def ensureClusterNetwork_def Let_def cnGet_stored split: option.splits)

text \<open>
  When \<open>EnsureClusterNetwork\<close> returns no error for a live VLAN config outside the management
  network, the cluster network exists and is annotated with the config's MTU (the default for an
  unset or invalid one); its labels, conditions and other annotations and all other networks are
  as before, and running the handler again makes no call.
\<close>

lemma ensure_cluster_network:
  assumes "EnsureClusterNetwork (caches_of c) srv (Some vc) [] = (None, log)"
    and "vc_ClusterNetwork vc \<noteq> ManagementClusterNetworkName" "\<not> o_deleting vc"
  shows "(\<exists>cn. stored_cn (cluster_after log c) (vc_ClusterNetwork vc) = Some cn
        \<and> mget (o_annotations cn) KeyUplinkMTU = Itoa (vc_target_mtu vc)
        \<and> (\<forall>cn0. stored_cn c (vc_ClusterNetwork vc) = Some cn0 \<longrightarrow>
             cn_Conditions cn = cn_Conditions cn0 \<and> o_labels cn = o_labels cn0
             \<and> (\<forall>k. k \<noteq> KeyUplinkMTU \<and> k \<noteq> KeyMTUSourceVlanConfig \<longrightarrow>
                  mlookup (o_annotations cn) k = mlookup (o_annotations cn0) k)))
     \<and> (\<forall>n. n \<noteq> vc_ClusterNetwork vc \<longrightarrow> stored_cn (cluster_after log c) n = stored_cn c n)
     \<and> EnsureClusterNetwork (caches_of (cluster_after log c)) srv' (Some vc) l = (None, l)"
proof -
  let ?n = "vc_ClusterNetwork vc" and ?m = "Itoa (vc_target_mtu vc)"
  note run = ensureClusterNetwork_runs [OF assms(2,3)]
  consider (new) "stored_cn c ?n = None" "log = [(CreateCN (new_cn ?n ?m (o_name vc)), None)]"
    | (same) cn where "stored_cn c ?n = Some cn" "mget (o_annotations cn) KeyUplinkMTU = ?m" "log = []"
    | (changed) cn where "stored_cn c ?n = Some cn" "key_of cn = ([], ?n)"
        "log = [(UpdateCN (set_mtu_annotations (vc_target_mtu vc) (o_name vc) cn), None)]"
    using assms(1) unfolding run by (auto simp: call_ok stored_cn_key split: option.splits if_splits)
  then show ?thesis
  proof cases
    case new
    then show ?thesis by (auto simp: run) (auto simp: new_cn_def mget_mlookup)
  next
    case same
    then show ?thesis by (auto simp: run)
  next
    case changed
    then show ?thesis by (auto simp: run) (auto simp: set_mtu_annotations_def)
  qed
qed

definition demo_vlanconfig :: "string \<Rightarrow> int \<Rightarrow> VlanConfig" where
  "demo_vlanconfig n mtu = \<lparr>o_name = n, o_namespace = [], o_labels = Some [KeyClusterNetworkLabel \<mapsto> ''cn1''],
     o_annotations = None, o_deleting = False, vc_Description = [], vc_ClusterNetwork = ''cn1'', vc_NodeSelector = [],
     vc_Uplink = \<lparr>up_NICs = None, up_LinkAttrs = Some \<lparr>la_MTU = mtu, la_TxQLen = 0, la_HardwareAddr = []\<rparr>,
                  up_BondOptions = None\<rparr>\<rparr>"

lemma ensure_cluster_network_witness:
  "\<exists>log cn. EnsureClusterNetwork (caches_of cluster0) (\<lambda>_ _. None) (Some (demo_vlanconfig ''vc1'' 9000)) [] = (None, log)
     \<and> stored_cn (cluster_after log cluster0) ''cn1'' = Some cn \<and> mget (o_annotations cn) KeyUplinkMTU = Itoa 9000"
proof -
  let ?vc = "demo_vlanconfig ''vc1'' 9000"
  have vc: "vc_ClusterNetwork ?vc = ''cn1''" "\<not> o_deleting ?vc" "GetMTUFromVlanConfig (Some ?vc) = 9000"
    by (simp_all add: demo_vlanconfig_def GetMTUFromVlanConfig_def)
  then have t: "vc_target_mtu ?vc = 9000" by (simp add: vc_target_mtu_def IsValidMTU_def mtu_consts)
  have mg: "vc_ClusterNetwork ?vc \<noteq> ManagementClusterNetworkName" by (simp add: vc ManagementClusterNetworkName_def)
  obtain log where run: "EnsureClusterNetwork (caches_of cluster0) (\<lambda>_ _. None) (Some ?vc) [] = (None, log)"
    using ensureClusterNetwork_runs [OF mg vc(2), of cluster0 "\<lambda>_ _. None" "[]"]
    by (simp add: call_def stored_cn_def cluster0_def indexer_def)
  from ensure_cluster_network [OF run mg vc(2)] show ?thesis unfolding vc t using run by blast
qed

section \<open>The next source of the MTU\<close>

definition eligible :: "string \<Rightarrow> VlanConfig \<Rightarrow> bool" where
  "eligible name w \<longleftrightarrow> o_name w \<noteq> name \<and> \<not> o_deleting w \<and> IsValidMTU (GetMTUFromVlanConfig (Some w))"

text \<open>The loop with its two variables is a search for a non-zero MTU, then for any.\<close>

lemma candidate_loop_fst:
  "fst (candidate_loop name zero vcs) = find (\<lambda>x. eligible name x \<and> GetMTUFromVlanConfig (Some x) \<noteq> 0) vcs"
  by (induction vcs arbitrary: zero) (auto simp: eligible_def Let_def)

lemma candidate_loop_snd:
  "find (\<lambda>x. eligible name x \<and> GetMTUFromVlanConfig (Some x) \<noteq> 0) vcs = None \<Longrightarrow>
   snd (candidate_loop name zero vcs) = (if zero = None then find (eligible name) vcs else zero)"
  by (induction vcs arbitrary: zero) (auto simp: eligible_def Let_def split: if_splits)

lemma vc_candidate_find:
  "vc_candidate name vcs =
     (case find (\<lambda>x. eligible name x \<and> GetMTUFromVlanConfig (Some x) \<noteq> 0) vcs of
        None \<Rightarrow> find (eligible name) vcs | Some w \<Rightarrow> Some w)"
  using candidate_loop_fst [of name None vcs] candidate_loop_snd [of name vcs None]
  by (auto simp: vc_candidate_def split: option.splits prod.splits)

lemma vc_candidate_Some:
  assumes "vc_candidate name vcs = Some w"
  shows "w \<in> set vcs \<and> eligible name w
     \<and> (GetMTUFromVlanConfig (Some w) = 0 \<longrightarrow> (\<forall>x \<in> set vcs. eligible name x \<longrightarrow> GetMTUFromVlanConfig (Some x) = 0))"
proof (cases "find (\<lambda>x. eligible name x \<and> GetMTUFromVlanConfig (Some x) \<noteq> 0) vcs")
  case None
  with assms have "find (eligible name) vcs = Some w" by (simp add: vc_candidate_find)
  then have "w \<in> set vcs \<and> eligible name w" by (auto simp: find_Some_iff)
  with None show ?thesis by (auto simp: find_None_iff)
next
  case (Some x)
  with assms show ?thesis by (auto simp: vc_candidate_find find_Some_iff)
qed

lemma vc_candidate_None: "vc_candidate name vcs = None \<longleftrightarrow> (\<forall>x \<in> set vcs. \<not> eligible name x)"
proof (cases "find (\<lambda>x. eligible name x \<and> GetMTUFromVlanConfig (Some x) \<noteq> 0) vcs")
  case None
  then have "vc_candidate name vcs = find (eligible name) vcs" by (simp add: vc_candidate_find)
  then show ?thesis by (auto simp: find_None_iff)
next
  case (Some w)
  then have "w \<in> set vcs" "eligible name w" by (auto simp: find_Some_iff)
  with Some show ?thesis by (auto simp: vc_candidate_find)
qed

definition other_sources :: "cluster \<Rightarrow> VlanConfig \<Rightarrow> VlanConfig set" where
  "other_sources c vc = {w \<in> set (indexer (cl_vcs c)).
     mlookup (o_labels w) KeyClusterNetworkLabel = Some (vc_ClusterNetwork vc) \<and> eligible (o_name vc) w}"

lemma OnVlanConfigRemove_runs:
  assumes "vc_ClusterNetwork vc \<noteq> ManagementClusterNetworkName" "stored_cn c (vc_ClusterNetwork vc) = Some cn"
    "mget (o_annotations cn) KeyMTUSourceVlanConfig = o_name vc"
    "store_list (indexer (cl_vcs c)) [] (SelectorFromSet [(KeyClusterNetworkLabel, vc_ClusterNetwork vc)]) = Inr vcs"
    "OnVlanConfigRemove (caches_of c) srv (Some vc) [] = (None, log)"
  shows "log = [(UpdateCN (case vc_candidate (o_name vc) vcs of
      Some w \<Rightarrow> set_mtu_annotations (MTUDefaultTo (GetMTUFromVlanConfig (Some w))) (o_name w) cn
    | None \<Rightarrow> clear_mtu_annotations cn), None)]"
  using assms by (auto simp: OnVlanConfigRemove_def Let_def cnGet_stored call_ok split: option.splits)

lemma OnVlanConfigRemove_calls:
  assumes "stored_cn c (vc_ClusterNetwork vc) = Some cn"
    "store_list (indexer (cl_vcs c)) [] (SelectorFromSet [(KeyClusterNetworkLabel, vc_ClusterNetwork vc)]) = Inr vcs"
    "OnVlanConfigRemove (caches_of c) srv (Some vc) [] = (r, log)"
  shows "\<forall>a \<in> set log. fst a = UpdateCN (case vc_candidate (o_name vc) vcs of
      Some w \<Rightarrow> set_mtu_annotations (MTUDefaultTo (GetMTUFromVlanConfig (Some w))) (o_name w) cn
    | None \<Rightarrow> clear_mtu_annotations cn)"
  using assms by (auto simp: OnVlanConfigRemove_def Let_def cnGet_stored act_wrap_call split: option.splits if_splits)

text \<open>
  C10. When the VLAN config that the MTU annotation of a cluster network names is removed and the
  handler returns no error, the annotations name another live config of the network with a valid
  MTU and carry its MTU (0 only when no other such config has an explicit MTU), or there is no
  such config and both annotations are gone. The removed config is never left as the source.
\<close>

theorem mtu_source_handover:
  assumes "OnVlanConfigRemove (caches_of c) srv (Some vc) [] = (None, log)"
    and "vc_ClusterNetwork vc \<noteq> ManagementClusterNetworkName"
    and "stored_cn c (vc_ClusterNetwork vc) = Some cn0" "mget (o_annotations cn0) KeyMTUSourceVlanConfig = o_name vc"
  shows "\<exists>cn. stored_cn (cluster_after log c) (vc_ClusterNetwork vc) = Some cn
     \<and> cn_Conditions cn = cn_Conditions cn0 \<and> o_labels cn = o_labels cn0
     \<and> (if other_sources c vc = {} then mlookup (o_annotations cn) KeyUplinkMTU = None
            \<and> mlookup (o_annotations cn) KeyMTUSourceVlanConfig = None
        else \<exists>w \<in> other_sources c vc. mlookup (o_annotations cn) KeyMTUSourceVlanConfig = Some (o_name w)
            \<and> mlookup (o_annotations cn) KeyUplinkMTU = Some (Itoa (MTUDefaultTo (GetMTUFromVlanConfig (Some w))))
            \<and> (GetMTUFromVlanConfig (Some w) = 0 \<longrightarrow> (\<forall>x \<in> other_sources c vc. GetMTUFromVlanConfig (Some x) = 0)))"
proof -
  obtain vcs where vcs:
    "store_list (indexer (cl_vcs c)) [] (SelectorFromSet [(KeyClusterNetworkLabel, vc_ClusterNetwork vc)]) = Inr vcs"
    "set vcs = {w \<in> set (indexer (cl_vcs c)). mlookup (o_labels w) KeyClusterNetworkLabel = Some (vc_ClusterNetwork vc)}"
    using store_list_labelled [of "cl_vcs c"] by blast
  let ?others = "other_sources c vc"
  from vcs have others: "?others = {w \<in> set vcs. eligible (o_name vc) w}" by (auto simp: other_sources_def)
  note log = OnVlanConfigRemove_runs [OF assms(2,3,4) vcs(1) assms(1)] and key = stored_cn_key [OF assms(3)]
  show ?thesis
  proof (cases "vc_candidate (o_name vc) vcs")
    case None
    then have "?others = {}" using others vc_candidate_None [of "o_name vc" vcs] by blast
    moreover have "stored_cn (cluster_after log c) (vc_ClusterNetwork vc) = Some (clear_mtu_annotations cn0)"
      using None log key by simp
    ultimately show ?thesis by (simp add: clear_mtu_annotations_def)
  next
    case (Some w)
    note w = vc_candidate_Some [OF Some]
    then have ne: "?others \<noteq> {}" "w \<in> ?others" using others by auto
    let ?cn = "set_mtu_annotations (MTUDefaultTo (GetMTUFromVlanConfig (Some w))) (o_name w) cn0"
    have "stored_cn (cluster_after log c) (vc_ClusterNetwork vc) = Some ?cn" using log key Some by simp
    moreover have "cn_Conditions ?cn = cn_Conditions cn0" "o_labels ?cn = o_labels cn0"
      "mlookup (o_annotations ?cn) KeyMTUSourceVlanConfig = Some (o_name w)"
      "mlookup (o_annotations ?cn) KeyUplinkMTU = Some (Itoa (MTUDefaultTo (GetMTUFromVlanConfig (Some w))))"
      by (simp_all add: set_mtu_annotations_def)
    moreover have "GetMTUFromVlanConfig (Some w) = 0 \<longrightarrow> (\<forall>x \<in> ?others. GetMTUFromVlanConfig (Some x) = 0)"
      using w by (auto simp: others)
    ultimately show ?thesis using ne by (auto intro!: bexI [of _ w])
  qed
qed

definition sourced_cn :: "string \<Rightarrow> ClusterNetwork" where
  "sourced_cn source = new_cn ''cn1'' ''9000'' source"

theorem mtu_source_handover_witness:
  "\<exists>log cn. OnVlanConfigRemove (caches_of (cluster0\<lparr>cl_cns := [sourced_cn ''vc1''], cl_vcs := [demo_vlanconfig ''vc2'' 9000]\<rparr>))
        (\<lambda>_ _. None) (Some (demo_vlanconfig ''vc1'' 9000)) [] = (None, log)
     \<and> stored_cn (cluster_after log (cluster0\<lparr>cl_cns := [sourced_cn ''vc1''], cl_vcs := [demo_vlanconfig ''vc2'' 9000]\<rparr>)) ''cn1'' = Some cn
     \<and> mlookup (o_annotations cn) KeyMTUSourceVlanConfig = Some ''vc2''"
proof -
  let ?c = "cluster0\<lparr>cl_cns := [sourced_cn ''vc1''], cl_vcs := [demo_vlanconfig ''vc2'' 9000]\<rparr>"
  let ?vc = "demo_vlanconfig ''vc1'' 9000" and ?w = "demo_vlanconfig ''vc2'' 9000"
  have vc: "vc_ClusterNetwork ?vc = ''cn1''" "o_name ?vc = ''vc1''" "o_name ?w = ''vc2''" by (simp_all add: demo_vlanconfig_def)
  have mg: "vc_ClusterNetwork ?vc \<noteq> ManagementClusterNetworkName" by (simp add: vc ManagementClusterNetworkName_def)
  have cn: "stored_cn ?c (vc_ClusterNetwork ?vc) = Some (sourced_cn ''vc1'')"
    by (simp add: stored_cn_def indexer_Cons vc sourced_cn_def)
  have src: "mget (o_annotations (sourced_cn ''vc1'')) KeyMTUSourceVlanConfig = o_name ?vc"
    by (simp add: sourced_cn_def new_cn_def mget_def vc)
  have get: "store_get (indexer [sourced_cn ''vc1'']) [] (vc_ClusterNetwork ?vc) = Inr (sourced_cn ''vc1'')"
    using cnGet_stored [of ?c "vc_ClusterNetwork ?vc"] cn by simp
  have idx: "indexer [?w] = [?w]" by (simp add: indexer_def store_put_def)
  have w: "eligible ''vc1'' ?w" "mlookup (o_labels ?w) KeyClusterNetworkLabel = Some ''cn1''"
    by (simp_all add: eligible_def demo_vlanconfig_def GetMTUFromVlanConfig_def IsValidMTU_def mtu_consts)
  then have oth: "other_sources ?c ?vc = {?w}" by (auto simp: other_sources_def idx vc)
  obtain log where run: "OnVlanConfigRemove (caches_of ?c) (\<lambda>_ _. None) (Some ?vc) [] = (None, log)"
  proof -
    have "\<exists>log. OnVlanConfigRemove (caches_of ?c) (\<lambda>_ _. None) (Some ?vc) [] = (None, log)"
      using mg src by (simp add: OnVlanConfigRemove_def Let_def get store_list_def act_wrap_call split: option.splits)
    with that show thesis by blast
  qed
  from mtu_source_handover [OF run mg cn src] run show ?thesis
    unfolding oth vc by (auto simp: vc)
qed

section \<open>Readiness follows the VLAN statuses\<close>

definition other_status :: "cluster \<Rightarrow> VlanStatus \<Rightarrow> bool" where
  "other_status c vs \<longleftrightarrow> (\<exists>w \<in> set (indexer (cl_vss c)).
     mlookup (o_labels w) KeyClusterNetworkLabel = Some (vs_ClusterNetwork vs) \<and> o_name w \<noteq> o_name vs)"

lemma SetClusterNetworkReady_effect:
  assumes "vs_ClusterNetwork vs \<noteq> ManagementClusterNetworkName" "stored_cn c (vs_ClusterNetwork vs) = Some cn0" "\<not> o_deleting vs"
    and "SetClusterNetworkReady now (caches_of c) srv (Some vs) [] = (None, log)"
  shows "\<exists>cn. stored_cn (cluster_after log c) (vs_ClusterNetwork vs) = Some cn \<and> CondIsTrue Ready (cn_Conditions cn)
    \<and> o_deleting cn = o_deleting cn0 \<and> cl_nads (cluster_after log c) = cl_nads c"
  using assms stored_cn_key [OF assms(2)]
  by (auto simp: SetClusterNetworkReady_def setClusterNetworkReady_def cnGet_stored call_ok split: if_splits)
    (simp_all add: CondIsTrue_def)

text \<open>
  C14. A cluster network outside the management network becomes ready when one of its VLAN statuses
  appears; when a status is removed, it becomes unready exactly if no other status with its label
  is left, and nothing is written while another one is left.
\<close>

theorem cluster_network_readiness:
  assumes "vs_ClusterNetwork vs \<noteq> ManagementClusterNetworkName" "\<forall>w \<in> set (indexer (cl_vss c)). o_namespace w = []"
    and "stored_cn c (vs_ClusterNetwork vs) = Some cn0"
  shows "(\<not> o_deleting vs \<and> SetClusterNetworkReady now (caches_of c) srv (Some vs) [] = (None, log) \<longrightarrow>
      (\<exists>cn. stored_cn (cluster_after log c) (vs_ClusterNetwork vs) = Some cn \<and> CondIsTrue Ready (cn_Conditions cn)))
    \<and> (SetClusterNetworkUnready now (caches_of c) srv (Some vs) [] = (None, log') \<longrightarrow>
      (\<exists>cn. stored_cn (cluster_after log' c) (vs_ClusterNetwork vs) = Some cn
        \<and> (if other_status c vs then log' = [] \<and> cn = cn0 else CondIsFalse Ready (cn_Conditions cn))))"
proof (intro conjI impI)
  assume "\<not> o_deleting vs \<and> SetClusterNetworkReady now (caches_of c) srv (Some vs) [] = (None, log)"
  then show "\<exists>cn. stored_cn (cluster_after log c) (vs_ClusterNetwork vs) = Some cn \<and> CondIsTrue Ready (cn_Conditions cn)"
    using SetClusterNetworkReady_effect [OF assms(1,3)] by blast
next
  note key = stored_cn_key [OF assms(3)]
  assume un: "SetClusterNetworkUnready now (caches_of c) srv (Some vs) [] = (None, log')"
  obtain vss where vss:
    "store_list (indexer (cl_vss c)) [] (SelectorFromSet [(KeyClusterNetworkLabel, vs_ClusterNetwork vs)]) = Inr vss"
    "set vss = {w \<in> set (indexer (cl_vss c)). mlookup (o_labels w) KeyClusterNetworkLabel = Some (vs_ClusterNetwork vs)}"
    using store_list_labelled [of "cl_vss c"] by blast
  have dist: "distinct (map key_of vss)" by (rule store_list_set(2) [OF vss(1)])
  have names: "distinct (map o_name vss)"
  proof -
    have "key_of w = ([], o_name w)" if "w \<in> set vss" for w using that assms(2) vss(2) by (simp add: key_of_def)
    then have "map key_of vss = map (Pair []) (map o_name vss)" by simp
    with dist show ?thesis by (metis distinct_map)
  qed
  have oth: "other_status c vs \<longleftrightarrow> (\<exists>w \<in> set vss. o_name w \<noteq> o_name vs)" by (auto simp: other_status_def vss(2))
  consider "length vss > 1" | v where "vss = [v]" | "vss = []" by (cases vss rule: remdups_adj.cases) auto
  then show "\<exists>cn. stored_cn (cluster_after log' c) (vs_ClusterNetwork vs) = Some cn
        \<and> (if other_status c vs then log' = [] \<and> cn = cn0 else CondIsFalse Ready (cn_Conditions cn))"
  proof cases
    case 1
    then obtain a b r where "vss = a # b # r" by (cases vss rule: remdups_adj.cases) auto
    with names have "other_status c vs" unfolding oth by auto
    with 1 un assms(1,3) show ?thesis
      by (simp add: SetClusterNetworkUnready_def setClusterNetworkUnready_def vss(1))
  next
    case 2
    with un assms(1,3) key oth show ?thesis
      by (auto simp: SetClusterNetworkUnready_def setClusterNetworkUnready_def vss(1) cnGet_stored call_ok split: if_splits)
        (simp_all add: CondIsFalse_def)
  next
    case 3
    with un assms(1,3) key oth show ?thesis
      by (auto simp: SetClusterNetworkUnready_def setClusterNetworkUnready_def vss(1) cnGet_stored call_ok split: if_splits)
        (simp_all add: CondIsFalse_def)
  qed
qed

definition demo_status :: VlanStatus where
  "demo_status = \<lparr>o_name = ''vs1'', o_namespace = [], o_labels = Some [KeyClusterNetworkLabel \<mapsto> ''cn1''],
     o_annotations = None, o_deleting = False, vs_ClusterNetwork = ''cn1'', vs_VlanConfig = ''vc1'', vs_LinkMonitor = [],
     vs_Node = ''node1'', vs_LocalAreas = [], vs_Conditions = [], vs_OwnerReferences = []\<rparr>"

theorem cluster_network_readiness_witness:
  "\<exists>log cn. SetClusterNetworkUnready ''t'' (caches_of (cluster0\<lparr>cl_cns := [sourced_cn ''vc1''], cl_vss := [demo_status]\<rparr>))
        (\<lambda>_ _. None) (Some demo_status) [] = (None, log)
     \<and> stored_cn (cluster_after log (cluster0\<lparr>cl_cns := [sourced_cn ''vc1''], cl_vss := [demo_status]\<rparr>)) ''cn1'' = Some cn
     \<and> CondIsFalse Ready (cn_Conditions cn)"
proof -
  let ?c = "cluster0\<lparr>cl_cns := [sourced_cn ''vc1''], cl_vss := [demo_status]\<rparr>"
  have vs: "vs_ClusterNetwork demo_status = ''cn1''" "o_namespace demo_status = []" by (simp_all add: demo_status_def)
  have idx: "indexer [demo_status] = [demo_status]" by (simp add: indexer_def store_put_def)
  have mg: "vs_ClusterNetwork demo_status \<noteq> ManagementClusterNetworkName" by (simp add: vs ManagementClusterNetworkName_def)
  have ns: "\<forall>w \<in> set (indexer (cl_vss ?c)). o_namespace w = []" by (simp add: idx vs)
  have cn: "stored_cn ?c (vs_ClusterNetwork demo_status) = Some (sourced_cn ''vc1'')"
    by (simp add: stored_cn_def indexer_Cons vs sourced_cn_def)
  have get: "store_get (indexer [sourced_cn ''vc1'']) [] (vs_ClusterNetwork demo_status) = Inr (sourced_cn ''vc1'')"
    using cnGet_stored [of ?c "vs_ClusterNetwork demo_status"] cn by simp
  have oth: "\<not> other_status ?c demo_status" by (simp add: other_status_def idx)
  have "\<exists>log. SetClusterNetworkUnready ''t'' (caches_of ?c) (\<lambda>_ _. None) (Some demo_status) [] = (None, log)"
    using mg by (simp add: SetClusterNetworkUnready_def setClusterNetworkUnready_def get store_list_def idx act_wrap_call call_def)
  then obtain log where run: "SetClusterNetworkUnready ''t'' (caches_of ?c) (\<lambda>_ _. None) (Some demo_status) [] = (None, log)" ..
  from cluster_network_readiness [OF mg ns cn] run oth show ?thesis unfolding vs by meson
qed

end
