(* ===== verification/Mgr_Node.thy ===== *)
theory Mgr_Node
  imports Api_Log
begin

text \<open>
  \<open>pkg/controller/manager/node/controller.go\<close>: a node that appears or changes gets the label of the
  management network and is entered into, or removed from, the matched-nodes annotations of the
  VLAN configs and host network configs; the cluster network label of overlay NADs follows the
  tunnel interface of the node; a removed node leaves VLAN configs, VLAN statuses and link
  monitors. The node sets (\<open>mapset\<close>) are lists without duplicates, encoded and decoded by the
  JSON functions of \<open>golib\<close>.
\<close>

section \<open>Matched nodes\<close>

definition node_set :: "golib \<Rightarrow> strmap \<Rightarrow> (string list) res" where
  "node_set g annotations =
     (if annotations \<noteq> None \<and> mget annotations KeyMatchedNodes \<noteq> []
      then bind_res (UnmarshalStrings g (mget annotations KeyMatchedNodes)) id (\<lambda>xs. Inr (remdups xs))
      else Inr [])"

definition set_add :: "string \<Rightarrow> string list \<Rightarrow> string list" where
  "set_add x s = (if x \<in> set s then s else s @ [x])"

text \<open>
  The new annotations after entering or removing a node, \<open>None\<close> when the set stays the same. The
  two handlers \<open>updateMatchedNodeAnnotation\<close> and \<open>updateHostNetworkConfigMatchedNodeAnnotation\<close>
  share this code up to the client.
\<close>

definition matched_update :: "golib \<Rightarrow> strmap \<Rightarrow> bool \<Rightarrow> string \<Rightarrow> (strmap option) res" where
  "matched_update g annotations ok nodeName =
     bind_res (node_set g annotations) id (\<lambda>s.
     let newSet = (if ok then set_add nodeName s else removeAll nodeName s)
     in if set newSet = set s then Inr None
        else bind_res (MarshalStrings g newSet) id (\<lambda>bytes. Inr (Some (mput KeyMatchedNodes bytes annotations))))"

definition updateMatchedNodeAnnotation :: "golib \<Rightarrow> api_server \<Rightarrow> Node \<Rightarrow> VlanConfig \<Rightarrow> action" where
  "updateMatchedNodeAnnotation g srv node vc =
     act_bind (NewSelector (vc_NodeSelector vc)) id (\<lambda>selector.
     act_bind (matched_update g (o_annotations vc) (sel_matches selector (o_labels node)) (o_name node)) id (\<lambda>new.
     case new of
       None \<Rightarrow> act_ok
     | Some annotations \<Rightarrow> act_wrap id (call srv (UpdateVC (vc\<lparr>o_annotations := annotations\<rparr>)))))"

definition updateHostNetworkConfigMatchedNodeAnnotation :: "golib \<Rightarrow> api_server \<Rightarrow> Node \<Rightarrow> HostNetworkConfig \<Rightarrow> action" where
  "updateHostNetworkConfigMatchedNodeAnnotation g srv node hnc =
     act_bind (LabelSelectorAsSelector (hs_NodeSelector (hnc_Spec hnc)))
       (wrap ''failed to convert label selector, hnc: %s, error: %w'') (\<lambda>selector.
     act_bind (matched_update g (o_annotations hnc) (sel_matches selector (o_labels node)) (o_name node)) id (\<lambda>new.
     case new of
       None \<Rightarrow> act_ok
     | Some annotations \<Rightarrow> act_wrap id (call srv (UpdateHNC (hnc\<lparr>o_annotations := annotations\<rparr>)))))"

section \<open>A node appears or changes\<close>

definition ensureMgmtLabels :: "api_server \<Rightarrow> Node \<Rightarrow> action" where
  "ensureMgmtLabels srv node =
     (if HasMgmtClusterNetworkLabelKey (o_labels node) then act_ok
      else act_wrap (wrap ''update node %s failed, error: %w'')
             (call srv (UpdateNode (node\<lparr>o_labels := SetMgmtClusterNetworkLabelKey (Some (mmake (o_labels node)))\<rparr>))))"

definition host_annotation_step :: "golib \<Rightarrow> api_server \<Rightarrow> Node \<Rightarrow> HostNetworkConfig \<Rightarrow> action" where
  "host_annotation_step g srv node hnc =
     (if o_deleting hnc then act_ok
      else if hs_NodeSelector (hnc_Spec hnc) = None then act_ok
      else act_wrap (wrap ''failed to update hostnetworkconfig matched node annotation, hostnetworkconfig: %s, node: %s, error: %w'')
             (updateHostNetworkConfigMatchedNodeAnnotation g srv node hnc))"

definition updateHostNetworkAnnotation :: "golib \<Rightarrow> caches \<Rightarrow> api_server \<Rightarrow> Node \<Rightarrow> action" where
  "updateHostNetworkAnnotation g h srv node =
     act_bind (hncList h Everything) (wrap ''failed to list hostnetworkconfigs, error: %w'')
       (fold_err (host_annotation_step g srv node))"

definition overlay_label_step :: "string \<Rightarrow> api_server \<Rightarrow> Nad \<Rightarrow> action" where
  "overlay_label_step bridge srv nad =
     (if o_deleting nad then act_ok
      else if \<not> IsOverlayNad (Some nad) then act_ok
      else if GetNadLabel (Some nad) KeyClusterNetworkLabel = bridge then act_ok
      else act_wrap id (call srv (UpdateNad (SetNadLabel KeyClusterNetworkLabel bridge nad))))"

definition setNadClusterNetworkLabel :: "caches \<Rightarrow> api_server \<Rightarrow> string \<Rightarrow> action" where
  "setNadClusterNetworkLabel h srv bridge =
     act_bind (ListAllNads (nadList h)) (wrap ''failed to list nads err %w'') (fold_err (overlay_label_step bridge srv))"

definition updateUnderlayForOverlayNetwork :: "caches \<Rightarrow> api_server \<Rightarrow> Node \<Rightarrow> action" where
  "updateUnderlayForOverlayNetwork h srv node =
     (if o_annotations node = None then act_ok
      else case mlookup (o_annotations node) KeyUnderlayIntf of
             None \<Rightarrow> act_ok
           | Some iface \<Rightarrow>
               if iface = [] then act_ok
               else act_bind (GetClusterNetworkName iface)
                      (wrap ''failed to get bridge name from node %s annotation, error: %w'') (\<lambda>bridge.
                    act_wrap (wrap ''failed to set NAD cluster network label for node %s, error: %w'')
                      (setNadClusterNetworkLabel h srv bridge)))"

definition matched_node_step :: "golib \<Rightarrow> Node \<Rightarrow> api_server \<Rightarrow> VlanConfig \<Rightarrow> action" where
  "matched_node_step g node srv vc =
     (if vc_ClusterNetwork vc = ManagementClusterNetworkName then act_ok
      else act_wrap (wrap ''failed to update matched node annotation, vc: %s, node: %s, error: %w'')
             (updateMatchedNodeAnnotation g srv node vc))"

definition Node_OnChange :: "golib \<Rightarrow> caches \<Rightarrow> api_server \<Rightarrow> Node option \<Rightarrow> action" where
  "Node_OnChange g h srv node_ptr =
     (case node_ptr of None \<Rightarrow> act_ok
      | Some node \<Rightarrow>
          if o_deleting node then act_ok
          else act_then (ensureMgmtLabels srv node) id
               (if HasWitnessNodeLabelKey (o_labels node) then act_ok
                else act_bind (vcList h Everything) id (\<lambda>vcs.
                     act_then (fold_err (matched_node_step g node srv) vcs) id
                     (act_then (updateHostNetworkAnnotation g h srv node)
                        (wrap ''failed to update host network annotations, node: %s, error: %w'')
                     (act_wrap (wrap ''failed to update underlay for overlay network, node: %s, error: %w'')
                        (updateUnderlayForOverlayNetwork h srv node))))))"

section \<open>A node is removed\<close>

definition link_status_step :: "string \<Rightarrow> api_server \<Rightarrow> LinkMonitor \<Rightarrow> action" where
  "link_status_step nodeName srv lm =
     (case lm_LinkStatus lm of
        None \<Rightarrow> act_ok
      | Some statuses \<Rightarrow>
          if statuses nodeName = None then act_ok
          else act_wrap (wrap ''update link monitor status failed, lm: %s, node: %s, error: %w'')
                 (call srv (UpdateLM (lm\<lparr>lm_LinkStatus := Some (statuses(nodeName := None))\<rparr>))))"

definition clearLinkStatus :: "caches \<Rightarrow> api_server \<Rightarrow> string \<Rightarrow> action" where
  "clearLinkStatus h srv nodeName =
     act_bind (lmList h Everything) id (fold_err (link_status_step nodeName srv))"

definition removeMgmtVlanConfig :: "api_server \<Rightarrow> string \<Rightarrow> action" where
  "removeMgmtVlanConfig srv nodeName =
     act_ignore IsNotFound (call srv (DeleteVC (GetMgmtVlanConfigName nodeName)))"

definition removeNodeFromOneVlanConfig :: "golib \<Rightarrow> caches \<Rightarrow> api_server \<Rightarrow> string \<Rightarrow> VlanConfig \<Rightarrow> action" where
  "removeNodeFromOneVlanConfig g h srv nodeName vc =
     (if o_annotations vc = None \<or> mget (o_annotations vc) KeyMatchedNodes = [] then act_ok
      else act_bind (node_set g (o_annotations vc)) id (\<lambda>s.
           if nodeName \<notin> set s then act_ok
           else act_bind (MarshalStrings g (removeAll nodeName s)) id (\<lambda>bytes.
                act_then (call srv (UpdateVC (vc\<lparr>o_annotations := mput KeyMatchedNodes bytes (o_annotations vc)\<rparr>))) id
                (act_bind (vsList h (SelectorFromSet [(KeyVlanConfigLabel, o_name vc), (KeyNodeLabel, nodeName)])) id (\<lambda>vss.
                 case vss of
                   [] \<Rightarrow> act_ok
                 | vs # _ \<Rightarrow> act_wrap id (call srv (DeleteVS (o_name vs))))))))"

definition remove_node_step :: "golib \<Rightarrow> caches \<Rightarrow> api_server \<Rightarrow> string \<Rightarrow> VlanConfig \<Rightarrow> action" where
  "remove_node_step g h srv nodeName vc =
     (if vc_ClusterNetwork vc = ManagementClusterNetworkName
      then if o_name vc = GetMgmtVlanConfigName nodeName then removeMgmtVlanConfig srv nodeName else act_ok
      else removeNodeFromOneVlanConfig g h srv nodeName vc)"

definition removeNodeFromVlanConfig :: "golib \<Rightarrow> caches \<Rightarrow> api_server \<Rightarrow> string \<Rightarrow> action" where
  "removeNodeFromVlanConfig g h srv nodeName =
     act_bind (vcList h Everything) id (fold_err (remove_node_step g h srv nodeName))"

definition Node_OnRemove :: "golib \<Rightarrow> caches \<Rightarrow> api_server \<Rightarrow> Node option \<Rightarrow> action" where
  "Node_OnRemove g h srv node_ptr =
     (case node_ptr of None \<Rightarrow> act_ok
      | Some node \<Rightarrow>
          act_then (removeNodeFromVlanConfig g h srv (o_name node)) id
            (act_wrap id (clearLinkStatus h srv (o_name node))))"

section \<open>The loops as reconcilers\<close>

lemma store_list_everything_eq: "store_list (indexer xs) [] Everything = Inr (indexer xs)"
  by (simp add: store_list_def)

definition link_status_verdict :: "string \<Rightarrow> LinkMonitor \<Rightarrow> (LinkMonitor option) res" where
  "link_status_verdict nodeName lm =
     Inr (case lm_LinkStatus lm of
            None \<Rightarrow> None
          | Some f \<Rightarrow> if f nodeName = None then None else Some (lm\<lparr>lm_LinkStatus := Some (f(nodeName := None))\<rparr>))"

interpretation link_status: reconciler "link_status_verdict n" UpdateLM cl_lms "link_status_step n"
  "\<lambda>_. wrap ''update link monitor status failed, lm: %s, node: %s, error: %w''" for n
  by unfold_locales
    (auto simp: link_status_verdict_def link_status_step_def key_of_def split: option.splits if_splits)

definition overlay_label_verdict :: "string \<Rightarrow> Nad \<Rightarrow> (Nad option) res" where
  "overlay_label_verdict bridge nad =
     Inr (if o_deleting nad \<or> \<not> IsOverlayNad (Some nad) \<or> GetNadLabel (Some nad) KeyClusterNetworkLabel = bridge then None
          else Some (SetNadLabel KeyClusterNetworkLabel bridge nad))"

interpretation overlay_label: reconciler "overlay_label_verdict b" UpdateNad cl_nads "overlay_label_step b" "\<lambda>_. id" for b
  by unfold_locales
    (auto simp: overlay_label_verdict_def overlay_label_step_def GetNadLabel_def SetNadLabel_def key_of_def
      split: if_splits)

abbreviation matched_wrap :: "go_error \<Rightarrow> go_error" where
  "matched_wrap \<equiv> wrap ''failed to update matched node annotation, vc: %s, node: %s, error: %w''"

definition matched_verdict :: "golib \<Rightarrow> Node \<Rightarrow> VlanConfig \<Rightarrow> (VlanConfig option) res" where
  "matched_verdict g node vc =
     (if vc_ClusterNetwork vc = ManagementClusterNetworkName then Inr None
      else bind_res (NewSelector (vc_NodeSelector vc)) matched_wrap (\<lambda>sel.
           bind_res (matched_update g (o_annotations vc) (sel_matches sel (o_labels node)) (o_name node)) matched_wrap (\<lambda>new.
           Inr (map_option (\<lambda>a. vc\<lparr>o_annotations := a\<rparr>) new))))"

lemma matched_update_Some:
  assumes "\<And>xs s. MarshalStrings g xs = Inr s \<Longrightarrow> s \<noteq> [] \<and> UnmarshalStrings g s = Inr xs"
    and "matched_update g a ok n = Inr (Some a')"
  shows "\<exists>s. node_set g a = Inr s \<and> node_set g a' = Inr (if ok then set_add n s else removeAll n s)
           \<and> matched_update g a' ok n = Inr None"
proof -
  from assms(2) obtain s bytes where s: "node_set g a = Inr s"
    "MarshalStrings g (if ok then set_add n s else removeAll n s) = Inr bytes" "a' = mput KeyMatchedNodes bytes a"
    by (auto simp: matched_update_def Let_def split: if_splits)
  have "distinct s" using s(1) by (auto simp: node_set_def split: if_splits)
  then have "distinct (if ok then set_add n s else removeAll n s)" by (simp add: set_add_def distinct_removeAll)
  then have "node_set g a' = Inr (if ok then set_add n s else removeAll n s)"
    using assms(1) [OF s(2)] s(3) by (simp add: node_set_def distinct_remdups_id)
  with s(1) show ?thesis by (auto simp: matched_update_def Let_def set_add_def)
qed

lemma matched_update_None:
  "matched_update g a ok n = Inr None \<Longrightarrow> \<exists>s. node_set g a = Inr s \<and> (n \<in> set s \<longleftrightarrow> ok)"
  by (auto simp: matched_update_def Let_def set_add_def split: if_splits)

lemma matched_reconciler:
  assumes "\<And>xs s. MarshalStrings g xs = Inr s \<Longrightarrow> s \<noteq> [] \<and> UnmarshalStrings g s = Inr xs"
  shows "reconciler (matched_verdict g node) UpdateVC cl_vcs (matched_node_step g node) (\<lambda>_. matched_wrap)"
proof
  fix x e srv l assume "matched_verdict g node x = Inl e"
  then show "matched_node_step g node srv x l = (Some e, l)"
    by (auto simp: matched_verdict_def matched_node_step_def updateMatchedNodeAnnotation_def bind_res_def act_bind_def
        act_wrap_def act_then_def split: if_splits sum.splits option.splits)
next
  fix x srv l assume "matched_verdict g node x = Inr None"
  then show "matched_node_step g node srv x l = (None, l)"
    by (auto simp: matched_verdict_def matched_node_step_def updateMatchedNodeAnnotation_def split: if_splits)
next
  fix x y srv l assume "matched_verdict g node x = Inr (Some y)"
  then show "matched_node_step g node srv x l = act_wrap matched_wrap (call srv (UpdateVC y)) l"
    by (auto simp: matched_verdict_def matched_node_step_def updateMatchedNodeAnnotation_def split: if_splits)
next
  fix x y assume v: "matched_verdict g node x = Inr (Some y)"
  then obtain sel a where "vc_ClusterNetwork x \<noteq> ManagementClusterNetworkName" "NewSelector (vc_NodeSelector x) = Inr sel"
    "matched_update g (o_annotations x) (sel_matches sel (o_labels node)) (o_name node) = Inr (Some a)" "y = x\<lparr>o_annotations := a\<rparr>"
    by (auto simp: matched_verdict_def split: if_splits)
  with matched_update_Some [OF assms this(3)] show "key_of y = key_of x \<and> matched_verdict g node y = Inr None"
    by (auto simp: matched_verdict_def key_of_def)
qed simp

section \<open>Properties\<close>

text \<open>A VLAN config after the node has been entered or removed: the node's membership follows the selector.\<close>

definition node_recorded :: "golib \<Rightarrow> Node \<Rightarrow> VlanConfig \<Rightarrow> VlanConfig \<Rightarrow> bool" where
  "node_recorded g node vc0 vc \<longleftrightarrow>
     vc = vc0\<lparr>o_annotations := o_annotations vc\<rparr>
     \<and> (\<exists>s0 s. node_set g (o_annotations vc0) = Inr s0 \<and> node_set g (o_annotations vc) = Inr s
          \<and> set s - {o_name node} = set s0 - {o_name node}
          \<and> (o_name node \<in> set s \<longleftrightarrow> (\<forall>(k, v) \<in> set (vc_NodeSelector vc0). mlookup (o_labels node) k = Some v)))"

lemma matched_recorded:
  assumes law: "\<And>xs s. MarshalStrings g xs = Inr s \<Longrightarrow> s \<noteq> [] \<and> UnmarshalStrings g s = Inr xs"
    and "matched_verdict g node vc = Inr v" "vc_ClusterNetwork vc \<noteq> ManagementClusterNetworkName"
  shows "node_recorded g node vc (case v of None \<Rightarrow> vc | Some y \<Rightarrow> y)"
proof -
  from assms obtain sel new where sel: "NewSelector (vc_NodeSelector vc) = Inr sel"
    "matched_update g (o_annotations vc) (sel_matches sel (o_labels node)) (o_name node) = Inr new"
    "v = map_option (\<lambda>a. vc\<lparr>o_annotations := a\<rparr>) new"
    by (auto simp: matched_verdict_def)
  note m = NewSelector_matches [OF sel(1), of "o_labels node"]
  show ?thesis
  proof (cases new)
    case None
    with sel(2) have "matched_update g (o_annotations vc) (sel_matches sel (o_labels node)) (o_name node) = Inr None" by simp
    from matched_update_None [OF this] None sel(3) show ?thesis unfolding node_recorded_def m [symmetric] by auto
  next
    case (Some a)
    with sel(2) have "matched_update g (o_annotations vc) (sel_matches sel (o_labels node)) (o_name node) = Inr (Some a)" by simp
    from matched_update_Some [OF law this] Some sel(3) show ?thesis
      unfolding node_recorded_def m [symmetric] by (auto simp: set_add_def)
  qed
qed

lemma makes_mgmt: "makes (\<lambda>a. \<not> vc_call a) (ensureMgmtLabels srv node)"
  unfolding ensureMgmtLabels_def by (intro go_api) simp_all

lemma makes_host: "makes (\<lambda>a. \<not> vc_call a) (updateHostNetworkAnnotation g h srv node)"
  unfolding updateHostNetworkAnnotation_def host_annotation_step_def updateHostNetworkConfigMatchedNodeAnnotation_def
  by (intro go_api) simp_all

lemma makes_underlay: "makes (\<lambda>a. \<not> vc_call a) (updateUnderlayForOverlayNetwork h srv node)"
  unfolding updateUnderlayForOverlayNetwork_def setNadClusterNetworkLabel_def overlay_label_step_def
  by (intro go_api) simp_all

text \<open>
  The calls the handler may make for a node: the management label of this node, the matched-nodes
  annotation of a cached VLAN config outside the management network or of a live host network config
  with a selector, and the cluster network label of a live overlay NAD.
\<close>

fun node_write :: "cluster \<Rightarrow> Node \<Rightarrow> api_call \<Rightarrow> bool" where
  "node_write c node (UpdateNode y) =
     (\<not> HasMgmtClusterNetworkLabelKey (o_labels node)
      \<and> y = node\<lparr>o_labels := SetMgmtClusterNetworkLabelKey (Some (mmake (o_labels node)))\<rparr>)"
| "node_write c node (UpdateVC y) =
     (\<not> HasWitnessNodeLabelKey (o_labels node)
      \<and> (\<exists>vc \<in> set (indexer (cl_vcs c)). vc_ClusterNetwork vc \<noteq> ManagementClusterNetworkName
           \<and> (\<exists>ns. y = vc\<lparr>o_annotations := mput KeyMatchedNodes ns (o_annotations vc)\<rparr>)))"
| "node_write c node (UpdateHNC y) =
     (\<not> HasWitnessNodeLabelKey (o_labels node)
      \<and> (\<exists>h \<in> set (indexer (cl_hncs c)). \<not> o_deleting h \<and> hs_NodeSelector (hnc_Spec h) \<noteq> None
           \<and> (\<exists>ns. y = h\<lparr>o_annotations := mput KeyMatchedNodes ns (o_annotations h)\<rparr>)))"
| "node_write c node (UpdateNad y) =
     (\<not> HasWitnessNodeLabelKey (o_labels node)
      \<and> (\<exists>nad \<in> set (indexer (cl_nads c)). \<not> o_deleting nad \<and> IsOverlayNad (Some nad)
           \<and> (\<exists>cn. y = SetNadLabel KeyClusterNetworkLabel cn nad)))"
| "node_write c node _ = False"

lemma matched_update_shape: "matched_update g a ok n = Inr (Some a') \<Longrightarrow> \<exists>ns. a' = mput KeyMatchedNodes ns a"
  by (auto simp: matched_update_def Let_def split: if_splits)

lemma writes_mgmt: "makes (node_write c node) (ensureMgmtLabels srv node)"
  unfolding ensureMgmtLabels_def by (intro go_api) simp_all

lemma writes_matched:
  assumes "vc \<in> set (indexer (cl_vcs c))" "\<not> HasWitnessNodeLabelKey (o_labels node)"
  shows "makes (node_write c node) (matched_node_step g node srv vc)"
  unfolding matched_node_step_def updateMatchedNodeAnnotation_def
  by (intro go_api) (use assms in \<open>auto dest!: matched_update_shape intro!: bexI [of _ vc]\<close>)

lemma writes_host:
  assumes "\<not> HasWitnessNodeLabelKey (o_labels node)"
  shows "makes (node_write c node) (updateHostNetworkAnnotation g (caches_of c) srv node)"
  unfolding updateHostNetworkAnnotation_def host_annotation_step_def updateHostNetworkConfigMatchedNodeAnnotation_def
  by (intro go_api) (use assms in \<open>auto simp: store_list_everything_eq dest!: matched_update_shape intro!: bexI\<close>)

lemma writes_underlay:
  assumes "\<not> HasWitnessNodeLabelKey (o_labels node)"
  shows "makes (node_write c node) (updateUnderlayForOverlayNetwork (caches_of c) srv node)"
  unfolding updateUnderlayForOverlayNetwork_def setNadClusterNetworkLabel_def overlay_label_step_def
  by (intro go_api) (use assms in \<open>auto simp: ListAllNads_def store_list_everything_eq\<close>)

lemma node_writes:
  "makes (\<lambda>a. \<not> o_deleting node \<and> node_write c node a) (Node_OnChange g (caches_of c) srv (Some node))"
proof (cases "o_deleting node")
  case True
  then show ?thesis by (simp add: Node_OnChange_def makes_ok)
next
  case False
  have "makes (node_write c node) (Node_OnChange g (caches_of c) srv (Some node))"
    unfolding Node_OnChange_def option.case
    by (intro go_api writes_mgmt writes_host writes_underlay writes_matched) (simp_all add: store_list_everything_eq)
  with False show ?thesis by simp
qed

lemma node_recorded_after:
  assumes law: "\<And>xs s. MarshalStrings g xs = Inr s \<Longrightarrow> s \<noteq> [] \<and> UnmarshalStrings g s = Inr xs"
    and run: "Node_OnChange g (caches_of c) srv (Some node) [] = (None, log)"
    and "\<not> o_deleting node" "\<not> HasWitnessNodeLabelKey (o_labels node)"
  shows "\<forall>vc \<in> set (indexer (cl_vcs (cluster_after log c))). \<exists>vc0 \<in> set (indexer (cl_vcs c)). key_of vc0 = key_of vc
     \<and> (if vc_ClusterNetwork vc0 = ManagementClusterNetworkName then vc = vc0 else node_recorded g node vc0 vc)"
proof -
  let ?xs = "indexer (cl_vcs c)"
  from run assms(3,4) obtain l1 l2 l3 where
    l1: "ensureMgmtLabels srv node [] = (None, l1)" and
    l2: "fold_err (matched_node_step g node srv) ?xs l1 = (None, l2)" and
    l3: "updateHostNetworkAnnotation g (caches_of c) srv node l2 = (None, l3)" and
    l4: "updateUnderlayForOverlayNetwork (caches_of c) srv node l3 = (None, log)"
    by (auto simp: Node_OnChange_def act_then_None store_list_everything_eq)
  note R = matched_reconciler [OF law, of node]
  obtain k3 k4 where k34: "l3 = l2 @ k3" "log = l3 @ k4" "\<forall>a \<in> set k3. \<not> vc_call (fst a)" "\<forall>a \<in> set k4. \<not> vc_call (fst a)"
    using makesD [OF makes_host l3] makesD [OF makes_underlay l4] by blast
  have k1: "\<forall>a \<in> set l1. \<not> vc_call (fst a)" using makesD [OF makes_mgmt l1] by auto
  obtain k2 where k2: "l2 = l1 @ k2" and ok: "\<forall>x \<in> set ?xs. \<exists>v. matched_verdict g node x = Inr v"
    using reconciler.run_ok [OF R l2] by blast
  have vcs1: "cl_vcs (cluster_after l1 c) = cl_vcs c" by (rule vc_frame [OF k1])
  have "set (indexer (cl_vcs (cluster_after k2 (cluster_after l1 c)))) = reconciler.result (matched_verdict g node) ` set ?xs"
    using reconciler.run_effect_from [OF R, of srv ?xs l1 k2 "cluster_after l1 c"] l2 store_ok_indexer [of "cl_vcs c"]
    by (simp add: k2 vcs1 store_ok_def)
  then have after: "set (indexer (cl_vcs (cluster_after log c))) = reconciler.result (matched_verdict g node) ` set ?xs"
    by (simp add: k34 k2 vc_frame)
  show ?thesis
  proof
    fix vc assume "vc \<in> set (indexer (cl_vcs (cluster_after log c)))"
    then obtain vc0 where vc0: "vc0 \<in> set ?xs" "vc = reconciler.result (matched_verdict g node) vc0" unfolding after by blast
    with ok obtain v where v: "matched_verdict g node vc0 = Inr v" by blast
    then have vc: "vc = (case v of None \<Rightarrow> vc0 | Some y \<Rightarrow> y)"
      by (simp add: vc0(2) reconciler.result_def [OF R] split: option.splits)
    have "key_of vc0 = key_of vc" using v reconciler.settled [OF R] by (auto simp: vc split: option.splits)
    moreover have "vc = vc0" if "vc_ClusterNetwork vc0 = ManagementClusterNetworkName"
      using v that by (simp add: vc matched_verdict_def)
    ultimately show "\<exists>vc0 \<in> set ?xs. key_of vc0 = key_of vc
        \<and> (if vc_ClusterNetwork vc0 = ManagementClusterNetworkName then vc = vc0 else node_recorded g node vc0 vc)"
      using matched_recorded [OF law v] vc vc0(1) by (intro bexI [of _ vc0]) simp_all
  qed
qed

text \<open>
  C11. Whatever the node handler returns, it makes no call for a node that is being deleted, for a
  witness node only the call that adds the management label, and otherwise only calls that add this
  label, set the matched-nodes annotation of VLAN configs outside the management network and of live
  host network configs with a selector, or set the cluster network label of live overlay NADs,
  each object being otherwise as cached. When it returns no error for a live node that is not a
  witness, every VLAN config outside the management network records in its matched-nodes annotation
  that the node is matched exactly if its labels satisfy the config's selector; the other recorded
  nodes and the rest of each config, and the configs of the management network, are as before.
  (JSON decodes what it encoded.)
\<close>

theorem node_change_recorded:
  assumes law: "\<And>xs s. MarshalStrings g xs = Inr s \<Longrightarrow> s \<noteq> [] \<and> UnmarshalStrings g s = Inr xs"
    and run: "Node_OnChange g (caches_of c) srv (Some node) [] = (r, log)"
  shows "(if o_deleting node then r = None \<and> log = [] else \<forall>a \<in> set log. node_write c node (fst a))
     \<and> (r = None \<and> \<not> o_deleting node \<and> \<not> HasWitnessNodeLabelKey (o_labels node) \<longrightarrow>
         (\<forall>vc \<in> set (indexer (cl_vcs (cluster_after log c))). \<exists>vc0 \<in> set (indexer (cl_vcs c)). key_of vc0 = key_of vc
            \<and> (if vc_ClusterNetwork vc0 = ManagementClusterNetworkName then vc = vc0 else node_recorded g node vc0 vc)))"
proof (intro conjI impI)
  show "if o_deleting node then r = None \<and> log = [] else \<forall>a \<in> set log. node_write c node (fst a)"
    using makesD [OF node_writes run] run by (auto simp: Node_OnChange_def)
next
  assume h: "r = None \<and> \<not> o_deleting node \<and> \<not> HasWitnessNodeLabelKey (o_labels node)"
  with run have "Node_OnChange g (caches_of c) srv (Some node) [] = (None, log)" by simp
  from node_recorded_after [OF law this] h
  show "\<forall>vc \<in> set (indexer (cl_vcs (cluster_after log c))). \<exists>vc0 \<in> set (indexer (cl_vcs c)). key_of vc0 = key_of vc
      \<and> (if vc_ClusterNetwork vc0 = ManagementClusterNetworkName then vc = vc0 else node_recorded g node vc0 vc)" by blast
qed

definition plain_node :: "string \<Rightarrow> Node" where
  "plain_node n = \<lparr>o_name = n, o_namespace = [], o_labels = None, o_annotations = None, o_deleting = False, nd_ready = True\<rparr>"

definition plain_vc :: "string \<Rightarrow> VlanConfig" where
  "plain_vc n = \<lparr>o_name = n, o_namespace = [], o_labels = None, o_annotations = None, o_deleting = False,
     vc_Description = [], vc_ClusterNetwork = ''cn1'', vc_NodeSelector = [],
     vc_Uplink = \<lparr>up_NICs = None, up_LinkAttrs = None, up_BondOptions = None\<rparr>\<rparr>"

lemma plain_simps [simp]:
  "o_deleting (plain_node n) = False" "o_labels (plain_node n) = None" "o_name (plain_node n) = n"
  "o_annotations (plain_node n) = None"
  "vc_ClusterNetwork (plain_vc n) = ''cn1''" "vc_NodeSelector (plain_vc n) = []" "o_annotations (plain_vc n) = None"
  by (simp_all add: plain_node_def plain_vc_def)

theorem node_change_recorded_witness:
  "\<exists>log vc s. Node_OnChange demo_golib (caches_of (cluster0\<lparr>cl_vcs := [plain_vc ''vc1'']\<rparr>)) (\<lambda>_ _. None) (Some (plain_node ''n1'')) [] = (None, log)
     \<and> vc \<in> set (indexer (cl_vcs (cluster_after log (cluster0\<lparr>cl_vcs := [plain_vc ''vc1'']\<rparr>))))
     \<and> node_set demo_golib (o_annotations vc) = Inr s \<and> ''n1'' \<in> set s"
proof -
  let ?c = "cluster0\<lparr>cl_vcs := [plain_vc ''vc1'']\<rparr>" and ?n = "plain_node ''n1''"
  have idx: "indexer [plain_vc ''vc1''] = [plain_vc ''vc1'']" "indexer (cl_hncs cluster0) = []"
    by (simp_all add: indexer_def store_put_def cluster0_def)
  have mg: "''cn1'' \<noteq> ManagementClusterNetworkName" by (simp add: ManagementClusterNetworkName_def)
  have wit: "\<not> HasWitnessNodeLabelKey None" "\<not> HasMgmtClusterNetworkLabelKey None"
    by (simp_all add: HasWitnessNodeLabelKey_def HasMgmtClusterNetworkLabelKey_def HasLabelKey_def ValueTrue_def)
  have sel: "NewSelector [] = Inr (Requirements [])" by (simp add: NewSelector_def)
  have upd: "matched_update demo_golib None True ''n1'' = Inr (Some (mput KeyMatchedNodes ''n1/ '' None))"
    by (simp add: matched_update_def node_set_def set_add_def demo_golib_def)
  obtain log where run: "Node_OnChange demo_golib (caches_of ?c) (\<lambda>_ _. None) (Some ?n) [] = (None, log)"
    and log: "cl_vcs (cluster_after log ?c) \<noteq> []"
    by (simp add: Node_OnChange_def act_then_def ensureMgmtLabels_def wit act_wrap_call store_list_def idx
        matched_node_step_def mg updateMatchedNodeAnnotation_def sel upd updateHostNetworkAnnotation_def
        updateUnderlayForOverlayNetwork_def)
  have "indexer (cl_vcs (cluster_after log ?c)) \<noteq> []" using log by (cases "cl_vcs (cluster_after log ?c)") (simp_all add: indexer_Cons)
  then obtain vc where vc: "vc \<in> set (indexer (cl_vcs (cluster_after log ?c)))" by (meson last_in_set)
  have "node_recorded demo_golib ?n (plain_vc ''vc1'') vc"
    using node_change_recorded [OF demo_strings_law run] vc wit mg by (fastforce simp: idx)
  then show ?thesis using run vc by (auto simp: node_recorded_def)
qed

section \<open>A removed node leaves no trace\<close>

text \<open>A VLAN config after a log was sent by it, or was stored before and not sent under its key.\<close>

lemma vc_after:
  assumes "vc \<in> set (indexer (cl_vcs (cluster_after l c)))" "\<forall>a \<in> set l. \<forall>y. fst a \<noteq> CreateVC y"
  shows "(UpdateVC vc, None) \<in> set l
     \<or> vc \<in> set (indexer (cl_vcs c)) \<and> (\<forall>y. (UpdateVC y, None) \<in> set l \<longrightarrow> key_of y \<noteq> key_of vc)
         \<and> (\<forall>n. (DeleteVC n, None) \<in> set l \<longrightarrow> key_of vc \<noteq> ([], n))"
  using assms
proof (induction l arbitrary: c)
  case (Cons a l)
  obtain x r where a: "a = (x, r)" by fastforce
  from Cons.prems have IH: "(UpdateVC vc, None) \<in> set l
     \<or> vc \<in> set (indexer (cl_vcs (logged a c))) \<and> (\<forall>y. (UpdateVC y, None) \<in> set l \<longrightarrow> key_of y \<noteq> key_of vc)
         \<and> (\<forall>n. (DeleteVC n, None) \<in> set l \<longrightarrow> key_of vc \<noteq> ([], n))"
    by (intro Cons.IH) simp_all
  show ?case
  proof (cases r)
    case None
    with IH a Cons.prems(2) show ?thesis by (cases x) (auto simp: set_indexer_Cons set_indexer_remove)
  next
    case (Some e)
    with IH a show ?thesis by auto
  qed
qed simp

definition remove_log :: "golib \<Rightarrow> string \<Rightarrow> VlanConfig \<Rightarrow> api_log \<Rightarrow> bool" where
  "remove_log g n vc k \<longleftrightarrow>
     (if vc_ClusterNetwork vc = ManagementClusterNetworkName then \<forall>y r. (UpdateVC y, r) \<notin> set k
      else \<exists>s. node_set g (o_annotations vc) = Inr s \<and>
        (if n \<in> set s
         then \<exists>bytes k'. MarshalStrings g (removeAll n s) = Inr bytes
            \<and> k = (UpdateVC (vc\<lparr>o_annotations := mput KeyMatchedNodes bytes (o_annotations vc)\<rparr>), None) # k'
            \<and> (\<forall>y r. (UpdateVC y, r) \<notin> set k')
         else k = []))"

lemma remove_step_log:
  assumes "remove_node_step g h srv n vc l = (None, l')"
  shows "\<exists>k. l' = l @ k \<and> remove_log g n vc k"
proof (cases "vc_ClusterNetwork vc = ManagementClusterNetworkName")
  case True
  with assms show ?thesis
    by (auto simp: remove_node_step_def remove_log_def removeMgmtVlanConfig_def act_ignore_def call_def Let_def
        split: if_splits option.splits)
next
  case False
  with assms have r: "removeNodeFromOneVlanConfig g h srv n vc l = (None, l')" by (simp add: remove_node_step_def)
  show ?thesis
  proof (cases "o_annotations vc = None \<or> mget (o_annotations vc) KeyMatchedNodes = []")
    case True
    with r have "l' = l" by (simp add: removeNodeFromOneVlanConfig_def)
    moreover have "node_set g (o_annotations vc) = Inr []" using True by (auto simp: node_set_def)
    ultimately show ?thesis using False by (simp add: remove_log_def)
  next
    case nonempty: False
    with r obtain s where s: "node_set g (o_annotations vc) = Inr s"
      by (cases "node_set g (o_annotations vc)") (auto simp: removeNodeFromOneVlanConfig_def)
    show ?thesis
    proof (cases "n \<in> set s")
      case True
      with r nonempty s obtain bytes where b: "MarshalStrings g (removeAll n s) = Inr bytes"
        by (cases "MarshalStrings g (removeAll n s)") (auto simp: removeNodeFromOneVlanConfig_def)
      let ?y = "vc\<lparr>o_annotations := mput KeyMatchedNodes bytes (o_annotations vc)\<rparr>"
      have "\<exists>k'. l' = l @ (UpdateVC ?y, None) # k' \<and> (\<forall>y r. (UpdateVC y, r) \<notin> set k')"
        using r nonempty s True b
        by (auto simp: removeNodeFromOneVlanConfig_def act_then_None call_ok act_bind_def
            split: sum.splits list.splits)
      with s b True False show ?thesis by (auto simp: remove_log_def)
    next
      case False
      with r nonempty s have "l' = l" by (simp add: removeNodeFromOneVlanConfig_def)
      with s False \<open>vc_ClusterNetwork vc \<noteq> _\<close> show ?thesis by (simp add: remove_log_def)
    qed
  qed
qed

lemma remove_loop_log:
  assumes "fold_err (remove_node_step g h srv n) vcs l = (None, l')"
  shows "\<exists>ks. l' = l @ concat ks \<and> list_all2 (remove_log g n) vcs ks"
  using assms
proof (induction vcs arbitrary: l)
  case (Cons vc vcs)
  then obtain l1 where l1: "remove_node_step g h srv n vc l = (None, l1)"
    "fold_err (remove_node_step g h srv n) vcs l1 = (None, l')" by (auto split: prod.splits option.splits)
  from remove_step_log [OF l1(1)] obtain k where "l1 = l @ k" "remove_log g n vc k" by blast
  moreover from Cons.IH [OF l1(2)] obtain ks where "l' = l1 @ concat ks" "list_all2 (remove_log g n) vcs ks" by blast
  ultimately show ?case by (intro exI [of _ "k # ks"]) simp
qed simp

lemma remove_log_in:
  assumes "list_all2 (remove_log g n) vcs ks" "vc \<in> set vcs"
  shows "\<exists>k. k \<in> set ks \<and> remove_log g n vc k"
  using assms by (induction rule: list_all2_induct) auto

lemma remove_log_from:
  assumes "list_all2 (remove_log g n) vcs ks" "a \<in> set (concat ks)"
  shows "\<exists>vc k. vc \<in> set vcs \<and> remove_log g n vc k \<and> a \<in> set k"
  using assms by (induction rule: list_all2_induct) auto

lemma makes_clear: "makes (\<lambda>a. \<not> vc_call a) (clearLinkStatus h srv n)"
  unfolding clearLinkStatus_def link_status_step_def by (intro go_api) simp_all

lemma makes_remove: "makes (\<lambda>a. \<not> lm_call a \<and> (\<forall>y. a \<noteq> CreateVC y)) (removeNodeFromVlanConfig g h srv n)"
  unfolding removeNodeFromVlanConfig_def remove_node_step_def removeMgmtVlanConfig_def removeNodeFromOneVlanConfig_def
  by (intro go_api) (auto split: list.splits intro!: go_api)

text \<open>
  When the handler of a removed node returns no error, no VLAN config outside the management
  network records the node as matched any more and no link monitor has a status for it.
\<close>

lemma node_removal_clean:
  assumes law: "\<And>xs s. MarshalStrings g xs = Inr s \<Longrightarrow> s \<noteq> [] \<and> UnmarshalStrings g s = Inr xs"
    and run: "Node_OnRemove g (caches_of c) srv (Some node) [] = (None, log)"
  shows "(\<forall>vc \<in> set (indexer (cl_vcs (cluster_after log c))). vc_ClusterNetwork vc \<noteq> ManagementClusterNetworkName \<longrightarrow>
            (\<exists>s. node_set g (o_annotations vc) = Inr s \<and> o_name node \<notin> set s))
     \<and> (\<forall>lm \<in> set (indexer (cl_lms (cluster_after log c))). \<forall>f. lm_LinkStatus lm = Some f \<longrightarrow> f (o_name node) = None)"
proof -
  let ?n = "o_name node" and ?xs = "indexer (cl_vcs c)" and ?lms = "indexer (cl_lms c)"
  from run obtain l1 where l1: "removeNodeFromVlanConfig g (caches_of c) srv ?n [] = (None, l1)"
    and l2: "clearLinkStatus (caches_of c) srv ?n l1 = (None, log)"
    by (auto simp: Node_OnRemove_def act_then_None)
  obtain ks where ks: "l1 = concat ks" "list_all2 (remove_log g ?n) ?xs ks"
    using l1 remove_loop_log [of g "caches_of c" srv ?n ?xs "[]" l1]
    by (auto simp: removeNodeFromVlanConfig_def store_list_everything_eq)
  have fold2: "fold_err (link_status_step ?n srv) ?lms l1 = (None, log)"
    using l2 by (simp add: clearLinkStatus_def store_list_everything_eq)
  obtain k2 where k2: "log = l1 @ k2" "\<forall>a \<in> set k2. \<not> vc_call (fst a)" using makesD [OF makes_clear l2] by blast
  have lms1: "cl_lms (cluster_after l1 c) = cl_lms c"
    using makesD [OF makes_remove l1] by (auto intro: lm_frame)
  have "set (indexer (cl_lms (cluster_after log c))) = link_status.result ?n ` set ?lms"
    using link_status.run_effect_from [of ?n srv ?lms l1 k2 "cluster_after l1 c"] fold2 store_ok_indexer [of "cl_lms c"]
    by (simp add: k2(1) lms1 store_ok_def)
  then have lms: "\<forall>lm \<in> set (indexer (cl_lms (cluster_after log c))). \<forall>f. lm_LinkStatus lm = Some f \<longrightarrow> f ?n = None"
    by (auto simp: link_status.result_def link_status_verdict_def split: option.splits if_splits)
  have "\<exists>s. node_set g (o_annotations vc) = Inr s \<and> ?n \<notin> set s"
    if vc: "vc \<in> set (indexer (cl_vcs (cluster_after log c)))" "vc_ClusterNetwork vc \<noteq> ManagementClusterNetworkName" for vc
  proof -
    have "vc \<in> set (indexer (cl_vcs (cluster_after l1 c)))" using vc(1) by (simp add: k2 vc_frame)
    from vc_after [OF this] makesD [OF makes_remove l1] consider (sent) "(UpdateVC vc, None) \<in> set l1"
      | (kept) "vc \<in> set ?xs" "\<forall>y. (UpdateVC y, None) \<in> set l1 \<longrightarrow> key_of y \<noteq> key_of vc" by auto
    then show ?thesis
    proof cases
      case sent
      then obtain vc0 k where k: "remove_log g ?n vc0 k" "(UpdateVC vc, None) \<in> set k"
        using remove_log_from [OF ks(2)] ks(1) by blast
      then obtain s bytes where s: "node_set g (o_annotations vc0) = Inr s" "MarshalStrings g (removeAll ?n s) = Inr bytes"
        "vc = vc0\<lparr>o_annotations := mput KeyMatchedNodes bytes (o_annotations vc0)\<rparr>"
        by (auto simp: remove_log_def split: if_splits)
      have "node_set g (o_annotations vc) = Inr (remdups (removeAll ?n s))"
        using law [OF s(2)] by (simp add: s(3) node_set_def)
      then show ?thesis by simp
    next
      case kept
      from remove_log_in [OF ks(2) kept(1)] obtain k where k: "k \<in> set ks" "remove_log g ?n vc k" by blast
      show ?thesis
      proof (rule ccontr)
        assume "\<nexists>s. node_set g (o_annotations vc) = Inr s \<and> ?n \<notin> set s"
        with k(2) vc(2) obtain bytes k' where
          "k = (UpdateVC (vc\<lparr>o_annotations := mput KeyMatchedNodes bytes (o_annotations vc)\<rparr>), None) # k'"
          by (auto simp: remove_log_def split: if_splits)
        then have "(UpdateVC (vc\<lparr>o_annotations := mput KeyMatchedNodes bytes (o_annotations vc)\<rparr>), None) \<in> set l1"
          using k(1) ks(1) by (auto intro!: bexI [of _ k])
        with kept(2) show False by (auto simp: key_of_def)
      qed
    qed
  qed
  with lms show ?thesis by blast
qed

lemma node_removal_clean_witness:
  "\<exists>log vc. Node_OnRemove demo_golib (caches_of (cluster0\<lparr>cl_vcs := [plain_vc ''vc1''\<lparr>o_annotations := Some [KeyMatchedNodes \<mapsto> ''n1/ '']\<rparr>]\<rparr>))
        (\<lambda>_ _. None) (Some (plain_node ''n1'')) [] = (None, log)
     \<and> log \<noteq> []
     \<and> vc \<in> set (indexer (cl_vcs (cluster_after log (cluster0\<lparr>cl_vcs := [plain_vc ''vc1''\<lparr>o_annotations := Some [KeyMatchedNodes \<mapsto> ''n1/ '']\<rparr>]\<rparr>))))
     \<and> (\<exists>s. node_set demo_golib (o_annotations vc) = Inr s \<and> ''n1'' \<notin> set s)"
proof -
  let ?vc = "plain_vc ''vc1''\<lparr>o_annotations := Some [KeyMatchedNodes \<mapsto> ''n1/ '']\<rparr>"
  let ?c = "cluster0\<lparr>cl_vcs := [?vc]\<rparr>" and ?y = "?vc\<lparr>o_annotations := mput KeyMatchedNodes '' '' (o_annotations ?vc)\<rparr>"
  have idx: "indexer [?vc] = [?vc]" "indexer (cl_vss cluster0) = []" "indexer (cl_lms cluster0) = []"
    by (simp_all add: indexer_def store_put_def cluster0_def)
  have mg: "''cn1'' \<noteq> ManagementClusterNetworkName" by (simp add: ManagementClusterNetworkName_def)
  have s: "node_set demo_golib (Some [KeyMatchedNodes \<mapsto> ''n1/ '']) = Inr [''n1'']"
    by (simp add: node_set_def mget_def demo_golib_def)
  have b: "MarshalStrings demo_golib [] = Inr '' ''" by (simp add: demo_golib_def)
  have run: "Node_OnRemove demo_golib (caches_of ?c) (\<lambda>_ _. None) (Some (plain_node ''n1'')) [] = (None, [(UpdateVC ?y, None)])"
    by (simp add: Node_OnRemove_def act_then_def removeNodeFromVlanConfig_def clearLinkStatus_def store_list_def idx
        remove_node_step_def mg removeNodeFromOneVlanConfig_def s b call_def mget_def)
  have vc: "?y \<in> set (indexer (cl_vcs (cluster_after [(UpdateVC ?y, None)] ?c)))" by (simp add: set_indexer_Cons)
  from node_removal_clean [OF demo_strings_law run] vc mg have "\<exists>s. node_set demo_golib (o_annotations ?y) = Inr s \<and> ''n1'' \<notin> set s"
    by fastforce
  with run vc show ?thesis by blast
qed

end
