(* ===== verification/Mgr_Nad.thy ===== *)
theory Mgr_Nad
  imports Api_Log
begin

text \<open>
  \<open>pkg/controller/manager/nad/controller.go\<close>: the labels of a NAD, the VLAN id set of its cluster
  network, the job that finds out its layer-3 network, the MTU of all NADs of a cluster network
  and the connectivity checks. The handler keeps the map of gateways to ping (\<open>checkMap\<close>), so the
  state is that map and the log of API calls. Each access to the map is under its mutex; handlers
  run one after another here.
\<close>

section \<open>The environment\<close>

text \<open>
  What the controller is started with, and the libraries it calls beside those of \<open>golib\<close>:
  \<open>sjson.Set\<close> at the key \<open>mtu\<close>, JSON of the network selection (interface, namespace, name), and a
  ping, which fails to start, fails to run, or counts packets sent and received.
\<close>

record mgr_env =
  go :: golib
  hd_namespace :: string
  helperImage :: string
  logLevel :: string
  sjsonSetMTU :: "string \<Rightarrow> int \<Rightarrow> string res"
  MarshalNetworks :: "(string \<times> string \<times> string) list \<Rightarrow> string res"
  NewPinger :: "string \<Rightarrow> go_error option"
  PingerRun :: "string \<Rightarrow> (int \<times> int) res"

type_synonym check_items = "string \<times> string \<rightharpoonup> string"
type_synonym nad_state = "check_items \<times> api_log"

definition on_log :: "action \<Rightarrow> nad_state act" where
  "on_log m s = (let (r, l) = m (snd s) in (r, (fst s, l)))"

definition DeprecatedFinalizer :: string where
  "DeprecatedFinalizer = ''wrangler.cattle.io/harvester-network-nad-controller''"
definition jobContainerName :: string where "jobContainerName = ''network-helper''"
definition jobServiceAccountName :: string where "jobServiceAccountName = ''harvester-network-helper''"
definition JobEnvNadNetwork :: string where "JobEnvNadNetwork = ''NAD_NETWORKS''"
definition JobEnvDHCPServer :: string where "JobEnvDHCPServer = ''DHCP_SERVER''"
definition defaultInterface :: string where "defaultInterface = ''net1''"
definition defaultAllowPackageLostRate :: int where "defaultAllowPackageLostRate = 20"
definition NetworkAttachmentAnnot :: string where "NetworkAttachmentAnnot = ''k8s.v1.cni.cncf.io/networks''"
definition Connectable :: string where "Connectable = ''true''"
definition Unconnectable :: string where "Unconnectable = ''false''"

section \<open>The map of connectivity checks\<close>

definition addItem :: "string \<Rightarrow> string \<Rightarrow> string \<Rightarrow> nad_state act" where
  "addItem ns n addr s =
     (None, (if fst s (ns, n) \<noteq> Some addr then (fst s)((ns, n) \<mapsto> addr) else fst s, snd s))"

definition removeItem :: "string \<Rightarrow> string \<Rightarrow> nad_state act" where
  "removeItem ns n s =
     (None, (if fst s (ns, n) \<noteq> None then (fst s)((ns, n) := None) else fst s, snd s))"

section \<open>MTU of the NADs of a cluster network\<close>

definition mtu_sync_step :: "mgr_env \<Rightarrow> int \<Rightarrow> api_server \<Rightarrow> Nad \<Rightarrow> action" where
  "mtu_sync_step env MTU srv nad =
     act_bind (UnmarshalNetConf (go env) (nad_Config nad)) (wrap ''failed to Unmarshal nad %v config %v error %w'') (\<lambda>netConf.
     if AreEqualMTUs MTU (nc_MTU netConf) then act_ok
     else act_bind (sjsonSetMTU env (nad_Config nad) MTU) (wrap ''failed to set nad %v with new MTU %v error %w'') (\<lambda>newConfig.
          act_wrap id (call srv (UpdateNad (nad\<lparr>nad_Config := newConfig\<rparr>)))))"

definition OnCNChange :: "mgr_env \<Rightarrow> caches \<Rightarrow> api_server \<Rightarrow> ClusterNetwork option \<Rightarrow> action" where
  "OnCNChange env h srv cn_ptr =
     (case cn_ptr of None \<Rightarrow> act_ok
      | Some cn \<Rightarrow>
          if o_deleting cn then act_ok
          else let curMTU = mget (o_annotations cn) KeyUplinkMTU
               in if curMTU = [] then act_ok
                  else case GetMTUFromString curMTU of
                         Inl _ \<Rightarrow> act_ok
                       | Inr MTU \<Rightarrow>
                           act_bind (nadList h [] (SelectorFromSet [(KeyClusterNetworkLabel, o_name cn)]))
                             (wrap ''failed to list cluster network %v related nads, error %w'')
                             (fold_err (mtu_sync_step env MTU srv)))"

section \<open>Labels\<close>

text \<open>The labels a NAD should have, with its decoded configuration.\<close>

definition wanted_labels :: "mgr_env \<Rightarrow> caches \<Rightarrow> Nad \<Rightarrow> (NetConf \<times> Nad) res" where
  "wanted_labels env h nad =
     (let nadCopy = nad\<lparr>o_labels := Some (mmake (o_labels nad))\<rparr>
      in bind_res (DecodeNadConfigToNetConf (go env) (Some nadCopy)) id (\<lambda>netconf.
         bind_res (NetConf_GetClusterNetworkName netconf) id (\<lambda>cnName.
         let (err, lbs) = SetNetworkInfoToLabels netconf (o_labels nadCopy)
         in guard_res err id
            (bind_res (cnGet h cnName) id (\<lambda>cn.
             Inr (netconf, SetNadLabel KeyNetworkReady
                   (if CondIsTrue Ready (cn_Conditions cn) then ValueTrue else ValueFalse) (nadCopy\<lparr>o_labels := lbs\<rparr>)))))))"

text \<open>The configuration and whether the NAD was updated, or an error; with the log.\<close>

definition nad_ensureLabels :: "mgr_env \<Rightarrow> caches \<Rightarrow> api_server \<Rightarrow> Nad \<Rightarrow> api_log \<Rightarrow> (NetConf \<times> bool) res \<times> api_log" where
  "nad_ensureLabels env h srv nad l =
     (case wanted_labels env h nad of
        Inl e \<Rightarrow> (Inl e, l)
      | Inr (netconf, nadCopy) \<Rightarrow>
          if o_labels nad = o_labels nadCopy then (Inr (netconf, False), l)
          else case call srv (UpdateNad nadCopy) l of
                 (Some e, l') \<Rightarrow> (Inl e, l')
               | (None, l') \<Rightarrow> (Inr (netconf, True), l'))"

section \<open>The VLAN id set of the cluster network\<close>

definition UpdateClusterNetworkVlanSet :: "mgr_env \<Rightarrow> caches \<Rightarrow> api_server \<Rightarrow> Nad \<Rightarrow> action" where
  "UpdateClusterNetworkVlanSet env h srv nad =
     (let cnname = GetNadLabel (Some nad) KeyClusterNetworkLabel
      in if cnname = [] then act_ok
         else act_bind (cnGet h cnname) id (\<lambda>cn.
              if o_deleting cn then act_ok
              else act_bind (GeVlanIDSetFromClusterNetwork (go env) (nadList h) (o_name cn)) id (\<lambda>vids.
                   act_bind (VidSetToStringHash (sha256hex (go env)) vids) id (\<lambda>(vidstr, vidhash).
                   if AreClusterNetworkVlanAnnotationsUnchanged (Some cn) vidstr vidhash then act_ok
                   else act_wrap (wrap ''failed to update cluster network %s label %s/%s error %w'')
                          (call srv (UpdateCN (SetClusterNetworkVlanAnnotations cn vidstr vidhash)))))))"

section \<open>Jobs\<close>

text \<open>Delete the job unless it is already being deleted; the check of the NAD's gateway ends.\<close>

definition clearJob :: "mgr_env \<Rightarrow> caches \<Rightarrow> api_server \<Rightarrow> Nad \<Rightarrow> nad_state act" where
  "clearJob env h srv nad =
     (let name = Name (o_namespace nad) [o_name nad]
      in case jobGet h (hd_namespace env) name of
           Inl e \<Rightarrow> if \<not> IsNotFound e then act_fail e else removeItem (o_namespace nad) (o_name nad)
         | Inr job \<Rightarrow>
             if o_deleting job then removeItem (o_namespace nad) (o_name nad)
             else act_then (on_log (call srv (DeleteJob (hd_namespace env) name))) id
                    (removeItem (o_namespace nad) (o_name nad)))"

definition clearOutdatedJob ::
  "mgr_env \<Rightarrow> caches \<Rightarrow> api_server \<Rightarrow> Nad \<Rightarrow> NetConf option \<Rightarrow> Layer3NetworkConf \<Rightarrow> nad_state act" where
  "clearOutdatedJob env h srv nad netconf l3netconf =
     (let name = Name (o_namespace nad) [o_name nad]
      in case jobGet h (hd_namespace env) name of
           Inl e \<Rightarrow> if \<not> IsNotFound e then act_fail e else removeItem (o_namespace nad) (o_name nad)
         | Inr job \<Rightarrow>
             if o_deleting job then removeItem (o_namespace nad) (o_name nad)
             else if AreJobLabelsDHCPInfoUnchanged (o_labels job) netconf (Some l3netconf) then act_ok
             else act_then (on_log (act_ignore IsNotFound (call srv (DeleteJob (hd_namespace env) name)))) id
                    (removeItem (o_namespace nad) (o_name nad)))"

definition job_env :: "mgr_env \<Rightarrow> Layer3NetworkConf \<Rightarrow> EnvVar list" where
  "job_env env l3 =
     [\<lparr>ev_Name = JobEnvNadNetwork, ev_Value = [],
       ev_FieldPath = Some (''metadata.annotations['' @ [CHR 39] @ NetworkAttachmentAnnot @ [CHR 39] @ '']'')\<rparr>,
      \<lparr>ev_Name = JobEnvDHCPServer, ev_Value = GetDHCPServerIPAddr (Some l3), ev_FieldPath = None\<rparr>]
     @ (if logLevel env \<noteq> ''info'' then [\<lparr>ev_Name = EnvLogLevel, ev_Value = logLevel env, ev_FieldPath = None\<rparr>] else [])"

definition job0 :: Job where
  "job0 = \<lparr>o_name = [], o_namespace = [], o_labels = None, o_annotations = None, o_deleting = False,
     jb_TemplateAnnotations = None, jb_Containers = [], jb_NodeSelectorTerms = None, jb_RestartPolicy = [],
     jb_ServiceAccountName = [], jb_BackoffLimit = None\<rparr>"

definition constructJob ::
  "mgr_env \<Rightarrow> Job option \<Rightarrow> Nad \<Rightarrow> NetConf option \<Rightarrow> Layer3NetworkConf \<Rightarrow> Job res" where
  "constructJob env cur nad netconf l3netconf =
     (let job = (case cur of
                   Some j \<Rightarrow> j
                 | None \<Rightarrow> job0\<lparr>o_name := Name (o_namespace nad) [o_name nad], o_namespace := hd_namespace env\<rparr>);
          job1 = (if netconf \<noteq> None
                  then job\<lparr>o_labels := SetDHCPInfo2JobLabels (Some (mmake (o_labels job))) netconf (Some l3netconf)\<rparr>
                  else job)
      in bind_res (MarshalNetworks env [(defaultInterface, o_namespace nad, o_name nad)]) id (\<lambda>selectedNetworks.
         let job2 = job1\<lparr>jb_TemplateAnnotations := mput NetworkAttachmentAnnot selectedNetworks (jb_TemplateAnnotations job1)\<rparr>;
             job3 = (if cur = None
                     then job2\<lparr>jb_Containers := [\<lparr>ct_Name = jobContainerName, ct_Image = helperImage env,
                            ct_Env = job_env env l3netconf, ct_ImagePullPolicy = ''IfNotPresent''\<rparr>]\<rparr>
                     else job2)
         in Inr (job3\<lparr>jb_NodeSelectorTerms :=
                        Some [[\<lparr>nr_Key = GroupName @ ''/'' @ GetNadLabel (Some nad) KeyClusterNetworkLabel,
                                nr_Operator = ''In'', nr_Values = [ValueTrue]\<rparr>]],
                      jb_RestartPolicy := ''Never'', jb_ServiceAccountName := jobServiceAccountName,
                      jb_BackoffLimit := Some 1\<rparr>)))"

text \<open>\<open>equality.Semantic.DeepEqual\<close>: a nil map equals an empty one.\<close>

definition job_semantic_equal :: "Job \<Rightarrow> Job \<Rightarrow> bool" where
  "job_semantic_equal a b \<longleftrightarrow>
     mmake (o_labels a) = mmake (o_labels b) \<and> mmake (o_annotations a) = mmake (o_annotations b)
     \<and> mmake (jb_TemplateAnnotations a) = mmake (jb_TemplateAnnotations b)
     \<and> b = a\<lparr>o_labels := o_labels b, o_annotations := o_annotations b, jb_TemplateAnnotations := jb_TemplateAnnotations b\<rparr>"

text \<open>What follows once there is a job: wait for a deletion, then repair what differs.\<close>

definition repair_job ::
  "mgr_env \<Rightarrow> api_server \<Rightarrow> Nad \<Rightarrow> NetConf option \<Rightarrow> Layer3NetworkConf \<Rightarrow> Job \<Rightarrow> action" where
  "repair_job env srv nad l2 l3 job =
     (if o_deleting job
      then act_fail (Errorf ''old job %v is on deleting, wait until it is gone and then create new job'')
      else act_bind (constructJob env (Some job) nad l2 l3) id (\<lambda>jobCopy.
           if job_semantic_equal job jobCopy then act_ok
           else act_wrap id (call srv (UpdateJob jobCopy))))"

definition createOrUpdateJob ::
  "mgr_env \<Rightarrow> caches \<Rightarrow> api_server \<Rightarrow> Nad \<Rightarrow> NetConf option \<Rightarrow> Layer3NetworkConf \<Rightarrow> action" where
  "createOrUpdateJob env h srv nad l2 l3 =
     (case jobGet h (hd_namespace env) (Name (o_namespace nad) [o_name nad]) of
        Inl e \<Rightarrow>
          if \<not> IsNotFound e then act_fail e
          else act_bind (constructJob env None nad l2 l3) id (\<lambda>job.
               act_then (call srv (CreateJob job)) id (repair_job env srv nad l2 l3 job))
      | Inr job \<Rightarrow> repair_job env srv nad l2 l3 job)"

section \<open>Connectivity\<close>

text \<open>The loss in percent exceeds the rate: the comparison of the quotient, multiplied out.\<close>

definition pingGW :: "mgr_env \<Rightarrow> string \<Rightarrow> string res" where
  "pingGW env gw =
     (case NewPinger env gw of
        Some e \<Rightarrow> Inl (render ''create pinger failed, error: %s'' e)
      | None \<Rightarrow>
          bind_res (PingerRun env gw) (wrap ''ping gw %s failed, error: %w'') (\<lambda>(sent, recv).
          if (sent - recv) * 100 > defaultAllowPackageLostRate * sent then Inr Unconnectable else Inr Connectable))"

definition updateNetworkConf :: "mgr_env \<Rightarrow> api_server \<Rightarrow> Nad \<Rightarrow> Layer3NetworkConf \<Rightarrow> action" where
  "updateNetworkConf env srv nad networkConf =
     act_bind (L3ToString (go env) networkConf) id (\<lambda>confStr.
     act_wrap (wrap ''update nad %s/%s failed, error: %w'')
       (call srv (UpdateNad (nad\<lparr>o_annotations := mput KeyNetworkRoute confStr (o_annotations nad)\<rparr>))))"

definition checkConnectivity :: "mgr_env \<Rightarrow> caches \<Rightarrow> api_server \<Rightarrow> string \<Rightarrow> string \<Rightarrow> string \<Rightarrow> action" where
  "checkConnectivity env h srv ns n gw =
     act_bind (pingGW env gw) id (\<lambda>connectivity.
     act_bind (nadGet h ns n) (render ''get cache of %s/%s failed, error: %s'') (\<lambda>nad.
     act_bind (if o_annotations nad \<noteq> None \<and> mget (o_annotations nad) KeyNetworkRoute \<noteq> []
               then NewLayer3NetworkConf (go env) (mget (o_annotations nad) KeyNetworkRoute) else Inr L3empty)
       (wrap ''invalid layer 3 network configure: %w'') (\<lambda>networkConf.
     if l3_Connectivity networkConf = connectivity then act_ok
     else updateNetworkConf env srv nad (networkConf\<lparr>l3_Connectivity := connectivity\<rparr>))))"

definition initializeConnectivity :: "mgr_env \<Rightarrow> api_server \<Rightarrow> Nad \<Rightarrow> Layer3NetworkConf \<Rightarrow> action" where
  "initializeConnectivity env srv nad networkConf =
     act_bind (pingGW env (l3_Gateway networkConf)) id (\<lambda>connectivity.
     if l3_Connectivity networkConf = connectivity then act_ok
     else updateNetworkConf env srv nad (networkConf\<lparr>l3_Connectivity := connectivity\<rparr>))"

text \<open>One tick of \<open>CheckConnectivityPeriodically\<close> over the items in some order: errors are logged only.\<close>

definition connectivity_tick :: "mgr_env \<Rightarrow> caches \<Rightarrow> api_server \<Rightarrow> ((string \<times> string) \<times> string) list \<Rightarrow> action" where
  "connectivity_tick env h srv =
     fold_err (\<lambda>((ns, n), gw). act_ignore (\<lambda>e. \<not> is_panic e) (checkConnectivity env h srv ns n gw))"

section \<open>The layer-3 network of a NAD\<close>

definition EnsureJob2GetLayer3NetworkInfo ::
  "mgr_env \<Rightarrow> caches \<Rightarrow> api_server \<Rightarrow> Nad \<Rightarrow> NetConf option \<Rightarrow> nad_state act" where
  "EnsureJob2GetLayer3NetworkInfo env h srv nad netconf =
     (if IsOverlayNad (Some nad) then act_ok
      else let routeStr = GetNadAnnotation (Some nad) KeyNetworkRoute
           in if routeStr = [] then act_ok
              else act_bind (NewLayer3NetworkConf (go env) routeStr) (wrap ''invalid layer 3 network configure %v: %w'') (\<lambda>networkConf.
                   act_then (if l3_Mode networkConf = Auto then clearOutdatedJob env h srv nad netconf networkConf
                             else clearJob env h srv nad) id
                   (if l3_CIDR networkConf \<noteq> [] \<and> l3_Gateway networkConf \<noteq> [] \<and> \<not> l3_Outdated networkConf
                    then act_then (if l3_Connectivity networkConf = []
                                   then on_log (act_ignore (\<lambda>e. \<not> is_panic e) (initializeConnectivity env srv nad networkConf))
                                   else act_ok) id
                         (addItem (o_namespace nad) (o_name nad) (l3_Gateway networkConf))
                    else if l3_Mode networkConf \<noteq> Auto then act_ok
                    else on_log (createOrUpdateJob env h srv nad netconf networkConf))))"

section \<open>The handlers of a NAD\<close>

definition Nad_OnChange :: "mgr_env \<Rightarrow> caches \<Rightarrow> api_server \<Rightarrow> Nad option \<Rightarrow> nad_state act" where
  "Nad_OnChange env h srv nad_ptr s =
     (case nad_ptr of None \<Rightarrow> (None, s)
      | Some nad \<Rightarrow>
          if o_deleting nad then (None, s)
          else case nad_ensureLabels env h srv nad (snd s) of
                 (Inl e, l) \<Rightarrow> (Some (wrap ''ensure labels of nad %s/%s failed, error: %w'' e), (fst s, l))
               | (Inr (netconf, updated), l) \<Rightarrow>
                   if updated then (None, (fst s, l))
                   else if IsOverlayNad (Some nad) then (None, (fst s, l))
                   else act_then (if \<not> IsVlanNad (Some nad) then clearJob env h srv nad
                                  else EnsureJob2GetLayer3NetworkInfo env h srv nad (Some netconf)) id
                          (act_wrap id (on_log (UpdateClusterNetworkVlanSet env h srv nad))) (fst s, l))"

definition Nad_OnRemove :: "mgr_env \<Rightarrow> caches \<Rightarrow> api_server \<Rightarrow> Nad option \<Rightarrow> nad_state act" where
  "Nad_OnRemove env h srv nad_ptr =
     (case nad_ptr of None \<Rightarrow> act_ok
      | Some nad \<Rightarrow>
          if IsOverlayNad (Some nad) then act_ok
          else act_then (clearJob env h srv nad) id
               (act_then (on_log (UpdateClusterNetworkVlanSet env h srv nad)) id
               (let finalizers = filter (\<lambda>f. f \<noteq> DeprecatedFinalizer) (nad_Finalizers nad)
                in if length finalizers \<noteq> length (nad_Finalizers nad)
                   then on_log (call srv (UpdateNad (nad\<lparr>nad_Finalizers := finalizers\<rparr>)))
                   else act_ok)))"

section \<open>The VLAN id set annotation\<close>

lemma vlan_annotations_set [simp]:
  "key_of (SetClusterNetworkVlanAnnotations cn s h) = key_of cn" "o_deleting (SetClusterNetworkVlanAnnotations cn s h) = o_deleting cn"
  "o_name (SetClusterNetworkVlanAnnotations cn s h) = o_name cn"
  "AreClusterNetworkVlanAnnotationsUnchanged (Some (SetClusterNetworkVlanAnnotations cn s h)) s h"
  by (simp_all add: key_of_def SetClusterNetworkVlanAnnotations_def AreClusterNetworkVlanAnnotationsUnchanged_def)

text \<open>The string depends on the NADs only; the rest of the handler compares and writes it.\<close>

abbreviation vlan_set_call :: "mgr_env \<Rightarrow> api_server \<Rightarrow> ClusterNetwork \<Rightarrow> string \<Rightarrow> action" where
  "vlan_set_call env srv cn s l \<equiv>
     (if AreClusterNetworkVlanAnnotationsUnchanged (Some cn) s (sha256hex (go env) s) then (None, l)
      else act_wrap (wrap ''failed to update cluster network %s label %s/%s error %w'')
             (call srv (UpdateCN (SetClusterNetworkVlanAnnotations cn s (sha256hex (go env) s)))) l)"

lemma UpdateClusterNetworkVlanSet_runs:
  assumes "\<forall>nad \<in> set (indexer nads). nad_ok (go env) nad"
    and "GetNadLabel (Some nad) KeyClusterNetworkLabel = n" "n \<noteq> []"
  shows "\<exists>s. string_vids s = network_vids (go env) nads n
     \<and> (\<forall>c cn srv l. cl_nads c = nads \<and> stored_cn c n = Some cn \<and> \<not> o_deleting cn \<longrightarrow>
          UpdateClusterNetworkVlanSet env (caches_of c) srv nad l = vlan_set_call env srv cn s l)"
proof -
  obtain vis where vis: "GeVlanIDSetFromClusterNetwork (go env) (store_list (indexer nads)) n = Inr vis"
    "vis_ok vis" "vids vis = network_vids (go env) nads n"
    using GeVlanIDSet_refines [OF assms(1), of n] by blast
  obtain s where s: "VidSetToString vis = Inr s" "string_vids s = vids vis"
    using VidSetToString_reads_back [OF vis(2)] by blast
  with vis assms(2-) show ?thesis
    by (intro exI [of _ s])
      (auto simp: UpdateClusterNetworkVlanSet_def Let_def cnGet_stored VidSetToStringHash_def dest!: stored_cn_key)
qed

text \<open>
  C9. When \<open>UpdateClusterNetworkVlanSet\<close> returns no error for a NAD of a live cluster network, the
  annotation of the network, read back as a comma-separated list, holds exactly the VLAN ids of
  the live bridge NADs with the network's label, the second annotation is its hash, other
  networks are as before, and running it again makes no call.
\<close>

theorem vlan_set_annotation_synced:
  assumes "UpdateClusterNetworkVlanSet env (caches_of c) srv nad [] = (None, log)"
    and "\<forall>nad \<in> set (indexer (cl_nads c)). nad_ok (go env) nad"
    and "GetNadLabel (Some nad) KeyClusterNetworkLabel = n" "n \<noteq> []" "stored_cn c n = Some cn" "\<not> o_deleting cn"
  shows "(\<exists>cn'. stored_cn (cluster_after log c) n = Some cn'
        \<and> string_vids (mget (o_annotations cn') KeyVlanIDSetStr) = network_vids (go env) (cl_nads c) n
        \<and> mget (o_annotations cn') KeyVlanIDSetStrHash = sha256hex (go env) (mget (o_annotations cn') KeyVlanIDSetStr))
     \<and> (\<forall>m. m \<noteq> n \<longrightarrow> stored_cn (cluster_after log c) m = stored_cn c m)
     \<and> UpdateClusterNetworkVlanSet env (caches_of (cluster_after log c)) srv' nad l = (None, l)"
proof -
  note key = stored_cn_key [OF assms(5)]
  obtain s where s: "string_vids s = network_vids (go env) (cl_nads c) n"
    and run: "\<And>c' cn srv l. cl_nads c' = cl_nads c \<Longrightarrow> stored_cn c' n = Some cn \<Longrightarrow> \<not> o_deleting cn \<Longrightarrow>
        UpdateClusterNetworkVlanSet env (caches_of c') srv nad l = vlan_set_call env srv cn s l"
    using UpdateClusterNetworkVlanSet_runs [OF assms(2-4)] by blast
  note first = run [OF refl assms(5,6), of srv "[]"]
  show ?thesis
  proof (cases "AreClusterNetworkVlanAnnotationsUnchanged (Some cn) s (sha256hex (go env) s)")
    case True
    then have "log = []" "mget (o_annotations cn) KeyVlanIDSetStr = s"
      "mget (o_annotations cn) KeyVlanIDSetStrHash = sha256hex (go env) s"
      using assms(1) first by (auto simp: AreClusterNetworkVlanAnnotationsUnchanged_def split: if_splits)
    with True s run [OF refl assms(5,6)] assms(5) show ?thesis by simp
  next
    case False
    let ?cn = "SetClusterNetworkVlanAnnotations cn s (sha256hex (go env) s)" and ?c = "cluster_after log c"
    have log: "log = [(UpdateCN ?cn, None)]" using False assms(1) first by (simp add: call_ok)
    have st: "stored_cn ?c n = Some ?cn" using key by (simp add: log)
    moreover have "UpdateClusterNetworkVlanSet env (caches_of ?c) srv' nad l = (None, l)"
      using run [of ?c ?cn srv' l] st assms(6) by (simp add: log)
    moreover have "mget (o_annotations ?cn) KeyVlanIDSetStr = s" "mget (o_annotations ?cn) KeyVlanIDSetStrHash = sha256hex (go env) s"
      by (simp_all add: SetClusterNetworkVlanAnnotations_def)
    moreover have "\<forall>m. m \<noteq> n \<longrightarrow> stored_cn ?c m = stored_cn c m" using key by (simp add: log)
    ultimately show ?thesis using s by simp
  qed
qed

definition demo_env :: mgr_env where
  "demo_env = \<lparr>go = demo_golib, hd_namespace = ''harvester-system'', helperImage = ''helper:v1'', logLevel = ''info'',
     sjsonSetMTU = (\<lambda>s m. Inl (EOther ''unsupported'')), MarshalNetworks = (\<lambda>xs. Inr ''[]''), NewPinger = (\<lambda>_. None),
     PingerRun = (\<lambda>_. Inr (5, 5))\<rparr>"

definition fresh_cn :: "string \<Rightarrow> ClusterNetwork" where
  "fresh_cn n = \<lparr>o_name = n, o_namespace = [], o_labels = None, o_annotations = None, o_deleting = False, cn_Conditions = []\<rparr>"

theorem vlan_set_annotation_synced_witness:
  "\<exists>log cn'. UpdateClusterNetworkVlanSet demo_env (caches_of (cluster0\<lparr>cl_nads := [demo_nad ''{}''], cl_cns := [fresh_cn ''cn1'']\<rparr>))
        (\<lambda>_ _. None) (demo_nad ''{}'') [] = (None, log)
     \<and> stored_cn (cluster_after log (cluster0\<lparr>cl_nads := [demo_nad ''{}''], cl_cns := [fresh_cn ''cn1'']\<rparr>)) ''cn1'' = Some cn'
     \<and> 2 \<in> string_vids (mget (o_annotations cn') KeyVlanIDSetStr)"
proof -
  let ?c = "cluster0\<lparr>cl_nads := [demo_nad ''{}''], cl_cns := [fresh_cn ''cn1'']\<rparr>"
  have g: "go demo_env = demo_golib" by (simp add: demo_env_def)
  have dec: "DecodeNadConfigToNetConf demo_golib (Some (demo_nad ''{}'')) = Inr (NetConf0\<lparr>BrName := ''cn1-br'', Vlan := 2\<rparr>)"
    by (simp add: DecodeNadConfigToNetConf_def demo_golib_def demo_nad_def)
  have idx: "indexer [demo_nad ''{}''] = [demo_nad ''{}'']" by (simp add: indexer_def store_put_def)
  have ok: "\<forall>nad \<in> set (indexer (cl_nads ?c)). nad_ok (go demo_env) nad"
    by (simp add: g idx nad_ok_def dec nc_ok_def IsVlanConfigValid_Inr NetConf0_def trunk_items_def vlan_consts)
  have two: "2 \<in> network_vids (go demo_env) (cl_nads ?c) ''cn1''"
    using dec by (simp add: g idx network_vids_def)
      (simp add: demo_nad_def nc_vids_def IsVlanAccessMode_def NetConf0_def trunk_items_def IsBridgeCNI_def cni_types)
  have lb: "GetNadLabel (Some (demo_nad ''{}'')) KeyClusterNetworkLabel = ''cn1''" by (simp add: GetNadLabel_def demo_nad_def mget_def)
  have cn: "stored_cn ?c ''cn1'' = Some (fresh_cn ''cn1'')" "\<not> o_deleting (fresh_cn ''cn1'')"
    by (simp_all add: stored_cn_def indexer_Cons fresh_cn_def key_of_def)
  have "\<exists>log. UpdateClusterNetworkVlanSet demo_env (caches_of ?c) (\<lambda>_ _. None) (demo_nad ''{}'') [] = (None, log)"
    using UpdateClusterNetworkVlanSet_runs [OF ok lb] cn by (auto simp: act_wrap_call)
  then obtain log where run: "UpdateClusterNetworkVlanSet demo_env (caches_of ?c) (\<lambda>_ _. None) (demo_nad ''{}'') [] = (None, log)" ..
  from vlan_set_annotation_synced [OF run ok lb _ cn] run two show ?thesis by (metis list.discI)
qed

section \<open>The MTU of NADs follows the cluster network\<close>

definition mtu_verdict :: "mgr_env \<Rightarrow> int \<Rightarrow> Nad \<Rightarrow> (Nad option) res" where
  "mtu_verdict env MTU nad =
     bind_res (UnmarshalNetConf (go env) (nad_Config nad)) (wrap ''failed to Unmarshal nad %v config %v error %w'') (\<lambda>nc.
     if AreEqualMTUs MTU (nc_MTU nc) then Inr None
     else bind_res (sjsonSetMTU env (nad_Config nad) MTU) (wrap ''failed to set nad %v with new MTU %v error %w'') (\<lambda>conf.
          Inr (Some (nad\<lparr>nad_Config := conf\<rparr>))))"

text \<open>What the code relies on of \<open>sjson.Set\<close>: it changes the one field.\<close>

definition sjson_sets_mtu :: "mgr_env \<Rightarrow> bool" where
  "sjson_sets_mtu env \<longleftrightarrow>
     (\<forall>s m nc s'. UnmarshalNetConf (go env) s = Inr nc \<and> sjsonSetMTU env s m = Inr s' \<longrightarrow>
        UnmarshalNetConf (go env) s' = Inr (nc\<lparr>nc_MTU := m\<rparr>))"

lemma mtu_reconciler:
  assumes "sjson_sets_mtu env"
  shows "reconciler (mtu_verdict env MTU) UpdateNad cl_nads (mtu_sync_step env MTU) (\<lambda>_. id)"
proof
  fix x e srv l assume "mtu_verdict env MTU x = Inl e"
  then show "mtu_sync_step env MTU srv x l = (Some e, l)"
    by (auto simp: mtu_verdict_def mtu_sync_step_def bind_res_def act_bind_def split: if_splits sum.splits)
next
  fix x srv l assume "mtu_verdict env MTU x = Inr None"
  then show "mtu_sync_step env MTU srv x l = (None, l)"
    by (auto simp: mtu_verdict_def mtu_sync_step_def split: if_splits)
next
  fix x y srv l assume "mtu_verdict env MTU x = Inr (Some y)"
  then show "mtu_sync_step env MTU srv x l = act_wrap id (call srv (UpdateNad y)) l"
    by (auto simp: mtu_verdict_def mtu_sync_step_def split: if_splits)
next
  fix x y assume "mtu_verdict env MTU x = Inr (Some y)"
  then obtain nc conf where "UnmarshalNetConf (go env) (nad_Config x) = Inr nc" "sjsonSetMTU env (nad_Config x) MTU = Inr conf"
    "y = x\<lparr>nad_Config := conf\<rparr>" by (auto simp: mtu_verdict_def split: if_splits)
  with assms show "key_of y = key_of x \<and> mtu_verdict env MTU y = Inr None"
    unfolding sjson_sets_mtu_def by (fastforce simp: mtu_verdict_def key_of_def)
qed simp

lemma mtu_verdict_result:
  assumes "sjson_sets_mtu env"
    and "mtu_verdict env MTU nad = Inr v"
  defines "nad' \<equiv> reconciler.result (mtu_verdict env MTU) nad"
  shows "nad' = nad\<lparr>nad_Config := nad_Config nad'\<rparr>
     \<and> (\<exists>nc. UnmarshalNetConf (go env) (nad_Config nad') = Inr nc \<and> AreEqualMTUs MTU (nc_MTU nc))"
proof -
  note R = mtu_reconciler [where MTU = MTU, OF assms(1)]
  from assms(2) obtain nc where nc: "UnmarshalNetConf (go env) (nad_Config nad) = Inr nc" by (auto simp: mtu_verdict_def)
  show ?thesis
  proof (cases v)
    case None
    with assms(2) nc have "nad' = nad" "AreEqualMTUs MTU (nc_MTU nc)"
      by (auto simp: nad'_def reconciler.result_def [OF R] mtu_verdict_def split: if_splits)
    with nc show ?thesis by auto
  next
    case (Some y)
    with assms(2) nc obtain conf where conf: "sjsonSetMTU env (nad_Config nad) MTU = Inr conf" "y = nad\<lparr>nad_Config := conf\<rparr>"
      by (auto simp: mtu_verdict_def split: if_splits)
    have "nad' = y" using Some assms(2) by (simp add: nad'_def reconciler.result_def [OF R])
    moreover have "UnmarshalNetConf (go env) conf = Inr (nc\<lparr>nc_MTU := MTU\<rparr>)"
      using assms(1) nc conf(1) unfolding sjson_sets_mtu_def by blast
    ultimately show ?thesis using conf(2) by simp
  qed
qed

text \<open>
  C27. When \<open>OnCNChange\<close> returns no error for a live cluster network with a valid MTU annotation,
  every NAD of the network has an MTU equal to it (0 standing for the default), nothing else of a
  NAD has changed, and NADs of other networks are as before.
\<close>

theorem nad_mtu_synced:
  assumes law: "sjson_sets_mtu env"
    and run: "OnCNChange env (caches_of c) srv (Some cn) [] = (None, log)"
    and "\<not> o_deleting cn" "mget (o_annotations cn) KeyUplinkMTU \<noteq> []"
    and "GetMTUFromString (mget (o_annotations cn) KeyUplinkMTU) = Inr MTU"
  shows "\<forall>nad' \<in> set (indexer (cl_nads (cluster_after log c))). \<exists>nad \<in> set (indexer (cl_nads c)).
     if mlookup (o_labels nad) KeyClusterNetworkLabel = Some (o_name cn)
     then nad' = nad\<lparr>nad_Config := nad_Config nad'\<rparr>
       \<and> (\<exists>nc. UnmarshalNetConf (go env) (nad_Config nad') = Inr nc \<and> AreEqualMTUs MTU (nc_MTU nc))
     else nad' = nad"
proof
  note R = mtu_reconciler [where MTU = MTU, OF law]
  obtain xs where xs: "store_list (indexer (cl_nads c)) [] (SelectorFromSet [(KeyClusterNetworkLabel, o_name cn)]) = Inr xs"
    "set xs = {nad \<in> set (indexer (cl_nads c)). mlookup (o_labels nad) KeyClusterNetworkLabel = Some (o_name cn)}"
    using store_list_labelled [of "cl_nads c"] by blast
  have "fold_err (mtu_sync_step env MTU srv) xs [] = (None, log)"
    using run assms(3-) by (simp add: OnCNChange_def Let_def xs(1))
  note eff = reconciler.run_effect [OF R this store_list_set(1,2) [OF xs(1)]] and ok = reconciler.run_ok [OF R this]
  fix nad' assume "nad' \<in> set (indexer (cl_nads (cluster_after log c)))"
  then consider nad where "nad \<in> set xs" "nad' = reconciler.result (mtu_verdict env MTU) nad"
    | "nad' \<in> set (indexer (cl_nads c))" "nad' \<notin> set xs" using eff by blast
  then show "\<exists>nad \<in> set (indexer (cl_nads c)).
     if mlookup (o_labels nad) KeyClusterNetworkLabel = Some (o_name cn)
     then nad' = nad\<lparr>nad_Config := nad_Config nad'\<rparr>
       \<and> (\<exists>nc. UnmarshalNetConf (go env) (nad_Config nad') = Inr nc \<and> AreEqualMTUs MTU (nc_MTU nc))
     else nad' = nad"
  proof cases
    case 1
    with ok obtain v where "mtu_verdict env MTU nad = Inr v" by blast
    from mtu_verdict_result [OF law this] 1 xs(2) show ?thesis by auto
  next
    case 2
    with xs(2) show ?thesis by auto
  qed
qed

text \<open>A decoder whose documents are the MTU in unary, after one byte, and its setter.\<close>

definition unary_env :: mgr_env where
  "unary_env = demo_env\<lparr>go := demo_golib\<lparr>UnmarshalNetConf := (\<lambda>s. Inr (NetConf0\<lparr>nc_MTU := int (length s)\<rparr>))\<rparr>,
     sjsonSetMTU := (\<lambda>s m. if m < 0 then Inl (EOther ''unsupported'') else Inr (replicate (nat m) CHR ''x''))\<rparr>"

theorem nad_mtu_synced_witness:
  "\<exists>log nad'. OnCNChange unary_env (caches_of (cluster0\<lparr>cl_nads := [demo_nad ''{}'']\<rparr>)) (\<lambda>_ _. None)
        (Some ((fresh_cn ''cn1'')\<lparr>o_annotations := Some [KeyUplinkMTU \<mapsto> ''9000'']\<rparr>)) [] = (None, log)
     \<and> nad' \<in> set (indexer (cl_nads (cluster_after log (cluster0\<lparr>cl_nads := [demo_nad ''{}'']\<rparr>))))
     \<and> length (nad_Config nad') = 9000"
proof -
  let ?c = "cluster0\<lparr>cl_nads := [demo_nad ''{}'']\<rparr>"
  let ?cn = "(fresh_cn ''cn1'')\<lparr>o_annotations := Some [KeyUplinkMTU \<mapsto> ''9000'']\<rparr>"
  have law: "sjson_sets_mtu unary_env"
    by (auto simp: sjson_sets_mtu_def unary_env_def split: if_splits)
  have u: "\<And>s. UnmarshalNetConf (go unary_env) s = Inr (NetConf0\<lparr>nc_MTU := int (length s)\<rparr>)"
    "sjsonSetMTU unary_env ''{}'' 9000 = Inr (replicate 9000 CHR ''x'')" by (simp_all add: unary_env_def)
  have mtu: "GetMTUFromString (mget (o_annotations ?cn) KeyUplinkMTU) = Inr 9000"
    by (simp add: mget_def GetMTUFromString_def Atoi_def char_digit_def IsValidMTU_def mtu_consts)
  have ne: "mget (o_annotations ?cn) KeyUplinkMTU \<noteq> []" "\<not> o_deleting ?cn" "o_name ?cn = ''cn1''"
    by (simp_all add: mget_def fresh_cn_def)
  have idx: "indexer [demo_nad ''{}''] = [demo_nad ''{}'']" by (simp add: indexer_def store_put_def)
  have lb: "mlookup (o_labels (demo_nad ''{}'')) KeyClusterNetworkLabel = Some ''cn1''" "nad_Config (demo_nad ''{}'') = ''{}''"
    by (simp_all add: demo_nad_def)
  let ?y = "(demo_nad ''{}'')\<lparr>nad_Config := replicate 9000 CHR ''x''\<rparr>"
  have run: "OnCNChange unary_env (caches_of ?c) (\<lambda>_ _. None) (Some ?cn) [] = (None, [(UpdateNad ?y, None)])"
    using ne mtu by (simp add: OnCNChange_def Let_def store_list_def idx lb mtu_sync_step_def u AreEqualMTUs_def mtu_consts call_def)
  from nad_mtu_synced [OF law run ne(2,1) mtu]
  have "\<forall>nad' \<in> set (indexer (cl_nads (cluster_after [(UpdateNad ?y, None)] ?c))). length (nad_Config nad') = 9000"
    by (auto simp: idx lb ne(3) u AreEqualMTUs_def mtu_consts)
  moreover have "?y \<in> set (indexer (cl_nads (cluster_after [(UpdateNad ?y, None)] ?c)))" by (simp add: set_indexer_Cons)
  ultimately show ?thesis using run by blast
qed

section \<open>The job of a NAD converges\<close>

lemma constructJob_frame:
  assumes "constructJob env cur nad l2 l3 = Inr job"
  shows "o_deleting job = (case cur of None \<Rightarrow> False | Some j \<Rightarrow> o_deleting j)"
    "key_of job = (case cur of None \<Rightarrow> (hd_namespace env, Name (o_namespace nad) [o_name nad]) | Some j \<Rightarrow> key_of j)"
  using assms by (auto simp: constructJob_def Let_def job0_def key_of_def split: option.splits if_splits)

lemma SetDHCP_idem:
  "SetDHCPInfo2JobLabels (Some (mmake (SetDHCPInfo2JobLabels (Some f) (Some l2) (Some l3)))) (Some l2) (Some l3)
     = SetDHCPInfo2JobLabels (Some f) (Some l2) (Some l3)"
  by (auto simp: SetDHCPInfo2JobLabels_def mput_def mmake_def fun_eq_iff)

text \<open>A constructed job is a fixed point, whatever it was made from.\<close>

lemma constructJob_idem:
  assumes "constructJob env cur nad (Some l2) l3 = Inr job"
  shows "constructJob env (Some job) nad (Some l2) l3 = Inr job"
proof -
  from assms obtain nets where nets: "MarshalNetworks env [(defaultInterface, o_namespace nad, o_name nad)] = Inr nets"
    by (auto simp: constructJob_def Let_def)
  have lb: "o_labels job = SetDHCPInfo2JobLabels (Some (mmake (case cur of None \<Rightarrow> None | Some j \<Rightarrow> o_labels j))) (Some l2) (Some l3)"
    "jb_TemplateAnnotations job = mput NetworkAttachmentAnnot nets (case cur of None \<Rightarrow> None | Some j \<Rightarrow> jb_TemplateAnnotations j)"
    using assms nets by (auto simp: constructJob_def Let_def job0_def split: option.splits)
  have a: "mput k v (mput k v m) = mput k v m" for k v m by (auto simp: mput_def mmake_def)
  from lb have "SetDHCPInfo2JobLabels (Some (mmake (o_labels job))) (Some l2) (Some l3) = o_labels job"
    "mput NetworkAttachmentAnnot nets (jb_TemplateAnnotations job) = jb_TemplateAnnotations job"
    by (simp_all add: SetDHCP_idem a)
  moreover have "jb_NodeSelectorTerms job =
        Some [[\<lparr>nr_Key = GroupName @ ''/'' @ GetNadLabel (Some nad) KeyClusterNetworkLabel, nr_Operator = ''In'', nr_Values = [ValueTrue]\<rparr>]]"
    "jb_RestartPolicy job = ''Never''" "jb_ServiceAccountName job = jobServiceAccountName" "jb_BackoffLimit job = Some 1"
    using assms nets by (auto simp: constructJob_def Let_def)
  ultimately show ?thesis by (simp add: constructJob_def Let_def nets)
qed

lemma constructJob_semantic_idem:
  "constructJob env cur nad (Some l2) l3 = Inr job \<Longrightarrow> repair_job env srv nad (Some l2) l3 job l =
     (if o_deleting job
      then (Some (Errorf ''old job %v is on deleting, wait until it is gone and then create new job''), l) else (None, l))"
  using constructJob_idem by (simp add: repair_job_def job_semantic_equal_def)

lemma constructJob_labels:
  assumes "constructJob env cur nad (Some l2) l3 = Inr job"
  shows "AreJobLabelsDHCPInfoUnchanged (o_labels job) (Some l2) (Some l3)"
proof -
  have "\<exists>f. o_labels job = SetDHCPInfo2JobLabels (Some f) (Some l2) (Some l3)"
    using assms by (auto simp: constructJob_def Let_def)
  then show ?thesis by (auto simp: AreJobLabelsDHCPInfoUnchanged_def SetDHCPInfo2JobLabels_def)
qed

definition stored_job :: "cluster \<Rightarrow> string \<times> string \<Rightarrow> Job option" where
  "stored_job c k = find (\<lambda>x. key_of x = k) (indexer (cl_jobs c))"

lemma jobGet_stored:
  "store_get (indexer (cl_jobs c)) ns n = (case stored_job c (ns, n) of None \<Rightarrow> Inl (ENotFound n) | Some j \<Rightarrow> Inr j)"
  by (simp add: store_get_def stored_job_def)

lemma stored_job_put [simp]:
  "stored_job (c\<lparr>cl_jobs := j # cl_jobs c\<rparr>) k = (if key_of j = k then Some j else stored_job c k)"
  by (simp add: stored_job_def find_indexer_Cons)

lemma semantic_labels:
  assumes "job_semantic_equal job job'" "AreJobLabelsDHCPInfoUnchanged (o_labels job') (Some l2) (Some l3)" "GetVlanString (Some l2) \<noteq> []"
  shows "AreJobLabelsDHCPInfoUnchanged (o_labels job) (Some l2) (Some l3)"
proof -
  have "mget l k = (case mmake l k of None \<Rightarrow> [] | Some v \<Rightarrow> v)" for l k
    by (auto simp: mget_def mmake_def split: option.splits)
  moreover from this have "o_labels job \<noteq> None"
    using assms by (auto simp: job_semantic_equal_def AreJobLabelsDHCPInfoUnchanged_def mmake_def split: if_splits option.splits)
  ultimately show ?thesis
    using assms by (auto simp: job_semantic_equal_def AreJobLabelsDHCPInfoUnchanged_def split: if_splits)
qed

text \<open>
  When \<open>createOrUpdateJob\<close> returns no error, the job of the NAD exists, is not being deleted
  and is labelled with the VLAN id and DHCP server it was made for, so the check for outdated jobs
  leaves it alone; and running it again makes no call (in particular creating a job is not
  followed by an update of it).
\<close>

lemma job_converges:
  assumes "createOrUpdateJob env (caches_of c) srv nad (Some l2) l3 [] = (None, log)"
  shows "(\<exists>job. stored_job (cluster_after log c) (hd_namespace env, Name (o_namespace nad) [o_name nad]) = Some job
        \<and> \<not> o_deleting job \<and> AreJobLabelsDHCPInfoUnchanged (o_labels job) (Some l2) (Some l3))
     \<and> createOrUpdateJob env (caches_of (cluster_after log c)) srv' nad (Some l2) l3 l = (None, l)
     \<and> length log \<le> 1"
proof -
  let ?k = "(hd_namespace env, Name (o_namespace nad) [o_name nad])"
  have rerun: "createOrUpdateJob env (caches_of c') srv' nad (Some l2) l3 l = (None, l)"
    if "stored_job c' ?k = Some job" "\<not> o_deleting job" "constructJob env cur nad (Some l2) l3 = Inr job" for c' job cur
    using that by (simp add: createOrUpdateJob_def jobGet_stored constructJob_semantic_idem)
  have v: "GetVlanString (Some l2) \<noteq> []" by (simp add: GetVlanString_def Itoa_nonempty)
  show ?thesis
  proof (cases "stored_job c ?k")
    case None
    with assms obtain job where job: "constructJob env None nad (Some l2) l3 = Inr job"
      by (cases "constructJob env None nad (Some l2) l3") (auto simp: createOrUpdateJob_def jobGet_stored)
    note fr = constructJob_frame [OF job, simplified]
    have log: "log = [(CreateJob job, None)]"
      using assms None job fr
      by (simp add: createOrUpdateJob_def jobGet_stored act_then_None call_ok constructJob_semantic_idem [OF job])
    then have "stored_job (cluster_after log c) ?k = Some job" using fr by simp
    with rerun job fr log constructJob_labels [OF job] show ?thesis by auto
  next
    case (Some j)
    then have r: "repair_job env srv nad (Some l2) l3 j [] = (None, log)"
      using assms by (simp add: createOrUpdateJob_def jobGet_stored)
    have key: "key_of j = ?k" using Some by (auto simp: stored_job_def find_Some_iff)
    from r have del: "\<not> o_deleting j" by (auto simp: repair_job_def)
    with r obtain job where job: "constructJob env (Some j) nad (Some l2) l3 = Inr job"
      by (cases "constructJob env (Some j) nad (Some l2) l3") (auto simp: repair_job_def)
    note fr = constructJob_frame [OF job, simplified]
    show ?thesis
    proof (cases "job_semantic_equal j job")
      case True
      with r del job have "log = []" by (simp add: repair_job_def)
      moreover have "createOrUpdateJob env (caches_of c) srv' nad (Some l2) l3 l = (None, l)"
        using Some del job True by (simp add: createOrUpdateJob_def jobGet_stored repair_job_def)
      ultimately show ?thesis
        using Some del semantic_labels [OF True constructJob_labels [OF job] v] by auto
    next
      case False
      with r del job have log: "log = [(UpdateJob job, None)]" by (simp add: repair_job_def call_ok)
      then have "stored_job (cluster_after log c) ?k = Some job" using fr key by simp
      with rerun job fr del log constructJob_labels [OF job] show ?thesis by auto
    qed
  qed
qed

lemma job_converges_witness:
  "\<exists>log job. createOrUpdateJob demo_env (caches_of cluster0) (\<lambda>_ _. None) (demo_nad ''{}'') (Some NetConf0) L3empty [] = (None, log)
     \<and> stored_job (cluster_after log cluster0) (''harvester-system'', Name ''default'' [''n1'']) = Some job"
proof -
  have e: "hd_namespace demo_env = ''harvester-system''" "o_namespace (demo_nad ''{}'') = ''default''" "o_name (demo_nad ''{}'') = ''n1''"
    by (simp_all add: demo_env_def demo_nad_def)
  obtain job where job: "constructJob demo_env None (demo_nad ''{}'') (Some NetConf0) L3empty = Inr job"
    by (simp add: constructJob_def Let_def demo_env_def)
  have none: "stored_job cluster0 k = None" for k by (simp add: stored_job_def cluster0_def indexer_def)
  have run: "createOrUpdateJob demo_env (caches_of cluster0) (\<lambda>_ _. None) (demo_nad ''{}'') (Some NetConf0) L3empty []
      = (None, [(CreateJob job, None)])"
    using constructJob_frame(1) [OF job]
    by (simp add: createOrUpdateJob_def jobGet_stored none job act_then_def call_def constructJob_semantic_idem [OF job])
  from job_converges [OF run] show ?thesis unfolding e using run by blast
qed

end
