(* ===== verification/Go_Io.thy ===== *)
theory Go_Io
  imports Api_Log
begin

text \<open>
  Code of the node agent: functions that change a state (the node's kernel, the log of API calls,
  the agent's own tables) and return a value or an error. \<open>('s, 'a) io\<close> is such a function; the
  combinators are the shapes in which the Go code handles errors. A panic passes every handler.
  \<open>io_post\<close> is a Hoare triple with a separate postcondition for errors; its rules are collected in
  \<open>io_rules\<close>.
\<close>

named_theorems io_rules \<open>Hoare rules of stateful code\<close>

section \<open>Combinators\<close>

type_synonym ('s, 'a) io = "'s \<Rightarrow> 'a res \<times> 's"

definition io_ret :: "'a \<Rightarrow> ('s, 'a) io" where "io_ret x s = (Inr x, s)"

definition io_throw :: "go_error \<Rightarrow> ('s, 'a) io" where "io_throw e s = (Inl e, s)"

text \<open>\<open>x, err := m; if err != nil { return err }\<close>, then \<open>k x\<close>.\<close>

definition io_bind :: "('s, 'a) io \<Rightarrow> ('a \<Rightarrow> ('s, 'b) io) \<Rightarrow> ('s, 'b) io" where
  "io_bind m k s = (case m s of (Inl e, s') \<Rightarrow> (Inl e, s') | (Inr x, s') \<Rightarrow> k x s')"

text \<open>\<open>x, err := m\<close>, where the code goes on with \<open>h err\<close> on an error.\<close>

definition io_try :: "('s, 'a) io \<Rightarrow> (go_error \<Rightarrow> ('s, 'b) io) \<Rightarrow> ('a \<Rightarrow> ('s, 'b) io) \<Rightarrow> ('s, 'b) io" where
  "io_try m h k s =
     (case m s of
        (Inl e, s') \<Rightarrow> if is_panic e then (Inl e, s') else h e s'
      | (Inr x, s') \<Rightarrow> k x s')"

text \<open>\<open>if err != nil { return w(err) }\<close>.\<close>

definition io_wrap :: "(go_error \<Rightarrow> go_error) \<Rightarrow> ('s, 'a) io \<Rightarrow> ('s, 'a) io" where
  "io_wrap w m s = (case m s of (Inl e, s') \<Rightarrow> (Inl (w e), s') | (Inr x, s') \<Rightarrow> (Inr x, s'))"

definition io_lift :: "'a res \<Rightarrow> ('s, 'a) io" where "io_lift r s = (r, s)"

text \<open>A loop that returns at the first error.\<close>

fun io_each :: "('a \<Rightarrow> ('s, unit) io) \<Rightarrow> 'a list \<Rightarrow> ('s, unit) io" where
  "io_each f [] = io_ret ()"
| "io_each f (x # xs) = io_bind (f x) (\<lambda>_. io_each f xs)"

text \<open>A loop that collects the errors of its iterations.\<close>

fun io_errors :: "('a \<Rightarrow> ('s, unit) io) \<Rightarrow> 'a list \<Rightarrow> ('s, go_error list) io" where
  "io_errors f [] = io_ret []"
| "io_errors f (x # xs) =
     io_try (f x) (\<lambda>e. io_bind (io_errors f xs) (\<lambda>es. io_ret (e # es))) (\<lambda>_. io_errors f xs)"

text \<open>Between \<open>io\<close> and the error-only functions of the other components.\<close>

definition io_act :: "'s act \<Rightarrow> ('s, unit) io" where
  "io_act m s = (case m s of (Some e, s') \<Rightarrow> (Inl e, s') | (None, s') \<Rightarrow> (Inr (), s'))"

definition act_io :: "('s, 'a) io \<Rightarrow> 's act" where
  "act_io m s = (case m s of (Inl e, s') \<Rightarrow> (Some e, s') | (Inr _, s') \<Rightarrow> (None, s'))"

text \<open>Code on a part of the state.\<close>

definition on_fst :: "('s, 'a) io \<Rightarrow> ('s \<times> 't, 'a) io" where
  "on_fst m st = (case m (fst st) of (r, s') \<Rightarrow> (r, s', snd st))"

definition on_snd :: "('t, 'a) io \<Rightarrow> ('s \<times> 't, 'a) io" where
  "on_snd m st = (case m (snd st) of (r, t') \<Rightarrow> (r, fst st, t'))"

section \<open>Evaluation\<close>

lemma io_simps [simp]:
  "io_ret x s = (Inr x, s)" "io_throw e s = (Inl e, s)" "io_lift r s = (r, s)"
  by (simp_all add: io_ret_def io_throw_def io_lift_def)

lemma io_bind_Inr [simp]: "m s = (Inr x, s') \<Longrightarrow> io_bind m k s = k x s'"
  and io_bind_Inl [simp]: "m s = (Inl e, s') \<Longrightarrow> io_bind m k s = (Inl e, s')"
  by (simp_all add: io_bind_def)

lemma io_bind_lift [simp]:
  "io_bind (io_ret x) k = k x" "io_bind (io_throw e) k = io_throw e"
  "io_bind (io_lift (Inr x)) k = k x" "io_bind (io_lift (Inl e)) k = io_throw e"
  by (simp_all add: fun_eq_iff)

lemma io_bind_assoc: "io_bind (io_bind m k) k' = io_bind m (\<lambda>x. io_bind (k x) k')"
  by (auto simp: fun_eq_iff io_bind_def split: prod.splits sum.splits)

lemma io_try_Inr [simp]: "m s = (Inr x, s') \<Longrightarrow> io_try m h k s = k x s'"
  and io_try_Inl [simp]: "m s = (Inl e, s') \<Longrightarrow> io_try m h k s = (if is_panic e then (Inl e, s') else h e s')"
  by (simp_all add: io_try_def)

lemma io_wrap_Inr [simp]: "m s = (Inr x, s') \<Longrightarrow> io_wrap w m s = (Inr x, s')"
  and io_wrap_Inl [simp]: "m s = (Inl e, s') \<Longrightarrow> io_wrap w m s = (Inl (w e), s')"
  by (simp_all add: io_wrap_def)

lemma io_bind_result:
  "io_bind m k s = (Inr y, s'') \<longleftrightarrow> (\<exists>x s'. m s = (Inr x, s') \<and> k x s' = (Inr y, s''))"
  by (auto simp: io_bind_def split: prod.splits sum.splits)

lemma io_wrap_result: "io_wrap w m s = (Inr y, s') \<longleftrightarrow> m s = (Inr y, s')"
  by (auto simp: io_wrap_def split: prod.splits sum.splits)

lemma io_try_result:
  "io_try m h k s = (Inr y, s'') \<longleftrightarrow>
     (\<exists>x s'. m s = (Inr x, s') \<and> k x s' = (Inr y, s'')) \<or>
     (\<exists>e s'. m s = (Inl e, s') \<and> \<not> is_panic e \<and> h e s' = (Inr y, s''))"
  by (auto simp: io_try_def split: prod.splits sum.splits)

lemma io_act_result: "io_act m s = (Inr y, s') \<longleftrightarrow> m s = (None, s')"
  by (auto simp: io_act_def split: prod.splits option.splits)

lemmas io_results = io_bind_result io_wrap_result io_try_result io_act_result

lemma on_fst_pair [simp]: "on_fst m (s, t) = (case m s of (r, s') \<Rightarrow> (r, s', t))"
  by (simp add: on_fst_def)

lemma on_snd_pair [simp]: "on_snd m (s, t) = (case m t of (r, t') \<Rightarrow> (r, s, t'))"
  by (simp add: on_snd_def)

lemma io_each_append: "io_each f (xs @ ys) = io_bind (io_each f xs) (\<lambda>_. io_each f ys)"
  by (induction xs) (simp_all add: io_bind_assoc)

lemma io_each_fold: "act_io (io_each f xs) = fold_err (\<lambda>x. act_io (f x)) xs"
proof (induction xs)
  case (Cons x xs)
  have "act_io (io_bind m k) s = (case act_io m s of (Some e, s') \<Rightarrow> (Some e, s') | (None, s') \<Rightarrow> act_io (k ()) s')"
    for m :: "('a, unit) io" and k :: "unit \<Rightarrow> ('a, unit) io" and s
    by (auto simp: act_io_def io_bind_def split: prod.splits sum.splits)
  with Cons show ?case by (auto simp: fun_eq_iff split: prod.splits option.splits)
qed (simp add: act_io_def fun_eq_iff)

section \<open>Hoare triples\<close>

text \<open>
  \<open>io_post P m Q E\<close>: from a state with \<open>P\<close>, \<open>m\<close> returns a value and a state with \<open>Q\<close>, or an error and
  a state with \<open>E\<close>. All code here terminates, so this is total correctness.
\<close>

definition io_post :: "('s \<Rightarrow> bool) \<Rightarrow> ('s, 'a) io \<Rightarrow> ('a \<Rightarrow> 's \<Rightarrow> bool) \<Rightarrow> (go_error \<Rightarrow> 's \<Rightarrow> bool) \<Rightarrow> bool" where
  "io_post P m Q E \<longleftrightarrow>
     (\<forall>s. P s \<longrightarrow> (case m s of (Inr x, s') \<Rightarrow> Q x s' | (Inl e, s') \<Rightarrow> E e s'))"

lemma io_post_cases:
  "io_post P m Q E \<longleftrightarrow>
     (\<forall>s. P s \<longrightarrow> (\<forall>x s'. m s = (Inr x, s') \<longrightarrow> Q x s') \<and> (\<forall>e s'. m s = (Inl e, s') \<longrightarrow> E e s'))"
  unfolding io_post_def by (auto split: prod.splits sum.splits)

lemma io_postD:
  assumes "io_post P m Q E" "P s"
  shows "m s = (Inr x, s') \<Longrightarrow> Q x s'" "m s = (Inl e, s') \<Longrightarrow> E e s'"
  using assms by (auto simp: io_post_cases)

lemma io_post_ret [io_rules]: "(\<And>s. P s \<Longrightarrow> Q x s) \<Longrightarrow> io_post P (io_ret x) Q E"
  by (simp add: io_post_def)

lemma io_post_throw [io_rules]: "(\<And>s. P s \<Longrightarrow> E e s) \<Longrightarrow> io_post P (io_throw e) Q E"
  by (simp add: io_post_def)

lemma io_post_lift [io_rules]:
  "(\<And>s x. P s \<Longrightarrow> r = Inr x \<Longrightarrow> Q x s) \<Longrightarrow> (\<And>s e. P s \<Longrightarrow> r = Inl e \<Longrightarrow> E e s) \<Longrightarrow> io_post P (io_lift r) Q E"
  by (auto simp: io_post_def split: sum.splits)

lemma io_post_bind [io_rules]:
  "io_post P m R E \<Longrightarrow> (\<And>x. io_post (R x) (k x) Q E) \<Longrightarrow> io_post P (io_bind m k) Q E"
  unfolding io_post_cases io_bind_def by (fastforce split: prod.splits sum.splits)

lemma io_post_try [io_rules]:
  assumes "io_post P m R (\<lambda>e s. if is_panic e then E e s else F e s)"
    and "\<And>x. io_post (R x) (k x) Q E" and "\<And>e. io_post (F e) (h e) Q E"
  shows "io_post P (io_try m h k) Q E"
  using assms unfolding io_post_cases io_try_def by (fastforce split: prod.splits sum.splits if_splits)

lemma io_post_wrap [io_rules]: "io_post P m Q (\<lambda>e. E (w e)) \<Longrightarrow> io_post P (io_wrap w m) Q E"
  unfolding io_post_cases io_wrap_def by (fastforce split: prod.splits sum.splits)

lemma io_post_if [io_rules]:
  "(b \<Longrightarrow> io_post P m Q E) \<Longrightarrow> (\<not> b \<Longrightarrow> io_post P n Q E) \<Longrightarrow> io_post P (if b then m else n) Q E"
  by simp

lemma io_post_conseq:
  "io_post P' m Q' E' \<Longrightarrow> (\<And>s. P s \<Longrightarrow> P' s) \<Longrightarrow> (\<And>x s. Q' x s \<Longrightarrow> Q x s) \<Longrightarrow> (\<And>e s. E' e s \<Longrightarrow> E e s)
     \<Longrightarrow> io_post P m Q E"
  unfolding io_post_cases by blast

lemma io_post_each:
  assumes "\<And>x ys zs. xs = ys @ x # zs \<Longrightarrow> io_post (I ys) (f x) (\<lambda>_. I (ys @ [x])) E"
  shows "io_post (I []) (io_each f xs) (\<lambda>_. I xs) E"
proof -
  have "io_post (I ys) (io_each f zs) (\<lambda>_. I (ys @ zs)) E" if "xs = ys @ zs" for ys zs
    using that
  proof (induction zs arbitrary: ys)
    case (Cons z zs)
    from assms [OF Cons.prems] have "io_post (I ys) (f z) (\<lambda>_. I (ys @ [z])) E" .
    moreover from Cons.IH [of "ys @ [z]"] Cons.prems
    have "io_post (I (ys @ [z])) (io_each f zs) (\<lambda>_. I (ys @ z # zs)) E" by simp
    ultimately show ?case by (auto intro: io_post_bind)
  qed (simp add: io_post_def)
  from this [of "[]" xs] show ?thesis by simp
qed

text \<open>A state property that the code keeps whether it fails or not.\<close>

definition io_keeps :: "('s \<Rightarrow> bool) \<Rightarrow> ('s, 'a) io \<Rightarrow> bool" where
  "io_keeps P m \<longleftrightarrow> io_post P m (\<lambda>_. P) (\<lambda>_. P)"

lemma io_keeps_state: "io_keeps P m \<longleftrightarrow> (\<forall>s. P s \<longrightarrow> P (snd (m s)))"
proof -
  have "(case m s of (Inr x, s') \<Rightarrow> P s' | (Inl e, s') \<Rightarrow> P s') = P (snd (m s))" for s
    by (simp split: prod.splits sum.splits)
  then show ?thesis by (simp add: io_keeps_def io_post_def)
qed

lemma io_keepsD: "io_keeps P m \<Longrightarrow> P s \<Longrightarrow> P (snd (m s))"
  by (simp add: io_keeps_state)

lemma io_keeps_basic [io_rules]:
  "io_keeps P (io_ret x)" "io_keeps P (io_throw e)" "io_keeps P (io_lift r)"
  by (simp_all add: io_keeps_state)

lemma io_keeps_bind [io_rules]:
  "io_keeps P m \<Longrightarrow> (\<And>x. io_keeps P (k x)) \<Longrightarrow> io_keeps P (io_bind m k)"
  unfolding io_keeps_state by (simp add: io_bind_def split: prod.splits sum.splits) (metis snd_conv)

lemma io_keeps_try [io_rules]:
  "io_keeps P m \<Longrightarrow> (\<And>x. io_keeps P (k x)) \<Longrightarrow> (\<And>e. io_keeps P (h e)) \<Longrightarrow> io_keeps P (io_try m h k)"
  unfolding io_keeps_state
  by (intro allI impI, case_tac "m s"; case_tac "fst (m s)"; force simp: io_try_def)

lemma io_keeps_wrap [io_rules]: "io_keeps P m \<Longrightarrow> io_keeps P (io_wrap w m)"
  unfolding io_keeps_state by (simp add: io_wrap_def split: prod.splits sum.splits) (metis snd_conv)

lemma io_keeps_each [io_rules]: "(\<And>x. x \<in> set xs \<Longrightarrow> io_keeps P (f x)) \<Longrightarrow> io_keeps P (io_each f xs)"
  by (induction xs) (auto intro!: io_rules)

lemma io_keeps_errors [io_rules]: "(\<And>x. x \<in> set xs \<Longrightarrow> io_keeps P (f x)) \<Longrightarrow> io_keeps P (io_errors f xs)"
  by (induction xs) (auto intro!: io_rules)

lemma io_keeps_if [io_rules]: "io_keeps P m \<Longrightarrow> io_keeps P n \<Longrightarrow> io_keeps P (if b then m else n)"
  by simp

section \<open>The text of an error\<close>

text \<open>
  \<open>err.Error()\<close>, with the arguments of a format left as its verbs and a wrapped error (\<open>%w\<close>) written
  out.
\<close>

fun ErrorText :: "go_error \<Rightarrow> string" where
  "ErrorText (ENotFound n) = n @ '' not found''"
| "ErrorText (EAlreadyExists n) = n @ '' already exists''"
| "ErrorText (ELinkNotFound n) = ''Link '' @ n @ '' not found''"
| "ErrorText (Errno n) = n"
| "ErrorText (EOther n) = n"
| "ErrorText (Errorf f) = f"
| "ErrorText (Wrapf f e) = (case Cut f ''%w'' of Some (b, a) \<Rightarrow> b @ ErrorText e @ a | None \<Rightarrow> f)"
| "ErrorText (GoPanic n) = n"

text \<open>\<open>panic(err)\<close>, also for \<open>logrus.Fatalf\<close>: both end the program.\<close>

definition panic_with :: "go_error \<Rightarrow> go_error" where
  "panic_with e = (if is_panic e then e else GoPanic (ErrorText e))"

definition EEXIST :: go_error where "EEXIST = Errno ''file exists''"

definition ESRCH :: go_error where "ESRCH = Errno ''no such process''"

text \<open>\<open>strings.ToLower\<close> and \<open>strings.Contains\<close>, on ASCII text.\<close>

definition lower_char :: "char \<Rightarrow> char" where
  "lower_char c = (let n = (of_char c :: nat) in if 65 \<le> n \<and> n \<le> 90 then char_of (n + 32) else c)"

definition ToLower :: "string \<Rightarrow> string" where "ToLower s = map lower_char s"

definition Contains :: "string \<Rightarrow> string \<Rightarrow> bool" where "Contains s t = (Cut s t \<noteq> None)"

end
