(* ===== verification/Netlink.thy ===== *)
theory Netlink
  imports Go_Io
begin

text \<open>
  The node's kernel as the agent sees it: the types of \<open>github.com/vishvananda/netlink\<close> that the
  code reads, and the calls it makes, as a record of functions over an unknown kernel state. The
  code under \<open>pkg/network\<close> is defined for every such record. What it relies on is stated by the
  locale \<open>kernel\<close> over a view of the state (names, masters, administrative state, VLAN filters
  and IPv4 addresses of the interfaces): the documented effect of a call that succeeds, and that
  a call that fails changes nothing the view shows. The theory \<open>Ref_Kernel\<close> gives a kernel that
  satisfies these laws.
\<close>

section \<open>Links\<close>

datatype OperState =
    OperUnknown | OperNotPresent | OperDown | OperLowerLayerDown | OperTesting | OperDormant | OperUp

text \<open>\<open>netlink.LinkAttrs\<close>; \<open>at_HardwareAddr\<close> is its text and \<open>at_FlagUp\<close> is \<open>Flags & net.FlagUp != 0\<close>.\<close>

record NlAttrs =
  at_Index :: int
  at_MTU :: int
  at_TxQLen :: int
  at_Name :: string
  at_HardwareAddr :: string
  at_FlagUp :: bool
  at_ParentIndex :: int
  at_MasterIndex :: int
  at_OperState :: OperState
  at_EncapType :: string
  at_Promisc :: int

definition attrs0 :: NlAttrs where
  "attrs0 = \<lparr>at_Index = 0, at_MTU = 0, at_TxQLen = 0, at_Name = [], at_HardwareAddr = [], at_FlagUp = False,
             at_ParentIndex = 0, at_MasterIndex = 0, at_OperState = OperUnknown, at_EncapType = [], at_Promisc = 0\<rparr>"

text \<open>\<open>netlink.NewLinkAttrs\<close>.\<close>

definition NewLinkAttrs :: NlAttrs where "NewLinkAttrs = attrs0\<lparr>at_TxQLen := -1\<rparr>"

record NlBond =
  bd_attrs :: NlAttrs
  bd_Mode :: int
  bd_Miimon :: int

record NlBridge =
  bg_attrs :: NlAttrs
  bg_VlanFiltering :: "bool option"

text \<open>A \<open>netlink.Link\<close>: the dynamic types the code asserts, and any other with its \<open>Type()\<close>.\<close>

datatype nl_link =
    LBond NlBond
  | LBridge NlBridge
  | LVlan NlAttrs int
  | LOther string NlAttrs

fun Attrs :: "nl_link \<Rightarrow> NlAttrs" where
  "Attrs (LBond b) = bd_attrs b"
| "Attrs (LBridge b) = bg_attrs b"
| "Attrs (LVlan a i) = a"
| "Attrs (LOther t a) = a"

fun Type :: "nl_link \<Rightarrow> string" where
  "Type (LBond b) = ''bond''"
| "Type (LBridge b) = ''bridge''"
| "Type (LVlan a i) = ''vlan''"
| "Type (LOther t a) = t"

fun map_attrs :: "(NlAttrs \<Rightarrow> NlAttrs) \<Rightarrow> nl_link \<Rightarrow> nl_link" where
  "map_attrs f (LBond b) = LBond (b\<lparr>bd_attrs := f (bd_attrs b)\<rparr>)"
| "map_attrs f (LBridge b) = LBridge (b\<lparr>bg_attrs := f (bg_attrs b)\<rparr>)"
| "map_attrs f (LVlan a i) = LVlan (f a) i"
| "map_attrs f (LOther t a) = LOther t (f a)"

lemma Attrs_map [simp]: "Attrs (map_attrs f l) = f (Attrs l)"
  by (cases l) simp_all

abbreviation link_Name :: "nl_link \<Rightarrow> string" where "link_Name l \<equiv> at_Name (Attrs l)"
abbreviation link_Index :: "nl_link \<Rightarrow> int" where "link_Index l \<equiv> at_Index (Attrs l)"
abbreviation link_Master :: "nl_link \<Rightarrow> int" where "link_Master l \<equiv> at_MasterIndex (Attrs l)"

text \<open>Bond modes: the constants, \<open>netlink.NewLinkBond\<close>, \<open>StringToBondMode\<close> and \<open>BondMode.String\<close>.\<close>

definition bond_modes :: "(string \<times> int) list" where
  "bond_modes = [(''balance-rr'', 0), (''active-backup'', 1), (''balance-xor'', 2), (''broadcast'', 3),
                 (''802.3ad'', 4), (''balance-tlb'', 5), (''balance-alb'', 6)]"

definition BOND_MODE_ACTIVE_BACKUP :: int where "BOND_MODE_ACTIVE_BACKUP = 1"
definition BOND_MODE_UNKNOWN :: int where "BOND_MODE_UNKNOWN = 7"

definition StringToBondMode :: "string \<Rightarrow> int" where
  "StringToBondMode s = (case map_of bond_modes s of Some m \<Rightarrow> m | None \<Rightarrow> BOND_MODE_UNKNOWN)"

definition BondModeString :: "int \<Rightarrow> string" where
  "BondModeString m =
     (case map_of (map (\<lambda>(s, i). (i, s)) bond_modes) m of Some s \<Rightarrow> s | None \<Rightarrow> ''BondMode('' @ Itoa m @ '')'')"

definition NewLinkBond :: "NlAttrs \<Rightarrow> NlBond" where
  "NewLinkBond a = \<lparr>bd_attrs = a, bd_Mode = -1, bd_Miimon = -1\<rparr>"

lemma bond_mode_roundtrip: "0 \<le> m \<Longrightarrow> m \<le> 6 \<Longrightarrow> StringToBondMode (BondModeString m) = m"
proof -
  assume "0 \<le> m" "m \<le> 6"
  then have "m \<in> {0, 1, 2, 3, 4, 5, 6}" by auto
  then show ?thesis by (auto simp: StringToBondMode_def BondModeString_def bond_modes_def)
qed

section \<open>Addresses and routes\<close>

record Addr =
  ad_IP :: string
  ad_Prefix :: nat

text \<open>\<open>netlink.Route\<close>: a nil gateway or destination is \<open>None\<close>; a destination is written as a CIDR.\<close>

record Route =
  rt_LinkIndex :: int
  rt_Dst :: "string option"
  rt_Gw :: "string option"
  rt_Protocol :: int

section \<open>The calls\<close>

record 'k netlink =
  LinkByName :: "string \<Rightarrow> ('k, nl_link) io"
  LinkList :: "('k, nl_link list) io"
  LinkListSafe :: "('k, nl_link list) io"
  LinkAdd :: "nl_link \<Rightarrow> ('k, unit) io"
  LinkDel :: "nl_link \<Rightarrow> ('k, unit) io"
  LinkSetUp :: "nl_link \<Rightarrow> ('k, unit) io"
  LinkSetDown :: "nl_link \<Rightarrow> ('k, unit) io"
  LinkSetMaster :: "nl_link \<Rightarrow> nl_link \<Rightarrow> ('k, unit) io"
  LinkSetNoMaster :: "nl_link \<Rightarrow> ('k, unit) io"
  LinkSetBondSlave :: "nl_link \<Rightarrow> NlBond \<Rightarrow> ('k, unit) io"
  BridgeVlanAdd :: "nl_link \<Rightarrow> 16 word \<Rightarrow> bool \<Rightarrow> bool \<Rightarrow> bool \<Rightarrow> bool \<Rightarrow> ('k, unit) io"
  BridgeVlanDel :: "nl_link \<Rightarrow> 16 word \<Rightarrow> bool \<Rightarrow> bool \<Rightarrow> bool \<Rightarrow> bool \<Rightarrow> ('k, unit) io"
  BridgeVlanList :: "('k, 32 word \<rightharpoonup> 16 word list) io"
  SetPromiscOn :: "nl_link \<Rightarrow> ('k, unit) io"
  BridgeSetVlanFiltering :: "NlBridge \<Rightarrow> bool \<Rightarrow> ('k, unit) io"
  AddrList :: "nl_link \<Rightarrow> ('k, Addr list) io"
  AddrReplace :: "nl_link \<Rightarrow> Addr \<Rightarrow> ('k, unit) io"
  AddrDel :: "nl_link \<Rightarrow> Addr \<Rightarrow> ('k, unit) io"
  ParseAddr :: "string \<Rightarrow> Addr res"
  RouteList :: "('k, Route list) io"
  RouteGet :: "string \<Rightarrow> ('k, Route list) io"
  RouteAdd :: "Route \<Rightarrow> ('k, unit) io"
  RouteDel :: "Route \<Rightarrow> ('k, unit) io"
  NetParseCIDR :: "string \<Rightarrow> (string \<times> string) res"
  sysctlGet :: "string \<Rightarrow> ('k, string) io"
  sysctlSet :: "string \<Rightarrow> string \<Rightarrow> ('k, unit) io"
  iptNew :: "('k, unit) io"
  iptList :: "string \<Rightarrow> string \<Rightarrow> ('k, string list) io"
  iptAppendUnique :: "string \<Rightarrow> string \<Rightarrow> string list \<Rightarrow> ('k, unit) io"
  iptDeleteIfExists :: "string \<Rightarrow> string \<Rightarrow> string list \<Rightarrow> ('k, unit) io"
  map_order :: "string list \<Rightarrow> string list"

text \<open>
  \<open>map_order\<close> is not a kernel call: it is the order in which a \<open>range\<close> over a Go map visits the keys,
  which the language leaves open.
\<close>

section \<open>The laws of the kernel\<close>

text \<open>
  What the code can observe of the interfaces: per interface index its name, its master (0 for
  none), whether it is up (administratively or operationally) and its IPv4 addresses, and per
  32-bit index the ids of its VLAN filter.
\<close>

record netview =
  nv_name :: "int \<rightharpoonup> string"
  nv_master :: "int \<Rightarrow> int"
  nv_up :: "int \<Rightarrow> bool"
  nv_vlans :: "32 word \<Rightarrow> 16 word set"
  nv_addrs :: "int \<Rightarrow> Addr set"

definition is_up :: "nl_link \<Rightarrow> bool" where
  "is_up l = (at_OperState (Attrs l) = OperUp \<or> at_FlagUp (Attrs l))"

definition vlan_key :: "nl_link \<Rightarrow> 32 word" where "vlan_key l = word_of_int (link_Index l)"

definition sees :: "netview \<Rightarrow> nl_link \<Rightarrow> bool" where
  "sees v l \<longleftrightarrow> link_Index l \<noteq> 0 \<and> nv_name v (link_Index l) = Some (link_Name l)
             \<and> nv_master v (link_Index l) = link_Master l \<and> nv_up v (link_Index l) = is_up l"

text \<open>A call fails and changes nothing, or succeeds with an effect \<open>R\<close> on the view.\<close>

definition call_law :: "('k \<Rightarrow> netview) \<Rightarrow> ('k, 'a) io \<Rightarrow> (netview \<Rightarrow> 'a \<Rightarrow> netview \<Rightarrow> bool) \<Rightarrow> bool" where
  "call_law view m R \<longleftrightarrow>
     (\<forall>k. case m k of (Inr x, k') \<Rightarrow> R (view k) x (view k') | (Inl e, k') \<Rightarrow> view k' = view k \<and> \<not> is_panic e)"

definition eff_read :: "(netview \<Rightarrow> 'a \<Rightarrow> bool) \<Rightarrow> netview \<Rightarrow> 'a \<Rightarrow> netview \<Rightarrow> bool" where
  "eff_read P v x v' \<longleftrightarrow> v' = v \<and> P v x"

text \<open>An effect on the interface \<open>i\<close> alone.\<close>

definition only_at :: "int \<Rightarrow> netview \<Rightarrow> netview \<Rightarrow> bool" where
  "only_at i v v' \<longleftrightarrow> (\<forall>j. j \<noteq> i \<longrightarrow> nv_name v' j = nv_name v j \<and> nv_master v' j = nv_master v j
       \<and> nv_up v' j = nv_up v j \<and> nv_addrs v' j = nv_addrs v j)
     \<and> (\<forall>w. w \<noteq> word_of_int i \<longrightarrow> nv_vlans v' w = nv_vlans v w)"

definition eff_add :: "nl_link \<Rightarrow> netview \<Rightarrow> unit \<Rightarrow> netview \<Rightarrow> bool" where
  "eff_add l v x v' \<longleftrightarrow> link_Name l \<notin> ran (nv_name v) \<and>
     (\<exists>i. i \<noteq> 0 \<and> nv_name v i = None \<and> nv_name v' i = Some (link_Name l) \<and> nv_master v' i = link_Master l
        \<and> only_at i v v')"

definition eff_del :: "nl_link \<Rightarrow> netview \<Rightarrow> unit \<Rightarrow> netview \<Rightarrow> bool" where
  "eff_del l v x v' \<longleftrightarrow> (link_Index l \<noteq> 0 \<longrightarrow>
     nv_name v' (link_Index l) = None \<and> (\<forall>j. nv_name v' j \<in> {None, nv_name v j})
     \<and> (\<forall>j. j \<noteq> link_Index l \<longrightarrow> nv_master v' j = (if nv_master v j = link_Index l then 0 else nv_master v j)))"

text \<open>\<open>LinkSetUp\<close> is also called with a link just added, whose index the library looks up by name.\<close>

definition eff_up :: "nl_link \<Rightarrow> netview \<Rightarrow> unit \<Rightarrow> netview \<Rightarrow> bool" where
  "eff_up l v x v' \<longleftrightarrow>
     (\<exists>i. (if link_Index l \<noteq> 0 then i = link_Index l else nv_name v i = Some (link_Name l))
        \<and> v' = v\<lparr>nv_up := (nv_up v)(i := True)\<rparr>)"

definition eff_down :: "nl_link \<Rightarrow> netview \<Rightarrow> unit \<Rightarrow> netview \<Rightarrow> bool" where
  "eff_down l v x v' \<longleftrightarrow> (link_Index l \<noteq> 0 \<longrightarrow> v' = v\<lparr>nv_up := (nv_up v)(link_Index l := False)\<rparr>)"

text \<open>
  Setting or clearing a master keeps the interface's name; it may bring the interface up or down and
  resets its VLAN filter.
\<close>

definition eff_master :: "nl_link \<Rightarrow> int \<Rightarrow> netview \<Rightarrow> unit \<Rightarrow> netview \<Rightarrow> bool" where
  "eff_master l m v x v' \<longleftrightarrow> (link_Index l \<noteq> 0 \<longrightarrow>
     nv_master v' (link_Index l) = m \<and> nv_name v' = nv_name v \<and> only_at (link_Index l) v v')"

definition eff_vlan :: "nl_link \<Rightarrow> (16 word set \<Rightarrow> 16 word set) \<Rightarrow> netview \<Rightarrow> unit \<Rightarrow> netview \<Rightarrow> bool" where
  "eff_vlan l f v x v' \<longleftrightarrow> v' = v\<lparr>nv_vlans := (nv_vlans v)(vlan_key l := f (nv_vlans v (vlan_key l)))\<rparr>"

definition eff_addr :: "nl_link \<Rightarrow> (Addr set \<Rightarrow> Addr set) \<Rightarrow> netview \<Rightarrow> unit \<Rightarrow> netview \<Rightarrow> bool" where
  "eff_addr l f v x v' \<longleftrightarrow> (link_Index l \<noteq> 0 \<longrightarrow>
     v' = v\<lparr>nv_addrs := (nv_addrs v)(link_Index l := f (nv_addrs v (link_Index l)))\<rparr>)"

definition lists_links :: "netview \<Rightarrow> nl_link list \<Rightarrow> bool" where
  "lists_links v ls \<longleftrightarrow> (\<forall>l \<in> set ls. sees v l) \<and> link_Index ` set ls = dom (nv_name v)"

definition lists_vlans :: "netview \<Rightarrow> (32 word \<rightharpoonup> 16 word list) \<Rightarrow> bool" where
  "lists_vlans v m \<longleftrightarrow> (\<forall>w. set (case m w of None \<Rightarrow> [] | Some xs \<Rightarrow> xs) = nv_vlans v w)"

text \<open>
  The calls the proofs use. Names are unique, and an interface has no alternative names. \<open>map_order\<close>
  visits every key once.
\<close>

locale kernel =
  fixes nl :: "'k netlink" and view :: "'k \<Rightarrow> netview"
  assumes names_inj: "nv_name (view k) i = Some n \<Longrightarrow> nv_name (view k) j = Some n \<Longrightarrow> i = j"
    and byname_law: "call_law view (LinkByName nl n) (eff_read (\<lambda>v l. sees v l \<and> link_Name l = n))"
    and byname_none: "LinkByName nl n k = (Inl e, k') \<Longrightarrow> IsLinkNotFound e \<Longrightarrow> n \<notin> ran (nv_name (view k))"
    and list_law: "call_law view (LinkList nl) (eff_read lists_links)"
    and listsafe_law: "call_law view (LinkListSafe nl) (eff_read lists_links)"
    and add_law: "call_law view (LinkAdd nl l) (eff_add l)"
    and del_law: "call_law view (LinkDel nl l) (eff_del l)"
    and up_law: "call_law view (LinkSetUp nl l) (eff_up l)"
    and down_law: "call_law view (LinkSetDown nl l) (eff_down l)"
    and master_law: "call_law view (LinkSetMaster nl l m) (eff_master l (link_Index m))"
    and nomaster_law: "call_law view (LinkSetNoMaster nl l) (eff_master l 0)"
    and slave_law: "call_law view (LinkSetBondSlave nl l b) (eff_master l (at_Index (bd_attrs b)))"
    and vlan_add_law: "call_law view (BridgeVlanAdd nl l vid' pvid untagged self mst) (eff_vlan l (insert vid'))"
    and vlan_del_law: "call_law view (BridgeVlanDel nl l vid' pvid untagged self mst) (eff_vlan l (\<lambda>A. A - {vid'}))"
    and vlan_list_law: "call_law view (BridgeVlanList nl) (eff_read lists_vlans)"
    and promisc_law: "call_law view (SetPromiscOn nl l) (eff_read (\<lambda>_ _. True))"
    and filtering_law: "call_law view (BridgeSetVlanFiltering nl br on) (eff_read (\<lambda>_ _. True))"
    and addr_list_law: "call_law view (AddrList nl l) (eff_read (\<lambda>v as. link_Index l \<noteq> 0 \<longrightarrow> set as = nv_addrs v (link_Index l)))"
    and addr_replace_law: "call_law view (AddrReplace nl l a) (eff_addr l (insert a))"
    and addr_del_law: "call_law view (AddrDel nl l a) (eff_addr l (\<lambda>A. A - {a}))"
    and map_order: "set (map_order nl ns) = set ns \<and> (distinct ns \<longrightarrow> distinct (map_order nl ns))"

lemma call_lawD:
  assumes "call_law view m R"
  shows "m k = (Inr x, k') \<Longrightarrow> R (view k) x (view k')" "m k = (Inl e, k') \<Longrightarrow> view k' = view k \<and> \<not> is_panic e"
  using assms unfolding call_law_def by (auto dest!: spec [of _ k])

text \<open>Hoare rules for a call: from a known view, and for a property of the view.\<close>

lemma call_post:
  assumes "call_law view m R"
  shows "io_post (\<lambda>k. P (view k)) m (\<lambda>x k. \<exists>v. P v \<and> R v x (view k)) (\<lambda>e k. P (view k))"
  using call_lawD [OF assms] by (auto simp: io_post_cases)

lemma read_post:
  assumes "call_law view m (eff_read R)"
  shows "io_post (\<lambda>k. P (view k)) m (\<lambda>x k. P (view k) \<and> R (view k) x) (\<lambda>e k. P (view k))"
  using call_lawD [OF assms] by (auto simp: io_post_cases eff_read_def)

lemma call_keeps:
  assumes "call_law view m R" "\<And>v x v'. P v \<Longrightarrow> R v x v' \<Longrightarrow> P v'"
  shows "io_keeps (\<lambda>k. P (view k)) m"
  unfolding io_keeps_def io_post_cases using call_lawD [OF assms(1)] assms(2) by metis

end
