(* ===== verification/Ref_Kernel.thy ===== *)
theory Ref_Kernel
  imports Netlink
begin

text \<open>
  A reference kernel that satisfies the laws of the locale \<open>kernel\<close>: interfaces as a list, VLAN filters
  and addresses as lists of entries, and a script of failures. Each call takes the next entry of the
  script and fails with it when it is an error (a panic and a link that is not found are not failures
  to inject). Reading the table drops entries that repeat an index or a name.
\<close>

record ref_state =
  rs_links :: "nl_link list"
  rs_vlans :: "(32 word \<times> 16 word) list"
  rs_addrs :: "(int \<times> Addr) list"
  rs_script :: "go_error option list"

fun link_table :: "nl_link list \<Rightarrow> nl_link list" where
  "link_table [] = []"
| "link_table (l # ls) =
     (if link_Index l = 0 \<or> link_Index l \<in> link_Index ` set (link_table ls)
         \<or> link_Name l \<in> link_Name ` set (link_table ls)
      then link_table ls else l # link_table ls)"

definition table_ok :: "nl_link list \<Rightarrow> bool" where
  "table_ok t \<longleftrightarrow> distinct (map link_Index t) \<and> distinct (map link_Name t) \<and> 0 \<notin> link_Index ` set t"

lemma table_ok_table [simp]: "table_ok (link_table ls)"
  by (induction ls) (auto simp: table_ok_def)

lemma table_idem [simp]: "table_ok t \<Longrightarrow> link_table t = t"
  by (induction t) (auto simp: table_ok_def)

abbreviation rs_table :: "ref_state \<Rightarrow> nl_link list" where "rs_table s \<equiv> link_table (rs_links s)"

definition link_at :: "ref_state \<Rightarrow> int \<Rightarrow> nl_link option" where
  "link_at s i = find (\<lambda>l. link_Index l = i) (rs_table s)"

definition ref_view :: "ref_state \<Rightarrow> netview" where
  "ref_view s =
     \<lparr>nv_name = (\<lambda>i. map_option link_Name (link_at s i)),
      nv_master = (\<lambda>i. case link_at s i of None \<Rightarrow> 0 | Some l \<Rightarrow> link_Master l),
      nv_up = (\<lambda>i. case link_at s i of None \<Rightarrow> False | Some l \<Rightarrow> is_up l),
      nv_vlans = (\<lambda>w. {v. (w, v) \<in> set (rs_vlans s)}),
      nv_addrs = (\<lambda>i. {a. (i, a) \<in> set (rs_addrs s)})\<rparr>"

definition scripted :: "(ref_state, 'a) io \<Rightarrow> (ref_state, 'a) io" where
  "scripted m s =
     (case rs_script s of
        [] \<Rightarrow> m s
      | r # rs \<Rightarrow>
          (case r of
             Some e \<Rightarrow> if is_panic e \<or> IsLinkNotFound e then m (s\<lparr>rs_script := rs\<rparr>) else (Inl e, s\<lparr>rs_script := rs\<rparr>)
           | None \<Rightarrow> m (s\<lparr>rs_script := rs\<rparr>)))"

definition ref_find :: "(nl_link \<Rightarrow> bool) \<Rightarrow> string \<Rightarrow> (ref_state, nl_link) io" where
  "ref_find p n s = (case find p (rs_table s) of None \<Rightarrow> (Inl (ELinkNotFound n), s) | Some l \<Rightarrow> (Inr l, s))"

text \<open>Changes of one interface, found by its index, or by its name when the caller has no index.\<close>

definition ref_change :: "nl_link \<Rightarrow> (NlAttrs \<Rightarrow> NlAttrs) \<Rightarrow> (ref_state, unit) io" where
  "ref_change l f s =
     (case find (\<lambda>x. if link_Index l \<noteq> 0 then link_Index x = link_Index l else link_Name x = link_Name l) (rs_table s) of
        None \<Rightarrow> (Inl (Errno ''no such device''), s)
      | Some x \<Rightarrow>
          (Inr (), s\<lparr>rs_links := map (\<lambda>y. if link_Index y = link_Index x then map_attrs f y else y) (rs_table s)\<rparr>))"

definition ref_add :: "nl_link \<Rightarrow> (ref_state, unit) io" where
  "ref_add l s =
     (if link_Name l \<in> link_Name ` set (rs_table s) then (Inl EEXIST, s)
      else (Inr (), s\<lparr>rs_links := map_attrs (\<lambda>a. a\<lparr>at_Index := 1 + fold max (map link_Index (rs_table s)) 0\<rparr>) l # rs_table s\<rparr>))"

definition ref_del :: "nl_link \<Rightarrow> (ref_state, unit) io" where
  "ref_del l s =
     (if link_Index l \<notin> link_Index ` set (rs_table s) then (Inl (Errno ''no such device''), s)
      else (Inr (), s\<lparr>rs_links := map (map_attrs (\<lambda>a. if at_MasterIndex a = link_Index l then a\<lparr>at_MasterIndex := 0\<rparr> else a))
                          (filter (\<lambda>y. link_Index y \<noteq> link_Index l) (rs_table s))\<rparr>))"

definition ref_netlink :: "ref_state netlink" where
  "ref_netlink =
     \<lparr>LinkByName = (\<lambda>n. scripted (ref_find (\<lambda>l. link_Name l = n) n)),
      LinkList = scripted (\<lambda>s. (Inr (rs_table s), s)),
      LinkListSafe = scripted (\<lambda>s. (Inr (rs_table s), s)),
      LinkAdd = (\<lambda>l. scripted (ref_add l)),
      LinkDel = (\<lambda>l. scripted (ref_del l)),
      LinkSetUp = (\<lambda>l. scripted (ref_change l (\<lambda>a. a\<lparr>at_FlagUp := True, at_OperState := OperUp\<rparr>))),
      LinkSetDown = (\<lambda>l. scripted (ref_change l (\<lambda>a. a\<lparr>at_FlagUp := False, at_OperState := OperDown\<rparr>))),
      LinkSetMaster = (\<lambda>l m. scripted (ref_change l (\<lambda>a. a\<lparr>at_MasterIndex := link_Index m\<rparr>))),
      LinkSetNoMaster = (\<lambda>l. scripted (ref_change l (\<lambda>a. a\<lparr>at_MasterIndex := 0\<rparr>))),
      LinkSetBondSlave = (\<lambda>l b. scripted (ref_change l (\<lambda>a. a\<lparr>at_MasterIndex := at_Index (bd_attrs b)\<rparr>))),
      BridgeVlanAdd = (\<lambda>l v _ _ _ _. scripted (\<lambda>s. (Inr (), s\<lparr>rs_vlans := (vlan_key l, v) # rs_vlans s\<rparr>))),
      BridgeVlanDel = (\<lambda>l v _ _ _ _. scripted (\<lambda>s. (Inr (), s\<lparr>rs_vlans := filter (\<lambda>e. e \<noteq> (vlan_key l, v)) (rs_vlans s)\<rparr>))),
      BridgeVlanList = scripted (\<lambda>s. (Inr (\<lambda>w. if w \<in> fst ` set (rs_vlans s)
                                               then Some (map snd (filter (\<lambda>e. fst e = w) (rs_vlans s))) else None), s)),
      SetPromiscOn = (\<lambda>l. scripted (\<lambda>s. (Inr (), s))),
      BridgeSetVlanFiltering = (\<lambda>b on. scripted (\<lambda>s. (Inr (), s))),
      AddrList = (\<lambda>l. scripted (\<lambda>s. (Inr (map snd (filter (\<lambda>e. fst e = link_Index l) (rs_addrs s))), s))),
      AddrReplace = (\<lambda>l a. scripted (\<lambda>s. (Inr (), s\<lparr>rs_addrs := (link_Index l, a) # rs_addrs s\<rparr>))),
      AddrDel = (\<lambda>l a. scripted (\<lambda>s. (Inr (), s\<lparr>rs_addrs := filter (\<lambda>e. e \<noteq> (link_Index l, a)) (rs_addrs s)\<rparr>))),
      ParseAddr = (\<lambda>t. case Split CHR ''/'' t of [ip, p] \<Rightarrow> bind_res (Atoi p) id (\<lambda>n. Inr \<lparr>ad_IP = ip, ad_Prefix = nat n\<rparr>)
                                 | _ \<Rightarrow> Inl (EOther ''invalid CIDR address'')),
      RouteList = scripted (\<lambda>s. (Inr [], s)),
      RouteGet = (\<lambda>ip. scripted (\<lambda>s. (Inr [], s))),
      RouteAdd = (\<lambda>r. scripted (\<lambda>s. (Inr (), s))),
      RouteDel = (\<lambda>r. scripted (\<lambda>s. (Inr (), s))),
      NetParseCIDR = (\<lambda>t. case Split CHR ''/'' t of [ip, p] \<Rightarrow> Inr (ip, t) | _ \<Rightarrow> Inl (EOther ''invalid CIDR address'')),
      sysctlGet = (\<lambda>n. scripted (\<lambda>s. (Inr ''0'', s))),
      sysctlSet = (\<lambda>n v. scripted (\<lambda>s. (Inr (), s))),
      iptNew = scripted (\<lambda>s. (Inr (), s)),
      iptList = (\<lambda>t c. scripted (\<lambda>s. (Inr [], s))),
      iptAppendUnique = (\<lambda>t c r. scripted (\<lambda>s. (Inr (), s))),
      iptDeleteIfExists = (\<lambda>t c r. scripted (\<lambda>s. (Inr (), s))),
      map_order = id\<rparr>"

lemma ref_view_script [simp]: "ref_view (s\<lparr>rs_script := r\<rparr>) = ref_view s"
  by (simp add: ref_view_def link_at_def)

lemma scripted_law:
  assumes "\<And>k. case m k of (Inr x, k') \<Rightarrow> R (ref_view k) x (ref_view k')
                          | (Inl e, k') \<Rightarrow> ref_view k' = ref_view k \<and> \<not> is_panic e"
  shows "call_law ref_view (scripted m) R"
proof -
  have "case m (k\<lparr>rs_script := r\<rparr>) of (Inr x, k') \<Rightarrow> R (ref_view k) x (ref_view k')
                          | (Inl e, k') \<Rightarrow> ref_view k' = ref_view k \<and> \<not> is_panic e" for k r
    using assms [of "k\<lparr>rs_script := r\<rparr>"] unfolding ref_view_script .
  with assms show ?thesis by (auto simp: call_law_def scripted_def split: list.split option.split)
qed

lemma link_at_Some: "link_at s i = Some l \<longleftrightarrow> l \<in> set (rs_table s) \<and> link_Index l = i"
proof -
  have "distinct (map link_Index t) \<Longrightarrow> find (\<lambda>l. link_Index l = i) t = Some l \<longleftrightarrow> l \<in> set t \<and> link_Index l = i" for t
    by (induction t) (auto simp: image_iff)
  then show ?thesis using table_ok_table [of "rs_links s"] by (simp add: link_at_def table_ok_def)
qed

lemma link_at_None: "link_at s i = None \<longleftrightarrow> i \<notin> link_Index ` set (rs_table s)"
  by (auto simp: link_at_def find_None_iff)

lemma table_member: "l \<in> set (rs_table s) \<Longrightarrow> link_at s (link_Index l) = Some l"
  by (simp add: link_at_Some)

lemma table_name_unique: "x \<in> set (rs_table s) \<Longrightarrow> y \<in> set (rs_table s) \<Longrightarrow> link_Name x = link_Name y \<Longrightarrow> x = y"
  using table_ok_table [of "rs_links s"] by (auto simp: table_ok_def distinct_map dest: inj_onD)

lemma ref_sees: "l \<in> set (rs_table s) \<Longrightarrow> sees (ref_view s) l"
  using table_ok_table [of "rs_links s"] by (force simp: sees_def ref_view_def table_member table_ok_def)

lemma ref_dom: "dom (nv_name (ref_view s)) = link_Index ` set (rs_table s)"
  by (auto simp: ref_view_def link_at_Some dom_def)

lemma ref_ran: "n \<in> ran (nv_name (ref_view s)) \<longleftrightarrow> n \<in> link_Name ` set (rs_table s)"
  by (force simp: ref_view_def link_at_Some ran_def image_iff)

lemma ref_change_at:
  assumes "ref_change l f s = (Inr (), s')" "\<And>a. at_Index (f a) = at_Index a" "\<And>a. at_Name (f a) = at_Name a"
  obtains x where "x \<in> set (rs_table s)"
    "if link_Index l \<noteq> 0 then link_Index x = link_Index l else link_Name x = link_Name l"
    "\<And>j. link_at s' j = (if j = link_Index x then Some (map_attrs f x) else link_at s j)"
    "rs_vlans s' = rs_vlans s" "rs_addrs s' = rs_addrs s"
proof -
  from assms(1) obtain x where fx:
    "find (\<lambda>x. if link_Index l \<noteq> 0 then link_Index x = link_Index l else link_Name x = link_Name l) (rs_table s) = Some x"
    and s': "s' = s\<lparr>rs_links := map (\<lambda>y. if link_Index y = link_Index x then map_attrs f y else y) (rs_table s)\<rparr>"
    by (auto simp: ref_change_def simp del: if_not_P if_P split: option.splits)
  note x = find_SomeD [OF fx, THEN conjunct1] find_SomeD [OF fx, THEN conjunct2]
  let ?g = "\<lambda>y. if link_Index y = link_Index x then map_attrs f y else y"
  have same: "link_Index (?g y) = link_Index y" "link_Name (?g y) = link_Name y" for y by (simp_all add: assms)
  have "map link_Index (map ?g t) = map link_Index t" "map link_Name (map ?g t) = map link_Name t" for t
    by (simp_all add: same del: if_split)
  then have "table_ok (map ?g (rs_table s))"
    using table_ok_table [of "rs_links s"] unfolding table_ok_def by (metis image_set)
  then have tab: "rs_table s' = map ?g (rs_table s)" by (simp add: s')
  have "link_at s' j = (if j = link_Index x then Some (map_attrs f x) else link_at s j)" for j
  proof (cases "j = link_Index x")
    case True
    then show ?thesis using x(1) same(1) [of x] by (auto simp: link_at_Some tab image_iff intro!: bexI [of _ x])
  next
    case False
    have "link_at s' j = Some y \<longleftrightarrow> link_at s j = Some y" for y
      using False by (auto simp: link_at_Some tab image_iff assms)
    with False show ?thesis by (metis option.exhaust)
  qed
  with x show ?thesis using that [of x] by (simp add: s')
qed

lemma ref_find_law:
  "case ref_find p n k of
     (Inr l, k') \<Rightarrow> eff_read (\<lambda>v l. sees v l \<and> p l) (ref_view k) l (ref_view k')
   | (Inl e, k') \<Rightarrow> ref_view k' = ref_view k \<and> \<not> is_panic e"
  by (auto simp: ref_find_def eff_read_def ref_sees dest: find_SomeD split: option.splits)

text \<open>A change that keeps index and name, and its effect on the view.\<close>

lemma ref_change_law:
  assumes "\<And>a. at_Index (f a) = at_Index a" "\<And>a. at_Name (f a) = at_Name a"
    and R: "\<And>x v. x \<in> set (rs_table k) \<Longrightarrow>
      (if link_Index l \<noteq> 0 then link_Index x = link_Index l else link_Name x = link_Name l) \<Longrightarrow>
      v = (ref_view k)\<lparr>nv_master := (nv_master (ref_view k))(link_Index x := at_MasterIndex (f (Attrs x))),
               nv_up := (nv_up (ref_view k))(link_Index x := is_up (map_attrs f x))\<rparr> \<Longrightarrow> R (ref_view k) () v"
  shows "case ref_change l f k of (Inr u, k') \<Rightarrow> R (ref_view k) u (ref_view k')
                                | (Inl e, k') \<Rightarrow> ref_view k' = ref_view k \<and> \<not> is_panic e"
proof (cases "ref_change l f k")
  case (Pair r k')
  show ?thesis
  proof (cases r)
    case (Inl e)
    with Pair show ?thesis by (auto simp: ref_change_def split: option.splits)
  next
    case (Inr u)
    with Pair have "ref_change l f k = (Inr (), k')" by simp
    from ref_change_at [OF this assms(1,2)] obtain x where x: "x \<in> set (rs_table k)"
      "if link_Index l \<noteq> 0 then link_Index x = link_Index l else link_Name x = link_Name l"
      "\<And>j. link_at k' j = (if j = link_Index x then Some (map_attrs f x) else link_at k j)"
      "rs_vlans k' = rs_vlans k" "rs_addrs k' = rs_addrs k" by blast
    have "ref_view k' = (ref_view k)\<lparr>nv_master := (nv_master (ref_view k))(link_Index x := at_MasterIndex (f (Attrs x))),
               nv_up := (nv_up (ref_view k))(link_Index x := is_up (map_attrs f x))\<rparr>"
      using x(1) by (auto simp: ref_view_def x(3-5) table_member assms(2) fun_eq_iff)
    from R [OF x(1,2) this] Pair Inr show ?thesis by simp
  qed
qed

lemma ref_add_law:
  "case ref_add l k of (Inr u, k') \<Rightarrow> eff_add l (ref_view k) u (ref_view k')
                     | (Inl e, k') \<Rightarrow> ref_view k' = ref_view k \<and> \<not> is_panic e"
proof (cases "link_Name l \<in> link_Name ` set (rs_table k)")
  case False
  let ?i = "1 + fold max (map link_Index (rs_table k)) 0"
  let ?l = "map_attrs (\<lambda>a. a\<lparr>at_Index := ?i\<rparr>) l"
  let ?k = "k\<lparr>rs_links := ?l # rs_table k\<rparr>"
  have mono: "m \<le> fold max xs m \<and> (\<forall>x \<in> set xs. x \<le> fold max xs m)" for xs and m :: int
  proof (induction xs arbitrary: m)
    case (Cons a xs)
    from Cons.IH [of "max a m"] show ?case by auto
  qed simp
  have fresh: "?i \<noteq> 0" "?i \<notin> link_Index ` set (rs_table k)"
    using mono [of 0 "map link_Index (rs_table k)"] by (auto simp: image_iff)
  have tab: "rs_table ?k = ?l # rs_table k"
    using fresh False by simp
  have at: "link_at ?k j = (if j = ?i then Some ?l else link_at k j)" for j
    unfolding link_at_def tab using fresh(1) by simp
  have old: "link_at k ?i = None" using fresh by (simp add: link_at_None)
  have "eff_add l (ref_view k) () (ref_view ?k)"
    unfolding eff_add_def only_at_def using False fresh(1) old
    by (intro conjI exI [of _ ?i]) (auto simp: ref_ran, auto simp: ref_view_def at)
  with False show ?thesis by (simp add: ref_add_def)
qed (simp add: ref_add_def EEXIST_def)

lemma ref_del_law:
  "case ref_del l k of (Inr u, k') \<Rightarrow> eff_del l (ref_view k) u (ref_view k')
                     | (Inl e, k') \<Rightarrow> ref_view k' = ref_view k \<and> \<not> is_panic e"
proof (cases "link_Index l \<in> link_Index ` set (rs_table k)")
  case True
  let ?f = "\<lambda>a. if at_MasterIndex a = link_Index l then a\<lparr>at_MasterIndex := 0\<rparr> else a"
  let ?t = "map (map_attrs ?f) (filter (\<lambda>y. link_Index y \<noteq> link_Index l) (rs_table k))"
  let ?k = "k\<lparr>rs_links := ?t\<rparr>"
  have same: "link_Index (map_attrs ?f y) = link_Index y" "link_Name (map_attrs ?f y) = link_Name y" for y by simp_all
  have "map link_Index ?t = map link_Index (filter (\<lambda>y. link_Index y \<noteq> link_Index l) (rs_table k))"
    "map link_Name ?t = map link_Name (filter (\<lambda>y. link_Index y \<noteq> link_Index l) (rs_table k))"
    by simp_all
  then have "table_ok ?t" using table_ok_table [of "rs_links k"]
    unfolding table_ok_def by (metis (no_types, lifting) distinct_map_filter filter_is_subset image_mono image_set subsetD)
  then have tab: "rs_table ?k = ?t" by simp
  have at: "link_at ?k j = (if j = link_Index l then None else map_option (map_attrs ?f) (link_at k j))" for j
  proof -
    have "link_at ?k j = Some y \<longleftrightarrow> j \<noteq> link_Index l \<and> (\<exists>x. link_at k j = Some x \<and> y = map_attrs ?f x)" for y
      unfolding link_at_Some tab by (auto split: if_splits)
    then show ?thesis by (cases "link_at ?k j"; cases "link_at k j") auto
  qed
  have "eff_del l (ref_view k) () (ref_view ?k)"
    unfolding eff_del_def
  proof (intro impI conjI allI)
    fix j
    show "nv_name (ref_view ?k) j \<in> {None, nv_name (ref_view k) j}"
      by (cases "link_at k j") (simp_all add: ref_view_def at)
    assume "j \<noteq> link_Index l" "link_Index l \<noteq> 0"
    then show "nv_master (ref_view ?k) j = (if nv_master (ref_view k) j = link_Index l then 0 else nv_master (ref_view k) j)"
      by (cases "link_at k j") (simp_all add: ref_view_def at)
  qed (simp add: ref_view_def at)
  with True show ?thesis by (simp add: ref_del_def)
qed (simp add: ref_del_def)

lemma ref_list_law:
  "case (\<lambda>s. (Inr (rs_table s), s)) k of
     (Inr ls, k') \<Rightarrow> eff_read lists_links (ref_view k) ls (ref_view k')
   | (Inl e, k') \<Rightarrow> ref_view k' = ref_view k \<and> \<not> is_panic e"
  by (simp add: eff_read_def lists_links_def ref_sees ref_dom)

lemma ref_byname_none:
  assumes "scripted (ref_find (\<lambda>l. link_Name l = n) n) k = (Inl e, k')" "IsLinkNotFound e"
  shows "n \<notin> ran (nv_name (ref_view k))"
  using assms
  by (auto simp: scripted_def ref_find_def ref_ran find_None_iff image_iff split: option.splits list.splits if_splits)

lemma ref_up_law:
  "call_law ref_view (scripted (ref_change l (\<lambda>a. a\<lparr>at_FlagUp := True, at_OperState := OperUp\<rparr>))) (eff_up l)"
proof (intro scripted_law ref_change_law)
  fix k x v
  assume x: "x \<in> set (rs_table k)"
    "if link_Index l \<noteq> 0 then link_Index x = link_Index l else link_Name x = link_Name l"
    and v: "v = (ref_view k)\<lparr>nv_master := (nv_master (ref_view k))
          (link_Index x := at_MasterIndex ((Attrs x)\<lparr>at_FlagUp := True, at_OperState := OperUp\<rparr>)),
        nv_up := (nv_up (ref_view k))(link_Index x := is_up (map_attrs (\<lambda>a. a\<lparr>at_FlagUp := True, at_OperState := OperUp\<rparr>) x))\<rparr>"
  have "(nv_master (ref_view k))(link_Index x := link_Master x) = nv_master (ref_view k)"
    using ref_sees [OF x(1)] by (auto simp: sees_def)
  then have "v = (ref_view k)\<lparr>nv_up := (nv_up (ref_view k))(link_Index x := True)\<rparr>"
    by (simp add: v is_up_def)
  then show "eff_up l (ref_view k) () v"
    using x ref_sees [OF x(1)] unfolding eff_up_def by (intro exI [of _ "link_Index x"]) (auto simp: sees_def)
qed simp_all

lemma ref_down_law:
  "call_law ref_view (scripted (ref_change l (\<lambda>a. a\<lparr>at_FlagUp := False, at_OperState := OperDown\<rparr>))) (eff_down l)"
proof (intro scripted_law ref_change_law)
  fix k x v
  assume x: "x \<in> set (rs_table k)"
    "if link_Index l \<noteq> 0 then link_Index x = link_Index l else link_Name x = link_Name l"
    and v: "v = (ref_view k)\<lparr>nv_master := (nv_master (ref_view k))
          (link_Index x := at_MasterIndex ((Attrs x)\<lparr>at_FlagUp := False, at_OperState := OperDown\<rparr>)),
        nv_up := (nv_up (ref_view k))(link_Index x := is_up (map_attrs (\<lambda>a. a\<lparr>at_FlagUp := False, at_OperState := OperDown\<rparr>) x))\<rparr>"
  have "(nv_master (ref_view k))(link_Index x := link_Master x) = nv_master (ref_view k)"
    using ref_sees [OF x(1)] by (auto simp: sees_def)
  then have "v = (ref_view k)\<lparr>nv_up := (nv_up (ref_view k))(link_Index x := False)\<rparr>"
    by (simp add: v is_up_def)
  with x show "eff_down l (ref_view k) () v" by (auto simp: eff_down_def)
qed simp_all

lemma ref_master_law:
  "call_law ref_view (scripted (ref_change l (at_MasterIndex_update (\<lambda>_. m)))) (eff_master l m)"
  by (intro scripted_law ref_change_law) (auto simp: eff_master_def only_at_def)

text \<open>Calls on the VLAN filters and addresses.\<close>

lemma ref_entry_law:
  assumes "\<And>k. R (ref_view k) (r k) (ref_view (f k))"
  shows "call_law ref_view (scripted (\<lambda>s. (Inr (r s), f s))) R"
  by (rule scripted_law) (simp add: assms)

lemma ref_view_entries [simp]:
  "ref_view (s\<lparr>rs_vlans := vs\<rparr>) = (ref_view s)\<lparr>nv_vlans := (\<lambda>w. {v. (w, v) \<in> set vs})\<rparr>"
  "ref_view (s\<lparr>rs_addrs := as\<rparr>) = (ref_view s)\<lparr>nv_addrs := (\<lambda>i. {a. (i, a) \<in> set as})\<rparr>"
  by (simp_all add: ref_view_def link_at_def)

lemma ref_entries:
  "nv_vlans (ref_view s) w = {v. (w, v) \<in> set (rs_vlans s)}" "nv_addrs (ref_view s) i = {a. (i, a) \<in> set (rs_addrs s)}"
  by (simp_all add: ref_view_def)

lemma view_cong:
  "(\<And>w. f w = g w) \<Longrightarrow> v\<lparr>nv_vlans := f\<rparr> = v\<lparr>nv_vlans := g\<rparr>"
  "(\<And>i. f' i = g' i) \<Longrightarrow> v\<lparr>nv_addrs := f'\<rparr> = v\<lparr>nv_addrs := g'\<rparr>"
  by (simp_all add: ext [of f g] ext [of f' g'])

interpretation rk: kernel ref_netlink ref_view
proof
  fix k n i j
  assume "nv_name (ref_view k) i = Some n" "nv_name (ref_view k) j = Some n"
  then show "i = j" by (auto simp: ref_view_def link_at_Some dest: table_name_unique)
next
  fix n k e k'
  assume "LinkByName ref_netlink n k = (Inl e, k')" "IsLinkNotFound e"
  then show "n \<notin> ran (nv_name (ref_view k))" by (auto simp: ref_netlink_def dest: ref_byname_none)
next
  fix ns
  show "set (map_order ref_netlink ns) = set ns \<and> (distinct ns \<longrightarrow> distinct (map_order ref_netlink ns))"
    by (simp add: ref_netlink_def)
next
  fix l v b c d e
  show "call_law ref_view (BridgeVlanAdd ref_netlink l v b c d e) (eff_vlan l (insert v))"
    unfolding ref_netlink_def netlink.select_convs
    by (rule ref_entry_law) (auto simp: eff_vlan_def ref_entries intro!: view_cong split: if_splits)
  show "call_law ref_view (BridgeVlanDel ref_netlink l v b c d e) (eff_vlan l (\<lambda>A. A - {v}))"
    unfolding ref_netlink_def netlink.select_convs
    by (rule ref_entry_law) (auto simp: eff_vlan_def ref_entries intro!: view_cong split: if_splits)
next
  show "call_law ref_view (BridgeVlanList ref_netlink) (eff_read lists_vlans)"
    unfolding ref_netlink_def netlink.select_convs
    by (rule ref_entry_law) (force simp: eff_read_def lists_vlans_def ref_entries)
next
  fix l a
  show "call_law ref_view (AddrList ref_netlink l) (eff_read (\<lambda>v as. link_Index l \<noteq> 0 \<longrightarrow> set as = nv_addrs v (link_Index l)))"
    unfolding ref_netlink_def netlink.select_convs
    by (rule ref_entry_law) (force simp: eff_read_def ref_entries)
  show "call_law ref_view (AddrReplace ref_netlink l a) (eff_addr l (insert a))"
    unfolding ref_netlink_def netlink.select_convs
    by (rule ref_entry_law) (auto simp: eff_addr_def ref_entries intro!: view_cong split: if_splits)
  show "call_law ref_view (AddrDel ref_netlink l a) (eff_addr l (\<lambda>A. A - {a}))"
    unfolding ref_netlink_def netlink.select_convs
    by (rule ref_entry_law) (auto simp: eff_addr_def ref_entries intro!: view_cong split: if_splits)
qed (unfold ref_netlink_def netlink.select_convs,
     (rule scripted_law, rule ref_find_law ref_list_law ref_add_law ref_del_law |
      rule ref_up_law ref_down_law ref_master_law |
      rule scripted_law, simp add: eff_read_def)+)

end
