(* ===== verification/Iface.thy ===== *)
theory Iface
  imports Ref_Kernel Names
begin

text \<open>
  \<open>pkg/network/iface\<close> (\<open>link.go\<close>, \<open>bridge.go\<close>, \<open>vlan.go\<close>, \<open>route.go\<close>) and \<open>pkg/utils/sysctl.go\<close>:
  links, bridges, VLAN sub-interfaces and routes of the node, over the netlink calls \<open>nl\<close>. A
  method that changes its receiver (\<open>Fetch\<close>, \<open>Ensure\<close>) returns the new value of it.
\<close>

section \<open>Links\<close>

definition TypeLoopback :: string where "TypeLoopback = ''loopback''"
definition TypeBond :: string where "TypeBond = ''bond''"
definition ipv4Forward :: string where "ipv4Forward = ''net/ipv4/ip_forward''"
definition tableFilter :: string where "tableFilter = ''filter''"
definition chainForward :: string where "chainForward = ''FORWARD''"
definition defaultPVID :: "16 word" where "defaultPVID = word_of_int DefaultVlanID"
definition minVlanID :: "16 word" where "minVlanID = word_of_int MinVlanID"

definition AddBridgeVlan :: "'k netlink \<Rightarrow> nl_link \<Rightarrow> 16 word \<Rightarrow> ('k, unit) io" where
  "AddBridgeVlan nl l v =
     (if v = defaultPVID \<or> v = minVlanID then io_ret ()
      else io_wrap (render ''add iface vlan failed, error: %v, link: %s, vid: %d'')
             (BridgeVlanAdd nl l v False False False True))"

definition DelBridgeVlan :: "'k netlink \<Rightarrow> nl_link \<Rightarrow> 16 word \<Rightarrow> ('k, unit) io" where
  "DelBridgeVlan nl l v =
     (if v = defaultPVID \<or> v = minVlanID then io_ret ()
      else io_wrap (render ''delete iface vlan failed, error: %v, link: %s, vid: %d'')
             (BridgeVlanDel nl l v False False False True))"

definition AddBridgeVlanSelf :: "'k netlink \<Rightarrow> nl_link \<Rightarrow> 16 word \<Rightarrow> ('k, unit) io" where
  "AddBridgeVlanSelf nl l v =
     (if v = defaultPVID \<or> v = minVlanID then io_ret ()
      else io_wrap (render ''add iface vlan failed, error: %v, link: %s, vid: %d'')
             (BridgeVlanAdd nl l v False False True False))"

definition DelBridgeVlanSelf :: "'k netlink \<Rightarrow> nl_link \<Rightarrow> 16 word \<Rightarrow> ('k, unit) io" where
  "DelBridgeVlanSelf nl l v =
     (if v = defaultPVID \<or> v = minVlanID then io_ret ()
      else io_wrap (render ''delete iface vlan failed, error: %v, link: %s, vid: %d'')
             (BridgeVlanDel nl l v False False True False))"

text \<open>A nil slice and a nil set are \<open>None\<close>.\<close>

definition ListBridgeVlan :: "'k netlink \<Rightarrow> nl_link \<Rightarrow> ('k, 16 word list option) io" where
  "ListBridgeVlan nl l =
     io_bind (BridgeVlanList nl) (\<lambda>m.
       case m (vlan_key l) of None \<Rightarrow> io_ret None | Some vlanInfo \<Rightarrow> io_ret (Some vlanInfo))"

text \<open>The loop of \<open>ToVlanIDSet\<close> over the ids of the link.\<close>

definition set_vids :: "16 word list \<Rightarrow> VlanIDSet res" where
  "set_vids vs =
     (case fold_err (\<lambda>v vis. case SetUint16VID v vis of
                        (Some e, vis') \<Rightarrow> (Some (wrap ''failed to set link %v vid %v to vlanset, error %w'' e), vis')
                      | (None, vis') \<Rightarrow> (None, vis')) vs NewVlanIDSet of
        (Some e, _) \<Rightarrow> Inl e
      | (None, vis) \<Rightarrow> Inr vis)"

definition link_ToVlanIDSet :: "'k netlink \<Rightarrow> nl_link \<Rightarrow> ('k, VlanIDSet option) io" where
  "link_ToVlanIDSet nl l =
     io_bind (BridgeVlanList nl) (\<lambda>m.
       case m (vlan_key l) of
         None \<Rightarrow> io_ret None
       | Some vlanInfo \<Rightarrow> io_bind (io_lift (set_vids vlanInfo)) (\<lambda>vis. io_ret (Some vis)))"

definition clearMacVlan :: "'k netlink \<Rightarrow> nl_link \<Rightarrow> ('k, unit) io" where
  "clearMacVlan nl l =
     io_bind (LinkListSafe nl) (io_each (\<lambda>link.
       if at_ParentIndex (Attrs link) = link_Index l \<and> Type link = ''macvlan'' then LinkDel nl link else io_ret ()))"

definition SetMaster :: "'k netlink \<Rightarrow> nl_link \<Rightarrow> NlBridge \<Rightarrow> ('k, unit) io" where
  "SetMaster nl l br =
     (if link_Master l = at_Index (bg_attrs br) then io_ret ()
      else io_bind (clearMacVlan nl l) (\<lambda>_.
           io_wrap (wrap ''%s set %s as master failed, error: %w'') (LinkSetMaster nl l (LBridge br))))"

definition SetNoMaster :: "'k netlink \<Rightarrow> nl_link \<Rightarrow> ('k, unit) io" where
  "SetNoMaster nl l = (if link_Master l = 0 then io_ret () else LinkSetNoMaster nl l)"

definition EnsureSysctlValue :: "'k netlink \<Rightarrow> string \<Rightarrow> string \<Rightarrow> ('k, unit) io" where
  "EnsureSysctlValue nl name val =
     io_bind (sysctlGet nl name) (\<lambda>v. if v = val then io_ret () else sysctlSet nl name val)"

text \<open>\<open>strings.Fields\<close>: the maximal runs of non-space characters.\<close>

definition Fields :: "string \<Rightarrow> string list" where
  "Fields s = filter (\<lambda>w. w \<noteq> []) (Split CHR '' '' (map (\<lambda>c. if c \<in> {CHR 0x09, CHR 0x0A, CHR 0x0B, CHR 0x0C, CHR 0x0D} then CHR '' '' else c) s))"

text \<open>The loop over the rules: whether the policy of the chain accepts, from its first \<open>-P\<close> rule.\<close>

fun policy_accepts :: "string list \<Rightarrow> bool res" where
  "policy_accepts [] = Inr False"
| "policy_accepts (rule # rules) =
     (if HasPrefix rule (''-P '' @ chainForward)
      then bind_res (slice_at (Fields rule) 2) id (\<lambda>p. Inr (p = ''ACCEPT''))
      else policy_accepts rules)"

definition EnsureIptForward :: "'k netlink \<Rightarrow> nl_link \<Rightarrow> ('k, unit) io" where
  "EnsureIptForward nl l =
     io_bind (io_wrap (wrap ''enable ipv4 forward failed, error: %w'') (EnsureSysctlValue nl ipv4Forward ''1'')) (\<lambda>_.
     io_bind (iptNew nl) (\<lambda>_.
     io_bind (iptList nl tableFilter chainForward) (\<lambda>rules.
     io_bind (io_lift (policy_accepts rules)) (\<lambda>accepts.
     if accepts then io_ret ()
     else io_bind (iptAppendUnique nl tableFilter chainForward [''-i'', link_Name l, ''-j'', ''ACCEPT'']) (\<lambda>_.
          iptAppendUnique nl tableFilter chainForward [''-o'', link_Name l, ''-j'', ''ACCEPT''])))))"

definition DeleteIptForward :: "'k netlink \<Rightarrow> nl_link \<Rightarrow> ('k, unit) io" where
  "DeleteIptForward nl l =
     io_bind (iptNew nl) (\<lambda>_.
     io_bind (iptDeleteIfExists nl tableFilter chainForward [''-i'', link_Name l, ''-j'', ''ACCEPT'']) (\<lambda>_.
     iptDeleteIfExists nl tableFilter chainForward [''-o'', link_Name l, ''-j'', ''ACCEPT'']))"

definition link_Fetch :: "'k netlink \<Rightarrow> nl_link \<Rightarrow> ('k, nl_link) io" where
  "link_Fetch nl l = io_wrap (wrap ''refresh link %s failed, error: %w'') (LinkByName nl (link_Name l))"

definition ListLinks :: "'k netlink \<Rightarrow> string set \<Rightarrow> ('k, nl_link list) io" where
  "ListLinks nl typeSelector =
     io_bind (LinkListSafe nl) (\<lambda>links.
       io_ret (filter (\<lambda>l. at_EncapType (Attrs l) \<noteq> TypeLoopback \<and> Type l \<in> typeSelector) links))"

text \<open>The ids of VLAN sub-interfaces on the bridge of a cluster network.\<close>

definition manual_vid :: "string \<Rightarrow> string \<Rightarrow> 16 word list" where
  "manual_vid prefix name =
     (if \<not> HasClusterNetworkDevicePrefix name prefix then []
      else case Split CHR ''.'' name of
             [_, s] \<Rightarrow> (case Atoi s of
                 Inl e \<Rightarrow> []
               | Inr v \<Rightarrow> if v > DefaultVlanID \<and> v \<le> MaxVlanID then [word_of_int v] else [])
           | _ \<Rightarrow> [])"

definition getManuallyConfiguredVlans :: "string \<Rightarrow> nl_link list \<Rightarrow> 16 word list" where
  "getManuallyConfiguredVlans cnName links =
     concat (map (\<lambda>link. manual_vid (GetClusterNetworkDevicePrefix cnName) (link_Name link)) links)"

definition GetManuallyConfiguredVlans :: "'k netlink \<Rightarrow> string \<Rightarrow> ('k, 16 word list) io" where
  "GetManuallyConfiguredVlans nl cnName =
     io_bind (LinkListSafe nl) (\<lambda>links. io_ret (getManuallyConfiguredVlans cnName links))"

definition addrExists :: "'k netlink \<Rightarrow> nl_link \<Rightarrow> ('k, bool) io" where
  "addrExists nl link = io_bind (AddrList nl link) (\<lambda>addrs. io_ret (addrs \<noteq> []))"

fun find_mgmt_interface :: "'k netlink \<Rightarrow> nl_link list \<Rightarrow> ('k, string) io" where
  "find_mgmt_interface nl [] = io_throw (Errorf ''no management interface found'')"
| "find_mgmt_interface nl (link # links) =
     (if HasMgmtClusterNetworkVlanDevicePrefix (link_Name link) \<or> HasMgmtClusterNetworkBridgePrefix (link_Name link)
      then io_bind (addrExists nl link) (\<lambda>exists.
             if exists then io_ret (link_Name link) else find_mgmt_interface nl links)
      else find_mgmt_interface nl links)"

definition GetMgmtInterface :: "'k netlink \<Rightarrow> ('k, string) io" where
  "GetMgmtInterface nl = io_bind (LinkList nl) (find_mgmt_interface nl)"

section \<open>Bridges\<close>

definition bridgeNFCallIptables :: string where
  "bridgeNFCallIptables = ''net/bridge/bridge-nf-call-iptables''"

definition NewBridge :: "string \<Rightarrow> NlBridge" where
  "NewBridge name = \<lparr>bg_attrs = attrs0\<lparr>at_Name := name\<rparr>, bg_VlanFiltering = Some True\<rparr>"

definition bridge_Fetch :: "'k netlink \<Rightarrow> NlBridge \<Rightarrow> ('k, NlBridge) io" where
  "bridge_Fetch nl br =
     io_bind (io_wrap (wrap ''could not lookup link %s, error: %w'') (LinkByName nl (at_Name (bg_attrs br)))) (\<lambda>l.
       case l of LBridge b \<Rightarrow> io_ret b | _ \<Rightarrow> io_throw (Errorf ''%s already exists but is not a bridge''))"

definition Ensure :: "'k netlink \<Rightarrow> NlBridge \<Rightarrow> ('k, NlBridge) io" where
  "Ensure nl br =
     io_bind (io_try (LinkAdd nl (LBridge br))
                (\<lambda>e. if e = EEXIST then io_ret () else io_throw (wrap ''add iface failed, error: %w, iface: %v'' e)) io_ret) (\<lambda>_.
     io_bind (bridge_Fetch nl br) (\<lambda>br1.
     io_bind (if at_Promisc (bg_attrs br1) \<noteq> 1
              then io_wrap (wrap ''set promiscuous mode failed, error: %w, iface: %v'') (SetPromiscOn nl (LBridge br1))
              else io_ret ()) (\<lambda>_.
     io_bind (if bg_VlanFiltering br1 = Some False
              then io_wrap (wrap ''set vlan filtering failed, error: %w, iface: %v'') (BridgeSetVlanFiltering nl br1 True)
              else io_ret ()) (\<lambda>_.
     io_bind (if at_OperState (bg_attrs br1) \<noteq> OperUp then LinkSetUp nl (LBridge br1) else io_ret ()) (\<lambda>_.
     bridge_Fetch nl br1)))))"

definition DisableBridgeNF :: "'k netlink \<Rightarrow> ('k, unit) io" where
  "DisableBridgeNF nl = EnsureSysctlValue nl bridgeNFCallIptables ''0''"

section \<open>VLAN sub-interfaces\<close>

definition GetVlanSubInterfaceAndOperState :: "'k netlink \<Rightarrow> nl_link \<Rightarrow> 16 word \<Rightarrow> ('k, nl_link \<times> bool) io" where
  "GetVlanSubInterfaceAndOperState nl l v =
     io_try (LinkByName nl (GetClusterNetworkBrVlanDevice (link_Name l) v))
       (\<lambda>e. io_throw (Errorf ''get vlan subinterface failed, link: %s, vid: %d''))
       (\<lambda>vlanLink. io_ret (vlanLink, at_OperState (Attrs vlanLink) = OperUp))"

text \<open>The part after the first \<open>if\<close>: it also runs after an existing link has been set up.\<close>

definition add_vlan_link :: "'k netlink \<Rightarrow> nl_link \<Rightarrow> 16 word \<Rightarrow> ('k, unit) io" where
  "add_vlan_link nl l v =
     (let vlan = LVlan (attrs0\<lparr>at_Name := GetClusterNetworkBrVlanDevice (link_Name l) v, at_ParentIndex := link_Index l\<rparr>) (uint v) in
      io_bind (io_try (LinkAdd nl vlan)
                 (\<lambda>e. if IsErrno ''file exists'' e then io_ret ()
                      else io_throw (render ''add vlan subinterface failed, error: %v, link: %s, vid: %d'' e)) io_ret) (\<lambda>_.
      io_wrap (render ''set vlan subinterface up failed, error: %v, link: %s, vid: %d'') (LinkSetUp nl vlan)))"

definition CreateVlanSubInterface :: "'k netlink \<Rightarrow> nl_link \<Rightarrow> 16 word \<Rightarrow> ('k, unit) io" where
  "CreateVlanSubInterface nl l v =
     io_try (GetVlanSubInterfaceAndOperState nl l v)
       (\<lambda>e. add_vlan_link nl l v)
       (\<lambda>(link, operUp).
          if operUp then io_ret ()
          else io_bind (io_wrap (render ''set vlan subinterface up failed, error: %v, link: %s, vid: %d'') (LinkSetUp nl link))
                 (\<lambda>_. add_vlan_link nl l v))"

definition DelVlanSubInterface :: "'k netlink \<Rightarrow> nl_link \<Rightarrow> 16 word \<Rightarrow> ('k, unit) io" where
  "DelVlanSubInterface nl l v =
     io_try (LinkByName nl (GetClusterNetworkBrVlanDevice (link_Name l) v))
       (\<lambda>e. if IsLinkNotFound e then io_ret ()
            else io_throw (render ''finding the vlan subinterface failed, error: %v, link: %s, vid: %d'' e))
       (\<lambda>vlanLink. io_wrap (render ''delete vlan subinterface failed, error: %v, link: %s, vid: %d'') (LinkDel nl vlanLink))"

definition SetIPAddress :: "'k netlink \<Rightarrow> nl_link \<Rightarrow> string \<Rightarrow> 16 word \<Rightarrow> ('k, unit) io" where
  "SetIPAddress nl l cidr v =
     io_bind (io_wrap (render ''finding vlan subinterface failed, error: %v, link: %s, vid: %d'')
                (LinkByName nl (GetClusterNetworkBrVlanDevice (link_Name l) v))) (\<lambda>vlanLink.
     io_bind (io_lift (ParseAddr nl cidr)) (\<lambda>ipAddr.
     io_bind (io_wrap (render ''set ip address failed, error: %v, link: %s, ipNet: %v'') (AddrReplace nl vlanLink ipAddr)) (\<lambda>_.
     io_bind (AddrList nl vlanLink)
       (io_each (\<lambda>address.
          if ad_IP ipAddr \<noteq> ad_IP address
          then io_wrap (render ''delete ip address failed, error: %v, link: %s, ipNet: %v'') (AddrDel nl vlanLink address)
          else io_ret ())))))"

section \<open>Routes\<close>

definition defaultIPv4Route :: string where "defaultIPv4Route = ''0.0.0.0/0''"

text \<open>\<open>Route2String\<close> and \<open>String2Route\<close> are \<open>json.Marshal\<close> and \<open>json.Unmarshal\<close>, arguments here.\<close>

definition Route2String :: "(Route \<Rightarrow> string res) \<Rightarrow> Route \<Rightarrow> string res" where
  "Route2String marshal route = bind_res (marshal route) id Inr"

definition String2Route :: "(string \<Rightarrow> Route res) \<Rightarrow> string \<Rightarrow> Route res" where
  "String2Route unmarshal s = bind_res (unmarshal s) id Inr"

text \<open>\<open>&&\<close> binds tighter than \<open>||\<close>; the text of a nil destination is \<open>"<nil>"\<close>.\<close>

definition is_gateway_route :: "Route \<Rightarrow> bool" where
  "is_gateway_route r =
     ((rt_Gw r \<noteq> None \<and> rt_Dst r = None) \<or> (case rt_Dst r of None \<Rightarrow> ''<nil>'' | Some d \<Rightarrow> d) = defaultIPv4Route)"

definition getGateway :: "'k netlink \<Rightarrow> ('k, string option \<times> int) io" where
  "getGateway nl =
     io_bind (RouteList nl) (\<lambda>routes.
       case find is_gateway_route routes of
         None \<Rightarrow> io_ret (None, 0)
       | Some r \<Rightarrow> io_ret (rt_Gw r, rt_LinkIndex r))"

definition FAMILY_V4 :: int where "FAMILY_V4 = 2"

definition EnsureRouteViaGateway :: "'k netlink \<Rightarrow> string \<Rightarrow> ('k, unit) io" where
  "EnsureRouteViaGateway nl cidr =
     (if cidr = [] then io_ret ()
      else io_bind (io_lift (NetParseCIDR nl cidr)) (\<lambda>(ip, network).
           io_bind (getGateway nl) (\<lambda>(gateway, linkIndex).
           io_bind (RouteGet nl ip) (\<lambda>routes.
           if \<exists>r \<in> set routes. rt_Gw r \<noteq> None then io_ret ()
           else io_try (RouteAdd nl \<lparr>rt_LinkIndex = linkIndex, rt_Dst = Some network, rt_Gw = gateway, rt_Protocol = FAMILY_V4\<rparr>)
                  (\<lambda>e. if e = EEXIST then io_ret () else io_throw e) io_ret))))"

definition DeleteRouteViaGateway :: "'k netlink \<Rightarrow> string \<Rightarrow> ('k, unit) io" where
  "DeleteRouteViaGateway nl cidr =
     (if cidr = [] then io_ret ()
      else io_bind (io_lift (NetParseCIDR nl cidr)) (\<lambda>(ip, network).
           io_bind (getGateway nl) (\<lambda>(gateway, linkIndex).
           io_try (RouteDel nl \<lparr>rt_LinkIndex = linkIndex, rt_Dst = Some network, rt_Gw = gateway, rt_Protocol = 0\<rparr>)
             (\<lambda>e. if IsErrno ''no such process'' e then io_ret () else io_throw e) io_ret)))"

end
