(* ===== verification/Iface_Bond.thy ===== *)
theory Iface_Bond
  imports Iface
begin

text \<open>
  \<open>pkg/network/iface/bond.go\<close> and \<open>Link.Remove\<close>: the uplink of a cluster network is a bond. The
  theorems say what a successful \<open>EnsureBond\<close> leaves on the node, under the laws of the locale
  \<open>kernel\<close>, and what the retry loop does.
\<close>

section \<open>Retrying\<close>

definition maxRetryAttempts :: nat where "maxRetryAttempts = 2"

definition conflictIndicators :: "string list" where
  "conflictIndicators =
     [''device is busy'', ''resource temporarily unavailable'', ''operation already in progress'', ''file exists'']"

definition isKernelConflictError :: "go_error option \<Rightarrow> bool" where
  "isKernelConflictError err =
     (case err of None \<Rightarrow> False
      | Some e \<Rightarrow> list_ex (Contains (ToLower (ErrorText e))) conflictIndicators)"

text \<open>
  \<open>for attempt := 1; attempt <= maxRetryAttempts; attempt++\<close>: \<open>continue\<close> on a conflict while an
  attempt is left, \<open>break\<close> otherwise. The second argument is the number of attempts made.
\<close>

function retry_loop :: "('k, unit) io \<Rightarrow> nat \<Rightarrow> go_error option \<Rightarrow> ('k, unit) io" where
  "retry_loop operation attempt lastErr =
     (if maxRetryAttempts < attempt
      then io_throw (case lastErr of
             Some e \<Rightarrow> wrap ''%s failed after %d attempts: %w'' e
           | None \<Rightarrow> Errorf ''%s failed after %d attempts: %w'')
      else io_try operation
             (\<lambda>e. if isKernelConflictError (Some e) \<and> attempt < maxRetryAttempts
                  then retry_loop operation (attempt + 1) (Some e)
                  else io_throw (wrap ''%s failed after %d attempts: %w'' e))
             io_ret)"
  by pat_completeness auto

termination by (relation "measure (\<lambda>(_, attempt, _). Suc maxRetryAttempts - attempt)") auto

declare retry_loop.simps [simp del]

definition retryOnKernelConflict :: "('k, unit) io \<Rightarrow> ('k, unit) io" where
  "retryOnKernelConflict operation = retry_loop operation 1 None"

definition set_link_up_once :: "'k netlink \<Rightarrow> string \<Rightarrow> ('k, unit) io" where
  "set_link_up_once nl ifName =
     io_bind (io_wrap (wrap ''get link %s failed: %w'') (LinkByName nl ifName)) (\<lambda>link.
       if at_OperState (Attrs link) = OperUp \<or> at_FlagUp (Attrs link) then io_ret ()
       else LinkSetUp nl link)"

definition setLinkUp :: "'k netlink \<Rightarrow> string \<Rightarrow> ('k, unit) io" where
  "setLinkUp nl ifName = retryOnKernelConflict (set_link_up_once nl ifName)"

definition compareBond :: "NlBond \<Rightarrow> NlBond \<Rightarrow> bool" where
  "compareBond old new =
     (let newMiimon = (if bd_Miimon new = -1 then DefaultValueMiimon else bd_Miimon new) in
      if at_Name (bd_attrs old) \<noteq> at_Name (bd_attrs new) then False
      else if bd_Mode old \<noteq> bd_Mode new then False
      else if at_MTU (bd_attrs new) \<noteq> 0 \<and> at_MTU (bd_attrs old) \<noteq> at_MTU (bd_attrs new) then False
      else if at_HardwareAddr (bd_attrs new) \<noteq> [] \<and> at_HardwareAddr (bd_attrs old) \<noteq> at_HardwareAddr (bd_attrs new) then False
      else if at_TxQLen (bd_attrs new) \<noteq> -1 \<and> at_TxQLen (bd_attrs old) \<noteq> at_TxQLen (bd_attrs new) then False
      else bd_Miimon old = newMiimon)"

definition modifyBond :: "'k netlink \<Rightarrow> NlBond \<Rightarrow> NlBond \<Rightarrow> ('k, unit) io" where
  "modifyBond nl oldBond b =
     (if compareBond oldBond b then io_ret ()
      else io_bind (LinkDel nl (LBond oldBond)) (\<lambda>_. LinkAdd nl (LBond b)))"

text \<open>The type assertion \<open>oldBond.(*netlink.Bond)\<close> is unchecked: it panics on any other link.\<close>

definition ensureBond :: "'k netlink \<Rightarrow> NlBond \<Rightarrow> ('k, NlBond) io" where
  "ensureBond nl b =
     io_bind (io_try (LinkByName nl (at_Name (bd_attrs b)))
       (\<lambda>e. if IsLinkNotFound e
            then io_wrap (wrap ''add bond %s failed, error: %w'') (LinkAdd nl (LBond b))
            else io_throw (wrap ''get bond %s failed, error: %w'' e))
       (\<lambda>l. case l of
              LBond oldBond \<Rightarrow> io_wrap (wrap ''modify bond %s failed, error: %w'') (modifyBond nl oldBond b)
            | _ \<Rightarrow> io_throw (GoPanic ''interface conversion''))) (\<lambda>_.
     io_bind (io_wrap (wrap ''set %s up failed, error: %w'') (LinkSetUp nl (LBond b))) (\<lambda>_.
     io_bind (io_wrap (wrap ''fetch bond %s failed, error: %w'') (LinkByName nl (at_Name (bd_attrs b)))) (\<lambda>l.
     case l of LBond bond \<Rightarrow> io_ret bond | _ \<Rightarrow> io_throw (Errorf ''%s already exists but is not a bond''))))"

definition getSlaves :: "'k netlink \<Rightarrow> int \<Rightarrow> ('k, nl_link list) io" where
  "getSlaves nl index =
     (if index = 0 then io_throw (Errorf ''invalid master index %d'')
      else io_bind (io_wrap (wrap ''list links failed, error: %w'') (LinkList nl)) (\<lambda>all.
           io_ret (filter (\<lambda>l. link_Master l = index) all)))"

text \<open>\<open>slaveMap\<close>: one link per name, the last of the list.\<close>

definition slave_map :: "nl_link list \<Rightarrow> (string \<times> nl_link) list" where
  "slave_map links = fold (\<lambda>l m. (link_Name l, l) # filter (\<lambda>p. fst p \<noteq> link_Name l) m) links []"

text \<open>Enslaving a link that is not yet a slave of the bond.\<close>

definition enslave :: "'k netlink \<Rightarrow> NlBond \<Rightarrow> string \<Rightarrow> ('k, unit) io" where
  "enslave nl b slave =
     io_bind (io_wrap (wrap ''get link %s failed, error: %w'') (LinkByName nl slave)) (\<lambda>l.
     if link_Master l \<noteq> 0 \<and> link_Master l \<noteq> at_Index (bd_attrs b)
     then io_throw (Errorf ''%s has been enslaved by the link with index %d'')
     else io_bind (io_wrap (wrap ''set slave %s down failed, error: %w'') (LinkSetDown nl l)) (\<lambda>_.
          io_try (LinkSetBondSlave nl l b)
            (\<lambda>e. io_try (setLinkUp nl slave)
                   (\<lambda>upErr. io_throw (wrap ''add slave %s to bond %s failed, error: %w'' e))
                   (\<lambda>_. io_throw (wrap ''add slave %s to bond %s failed, error: %w'' e)))
            io_ret))"

text \<open>The first loop of \<open>ensureBondSlaves\<close>: it returns what is left of the map.\<close>

fun add_slaves :: "'k netlink \<Rightarrow> NlBond \<Rightarrow> string list \<Rightarrow> (string \<times> nl_link) list \<Rightarrow> ('k, (string \<times> nl_link) list) io" where
  "add_slaves nl b [] slaveMap = io_ret slaveMap"
| "add_slaves nl b (slave # slaves) slaveMap =
     io_bind (case map_of slaveMap slave of None \<Rightarrow> enslave nl b slave | Some l \<Rightarrow> io_ret ()) (\<lambda>_.
     io_bind (setLinkUp nl slave) (\<lambda>_.
     add_slaves nl b slaves (filter (\<lambda>p. fst p \<noteq> slave) slaveMap)))"

text \<open>The body of the second loop; an error is collected and the loop goes on.\<close>

definition release_slave :: "'k netlink \<Rightarrow> (string \<times> nl_link) list \<Rightarrow> string \<Rightarrow> ('k, unit) io" where
  "release_slave nl slaveMap name =
     (case map_of slaveMap name of
        None \<Rightarrow> io_ret ()
      | Some l \<Rightarrow>
          io_bind (io_wrap (wrap ''delete slave %s from %s failed: %w'') (LinkSetNoMaster nl l)) (\<lambda>_.
          io_wrap (wrap ''set NIC %s up after removal failed: %w'') (setLinkUp nl name)))"

definition ensureBondSlaves :: "'k netlink \<Rightarrow> NlBond \<Rightarrow> string list \<Rightarrow> ('k, unit) io" where
  "ensureBondSlaves nl b slaves =
     io_bind (getSlaves nl (at_Index (bd_attrs b))) (\<lambda>links.
     io_bind (add_slaves nl b slaves (slave_map links)) (\<lambda>slaveMap.
     io_bind (io_errors (release_slave nl slaveMap) (map_order nl (map fst slaveMap))) (\<lambda>removalErrors.
     if removalErrors \<noteq> [] then io_throw (Errorf ''failed to clean up %d slave(s): %v'') else io_ret ())))"

definition EnsureBond :: "'k netlink \<Rightarrow> NlBond \<Rightarrow> string list \<Rightarrow> ('k, NlBond) io" where
  "EnsureBond nl b slaves =
     io_bind (ensureBond nl b) (\<lambda>bond.
     io_bind (ensureBondSlaves nl bond slaves) (\<lambda>_. io_ret bond))"

definition bond_remove :: "'k netlink \<Rightarrow> NlBond \<Rightarrow> ('k, unit) io" where
  "bond_remove nl b =
     io_bind (getSlaves nl (at_Index (bd_attrs b))) (\<lambda>slaves.
     io_bind (LinkDel nl (LBond b)) (\<lambda>_.
     io_bind (io_errors (\<lambda>s. io_wrap (wrap ''failed to set NIC %s up after bond deletion: %w'') (setLinkUp nl (link_Name s))) slaves)
       (\<lambda>recoveryErrors.
     if recoveryErrors \<noteq> [] then io_throw (Errorf ''bond deletion incomplete: %d NIC(s) failed to recover: %v'')
     else io_ret ())))"

definition link_Remove :: "'k netlink \<Rightarrow> nl_link \<Rightarrow> ('k, unit) io" where
  "link_Remove nl l = (if Type l = TypeBond then bond_remove nl (NewLinkBond (Attrs l)) else LinkDel nl l)"

section \<open>The retry loop\<close>

lemma retry_unroll:
  "retryOnKernelConflict operation =
     io_try operation
       (\<lambda>e. if isKernelConflictError (Some e)
            then io_try operation (\<lambda>e. io_throw (wrap ''%s failed after %d attempts: %w'' e)) io_ret
            else io_throw (wrap ''%s failed after %d attempts: %w'' e))
       io_ret"
  unfolding retryOnKernelConflict_def
  by (subst retry_loop.simps, subst retry_loop.simps) (simp add: maxRetryAttempts_def if_distrib cong: if_cong)

lemma retry_Inr:
  "retryOnKernelConflict operation k = (Inr (), k') \<longleftrightarrow>
     operation k = (Inr (), k') \<or>
     (\<exists>e k1. operation k = (Inl e, k1) \<and> \<not> is_panic e \<and> isKernelConflictError (Some e) \<and> operation k1 = (Inr (), k'))"
  by (auto simp: retry_unroll io_results split: if_splits)

lemma io_try_Inl_cases:
  "io_try m h k s = (Inl e, s'') \<longleftrightarrow>
     (\<exists>x s'. m s = (Inr x, s') \<and> k x s' = (Inl e, s'')) \<or>
     (m s = (Inl e, s'') \<and> is_panic e) \<or>
     (\<exists>e1 s'. m s = (Inl e1, s') \<and> \<not> is_panic e1 \<and> h e1 s' = (Inl e, s''))"
  by (auto simp: io_try_def split: prod.splits sum.splits if_splits)

text \<open>An operation that changes nothing when it fails, retried.\<close>

lemma retry_keeps_view:
  assumes "\<And>k e k'. operation k = (Inl e, k') \<Longrightarrow> view k' = view k"
  shows "retryOnKernelConflict operation k = (Inl e, k') \<Longrightarrow> view k' = view k"
  by (auto simp: retry_unroll io_try_Inl_cases dest!: assms split: if_splits)

section \<open>What a successful call leaves\<close>

context kernel
begin

lemma byname_ok:
  "LinkByName nl n k = (Inr l, k') \<Longrightarrow> sees (view k) l \<and> link_Name l = n \<and> view k' = view k"
  using call_lawD(1) [OF byname_law] by (auto simp: eff_read_def)

lemma byname_err: "LinkByName nl n k = (Inl e, k') \<Longrightarrow> view k' = view k"
  using call_lawD(2) [OF byname_law] by blast

lemma set_up_once_ok:
  assumes "set_link_up_once nl n k = (Inr (), k')"
  shows "\<exists>j. nv_name (view k) j = Some n \<and> view k' = (view k)\<lparr>nv_up := (nv_up (view k))(j := True)\<rparr>"
proof -
  from assms obtain l k1 where l: "LinkByName nl n k = (Inr l, k1)"
    and r: "(if at_OperState (Attrs l) = OperUp \<or> at_FlagUp (Attrs l) then io_ret () else LinkSetUp nl l) k1 = (Inr (), k')"
    by (auto simp: set_link_up_once_def io_results)
  note s = byname_ok [OF l]
  show ?thesis
  proof (cases "is_up l")
    case True
    with r s have "view k' = view k" "nv_up (view k) (link_Index l)" by (auto simp: is_up_def sees_def)
    then have "view k' = (view k)\<lparr>nv_up := (nv_up (view k))(link_Index l := True)\<rparr>" by (simp add: fun_upd_idem)
    with s show ?thesis by (auto simp: sees_def)
  next
    case False
    with r have "LinkSetUp nl l k1 = (Inr (), k')" by (auto simp: is_up_def)
    from call_lawD(1) [OF up_law this] s show ?thesis by (auto simp: eff_up_def sees_def)
  qed
qed

lemma set_up_once_err: "set_link_up_once nl n k = (Inl e, k') \<Longrightarrow> view k' = view k"
  using byname_ok byname_err call_lawD(2) [OF up_law]
  by (fastforce simp: set_link_up_once_def io_bind_def io_wrap_def split: prod.splits sum.splits if_splits)

lemma setLinkUp_ok:
  assumes "setLinkUp nl n k = (Inr (), k')"
  shows "\<exists>j. nv_name (view k) j = Some n \<and> view k' = (view k)\<lparr>nv_up := (nv_up (view k))(j := True)\<rparr>"
  using assms unfolding setLinkUp_def retry_Inr by (metis set_up_once_err set_up_once_ok)

lemma setLinkUp_err: "setLinkUp nl n k = (Inl e, k') \<Longrightarrow> view k' = view k"
  unfolding setLinkUp_def by (rule retry_keeps_view) (auto dest: set_up_once_err)

lemma only_at_trans: "only_at i u v \<Longrightarrow> only_at i v w \<Longrightarrow> only_at i u w"
  by (simp add: only_at_def)

lemma enslave_ok:
  assumes "enslave nl b n k = (Inr (), k')"
  shows "\<exists>j. nv_name (view k) j = Some n \<and> nv_master (view k') j = at_Index (bd_attrs b)
           \<and> nv_name (view k') = nv_name (view k) \<and> only_at j (view k) (view k')"
proof -
  from assms obtain l k1 k2 where l: "LinkByName nl n k = (Inr l, k1)"
    and d: "LinkSetDown nl l k1 = (Inr (), k2)" and s: "LinkSetBondSlave nl l b k2 = (Inr (), k')"
    by (auto simp: enslave_def io_results split: if_splits)
  note l = byname_ok [OF l] and d = call_lawD(1) [OF down_law d] and s = call_lawD(1) [OF slave_law s]
  from l have i: "link_Index l \<noteq> 0" "nv_name (view k) (link_Index l) = Some n" "view k1 = view k"
    by (auto simp: sees_def)
  with d have "view k2 = (view k)\<lparr>nv_up := (nv_up (view k))(link_Index l := False)\<rparr>" by (simp add: eff_down_def)
  then have "only_at (link_Index l) (view k) (view k2)" "nv_name (view k2) = nv_name (view k)"
    by (simp_all add: only_at_def)
  with s i show ?thesis by (auto simp: eff_master_def intro!: exI [of _ "link_Index l"] intro: only_at_trans)
qed
end

section \<open>The slaves of the bond\<close>

lemma map_of_delete: "map_of (filter (\<lambda>p. fst p \<noteq> k) m) n = (if n = k then None else map_of m n)"
  by (induction m) auto

lemma slave_map_snoc:
  "slave_map [] = []" "slave_map (xs @ [x]) = (link_Name x, x) # filter (\<lambda>p. fst p \<noteq> link_Name x) (slave_map xs)"
  by (simp_all add: slave_map_def)

lemma slave_map_of:
  "map_of (slave_map (xs @ [x])) n = (if n = link_Name x then Some x else map_of (slave_map xs) n)"
  by (simp add: slave_map_snoc map_of_delete)

lemma slave_map_keys: "distinct (map fst (slave_map links))"
  by (induction links rule: rev_induct) (auto simp: slave_map_snoc distinct_map_filter)

lemma slave_map_entry: "map_of (slave_map links) n = Some l \<Longrightarrow> l \<in> set links \<and> link_Name l = n"
  by (induction links rule: rev_induct) (auto simp: slave_map_of slave_map_snoc(1) split: if_splits)

lemma slave_map_dom: "l \<in> set links \<Longrightarrow> map_of (slave_map links) (link_Name l) \<noteq> None"
  by (induction links rule: rev_induct) (auto simp: slave_map_of split: if_splits)

text \<open>
  The state of the first loop of \<open>ensureBondSlaves\<close> for a bond with index \<open>B\<close>: the NICs of \<open>H\<close> are
  slaves and up, and every other slave is an entry of the map \<open>m\<close>.
\<close>

definition slaves_inv :: "int \<Rightarrow> (int \<rightharpoonup> string) \<Rightarrow> string set \<Rightarrow> (string \<times> nl_link) list \<Rightarrow> netview \<Rightarrow> bool" where
  "slaves_inv B N H m v \<longleftrightarrow> nv_name v = N \<and> distinct (map fst m) \<and> fst ` set m \<inter> H = {}
     \<and> (\<forall>s \<in> H. \<exists>j. N j = Some s \<and> nv_master v j = B \<and> nv_up v j)
     \<and> (\<forall>j n. N j = Some n \<longrightarrow> nv_master v j = B \<longrightarrow> n \<notin> H \<longrightarrow> (\<exists>l. map_of m n = Some l \<and> link_Index l = j))
     \<and> (\<forall>n l. map_of m n = Some l \<longrightarrow> link_Index l \<noteq> 0 \<and> N (link_Index l) = Some n \<and> nv_master v (link_Index l) = B)"

context kernel
begin

lemma getSlaves_ok:
  assumes "getSlaves nl B k = (Inr links, k')"
  shows "slaves_inv B (nv_name (view k)) {} (slave_map links) (view k') \<and> view k' = view k \<and> B \<noteq> 0"
proof -
  from assms obtain all where B: "B \<noteq> 0" and all: "LinkList nl k = (Inr all, k')"
    and links: "links = filter (\<lambda>l. link_Master l = B) all"
    by (auto simp: getSlaves_def io_results split: if_splits)
  from call_lawD(1) [OF list_law all] have v: "view k' = view k"
    and sees: "\<And>l. l \<in> set all \<Longrightarrow> sees (view k) l" and dom: "link_Index ` set all = dom (nv_name (view k))"
    by (auto simp: eff_read_def lists_links_def)
  have "\<exists>l. map_of (slave_map links) n = Some l \<and> link_Index l = j"
    if "nv_name (view k) j = Some n" "nv_master (view k) j = B" for j n
  proof -
    from that dom obtain l where l: "l \<in> set all" "link_Index l = j" by (metis domI imageE)
    with sees [OF l(1)] that have "l \<in> set links" "link_Name l = n" by (auto simp: links sees_def)
    with slave_map_dom [of l links] obtain l' where l': "map_of (slave_map links) n = Some l'" by blast
    from slave_map_entry [OF l'] have "l' \<in> set all" "link_Name l' = n" by (auto simp: links)
    with sees have "nv_name (view k) (link_Index l') = Some n" by (auto simp: sees_def)
    with names_inj that have "link_Index l' = j" by blast
    with l' show ?thesis by blast
  qed
  moreover have "link_Index l \<noteq> 0 \<and> nv_name (view k) (link_Index l) = Some n \<and> nv_master (view k) (link_Index l) = B"
    if "map_of (slave_map links) n = Some l" for n l
    using slave_map_entry [OF that] sees [of l] by (auto simp: links sees_def)
  ultimately show ?thesis
    using B v slave_map_keys [of links] by (simp add: slaves_inv_def)
qed

text \<open>One round of the first loop.\<close>

lemma slave_added:
  assumes inv: "slaves_inv B N H m (view k)" and B: "B = at_Index (bd_attrs b)"
    and e: "(case map_of m s of None \<Rightarrow> enslave nl b s | Some l \<Rightarrow> io_ret ()) k = (Inr (), k1)"
    and u: "setLinkUp nl s k1 = (Inr (), k')"
  shows "slaves_inv B N (insert s H) (filter (\<lambda>p. fst p \<noteq> s) m) (view k')"
proof -
  let ?m = "filter (\<lambda>p. fst p \<noteq> s) m"
  from inv have N: "nv_name (view k) = N" by (simp add: slaves_inv_def)
  have "\<exists>i. N i = Some s \<and> nv_master (view k1) i = B \<and> nv_name (view k1) = N \<and> only_at i (view k) (view k1)"
  proof (cases "map_of m s")
    case None
    with e enslave_ok [of b s k k1] show ?thesis by (auto simp: N B)
  next
    case (Some l)
    with e inv have "k1 = k" "N (link_Index l) = Some s" "nv_master (view k) (link_Index l) = B"
      by (auto simp: slaves_inv_def)
    then show ?thesis by (auto simp: N only_at_def)
  qed
  then obtain i where i: "N i = Some s" "nv_master (view k1) i = B" "nv_name (view k1) = N"
    "only_at i (view k) (view k1)" by blast
  from setLinkUp_ok [OF u] i(1,3) have v': "view k' = (view k1)\<lparr>nv_up := (nv_up (view k1))(i := True)\<rparr>"
    by (metis names_inj)
  have other: "j \<noteq> i" if "N j = Some n" "n \<noteq> s" for j n using that i(1) by auto
  show ?thesis
    unfolding slaves_inv_def
  proof (intro conjI ballI allI impI)
    show "nv_name (view k') = N" "distinct (map fst ?m)" "fst ` set ?m \<inter> insert s H = {}"
      using i(3) inv by (auto simp: v' slaves_inv_def distinct_map_filter)
    show "\<exists>j. N j = Some t \<and> nv_master (view k') j = B \<and> nv_up (view k') j" if t: "t \<in> insert s H" for t
    proof (cases "t = s")
      case False
      with t inv obtain j where "N j = Some t" "nv_master (view k) j = B" "nv_up (view k) j"
        by (auto simp: slaves_inv_def)
      with other [of j t] False i(4) show ?thesis by (auto simp: v' only_at_def)
    qed (use i in \<open>auto simp: v'\<close>)
    show "\<exists>l. map_of ?m n = Some l \<and> link_Index l = j"
      if "N j = Some n" "nv_master (view k') j = B" "n \<notin> insert s H" for j n
      using that inv i(4) other [of j n] by (auto simp: slaves_inv_def v' only_at_def map_of_delete)
    fix n l assume "map_of ?m n = Some l"
    then have n: "n \<noteq> s" "map_of m n = Some l" by (auto simp: map_of_delete split: if_splits)
    with inv have l: "link_Index l \<noteq> 0" "N (link_Index l) = Some n" "nv_master (view k) (link_Index l) = B"
      by (auto simp: slaves_inv_def)
    with other [OF l(2) n(1)] i(4)
    show "link_Index l \<noteq> 0" "N (link_Index l) = Some n" "nv_master (view k') (link_Index l) = B"
      by (auto simp: v' only_at_def)
  qed
qed

lemma add_slaves_ok:
  assumes "add_slaves nl b ss m k = (Inr m', k')" "slaves_inv (at_Index (bd_attrs b)) N H m (view k)"
  shows "slaves_inv (at_Index (bd_attrs b)) N (set ss \<union> H) m' (view k')"
  using assms
proof (induction ss arbitrary: m k H)
  case (Cons s ss)
  from Cons.prems(1) obtain k1 k2 where
    "(case map_of m s of None \<Rightarrow> enslave nl b s | Some l \<Rightarrow> io_ret ()) k = (Inr (), k1)"
    "setLinkUp nl s k1 = (Inr (), k2)" and rest: "add_slaves nl b ss (filter (\<lambda>p. fst p \<noteq> s) m) k2 = (Inr m', k')"
    by (auto simp: io_results)
  from Cons.IH [OF rest slave_added [OF Cons.prems(2) refl this(1,2)]] show ?case by simp
qed simp

text \<open>The second loop releases what is left of the map.\<close>

lemma io_errors_none: "io_errors f xs k = (Inr [], k') \<Longrightarrow> io_each f xs k = (Inr (), k')"
  by (induction xs arbitrary: k) (auto simp: io_results)

lemma release_ok:
  assumes "release_slave nl m n k = (Inr (), k')" "map_of m n = Some l"
    "link_Index l \<noteq> 0" "nv_name (view k) (link_Index l) = Some n"
  shows "nv_name (view k') = nv_name (view k) \<and> nv_master (view k') (link_Index l) = 0
       \<and> only_at (link_Index l) (view k) (view k')"
proof -
  from assms(1,2) obtain k1 where r: "LinkSetNoMaster nl l k = (Inr (), k1)" and u: "setLinkUp nl n k1 = (Inr (), k')"
    by (auto simp: release_slave_def io_results)
  from call_lawD(1) [OF nomaster_law r] assms(3) have r: "nv_master (view k1) (link_Index l) = 0"
    "nv_name (view k1) = nv_name (view k)" "only_at (link_Index l) (view k) (view k1)" by (auto simp: eff_master_def)
  from setLinkUp_ok [OF u] assms(4) r(2) have "view k' = (view k1)\<lparr>nv_up := (nv_up (view k1))(link_Index l := True)\<rparr>"
    by (metis names_inj)
  with r show ?thesis by (auto simp: only_at_def)
qed

lemma release_loop:
  assumes "io_each (release_slave nl m) ns k = (Inr (), k')" "distinct ns"
    "\<And>n. n \<in> set ns \<Longrightarrow> \<exists>l. map_of m n = Some l \<and> link_Index l \<noteq> 0 \<and> nv_name (view k) (link_Index l) = Some n"
  shows "nv_name (view k') = nv_name (view k) \<and>
    (\<forall>j. (\<exists>n \<in> set ns. nv_name (view k) j = Some n) \<longrightarrow> nv_master (view k') j = 0) \<and>
    (\<forall>j n. nv_name (view k) j = Some n \<longrightarrow> n \<notin> set ns \<longrightarrow>
       nv_master (view k') j = nv_master (view k) j \<and> nv_up (view k') j = nv_up (view k) j)"
  using assms
proof (induction ns arbitrary: k)
  case (Cons n ns)
  from Cons.prems(3) [of n] obtain l where l: "map_of m n = Some l" "link_Index l \<noteq> 0"
    "nv_name (view k) (link_Index l) = Some n" by auto
  from Cons.prems(1) obtain k1 where k1: "release_slave nl m n k = (Inr (), k1)"
    "io_each (release_slave nl m) ns k1 = (Inr (), k')" by (auto simp: io_results)
  note r = release_ok [OF k1(1) l]
  have IH: "nv_name (view k') = nv_name (view k1) \<and>
    (\<forall>j. (\<exists>n \<in> set ns. nv_name (view k1) j = Some n) \<longrightarrow> nv_master (view k') j = 0) \<and>
    (\<forall>j n. nv_name (view k1) j = Some n \<longrightarrow> n \<notin> set ns \<longrightarrow>
       nv_master (view k') j = nv_master (view k1) j \<and> nv_up (view k') j = nv_up (view k1) j)"
    using Cons.prems(2,3) r by (intro Cons.IH [OF k1(2)]) auto
  show ?case
  proof (intro conjI allI impI)
    fix j assume "\<exists>n' \<in> set (n # ns). nv_name (view k) j = Some n'"
    then show "nv_master (view k') j = 0"
      using IH r l(3) Cons.prems(2) names_inj by (metis distinct.simps(2) set_ConsD)
  next
    fix j n' assume "nv_name (view k) j = Some n'" "n' \<notin> set (n # ns)"
    then show "nv_master (view k') j = nv_master (view k) j" "nv_up (view k') j = nv_up (view k) j"
      using IH r l(3) unfolding only_at_def by (metis list.set_intros(1) list.set_intros(2) option.inject)+
  qed (use IH r in simp)
qed simp

text \<open>What the second loop does from a state that the first one leaves.\<close>

lemma released:
  assumes "io_errors (release_slave nl m) (map_order nl (map fst m)) k = (Inr [], k')" "slaves_inv B N H m (view k)"
  shows "nv_name (view k') = N \<and> (\<forall>j. (\<exists>n \<in> fst ` set m. N j = Some n) \<longrightarrow> nv_master (view k') j = 0) \<and>
    (\<forall>j n. N j = Some n \<longrightarrow> n \<notin> fst ` set m \<longrightarrow> nv_master (view k') j = nv_master (view k) j \<and> nv_up (view k') j = nv_up (view k) j)"
proof -
  have N: "nv_name (view k) = N" using assms(2) by (simp add: slaves_inv_def)
  have ord: "set (map_order nl (map fst m)) = fst ` set m" "distinct (map_order nl (map fst m))"
    using map_order assms(2) by (auto simp: slaves_inv_def)
  have entry: "\<exists>l. map_of m n = Some l \<and> link_Index l \<noteq> 0 \<and> nv_name (view k) (link_Index l) = Some n"
    if "n \<in> set (map_order nl (map fst m))" for n
  proof -
    from that have "map_of m n \<noteq> None" by (simp add: ord(1) map_of_eq_None_iff)
    with assms(2) show ?thesis by (auto simp: slaves_inv_def N)
  qed
  show ?thesis by (rule release_loop [OF io_errors_none [OF assms(1)] ord(2) entry, unfolded N ord(1)])
qed

text \<open>All slaves of the bond are the wanted NICs, and they are up.\<close>

lemma ensureBondSlaves_ok:
  assumes "ensureBondSlaves nl b ss k = (Inr (), k')"
  shows "nv_name (view k') = nv_name (view k) \<and>
    (\<forall>s \<in> set ss. \<exists>j. nv_name (view k') j = Some s \<and> nv_master (view k') j = at_Index (bd_attrs b) \<and> nv_up (view k') j) \<and>
    (\<forall>j n. nv_name (view k') j = Some n \<longrightarrow> nv_master (view k') j = at_Index (bd_attrs b) \<longrightarrow> n \<in> set ss)"
proof -
  let ?B = "at_Index (bd_attrs b)" and ?N = "nv_name (view k)"
  from assms obtain links k1 m k2 where g: "getSlaves nl ?B k = (Inr links, k1)"
    and a: "add_slaves nl b ss (slave_map links) k1 = (Inr m, k2)"
    and r: "io_errors (release_slave nl m) (map_order nl (map fst m)) k2 = (Inr [], k')"
    by (auto simp: ensureBondSlaves_def io_results split: if_splits)
  from getSlaves_ok [OF g] have B: "?B \<noteq> 0" and "slaves_inv ?B ?N {} (slave_map links) (view k1)" by auto
  from add_slaves_ok [OF a this(2)] have inv: "slaves_inv ?B ?N (set ss) m (view k2)" by simp
  then have keys: "fst ` set m \<inter> set ss = {}" by (auto simp: slaves_inv_def)
  note loop = released [OF r inv]
  show ?thesis
  proof (intro conjI ballI allI impI)
    fix s assume s: "s \<in> set ss"
    with inv obtain j where "?N j = Some s" "nv_master (view k2) j = ?B" "nv_up (view k2) j"
      by (auto simp: slaves_inv_def)
    with loop keys s show "\<exists>j. nv_name (view k') j = Some s \<and> nv_master (view k') j = ?B \<and> nv_up (view k') j"
      by (metis disjoint_iff)
  next
    fix j n assume j: "nv_name (view k') j = Some n" "nv_master (view k') j = ?B"
    show "n \<in> set ss"
    proof (rule ccontr)
      assume n: "n \<notin> set ss"
      from j loop have jN: "?N j = Some n" by auto
      show False
      proof (cases "n \<in> fst ` set m")
        case True with loop jN j B show False by (metis)
      next
        case False
        with loop jN j have "nv_master (view k2) j = ?B" by metis
        with inv jN n obtain l where "map_of m n = Some l" unfolding slaves_inv_def by blast
        with False show False by (metis map_of_eq_None_iff option.distinct(1))
      qed
    qed
  qed (use loop in simp)
qed

text \<open>What the loops leave alone: an interface that is neither a wanted NIC nor a slave of the bond.\<close>

lemma add_slaves_frame:
  assumes "add_slaves nl b ss m k = (Inr m', k')" "slaves_inv (at_Index (bd_attrs b)) N H m (view k)" "N j = Some n" "n \<notin> set ss"
  shows "nv_master (view k') j = nv_master (view k) j"
  using assms
proof (induction ss arbitrary: m k H)
  case (Cons s ss)
  from Cons.prems(1) obtain k1 k2 where e: "(case map_of m s of None \<Rightarrow> enslave nl b s | Some l \<Rightarrow> io_ret ()) k = (Inr (), k1)"
    and u: "setLinkUp nl s k1 = (Inr (), k2)" and rest: "add_slaves nl b ss (filter (\<lambda>p. fst p \<noteq> s) m) k2 = (Inr m', k')"
    by (auto simp: io_results)
  have N: "nv_name (view k) = N" using Cons.prems(2) by (simp add: slaves_inv_def)
  have "nv_master (view k1) j = nv_master (view k) j"
  proof (cases "map_of m s")
    case None
    with e have "enslave nl b s k = (Inr (), k1)" by simp
    from enslave_ok [OF this] obtain i where "N i = Some s" "only_at i (view k) (view k1)" unfolding N by blast
    moreover from this Cons.prems(3,4) have "j \<noteq> i" by auto
    ultimately show ?thesis by (simp add: only_at_def)
  qed (use e in simp)
  moreover have "nv_master (view k2) j = nv_master (view k1) j" using setLinkUp_ok [OF u] by auto
  moreover have "nv_master (view k') j = nv_master (view k2) j"
    using Cons.IH [OF rest slave_added [OF Cons.prems(2) refl e u]] Cons.prems(3,4) by simp
  ultimately show ?case by simp
qed simp

lemma ensureBondSlaves_frame:
  assumes "ensureBondSlaves nl b ss k = (Inr (), k')" "nv_name (view k) j = Some n" "n \<notin> set ss"
    "nv_master (view k) j \<noteq> at_Index (bd_attrs b)"
  shows "nv_master (view k') j = nv_master (view k) j"
proof -
  let ?B = "at_Index (bd_attrs b)" and ?N = "nv_name (view k)"
  from assms obtain links k1 m k2 where g: "getSlaves nl ?B k = (Inr links, k1)"
    and a: "add_slaves nl b ss (slave_map links) k1 = (Inr m, k2)"
    and r: "io_errors (release_slave nl m) (map_order nl (map fst m)) k2 = (Inr [], k')"
    by (auto simp: ensureBondSlaves_def io_results split: if_splits)
  from getSlaves_ok [OF g] have v1: "view k1 = view k" and i1: "slaves_inv ?B ?N {} (slave_map links) (view k1)" by auto
  from add_slaves_ok [OF a i1] have inv: "slaves_inv ?B ?N (set ss) m (view k2)" by simp
  from add_slaves_frame [OF a i1 assms(2,3)] have j2: "nv_master (view k2) j = nv_master (view k) j" by (simp add: v1)
  note loop = released [OF r inv]
  have "n \<notin> fst ` set m"
  proof
    assume "n \<in> fst ` set m"
    then obtain l where "map_of m n = Some l" by (metis map_of_eq_None_iff option.exhaust)
    with inv have "?N (link_Index l) = Some n" "nv_master (view k2) (link_Index l) = ?B" by (auto simp: slaves_inv_def)
    with names_inj assms(2,4) j2 show False by metis
  qed
  with loop assms(2) j2 show ?thesis by auto
qed

lemma ensureBond_ok:
  assumes "ensureBond nl b k = (Inr bond, k')"
  shows "sees (view k') (LBond bond) \<and> at_Name (bd_attrs bond) = at_Name (bd_attrs b)"
proof -
  from assms obtain k1 where "LinkByName nl (at_Name (bd_attrs b)) k1 = (Inr (LBond bond), k')"
    by (auto simp: ensureBond_def io_results split: nl_link.splits)
  from byname_ok [OF this] show ?thesis by auto
qed

lemma EnsureBond_ok:
  assumes "EnsureBond nl b ss k = (Inr bond, k')"
  shows "nv_name (view k') (at_Index (bd_attrs bond)) = Some (at_Name (bd_attrs b))"
    "\<And>s. s \<in> set ss \<longleftrightarrow> (\<exists>j. nv_name (view k') j = Some s \<and> nv_master (view k') j = at_Index (bd_attrs bond))"
    "\<And>j. j \<in> dom (nv_name (view k')) \<Longrightarrow> nv_master (view k') j = at_Index (bd_attrs bond) \<Longrightarrow> nv_up (view k') j"
proof -
  from assms obtain k1 where e: "ensureBond nl b k = (Inr bond, k1)" "ensureBondSlaves nl bond ss k1 = (Inr (), k')"
    by (auto simp: EnsureBond_def io_results)
  note b = ensureBond_ok [OF e(1)] and sl = ensureBondSlaves_ok [OF e(2)]
  then show "nv_name (view k') (at_Index (bd_attrs bond)) = Some (at_Name (bd_attrs b))" by (auto simp: sees_def)
  show "s \<in> set ss \<longleftrightarrow> (\<exists>j. nv_name (view k') j = Some s \<and> nv_master (view k') j = at_Index (bd_attrs bond))" for s
    using sl by blast
  show "nv_up (view k') j" if "j \<in> dom (nv_name (view k'))" "nv_master (view k') j = at_Index (bd_attrs bond)" for j
    using that sl names_inj by (metis domD)
qed

end

text \<open>
  When \<open>EnsureBond\<close> succeeds, the node has an interface with the bond's name, its slaves are exactly
  the wanted NICs, whichever slaves it had before, and every slave is up. This holds for every
  kernel with the documented behaviour of the netlink calls, whichever calls failed and were retried.
\<close>

lemma EnsureBond_slaves:
  assumes "kernel nl view"
    and "EnsureBond nl b NICs k = (Inr bond, k')"
  shows "nv_name (view k') (at_Index (bd_attrs bond)) = Some (at_Name (bd_attrs b))
    \<and> {s. \<exists>j. nv_name (view k') j = Some s \<and> nv_master (view k') j = at_Index (bd_attrs bond)} = set NICs
    \<and> (\<forall>j \<in> dom (nv_name (view k')). nv_master (view k') j = at_Index (bd_attrs bond) \<longrightarrow> nv_up (view k') j)"
  using kernel.EnsureBond_ok [OF assms] by auto

definition demo_bond :: NlBond where
  "demo_bond = NewLinkBond (NewLinkAttrs\<lparr>at_Name := ''cn1-bo''\<rparr>)"

definition demo_nic :: "int \<Rightarrow> string \<Rightarrow> int \<Rightarrow> nl_link" where
  "demo_nic i n m = LOther ''device'' (attrs0\<lparr>at_Index := i, at_Name := n, at_MasterIndex := m\<rparr>)"

definition demo_kernel :: ref_state where
  "demo_kernel = \<lparr>rs_links = [demo_nic 2 ''eth0'' 0, demo_nic 3 ''eth1'' 4, LBond (demo_bond\<lparr>bd_attrs := (bd_attrs demo_bond)\<lparr>at_Index := 4\<rparr>\<rparr>)],
                rs_vlans = [], rs_addrs = [], rs_script = []\<rparr>"

lemma EnsureBond_slaves_witness:
  "\<not> isl (fst (EnsureBond ref_netlink demo_bond [''eth0''] demo_kernel))
   \<and> {s. \<exists>j. nv_name (ref_view (snd (EnsureBond ref_netlink demo_bond [''eth0''] demo_kernel))) j = Some s
         \<and> nv_master (ref_view (snd (EnsureBond ref_netlink demo_bond [''eth0''] demo_kernel))) j
             = at_Index (bd_attrs (projr (fst (EnsureBond ref_netlink demo_bond [''eth0''] demo_kernel))))} = {''eth0''}"
proof -
  let ?r = "EnsureBond ref_netlink demo_bond [''eth0''] demo_kernel"
  have ok: "\<not> isl (fst ?r)" by code_simp
  then have "?r = (Inr (projr (fst ?r)), snd ?r)" by (metis prod.collapse sum.collapse(2))
  from EnsureBond_slaves [OF rk.kernel_axioms this] ok show ?thesis by simp
qed

text \<open>An operation that counts its runs.\<close>

definition counted :: "('k, 'a) io \<Rightarrow> (nat \<times> 'k, 'a) io" where
  "counted m st = (case m (snd st) of (r, k') \<Rightarrow> (r, Suc (fst st), k'))"

definition retry_outcome :: "unit res \<Rightarrow> unit res" where
  "retry_outcome r = (case r of Inr x \<Rightarrow> Inr x | Inl e \<Rightarrow> Inl (wrap ''%s failed after %d attempts: %w'' e))"

lemma retry_loop_counted:
  assumes "attempt \<le> maxRetryAttempts" "retry_loop (counted operation) attempt lastErr (n, k) = (r, m, k')"
  shows "n < m \<and> m \<le> n + (Suc maxRetryAttempts - attempt) \<and> (\<exists>k0 r0. operation k0 = (r0, k') \<and> r = retry_outcome r0)"
  using assms
proof (induction "maxRetryAttempts - attempt" arbitrary: attempt lastErr n k)
  case 0
  then have a: "attempt = maxRetryAttempts" by simp
  obtain r1 k1 where r: "operation k = (r1, k1)" by fastforce
  with 0(3) a have "(r, m, k') = (retry_outcome r1, Suc n, k1)"
    by (subst (asm) retry_loop.simps) (cases r1; auto simp: counted_def io_try_def wrap_def retry_outcome_def)
  with r a show ?case by auto
next
  case (Suc d)
  then have a: "attempt < maxRetryAttempts" "d = maxRetryAttempts - (attempt + 1)" "attempt + 1 \<le> maxRetryAttempts" by auto
  obtain r1 k1 where r: "operation k = (r1, k1)" by fastforce
  show ?case
  proof (cases "\<exists>e. r1 = Inl e \<and> \<not> is_panic e \<and> isKernelConflictError (Some e)")
    case True
    then obtain e where "r1 = Inl e" "\<not> is_panic e" "isKernelConflictError (Some e)" by blast
    with Suc.prems(2) r a(1) have "retry_loop (counted operation) (attempt + 1) (Some e) (Suc n, k1) = (r, m, k')"
      by (subst (asm) retry_loop.simps) (simp add: counted_def io_try_def)
    from Suc.hyps(1) [OF a(2,3) this] a show ?thesis by auto
  next
    case False
    with Suc.prems(2) r a(1) have "(r, m, k') = (retry_outcome r1, Suc n, k1)"
      by (subst (asm) retry_loop.simps) (cases r1; auto simp: counted_def io_try_def wrap_def retry_outcome_def split: if_splits)
    with r a show ?thesis by auto
  qed
qed

text \<open>
  \<open>retryOnKernelConflict\<close> returns after at least one and at most \<open>maxRetryAttempts\<close> runs of the
  operation, with the outcome of its last run: nil when that succeeded, its error (wrapped) when it
  failed.
\<close>

lemma retry_attempts:
  "\<exists>r m k'. retryOnKernelConflict (counted operation) (0, k) = (r, m, k') \<and> 1 \<le> m \<and> m \<le> maxRetryAttempts
     \<and> (\<exists>k0 r0. operation k0 = (r0, k') \<and> r = retry_outcome r0)"
proof -
  obtain r m k' where r: "retry_loop (counted operation) 1 None (0, k) = (r, m, k')" by (metis prod.collapse)
  have "1 \<le> maxRetryAttempts" by (simp add: maxRetryAttempts_def)
  from retry_loop_counted [OF this r] r show ?thesis unfolding retryOnKernelConflict_def by auto
qed

text \<open>
  \<open>ensureBond\<close> panics when an interface that is not a bond has the bond's name: the assertion
  \<open>oldBond.(*netlink.Bond)\<close> comes before the check that reports \<open>already exists but is not a bond\<close>. A
  panic is the only outcome, and nothing has been changed by then.
\<close>

lemma ensureBond_not_a_bond:
  assumes "LinkByName nl (at_Name (bd_attrs b)) k = (Inr l, k')" "Type l \<noteq> ''bond''"
  shows "ensureBond nl b k = (Inl (GoPanic ''interface conversion''), k')"
proof -
  from assms(2) have "\<nexists>x. l = LBond x" by auto
  then show ?thesis using assms(1) by (cases l) (simp_all add: ensureBond_def io_bind_def io_try_def)
qed

lemma ensureBond_not_a_bond_witness:
  "ensureBond ref_netlink (NewLinkBond (NewLinkAttrs\<lparr>at_Name := ''eth0''\<rparr>)) demo_kernel
     = (Inl (GoPanic ''interface conversion''), demo_kernel)"
  by (rule ensureBond_not_a_bond [of _ _ _ "demo_nic 2 ''eth0'' 0"]) code_simp+

end
