(* ===== verification/Vlan_Net.thy ===== *)
theory Vlan_Net
  imports Iface_Bond
begin

text \<open>
  \<open>pkg/network/vlan/vlan.go\<close>: the VLAN network of a cluster network on a node, a bridge with a bond
  as its uplink. A method that changes the receiver returns it. The theorems say which ids of the
  uplink's filter \<open>AddLocalAreas\<close> and \<open>RemoveLocalAreas\<close> change.
\<close>

section \<open>The network\<close>

record Vlan =
  vl_name :: string
  vl_bridge :: NlBridge
  vl_uplink :: "nl_link option"

definition NewVlan :: "string \<Rightarrow> Vlan" where
  "NewVlan name = \<lparr>vl_name = name, vl_bridge = NewBridge (GenerateBridgeName name), vl_uplink = None\<rparr>"

definition getUplink :: "'k netlink \<Rightarrow> Vlan \<Rightarrow> ('k, nl_link) io" where
  "getUplink nl v = LinkByName nl (GenerateBondName (vl_name v))"

definition GetBridgelink :: "'k netlink \<Rightarrow> Vlan \<Rightarrow> ('k, nl_link) io" where
  "GetBridgelink nl v = LinkByName nl (GenerateBridgeName (vl_name v))"

definition vlan_GetVlan :: "'k netlink \<Rightarrow> string \<Rightarrow> ('k, Vlan) io" where
  "vlan_GetVlan nl name =
     (let v = NewVlan name in
      io_bind (bridge_Fetch nl (vl_bridge v)) (\<lambda>br.
      io_bind (getUplink nl v) (\<lambda>uplink.
      io_ret (v\<lparr>vl_bridge := br, vl_uplink := Some uplink\<rparr>))))"

definition Setup :: "'k netlink \<Rightarrow> Vlan \<Rightarrow> nl_link \<Rightarrow> ('k, Vlan) io" where
  "Setup nl v l =
     io_bind (io_wrap (wrap ''ensure bridge %s failed, error: %w'') (Ensure nl (vl_bridge v))) (\<lambda>br.
     io_bind (SetMaster nl l br) (\<lambda>_.
     io_ret (v\<lparr>vl_bridge := br, vl_uplink := Some l\<rparr>)))"

definition Teardown :: "'k netlink \<Rightarrow> Vlan \<Rightarrow> ('k, unit) io" where
  "Teardown nl v =
     (case vl_uplink v of
        None \<Rightarrow> io_throw (Errorf ''bridge %s hasn't attached an uplink'')
      | Some l \<Rightarrow>
          io_bind (io_wrap (wrap ''set %s no master failed, error: %w'') (SetNoMaster nl l)) (\<lambda>_.
          io_bind (io_wrap (wrap ''delete uplink %s failed, error: %w'') (link_Remove nl l)) (\<lambda>_.
          io_wrap (wrap ''delete bridge %s failed, error: %w'') (link_Remove nl (LBridge (vl_bridge v))))))"

text \<open>An error of the walk over the ids is dropped: both functions return nil.\<close>

definition AddLocalAreas :: "'k netlink \<Rightarrow> Vlan \<Rightarrow> VlanIDSet option \<Rightarrow> ('k, unit) io" where
  "AddLocalAreas nl v vis_ptr =
     (case vis_ptr of
        None \<Rightarrow> io_ret ()
      | Some vis \<Rightarrow>
          (case vl_uplink v of
             None \<Rightarrow> io_throw (Errorf ''bridge %s hasn't attached with an uplink'')
           | Some l \<Rightarrow> io_try (io_act (WalkVIDs (\<lambda>i. act_io (AddBridgeVlan nl l i)) vis)) (\<lambda>_. io_ret ()) io_ret))"

definition RemoveLocalAreas :: "'k netlink \<Rightarrow> Vlan \<Rightarrow> VlanIDSet option \<Rightarrow> ('k, unit) io" where
  "RemoveLocalAreas nl v vis_ptr =
     (case vis_ptr of
        None \<Rightarrow> io_ret ()
      | Some vis \<Rightarrow>
          (case vl_uplink v of
             None \<Rightarrow> io_throw (Errorf ''bridge %s hasn't attached with an uplink'')
           | Some l \<Rightarrow> io_try (io_act (WalkVIDs (\<lambda>i. act_io (DelBridgeVlan nl l i)) vis)) (\<lambda>_. io_ret ()) io_ret))"

definition vlan_ToVlanIDSet :: "'k netlink \<Rightarrow> Vlan \<Rightarrow> ('k, VlanIDSet option) io" where
  "vlan_ToVlanIDSet nl v =
     (case vl_uplink v of
        None \<Rightarrow> io_bind (BridgeVlanList nl) (\<lambda>_. io_throw (GoPanic ''nil pointer dereference''))
      | Some l \<Rightarrow> link_ToVlanIDSet nl l)"

section \<open>The filter of the uplink\<close>

text \<open>The ids the code manages: 2 to 4094. 0 and 1 are never added or removed.\<close>

definition managed :: "16 word set" where "managed = {w. 2 \<le> uint w \<and> uint w \<le> MaxVlanID}"

definition vid_words :: "int set \<Rightarrow> 16 word set" where "vid_words A = word_of_int ` A"

lemma word_vid [simp]: "0 \<le> i \<Longrightarrow> i \<le> MaxVlanID \<Longrightarrow> uint (word_of_int i :: 16 word) = i"
  by (simp add: MaxVlanID_def uint_word_of_int)

lemma vid_words_iff: "A \<subseteq> {0..MaxVlanID} \<Longrightarrow> w \<in> vid_words A \<longleftrightarrow> uint w \<in> A"
  by (force simp: vid_words_def image_iff)

lemma unmanaged: "v = defaultPVID \<or> v = minVlanID \<longleftrightarrow> uint v \<in> {0, 1}"
  by (auto simp: defaultPVID_def minVlanID_def vlan_consts uint_word_of_int dest: arg_cong [of _ _ uint])
     (metis word_of_int_uint of_int_0 of_int_1)+

lemma set_vids_refines:
  assumes "set_vids vs = Inr vis"
  shows "vis_ok vis \<and> isTrunkMode vis \<and> vids vis = uint ` set vs - {0}"
proof -
  let ?f = "\<lambda>v vis. case SetUint16VID v vis of
       (Some e, vis') \<Rightarrow> (Some (wrap ''failed to set link %v vid %v to vlanset, error %w'' e), vis') | (None, vis') \<Rightarrow> (None, vis')"
  have "fold_err ?f vs w = (None, vis) \<Longrightarrow> vis_ok w \<Longrightarrow> isTrunkMode w \<Longrightarrow>
      vis_ok vis \<and> isTrunkMode vis \<and> vids vis = vids w \<union> (uint ` set vs - {0})" for w
  proof (induction vs arbitrary: w)
    case (Cons v vs)
    from Cons.prems(1) obtain w1 where w1: "SetUint16VID v w = (None, w1)" "fold_err ?f vs w1 = (None, vis)"
      by (auto split: prod.splits option.splits)
    have "0 \<le> uint v" by simp
    moreover have "uint v \<le> MaxVlanID" using w1(1) by (auto simp: SetUint16VID_def SetVID_def split: if_splits)
    ultimately have "vis_ok w1 \<and> isTrunkMode w1 \<and> vids w1 = vids w \<union> ({uint v} - {0})"
      using SetVID_trunk_ok [OF Cons.prems(2,3), of "uint v"] w1(1) by (auto simp: SetUint16VID_def)
    with Cons.IH [OF w1(2)] show ?case by auto
  qed simp
  from this [of NewVlanIDSet] assms NewVlanIDSet_ok show ?thesis
    by (auto simp: set_vids_def split: prod.splits option.splits)
qed

lemma set_vids_ok: "\<forall>v \<in> set vs. uint v \<le> MaxVlanID \<Longrightarrow> \<exists>vis. set_vids vs = Inr vis"
proof -
  let ?f = "\<lambda>v vis. case SetUint16VID v vis of
       (Some e, vis') \<Rightarrow> (Some (wrap ''failed to set link %v vid %v to vlanset, error %w'' e), vis') | (None, vis') \<Rightarrow> (None, vis')"
  assume "\<forall>v \<in> set vs. uint v \<le> MaxVlanID"
  then have "vis_ok w \<and> isTrunkMode w \<Longrightarrow> \<exists>vis. fold_err ?f vs w = (None, vis)" for w
  proof (induction vs arbitrary: w)
    case (Cons v vs)
    have "uint v \<le> MaxVlanID" "\<forall>v \<in> set vs. uint v \<le> MaxVlanID" using Cons.prems(2) by auto
    moreover from this obtain w1 where "SetUint16VID v w = (None, w1)" "vis_ok w1 \<and> isTrunkMode w1"
      using SetVID_trunk_ok [of w "uint v"] Cons.prems(1) by (auto simp: SetUint16VID_def)
    ultimately show ?case using Cons.IH [of w1] by simp
  qed simp
  from this [of NewVlanIDSet] NewVlanIDSet_ok show ?thesis by (auto simp: set_vids_def)
qed

text \<open>States in which no call that the agent makes about VLAN ids fails.\<close>

definition reliable :: "'k netlink \<Rightarrow> ('k \<Rightarrow> bool) \<Rightarrow> bool" where
  "reliable nl P \<longleftrightarrow>
     (\<forall>l v k. P k \<longrightarrow> (\<exists>k'. BridgeVlanAdd nl l v False False False True k = (Inr (), k') \<and> P k')) \<and>
     (\<forall>l v k. P k \<longrightarrow> (\<exists>k'. BridgeVlanDel nl l v False False False True k = (Inr (), k') \<and> P k')) \<and>
     (\<forall>n k. P k \<longrightarrow> P (snd (LinkByName nl n k))) \<and>
     (\<forall>k. P k \<longrightarrow> (\<exists>ls k'. LinkListSafe nl k = (Inr ls, k') \<and> P k')) \<and>
     (\<forall>k. P k \<longrightarrow> (\<exists>m k'. BridgeVlanList nl k = (Inr m, k') \<and> P k'))"

lemma reliableD:
  assumes "reliable nl P" "P k"
  shows "\<exists>k'. BridgeVlanAdd nl l v False False False True k = (Inr (), k') \<and> P k'"
    "\<exists>k'. BridgeVlanDel nl l v False False False True k = (Inr (), k') \<and> P k'"
    "P (snd (LinkByName nl n k))"
    "\<exists>ls k'. LinkListSafe nl k = (Inr ls, k') \<and> P k'"
    "\<exists>m k'. BridgeVlanList nl k = (Inr m, k') \<and> P k'"
  using assms by (simp_all add: reliable_def)

definition vlan_upd :: "32 word \<Rightarrow> (16 word set \<Rightarrow> 16 word set) \<Rightarrow> netview \<Rightarrow> netview" where
  "vlan_upd w f v = v\<lparr>nv_vlans := (nv_vlans v)(w := f (nv_vlans v w))\<rparr>"

lemma vlan_upd_upd [simp]: "vlan_upd w g (vlan_upd w f v) = vlan_upd w (g \<circ> f) v"
  by (simp add: vlan_upd_def)

lemma fold_vlan_upd:
  "fold (\<lambda>i. vlan_upd w (insert (word_of_int i))) xs v = vlan_upd w (\<lambda>A. A \<union> vid_words (set xs)) v"
  "fold (\<lambda>i. vlan_upd w (\<lambda>A. A - {word_of_int i})) xs v = vlan_upd w (\<lambda>A. A - vid_words (set xs)) v"
proof -
  have un: "(\<lambda>A. A \<union> B) \<circ> insert x = (\<lambda>A. A \<union> insert x B)"
    and df: "(\<lambda>A. A - B) \<circ> (\<lambda>A. A - {x}) = (\<lambda>A. A - insert x B)" for B and x :: "16 word" by auto
  show "fold (\<lambda>i. vlan_upd w (insert (word_of_int i))) xs v = vlan_upd w (\<lambda>A. A \<union> vid_words (set xs)) v"
    by (induction xs arbitrary: v) (simp_all add: vid_words_def un, simp add: vlan_upd_def)
  show "fold (\<lambda>i. vlan_upd w (\<lambda>A. A - {word_of_int i})) xs v = vlan_upd w (\<lambda>A. A - vid_words (set xs)) v"
    by (induction xs arbitrary: v) (simp_all add: vid_words_def df, simp add: vlan_upd_def)
qed

lemma walk_runs:
  assumes "vis_ok vis" "I k"
    and "\<And>i k. i \<in> vids vis - {1} \<Longrightarrow> I k \<Longrightarrow>
      \<exists>k'. cb (word_of_int i) k = (None, k') \<and> I k' \<and> ab k' = g i (ab k)"
  shows "\<exists>k'. WalkVIDs cb vis k = (None, k') \<and> I k' \<and> ab k' = fold g (sorted_list_of_set (vids vis - {1})) (ab k)"
proof -
  have fin: "set (sorted_list_of_set (vids vis - {1})) = vids vis - {1}" using finite_vids [OF assms(1)] by simp
  show ?thesis unfolding WalkVIDs_refines [OF assms(1)]
  proof (rule fold_err_refines [where I = I and A = ab and s = k, OF _ assms(2)])
    fix i s assume "i \<in> set (sorted_list_of_set (vids vis - {1}))" "I s"
    with assms(3) [of i s] fin
    show "\<exists>s'. walk_callback (if isTrunkMode vis then ''failed to walk %v on trunk vid %v, error: %w ''
                              else ''failed to walk %v on vid %v, error: %w '') cb i s = (None, s') \<and> I s' \<and> ab s' = g i (ab s)"
      by (auto simp: walk_callback_def)
  qed
qed

lemma bridge_Fetch_Inr:
  "bridge_Fetch nl br k = (Inr b, k') \<longleftrightarrow> LinkByName nl (at_Name (bg_attrs br)) k = (Inr (LBridge b), k')"
proof
  assume "bridge_Fetch nl br k = (Inr b, k')"
  then obtain l k1 where l: "LinkByName nl (at_Name (bg_attrs br)) k = (Inr l, k1)"
    "(case l of LBridge b \<Rightarrow> io_ret b | _ \<Rightarrow> io_throw (Errorf ''%s already exists but is not a bridge'')) k1 = (Inr b, k')"
    by (auto simp: bridge_Fetch_def io_results)
  then show "LinkByName nl (at_Name (bg_attrs br)) k = (Inr (LBridge b), k')" by (cases l) auto
qed (simp add: bridge_Fetch_def io_results)

context kernel
begin

lemma add_vid_runs:
  assumes "reliable nl P" "P k" "2 \<le> i" "i \<le> MaxVlanID"
  shows "\<exists>k'. act_io (AddBridgeVlan nl l (word_of_int i)) k = (None, k') \<and> P k' \<and> view k' = vlan_upd (vlan_key l) (insert (word_of_int i)) (view k)"
proof -
  have "\<not> (word_of_int i = defaultPVID \<or> word_of_int i = minVlanID)" using assms(3,4) by (subst unmanaged) simp
  moreover from reliableD(1) [OF assms(1,2)] obtain k' where
    "BridgeVlanAdd nl l (word_of_int i) False False False True k = (Inr (), k')" "P k'" by blast
  ultimately show ?thesis using call_lawD(1) [OF vlan_add_law]
    by (fastforce simp: AddBridgeVlan_def act_io_def eff_vlan_def vlan_upd_def)
qed

lemma del_vid_runs:
  assumes "reliable nl P" "P k" "2 \<le> i" "i \<le> MaxVlanID"
  shows "\<exists>k'. act_io (DelBridgeVlan nl l (word_of_int i)) k = (None, k') \<and> P k' \<and> view k' = vlan_upd (vlan_key l) (\<lambda>A. A - {word_of_int i}) (view k)"
proof -
  have "\<not> (word_of_int i = defaultPVID \<or> word_of_int i = minVlanID)" using assms(3,4) by (subst unmanaged) simp
  moreover from reliableD(2) [OF assms(1,2)] obtain k' where
    "BridgeVlanDel nl l (word_of_int i) False False False True k = (Inr (), k')" "P k'" by blast
  ultimately show ?thesis using call_lawD(1) [OF vlan_del_law]
    by (fastforce simp: DelBridgeVlan_def act_io_def eff_vlan_def vlan_upd_def)
qed

lemma walk_bounds: "vis_ok vis \<Longrightarrow> i \<in> vids vis - {1} \<Longrightarrow> 2 \<le> i \<and> i \<le> MaxVlanID"
  using vis_ok_bounds [of vis i] by auto

lemma AddLocalAreas_runs:
  assumes "reliable nl P" "P k" "vis_ok vis" "vl_uplink v = Some l"
  shows "\<exists>k'. AddLocalAreas nl v (Some vis) k = (Inr (), k') \<and> P k'
           \<and> view k' = vlan_upd (vlan_key l) (\<lambda>A. A \<union> vid_words (vids vis - {1})) (view k)"
proof -
  have fin: "set (sorted_list_of_set (vids vis - {1})) = vids vis - {1}" using finite_vids [OF assms(3)] by simp
  from walk_runs [where I = P and k = k and ab = view and cb = "\<lambda>i. act_io (AddBridgeVlan nl l i)"
      and g = "\<lambda>i. vlan_upd (vlan_key l) (insert (word_of_int i))", OF assms(3,2)] walk_bounds [OF assms(3)]
    add_vid_runs [OF assms(1)]
  show ?thesis by (auto simp: AddLocalAreas_def assms(4) io_try_def io_act_def fold_vlan_upd fin)
qed

lemma RemoveLocalAreas_runs:
  assumes "reliable nl P" "P k" "vis_ok vis" "vl_uplink v = Some l"
  shows "\<exists>k'. RemoveLocalAreas nl v (Some vis) k = (Inr (), k') \<and> P k'
           \<and> view k' = vlan_upd (vlan_key l) (\<lambda>A. A - vid_words (vids vis - {1})) (view k)"
proof -
  have fin: "set (sorted_list_of_set (vids vis - {1})) = vids vis - {1}" using finite_vids [OF assms(3)] by simp
  from walk_runs [where I = P and k = k and ab = view and cb = "\<lambda>i. act_io (DelBridgeVlan nl l i)"
      and g = "\<lambda>i. vlan_upd (vlan_key l) (\<lambda>A. A - {word_of_int i})", OF assms(3,2)] walk_bounds [OF assms(3)]
    del_vid_runs [OF assms(1)]
  show ?thesis by (auto simp: RemoveLocalAreas_def assms(4) io_try_def io_act_def fold_vlan_upd fin)
qed

lemma GetVlan_ok:
  assumes "vlan_GetVlan nl name k = (Inr v, k')"
  shows "\<exists>l. vl_uplink v = Some l \<and> sees (view k) l \<and> link_Name l = GenerateBondName name \<and> view k' = view k
           \<and> sees (view k) (LBridge (vl_bridge v)) \<and> at_Name (bg_attrs (vl_bridge v)) = GenerateBridgeName name
           \<and> vl_name v = name"
proof -
  from assms obtain b k1 l where b: "LinkByName nl (GenerateBridgeName name) k = (Inr (LBridge b), k1)"
    and l: "LinkByName nl (GenerateBondName name) k1 = (Inr l, k')"
    and v: "v = (NewVlan name)\<lparr>vl_bridge := b, vl_uplink := Some l\<rparr>"
    by (auto simp: vlan_GetVlan_def Let_def io_results bridge_Fetch_Inr getUplink_def NewVlan_def NewBridge_def)
  from byname_ok [OF b] byname_ok [OF l] show ?thesis by (auto simp: v NewVlan_def)
qed

lemma ToVlanIDSet_runs:
  assumes "reliable nl P" "P k" "vl_uplink v = Some l"
    "nv_vlans (view k) (vlan_key l) \<noteq> {}" "\<forall>w \<in> nv_vlans (view k) (vlan_key l). uint w \<le> MaxVlanID"
  shows "\<exists>vis k'. vlan_ToVlanIDSet nl v k = (Inr (Some vis), k') \<and> P k'"
proof -
  from reliableD(5) [OF assms(1,2)] obtain m k' where m: "BridgeVlanList nl k = (Inr m, k')" "P k'" by blast
  have "set (case m (vlan_key l) of None \<Rightarrow> [] | Some xs \<Rightarrow> xs) = nv_vlans (view k) (vlan_key l)"
    using call_lawD(1) [OF vlan_list_law m(1)] unfolding eff_read_def lists_vlans_def by blast
  with assms(4) obtain vs where vs: "m (vlan_key l) = Some vs" "set vs = nv_vlans (view k) (vlan_key l)"
    by (cases "m (vlan_key l)") auto
  with set_vids_ok [of vs] assms(5) obtain vis where "set_vids vs = Inr vis" by auto
  with m vs(1) assms(3) show ?thesis by (auto simp: vlan_ToVlanIDSet_def link_ToVlanIDSet_def io_bind_def)
qed

lemma ToVlanIDSet_ok:
  assumes "vlan_ToVlanIDSet nl v k = (Inr (Some vis), k')" "vl_uplink v = Some l"
  shows "vis_ok vis \<and> isTrunkMode vis \<and> vids vis = uint ` nv_vlans (view k) (vlan_key l) - {0} \<and> view k' = view k"
proof -
  from assms obtain m vs where m: "BridgeVlanList nl k = (Inr m, k')" "m (vlan_key l) = Some vs" "set_vids vs = Inr vis"
    by (auto simp: vlan_ToVlanIDSet_def link_ToVlanIDSet_def io_results io_lift_def split: option.splits)
  from call_lawD(1) [OF vlan_list_law m(1)] m(2) have "view k' = view k" "set vs = nv_vlans (view k) (vlan_key l)"
    by (auto simp: eff_read_def lists_vlans_def dest!: spec [of _ "vlan_key l"])
  with set_vids_refines [OF m(3)] show ?thesis by simp
qed

end

section \<open>Teardown\<close>

text \<open>No interface appears or is renamed, and \<open>i\<close> is gone.\<close>

definition link_gone :: "int \<Rightarrow> netview \<Rightarrow> netview \<Rightarrow> bool" where
  "link_gone i v v' \<longleftrightarrow> nv_name v' i = None \<and> (\<forall>j. nv_name v' j \<in> {None, nv_name v j})"

lemma link_gone_names: "link_gone i v v' \<Longrightarrow> nv_name v'' = nv_name v' \<Longrightarrow> link_gone i v v''"
  "link_gone i v v' \<Longrightarrow> nv_name u = nv_name v \<Longrightarrow> link_gone i u v'"
  by (simp_all add: link_gone_def)

lemma link_gone_back: "link_gone i v v' \<Longrightarrow> nv_name v' j = Some n \<Longrightarrow> nv_name v j = Some n"
  unfolding link_gone_def by (metis insertE singletonD option.distinct(1))

context kernel
begin

lemma GetVlan_err: "vlan_GetVlan nl name k = (Inl e, k') \<Longrightarrow> view k' = view k"
  using byname_ok byname_err
  by (fastforce simp: vlan_GetVlan_def Let_def bridge_Fetch_def getUplink_def io_bind_def io_wrap_def split: prod.splits sum.splits nl_link.splits)

lemma GetVlan_no_panic: "vlan_GetVlan nl name k = (Inl e, k') \<Longrightarrow> \<not> is_panic e"
  using call_lawD(2) [OF byname_law]
  by (fastforce simp: vlan_GetVlan_def Let_def bridge_Fetch_def getUplink_def io_bind_def io_wrap_def split: prod.splits sum.splits nl_link.splits)

lemma recover_names:
  "io_errors (\<lambda>s. io_wrap w (setLinkUp nl (link_Name s))) slaves k = (Inr es, k') \<Longrightarrow> nv_name (view k') = nv_name (view k)"
proof (induction slaves arbitrary: k es)
  case (Cons s slaves)
  show ?case
  proof (cases "setLinkUp nl (link_Name s) k")
    case (Pair r k1)
    have v: "nv_name (view k1) = nv_name (view k)"
      using Pair setLinkUp_ok [of "link_Name s" k k1] setLinkUp_err [of "link_Name s" k _ k1] by (cases r) auto
    from Cons.prems Pair obtain es' where "io_errors (\<lambda>s. io_wrap w (setLinkUp nl (link_Name s))) slaves k1 = (Inr es', k')"
      by (cases r) (auto simp: io_results split: if_splits)
    from Cons.IH [OF this] v show ?thesis by simp
  qed
qed simp

lemma link_Remove_ok:
  assumes "link_Remove nl l k = (Inr (), k')" "link_Index l \<noteq> 0"
  shows "link_gone (link_Index l) (view k) (view k')"
proof (cases "Type l = TypeBond")
  case True
  let ?b = "LBond (NewLinkBond (Attrs l))"
  from assms(1) True obtain ss k1 k2 es where s: "getSlaves nl (link_Index l) k = (Inr ss, k1)" "LinkDel nl ?b k1 = (Inr (), k2)"
    "io_errors (\<lambda>s. io_wrap (wrap ''failed to set NIC %s up after bond deletion: %w'') (setLinkUp nl (link_Name s))) ss k2 = (Inr es, k')"
    by (auto simp: link_Remove_def bond_remove_def io_results NewLinkBond_def split: if_splits)
  have "view k1 = view k" using getSlaves_ok [OF s(1)] by simp
  with call_lawD(1) [OF del_law s(2)] assms(2) have "link_gone (link_Index l) (view k) (view k2)"
    by (simp add: link_gone_def eff_del_def NewLinkBond_def)
  then show ?thesis by (rule link_gone_names(1)) (rule recover_names [OF s(3)])
next
  case False
  with assms call_lawD(1) [OF del_law] show ?thesis by (auto simp: link_Remove_def link_gone_def eff_del_def)
qed

lemma Teardown_ok:
  assumes "vlan_GetVlan nl name k = (Inr v, k1)" "Teardown nl v k1 = (Inr (), k')"
  shows "GenerateBondName name \<notin> ran (nv_name (view k'))" "GenerateBridgeName name \<notin> ran (nv_name (view k'))"
proof -
  obtain l where l: "vl_uplink v = Some l" "sees (view k) l" "link_Name l = GenerateBondName name" "view k1 = view k"
    "sees (view k) (LBridge (vl_bridge v))" "at_Name (bg_attrs (vl_bridge v)) = GenerateBridgeName name"
    using GetVlan_ok [OF assms(1)] by blast
  from assms(2) l(1) obtain k2 k3 where t: "SetNoMaster nl l k1 = (Inr (), k2)" "link_Remove nl l k2 = (Inr (), k3)"
    "link_Remove nl (LBridge (vl_bridge v)) k3 = (Inr (), k')"
    by (auto simp: Teardown_def io_results)
  have i: "link_Index l \<noteq> 0" "at_Index (bg_attrs (vl_bridge v)) \<noteq> 0" using l(2,5) by (simp_all add: sees_def)
  have "nv_name (view k2) = nv_name (view k1)"
    using t(1) call_lawD(1) [OF nomaster_law] i(1) by (auto simp: SetNoMaster_def eff_master_def split: if_splits)
  then have g1: "link_gone (link_Index l) (view k) (view k3)" using link_gone_names(2) [OF link_Remove_ok [OF t(2) i(1)]] l(4) by simp
  have g2: "link_gone (at_Index (bg_attrs (vl_bridge v))) (view k3) (view k')" using link_Remove_ok [OF t(3)] i(2) by simp
  have bond: "j = link_Index l" if "nv_name (view k) j = Some (GenerateBondName name)" for j
    using names_inj [OF that] l(2,3) by (simp add: sees_def)
  have bridge: "j = at_Index (bg_attrs (vl_bridge v))" if "nv_name (view k) j = Some (GenerateBridgeName name)" for j
    using names_inj [OF that] l(5,6) by (simp add: sees_def)
  show "GenerateBondName name \<notin> ran (nv_name (view k'))"
  proof
    assume "GenerateBondName name \<in> ran (nv_name (view k'))"
    then obtain j where j: "nv_name (view k') j = Some (GenerateBondName name)" by (auto simp: ran_def)
    with g2 have "nv_name (view k3) j = Some (GenerateBondName name)" by (rule link_gone_back)
    moreover with g1 have "nv_name (view k) j = Some (GenerateBondName name)" by (rule link_gone_back)
    ultimately show False using bond g1 by (metis link_gone_def option.distinct(1))
  qed
  show "GenerateBridgeName name \<notin> ran (nv_name (view k'))"
  proof
    assume "GenerateBridgeName name \<in> ran (nv_name (view k'))"
    then obtain j where j: "nv_name (view k') j = Some (GenerateBridgeName name)" by (auto simp: ran_def)
    with g2 have "nv_name (view k3) j = Some (GenerateBridgeName name)" by (rule link_gone_back)
    with g1 have "nv_name (view k) j = Some (GenerateBridgeName name)" by (rule link_gone_back)
    with bridge j g2 show False by (metis link_gone_def option.distinct(1))
  qed
qed

end

section \<open>Setup\<close>

text \<open>
  No interface loses its name, its master or its being up, and new ones have no master.
\<close>

definition grows :: "netview \<Rightarrow> netview \<Rightarrow> bool" where
  "grows v v' \<longleftrightarrow>
     (\<forall>j n. nv_name v j = Some n \<longrightarrow> nv_name v' j = Some n \<and> nv_master v' j = nv_master v j \<and> (nv_up v j \<longrightarrow> nv_up v' j))
     \<and> (\<forall>j. nv_name v j = None \<and> nv_name v' j \<noteq> None \<longrightarrow> nv_master v' j = 0)"

lemma grows_refl: "grows v v"
  by (auto simp: grows_def)

lemma grows_up: "grows v (v\<lparr>nv_up := (nv_up v)(i := True)\<rparr>)"
  by (auto simp: grows_def)

lemma grows_add: "eff_add l v x v' \<Longrightarrow> link_Master l = 0 \<Longrightarrow> grows v v'"
  unfolding eff_add_def grows_def only_at_def by (metis option.distinct(1))

lemma grows_trans:
  assumes "grows u v" "grows v w" shows "grows u w"
  unfolding grows_def
proof (intro conjI allI impI)
  fix j n assume j: "nv_name u j = Some n"
  then have "nv_name v j = Some n" using assms(1) by (simp add: grows_def)
  with j assms show "nv_name w j = Some n" "nv_master w j = nv_master u j" "nv_up u j \<Longrightarrow> nv_up w j"
    by (simp_all add: grows_def)
next
  fix j assume j: "nv_name u j = None \<and> nv_name w j \<noteq> None"
  then show "nv_master w j = 0"
    using assms by (cases "nv_name v j") (auto simp: grows_def)
qed

context kernel
begin

lemma Ensure_ok:
  assumes "Ensure nl br0 k = (Inr br, k')" "at_MasterIndex (bg_attrs br0) = 0"
  shows "grows (view k) (view k')" "sees (view k') (LBridge br)" "at_Name (bg_attrs br) = at_Name (bg_attrs br0)"
    "nv_up (view k') (at_Index (bg_attrs br))"
proof -
  from assms(1) obtain u0 u1 u2 u3 k1 br1 k2 k3 k4 k5 where
    add: "io_try (LinkAdd nl (LBridge br0)) (\<lambda>e. if e = EEXIST then io_ret () else io_throw (wrap ''add iface failed, error: %w, iface: %v'' e)) io_ret k = (Inr u0, k1)"
    and f: "LinkByName nl (at_Name (bg_attrs br0)) k1 = (Inr (LBridge br1), k2)"
    and p: "(if at_Promisc (bg_attrs br1) \<noteq> 1 then io_wrap (wrap ''set promiscuous mode failed, error: %w, iface: %v'') (SetPromiscOn nl (LBridge br1)) else io_ret ()) k2 = (Inr u1, k3)"
    and v: "(if bg_VlanFiltering br1 = Some False then io_wrap (wrap ''set vlan filtering failed, error: %w, iface: %v'') (BridgeSetVlanFiltering nl br1 True) else io_ret ()) k3 = (Inr u2, k4)"
    and u: "(if at_OperState (bg_attrs br1) \<noteq> OperUp then LinkSetUp nl (LBridge br1) else io_ret ()) k4 = (Inr u3, k5)"
    and g: "LinkByName nl (at_Name (bg_attrs br1)) k5 = (Inr (LBridge br), k')"
    unfolding Ensure_def io_bind_result bridge_Fetch_Inr by blast
  have g1: "grows (view k) (view k1)"
    using add call_lawD [OF add_law, of "LBridge br0" k] assms(2)
    by (auto simp: io_try_result intro: grows_refl grows_add split: if_splits)
  note b1 = byname_ok [OF f]
  have v4: "view k4 = view k2"
    using p v call_lawD(1) [OF promisc_law, of "LBridge br1" k2] call_lawD(1) [OF filtering_law, of br1 True k3]
    by (auto simp: io_wrap_result eff_read_def split: if_splits)
  have up: "view k5 = (view k4)\<lparr>nv_up := (nv_up (view k4))(at_Index (bg_attrs br1) := True)\<rparr>"
  proof (cases "at_OperState (bg_attrs br1) = OperUp")
    case True
    with b1 v4 have "nv_up (view k4) (at_Index (bg_attrs br1))" by (simp add: sees_def is_up_def)
    then show ?thesis using u True by (simp add: fun_upd_idem)
  next
    case False
    with u have "LinkSetUp nl (LBridge br1) k4 = (Inr u3, k5)" by simp
    from call_lawD(1) [OF up_law this] b1 show ?thesis by (auto simp: eff_up_def sees_def)
  qed
  note b = byname_ok [OF g]
  show "sees (view k') (LBridge br)" "at_Name (bg_attrs br) = at_Name (bg_attrs br0)" using b b1 by auto
  show "grows (view k) (view k')"
    using grows_trans [OF g1, of "view k5"] up b b1 v4 grows_up [of "view k1"] by simp
  have "nv_name (view k5) (at_Index (bg_attrs br)) = Some (at_Name (bg_attrs br0))" using b b1 by (auto simp: sees_def)
  moreover have "nv_name (view k5) (at_Index (bg_attrs br1)) = Some (at_Name (bg_attrs br0))"
    using b1 up v4 by (auto simp: sees_def)
  ultimately have "at_Index (bg_attrs br) = at_Index (bg_attrs br1)" by (rule names_inj)
  then show "nv_up (view k') (at_Index (bg_attrs br))" using b up by simp
qed

text \<open>Without macvlan interfaces on the link the master is the only thing \<open>SetMaster\<close> changes.\<close>

lemma SetMaster_ok:
  assumes "SetMaster nl l br k = (Inr (), k')" "link_Index l \<noteq> 0"
    "link_Master l = at_Index (bg_attrs br) \<longrightarrow> nv_master (view k) (link_Index l) = link_Master l"
    and "\<And>ls k0 x. LinkListSafe nl k = (Inr ls, k0) \<Longrightarrow> x \<in> set ls \<Longrightarrow> at_ParentIndex (Attrs x) = link_Index l \<Longrightarrow> Type x \<noteq> ''macvlan''"
  shows "nv_master (view k') (link_Index l) = at_Index (bg_attrs br) \<and> nv_name (view k') = nv_name (view k)
     \<and> only_at (link_Index l) (view k) (view k')"
proof (cases "link_Master l = at_Index (bg_attrs br)")
  case True
  with assms(1,3) show ?thesis by (auto simp: SetMaster_def only_at_def)
next
  case False
  with assms(1) obtain k1 where c: "clearMacVlan nl l k = (Inr (), k1)" and m: "LinkSetMaster nl l (LBridge br) k1 = (Inr (), k')"
    by (auto simp: SetMaster_def io_results)
  from c obtain ls k0 where ls: "LinkListSafe nl k = (Inr ls, k0)"
    and e: "io_each (\<lambda>link. if at_ParentIndex (Attrs link) = link_Index l \<and> Type link = ''macvlan'' then LinkDel nl link else io_ret ()) ls k0 = (Inr (), k1)"
    by (auto simp: clearMacVlan_def io_results)
  have "\<forall>x \<in> set ls. \<not> (at_ParentIndex (Attrs x) = link_Index l \<and> Type x = ''macvlan'')" using assms(4) [OF ls] by blast
  with e have "k1 = k0" by (induction ls) auto
  moreover have "view k0 = view k" using call_lawD(1) [OF listsafe_law ls] by (simp add: eff_read_def)
  ultimately show ?thesis using call_lawD(1) [OF master_law m] assms(2) by (auto simp: eff_master_def)
qed

lemma EnsureBond_master:
  assumes "EnsureBond nl b ss k = (Inr bond, k')" "at_Name (bd_attrs b) \<notin> set ss" "link_Master (LBond bond) \<noteq> at_Index (bd_attrs bond)"
  shows "nv_master (view k') (at_Index (bd_attrs bond)) = link_Master (LBond bond)"
proof -
  from assms(1) obtain k1 where e: "ensureBond nl b k = (Inr bond, k1)" "ensureBondSlaves nl bond ss k1 = (Inr (), k')"
    by (auto simp: EnsureBond_def io_results)
  note b = ensureBond_ok [OF e(1)]
  with ensureBondSlaves_frame [OF e(2), of "at_Index (bd_attrs bond)"] assms(2,3) show ?thesis by (auto simp: sees_def)
qed

lemma EnsureBond_index: "EnsureBond nl b ss k = (Inr bond, k') \<Longrightarrow> at_Index (bd_attrs bond) \<noteq> 0"
  by (auto simp: EnsureBond_def io_results sees_def dest!: ensureBond_ok)

text \<open>A network set up over a bond: the bond belongs to the bridge, which is up, and keeps its slaves.\<close>

lemma Setup_ok:
  assumes "Setup nl v (LBond bond) k = (Inr v', k')" "at_MasterIndex (bg_attrs (vl_bridge v)) = 0"
    and "at_Index (bd_attrs bond) \<noteq> 0" "nv_name (view k) (at_Index (bd_attrs bond)) = Some bn" "bn \<noteq> at_Name (bg_attrs (vl_bridge v))"
    and "link_Master (LBond bond) \<noteq> at_Index (bd_attrs bond) \<Longrightarrow> nv_master (view k) (at_Index (bd_attrs bond)) = link_Master (LBond bond)"
    and "nv_master (view k) (at_Index (bd_attrs bond)) \<noteq> at_Index (bd_attrs bond)"
    and macvlan: "\<And>br k1 ls k0 x. Ensure nl (vl_bridge v) k = (Inr br, k1) \<Longrightarrow> LinkListSafe nl k1 = (Inr ls, k0) \<Longrightarrow> x \<in> set ls \<Longrightarrow>
      at_ParentIndex (Attrs x) = at_Index (bd_attrs bond) \<Longrightarrow> Type x \<noteq> ''macvlan''"
  shows "\<exists>br. nv_name (view k') br = Some (at_Name (bg_attrs (vl_bridge v))) \<and> nv_up (view k') br
     \<and> nv_name (view k') (at_Index (bd_attrs bond)) = Some bn \<and> nv_master (view k') (at_Index (bd_attrs bond)) = br
     \<and> (\<forall>j n. nv_name (view k') j = Some n \<and> nv_master (view k') j = at_Index (bd_attrs bond) \<longleftrightarrow>
              nv_name (view k) j = Some n \<and> nv_master (view k) j = at_Index (bd_attrs bond))
     \<and> (\<forall>j n. nv_name (view k) j = Some n \<and> nv_up (view k) j \<and> j \<noteq> at_Index (bd_attrs bond) \<longrightarrow> nv_up (view k') j)"
proof -
  let ?B = "at_Index (bd_attrs bond)"
  from assms(1) obtain br k1 where e: "Ensure nl (vl_bridge v) k = (Inr br, k1)" and m: "SetMaster nl (LBond bond) br k1 = (Inr (), k')"
    by (auto simp: Setup_def io_results)
  note E = Ensure_ok [OF e assms(2)]
  let ?R = "at_Index (bg_attrs br)"
  have R: "nv_name (view k1) ?R = Some (at_Name (bg_attrs (vl_bridge v)))" using E(2,3) by (auto simp: sees_def)
  have B1: "nv_name (view k1) ?B = Some bn" "nv_master (view k1) ?B = nv_master (view k) ?B"
    using E(1) assms(4) by (auto simp: grows_def)
  have RB: "?R \<noteq> ?B" using R B1(1) assms(5) by auto
  have "nv_master (view k') (link_Index (LBond bond)) = ?R \<and> nv_name (view k') = nv_name (view k1) \<and> only_at (link_Index (LBond bond)) (view k1) (view k')"
  proof (rule SetMaster_ok [OF m])
    show "link_Master (LBond bond) = ?R \<longrightarrow> nv_master (view k1) (link_Index (LBond bond)) = link_Master (LBond bond)"
      using RB assms(6) B1(2) by auto
    show "Type x \<noteq> ''macvlan''" if "LinkListSafe nl k1 = (Inr ls, k0)" "x \<in> set ls" "at_ParentIndex (Attrs x) = link_Index (LBond bond)" for ls k0 x
      using macvlan [OF e that(1,2)] that(3) by simp
  qed (use assms(3) in simp)
  then have M: "nv_master (view k') ?B = ?R" "nv_name (view k') = nv_name (view k1)" "only_at ?B (view k1) (view k')" by simp_all
  have slaves: "nv_name (view k') j = Some n \<and> nv_master (view k') j = ?B \<longleftrightarrow> nv_name (view k) j = Some n \<and> nv_master (view k) j = ?B" for j n
  proof (cases "j = ?B")
    case True
    then show ?thesis using M(1) RB assms(7) by auto
  next
    case False
    then have "nv_master (view k') j = nv_master (view k1) j" using M(3) by (simp add: only_at_def)
    then show ?thesis using E(1) assms(3) M(2) by (cases "nv_name (view k) j") (auto simp: grows_def)
  qed
  have up: "nv_up (view k') j" if "nv_name (view k) j = Some n" "nv_up (view k) j" "j \<noteq> ?B" for j n
    using that E(1) M(3) by (auto simp: grows_def only_at_def)
  have "nv_up (view k') ?R" using E(4) M(3) RB by (simp add: only_at_def)
  with R B1(1) M(1,2) slaves up show ?thesis by (intro exI [of _ ?R]) auto
qed

end

end
