(* ===== verification/Agent_ClusterNetwork.thy ===== *)
theory Agent_ClusterNetwork
  imports Vlan_Net Net_Conf
begin

text \<open>
  \<open>pkg/controller/agent/clusternetwork/controller.go\<close>: on each node, the VLAN filter of a cluster
  network's uplink follows the NADs of the network and the VLAN sub-interfaces an administrator
  has put on its bridge.
\<close>

section \<open>The handler\<close>

text \<open>The loop over the manual ids: an id the set refuses is logged and skipped.\<close>

definition keep_manual_vid :: "16 word \<Rightarrow> VlanIDSet \<Rightarrow> go_error option \<times> VlanIDSet" where
  "keep_manual_vid v vis =
     (case SetUint16VID v vis of
        (Some e, vis') \<Rightarrow> (if is_panic e then Some e else None, vis')
      | (None, vis') \<Rightarrow> (None, vis'))"

definition keep_manual :: "16 word list \<Rightarrow> VlanIDSet \<Rightarrow> VlanIDSet res" where
  "keep_manual manualVlans vis =
     (case fold_err keep_manual_vid manualVlans vis of (Some e, _) \<Rightarrow> Inl e | (None, vis') \<Rightarrow> Inr vis')"

definition Agent_CN_OnChange :: "golib \<Rightarrow> nad_lister \<Rightarrow> 'k netlink \<Rightarrow> ClusterNetwork option \<Rightarrow> ('k, ClusterNetwork option) io" where
  "Agent_CN_OnChange g nadList' nl cn_ptr =
     (case cn_ptr of
        None \<Rightarrow> io_ret None
      | Some cn \<Rightarrow>
          if o_deleting cn then io_ret None
          else io_try (vlan_GetVlan nl (o_name cn))
            (\<lambda>e. if IsLinkNotFound e then io_ret None else io_throw e)
            (\<lambda>v.
             io_bind (io_lift (GeVlanIDSetFromClusterNetwork g nadList' (o_name cn))) (\<lambda>nadVlans.
             io_bind (GetManuallyConfiguredVlans nl (o_name cn)) (\<lambda>manualVlans.
             io_bind (io_lift (keep_manual manualVlans nadVlans)) (\<lambda>cnVlans.
             io_bind (vlan_ToVlanIDSet nl v) (\<lambda>existingVlans.
             io_bind (io_lift (Diff existingVlans cnVlans)) (\<lambda>(added, removed).
             io_bind (AddLocalAreas nl v (Some added)) (\<lambda>_.
             io_bind (RemoveLocalAreas nl v (Some removed)) (\<lambda>_.
             io_ret (Some cn))))))))))"

section \<open>Manual ids\<close>

text \<open>The ids of the VLAN sub-interfaces on the bridge of a cluster network, by interface name.\<close>

definition manual_ids :: "netview \<Rightarrow> string \<Rightarrow> 16 word set" where
  "manual_ids v cnName = (\<Union>n \<in> ran (nv_name v). set (manual_vid (GetClusterNetworkDevicePrefix cnName) n))"

lemma manual_vid_managed: "w \<in> set (manual_vid p n) \<Longrightarrow> w \<in> managed"
  by (auto simp: manual_vid_def managed_def DefaultVlanID_def split: if_splits list.splits sum.splits)

lemma uint_mem: "uint w \<in> uint ` A \<longleftrightarrow> w \<in> A"
  by (metis image_iff word_of_int_uint)

lemma keep_manual_refines:
  assumes "vis_ok vis" "isTrunkMode vis" "\<forall>w \<in> set vs. w \<in> managed"
  shows "\<exists>vis'. keep_manual vs vis = Inr vis' \<and> vis_ok vis' \<and> isTrunkMode vis' \<and> vids vis' = vids vis \<union> uint ` set vs"
proof -
  have "\<exists>v'. keep_manual_vid w v = (None, v') \<and> (vis_ok v' \<and> isTrunkMode v') \<and> vids v' = insert (uint w) (vids v)"
    if "w \<in> set vs" "vis_ok v \<and> isTrunkMode v" for w v
    using that assms(3) SetVID_trunk_ok [of v "uint w"] by (fastforce simp: keep_manual_vid_def SetUint16VID_def managed_def)
  from fold_err_refines [where A = vids and g = "\<lambda>w. insert (uint w)" and s = vis and I = "\<lambda>v. vis_ok v \<and> isTrunkMode v",
      OF this] assms(1,2)
  obtain v' where "fold_err keep_manual_vid vs vis = (None, v')" "vis_ok v' \<and> isTrunkMode v'"
    "vids v' = fold (\<lambda>w. insert (uint w)) vs (vids vis)" by blast
  moreover have "fold (\<lambda>w. insert (uint w)) vs A = A \<union> uint ` set vs" for A by (induction vs arbitrary: A) auto
  ultimately show ?thesis by (auto simp: keep_manual_def)
qed

context kernel
begin

lemma manual_ok:
  assumes "GetManuallyConfiguredVlans nl cnName k = (Inr vs, k')"
  shows "set vs = manual_ids (view k) cnName \<and> view k' = view k"
proof -
  from assms obtain ls where ls: "LinkListSafe nl k = (Inr ls, k')" and vs: "vs = getManuallyConfiguredVlans cnName ls"
    by (auto simp: GetManuallyConfiguredVlans_def io_results)
  from call_lawD(1) [OF listsafe_law ls] have v: "view k' = view k" and sees: "\<forall>l \<in> set ls. sees (view k) l"
    and dom: "link_Index ` set ls = dom (nv_name (view k))" by (auto simp: eff_read_def lists_links_def)
  have "link_Name ` set ls = ran (nv_name (view k))"
  proof
    show "link_Name ` set ls \<subseteq> ran (nv_name (view k))" using sees by (auto simp: sees_def ran_def)
    show "ran (nv_name (view k)) \<subseteq> link_Name ` set ls"
    proof
      fix n assume "n \<in> ran (nv_name (view k))"
      then obtain i where i: "nv_name (view k) i = Some n" by (auto simp: ran_def)
      then obtain l where "l \<in> set ls" "link_Index l = i" using dom by (metis domI imageE)
      with i sees show "n \<in> link_Name ` set ls" by (auto simp: sees_def)
    qed
  qed
  then have "manual_ids (view k) cnName = (\<Union>l \<in> set ls. set (manual_vid (GetClusterNetworkDevicePrefix cnName) (link_Name l)))"
    unfolding manual_ids_def by (metis image_image)
  with v show ?thesis by (simp add: vs getManuallyConfiguredVlans_def)
qed

text \<open>The part of the handler after the desired set is known.\<close>

lemma sync_runs:
  assumes rel: "reliable nl P" "P k" and vis: "vis_ok cnVlans" "isTrunkMode cnVlans" and up: "vl_uplink v = Some l"
    and ex: "vlan_ToVlanIDSet nl v k = (Inr ex, k1)" and d: "Diff ex cnVlans = Inr (added, removed)"
    and a: "AddLocalAreas nl v (Some added) k1 = (Inr (), k2)" and r: "RemoveLocalAreas nl v (Some removed) k2 = (Inr (), k3)"
  shows "\<exists>f. view k3 = vlan_upd (vlan_key l) f (view k)
    \<and> (\<forall>w. w \<in> f (nv_vlans (view k) (vlan_key l)) \<longleftrightarrow>
           (if w \<in> managed then uint w \<in> vids cnVlans else w \<in> nv_vlans (view k) (vlan_key l)))"
proof -
  from d obtain e where e: "ex = Some e" by (cases ex) (auto simp: Diff_def)
  from ToVlanIDSet_ok [OF ex [unfolded e] up] have ve: "vis_ok e" "isTrunkMode e"
    "vids e = uint ` nv_vlans (view k) (vlan_key l) - {0}" "view k1 = view k" by auto
  from Diff_refines [OF vis ve(1,2)] d e have da: "vis_ok added" "vis_ok removed"
    "vids added = vids cnVlans - vids e - {1}" "vids removed = vids e - vids cnVlans - {1}" by auto
  from reliableD(5) [OF rel] ex up have "P k1"
    by (auto simp: vlan_ToVlanIDSet_def link_ToVlanIDSet_def io_bind_def split: prod.splits sum.splits option.splits)
  from AddLocalAreas_runs [OF rel(1) this da(1) up] a have k2: "P k2"
    "view k2 = vlan_upd (vlan_key l) (\<lambda>A. A \<union> vid_words (vids added - {1})) (view k1)" by auto
  from RemoveLocalAreas_runs [OF rel(1) k2(1) da(2) up] r
  have k3: "view k3 = vlan_upd (vlan_key l) (\<lambda>A. A - vid_words (vids removed - {1})) (view k2)" by auto
  have sub: "vids x \<subseteq> {0..MaxVlanID}" if "vis_ok x" for x using vis_ok_bounds [OF that] by fastforce
  have in_words: "w \<in> vid_words (vids x - {1}) \<longleftrightarrow> uint w \<in> vids x - {1}" if "vis_ok x" for x and w :: "16 word"
    by (rule vid_words_iff) (use sub [OF that] in auto)
  let ?f = "\<lambda>A. (A \<union> vid_words (vids added - {1})) - vid_words (vids removed - {1})"
  have "w \<in> ?f (nv_vlans (view k) (vlan_key l)) \<longleftrightarrow>
      (if w \<in> managed then uint w \<in> vids cnVlans else w \<in> nv_vlans (view k) (vlan_key l))" for w
  proof -
    have E: "uint w \<in> vids e \<longleftrightarrow> w \<in> nv_vlans (view k) (vlan_key l) \<and> uint w \<noteq> 0"
      by (simp add: ve(3) uint_mem)
    have A: "w \<in> vid_words (vids added - {1}) \<longleftrightarrow> uint w \<in> vids cnVlans \<and> uint w \<notin> vids e \<and> uint w \<noteq> 1"
      and R: "w \<in> vid_words (vids removed - {1}) \<longleftrightarrow> uint w \<in> vids e \<and> uint w \<notin> vids cnVlans \<and> uint w \<noteq> 1"
      using in_words [OF da(1), of w] in_words [OF da(2), of w] by (simp_all add: da(3,4))
    show ?thesis
    proof (cases "w \<in> managed")
      case True
      then have "uint w \<noteq> 0" "uint w \<noteq> 1" by (auto simp: managed_def)
      with True A R E show ?thesis by auto
    next
      case False
      have "uint w = 1 \<or> uint w \<notin> vids x" if "vis_ok x" for x
        using False vis_ok_bounds [OF that, of "uint w"] by (fastforce simp: managed_def)
      with False A R vis(1) ve(1) show ?thesis by auto
    qed
  qed
  moreover have "view k3 = vlan_upd (vlan_key l) ?f (view k)" by (simp add: k3 k2(2) ve(4) comp_def)
  ultimately show ?thesis by blast
qed

end

lemma reliable_byname: "reliable nl P \<Longrightarrow> io_keeps P (LinkByName nl n)"
  by (simp add: io_keeps_state reliableD(3))

lemma reliable_GetVlan: "reliable nl P \<Longrightarrow> io_keeps P (vlan_GetVlan nl cn)"
  unfolding vlan_GetVlan_def bridge_Fetch_def getUplink_def Let_def
  by (intro io_rules) (auto split: nl_link.split intro: io_rules reliable_byname)

context kernel
begin

lemma uplink_synced:
  assumes rel: "reliable nl P" "P k"
    and nads: "\<forall>nad \<in> set (indexer nads). nad_ok g nad"
    and cn: "\<not> o_deleting cn" and gv: "vlan_GetVlan nl (o_name cn) k = (Inr v, k1)" and up: "vl_uplink v = Some l"
    and filter: "nv_vlans (view k) (vlan_key l) \<noteq> {}" "\<forall>w \<in> nv_vlans (view k) (vlan_key l). uint w \<le> MaxVlanID"
  shows "\<exists>k' f. Agent_CN_OnChange g (store_list (indexer nads)) nl (Some cn) k = (Inr (Some cn), k')
      \<and> view k' = vlan_upd (vlan_key l) f (view k)
      \<and> f (nv_vlans (view k) (vlan_key l)) =
          (vid_words (network_vids g nads (o_name cn)) \<inter> managed) \<union> manual_ids (view k) (o_name cn)
          \<union> (nv_vlans (view k) (vlan_key l) - managed)"
proof -
  let ?cn = "o_name cn"
  have v1: "view k1 = view k" using GetVlan_ok [OF gv] by blast
  have "P k1" using io_keepsD [OF reliable_GetVlan [OF rel(1)] rel(2), of ?cn] gv by simp
  from reliableD(4) [OF rel(1) this] obtain ls k2 where ls: "LinkListSafe nl k1 = (Inr ls, k2)" "P k2" by blast
  let ?manual = "getManuallyConfiguredVlans ?cn ls"
  from ls have gm: "GetManuallyConfiguredVlans nl ?cn k1 = (Inr ?manual, k2)" by (simp add: GetManuallyConfiguredVlans_def)
  from manual_ok [OF gm] v1 have mv: "set ?manual = manual_ids (view k) ?cn" "view k2 = view k" by auto
  have mm: "\<forall>w \<in> set ?manual. w \<in> managed" by (auto simp: mv(1) manual_ids_def dest: manual_vid_managed)
  from GeVlanIDSet_refines [OF nads, of ?cn] obtain nadVlans where nv:
    "GeVlanIDSetFromClusterNetwork g (store_list (indexer nads)) ?cn = Inr nadVlans"
    "vis_ok nadVlans" "isTrunkMode nadVlans" "vids nadVlans = network_vids g nads ?cn" by auto
  from keep_manual_refines [OF nv(2,3) mm] obtain cnVlans where cv: "keep_manual ?manual nadVlans = Inr cnVlans"
    "vis_ok cnVlans" "isTrunkMode cnVlans" "vids cnVlans = vids nadVlans \<union> uint ` set ?manual" by blast
  from ToVlanIDSet_runs [OF rel(1) ls(2) up] filter mv(2) obtain ex k3 where
    ex: "vlan_ToVlanIDSet nl v k2 = (Inr (Some ex), k3)" "P k3" by auto
  from ToVlanIDSet_ok [OF ex(1) up] have "vis_ok ex" "isTrunkMode ex" by auto
  from Diff_refines [OF cv(2,3) this] obtain a r where d: "Diff (Some ex) cnVlans = Inr (a, r)" "vis_ok a" "vis_ok r" by blast
  from AddLocalAreas_runs [OF rel(1) ex(2) d(2) up] obtain k4 where k4: "AddLocalAreas nl v (Some a) k3 = (Inr (), k4)" "P k4" by blast
  from RemoveLocalAreas_runs [OF rel(1) k4(2) d(3) up] obtain k' where k': "RemoveLocalAreas nl v (Some r) k4 = (Inr (), k')" by blast
  have run: "Agent_CN_OnChange g (store_list (indexer nads)) nl (Some cn) k = (Inr (Some cn), k')"
    using cn gv nv(1) gm cv(1) ex(1) d(1) k4(1) k' by (simp add: Agent_CN_OnChange_def io_bind_def)
  from sync_runs [OF rel(1) ls(2) cv(2,3) up ex(1) d(1) k4(1) k'] obtain f where f:
    "view k' = vlan_upd (vlan_key l) f (view k)"
    "\<And>w. w \<in> f (nv_vlans (view k) (vlan_key l)) \<longleftrightarrow>
        (if w \<in> managed then uint w \<in> vids cnVlans else w \<in> nv_vlans (view k) (vlan_key l))"
    using mv(2) by auto
  have words: "w \<in> vid_words (vids nadVlans) \<longleftrightarrow> uint w \<in> vids nadVlans" for w
    using vis_ok_bounds [OF nv(2)] by (intro vid_words_iff) fastforce
  have "f (nv_vlans (view k) (vlan_key l)) =
      (vid_words (network_vids g nads ?cn) \<inter> managed) \<union> manual_ids (view k) ?cn \<union> (nv_vlans (view k) (vlan_key l) - managed)"
    unfolding nv(4) [symmetric] mv(1) [symmetric] using mm by (auto simp: f(2) cv(4) words uint_mem split: if_splits)
  with f(1) run show ?thesis by blast
qed

end

text \<open>
  C13. On a node where the cluster network is set up, when no netlink call about VLAN ids fails, the
  handler returns the cluster network without error, and the filter of the network's uplink then
  holds, of the ids 2 to 4094, exactly those of the live bridge NADs of the network and those of the
  VLAN sub-interfaces on its bridge. Its other ids are as before, and so is everything else.
\<close>

theorem uplink_filter_synced:
  assumes "kernel nl view" "reliable nl P" "P k"
    and "\<forall>nad \<in> set (indexer nads). nad_ok g nad"
    and "\<not> o_deleting cn" "vlan_GetVlan nl (o_name cn) k = (Inr v, k1)" "vl_uplink v = Some l"
    and "nv_vlans (view k) (vlan_key l) \<noteq> {}" "\<forall>w \<in> nv_vlans (view k) (vlan_key l). uint w \<le> MaxVlanID"
  shows "\<exists>k' f. Agent_CN_OnChange g (store_list (indexer nads)) nl (Some cn) k = (Inr (Some cn), k')
      \<and> view k' = vlan_upd (vlan_key l) f (view k)
      \<and> f (nv_vlans (view k) (vlan_key l)) =
          (vid_words (network_vids g nads (o_name cn)) \<inter> managed) \<union> manual_ids (view k) (o_name cn)
          \<union> (nv_vlans (view k) (vlan_key l) - managed)"
  by (rule kernel.uplink_synced [OF assms])

definition demo_net :: ref_state where
  "demo_net = \<lparr>rs_links = [LBridge ((NewBridge ''cn1-br'')\<lparr>bg_attrs := attrs0\<lparr>at_Index := 2, at_Name := ''cn1-br''\<rparr>\<rparr>),
        LBond (NewLinkBond (attrs0\<lparr>at_Index := 3, at_Name := ''cn1-bo'', at_MasterIndex := 2\<rparr>)),
        LVlan (attrs0\<lparr>at_Index := 4, at_Name := ''cn1-br.7'', at_ParentIndex := 2\<rparr>) 7],
     rs_vlans = [(3, 1), (3, 30)], rs_addrs = [], rs_script = []\<rparr>"

lemma ref_reliable: "reliable ref_netlink (\<lambda>s. rs_script s = [])"
  by (auto simp: reliable_def ref_netlink_def scripted_def ref_find_def split: option.splits)

definition agent_cn :: ClusterNetwork where
  "agent_cn = \<lparr>o_name = ''cn1'', o_namespace = [], o_labels = None, o_annotations = None, o_deleting = False, cn_Conditions = []\<rparr>"

definition demo_vlan :: Vlan where
  "demo_vlan = \<lparr>vl_name = ''cn1'', vl_bridge = (NewBridge ''cn1-br'')\<lparr>bg_attrs := attrs0\<lparr>at_Index := 2, at_Name := ''cn1-br''\<rparr>\<rparr>,
     vl_uplink = Some (LBond (NewLinkBond (attrs0\<lparr>at_Index := 3, at_Name := ''cn1-bo'', at_MasterIndex := 2\<rparr>)))\<rparr>"

lemma demo_nad_facts:
  "nad_ok demo_golib (demo_nad ''{}'')" "indexer [demo_nad ''{}''] = [demo_nad ''{}'']"
  "network_vids demo_golib [demo_nad ''{}''] ''cn1'' = {2}"
proof -
  let ?nc = "NetConf0\<lparr>BrName := ''cn1-br'', Vlan := 2\<rparr>"
  have dec: "DecodeNadConfigToNetConf demo_golib (Some (demo_nad ''{}'')) = Inr ?nc"
    by (simp add: DecodeNadConfigToNetConf_def demo_golib_def demo_nad_def)
  show idx: "indexer [demo_nad ''{}''] = [demo_nad ''{}'']" by (simp add: indexer_def store_put_def)
  show "nad_ok demo_golib (demo_nad ''{}'')"
    by (simp add: nad_ok_def dec nc_ok_def IsVlanConfigValid_Inr NetConf0_def trunk_items_def vlan_consts)
  have "nc_vids ?nc = {2}" "IsBridgeCNI ?nc"
    by (simp_all add: nc_vids_def IsVlanAccessMode_def NetConf0_def trunk_items_def IsBridgeCNI_def cni_types)
  then show "network_vids demo_golib [demo_nad ''{}''] ''cn1'' = {2}"
    by (simp add: network_vids_def idx dec) (simp add: demo_nad_def)
qed

theorem uplink_filter_synced_witness:
  "\<exists>k'. Agent_CN_OnChange demo_golib (store_list (indexer [demo_nad ''{}''])) ref_netlink (Some agent_cn) demo_net
         = (Inr (Some agent_cn), k') \<and> nv_vlans (ref_view k') 3 = {1, 2, 7}"
proof -
  have gv: "vlan_GetVlan ref_netlink (o_name agent_cn) demo_net = (Inr demo_vlan, demo_net)" by code_simp
  have key: "vlan_key (LBond (NewLinkBond (attrs0\<lparr>at_Index := 3, at_Name := ''cn1-bo'', at_MasterIndex := 2\<rparr>))) = 3"
    by (simp add: vlan_key_def NewLinkBond_def)
  have old: "nv_vlans (ref_view demo_net) 3 = {1, 30}" by (auto simp: ref_entries demo_net_def)
  have "ran (nv_name (ref_view demo_net)) = set (map link_Name (rs_table demo_net))"
    by (simp add: set_eq_iff ref_ran)
  also have "map link_Name (rs_table demo_net) = [''cn1-br'', ''cn1-bo'', ''cn1-br.7'']" by code_simp
  finally have "manual_ids (ref_view demo_net) ''cn1'' =
      set (concat (map (manual_vid (GetClusterNetworkDevicePrefix ''cn1'')) [''cn1-br'', ''cn1-bo'', ''cn1-br.7'']))"
    by (simp add: manual_ids_def)
  also have "concat (map (manual_vid (GetClusterNetworkDevicePrefix ''cn1'')) [''cn1-br'', ''cn1-bo'', ''cn1-br.7'']) = [7]"
    by code_simp
  finally have man: "manual_ids (ref_view demo_net) ''cn1'' = {7}" by simp
  have mg: "(1 :: 16 word) \<notin> managed" "(2 :: 16 word) \<in> managed" "(30 :: 16 word) \<in> managed" by (simp_all add: managed_def MaxVlanID_def)
  from uplink_filter_synced [OF rk.kernel_axioms ref_reliable, of demo_net "[demo_nad ''{}'']" demo_golib agent_cn demo_vlan demo_net
      "LBond (NewLinkBond (attrs0\<lparr>at_Index := 3, at_Name := ''cn1-bo'', at_MasterIndex := 2\<rparr>))"]
  show ?thesis using gv demo_nad_facts man mg old
    by (auto simp: key demo_net_def agent_cn_def demo_vlan_def vlan_upd_def vid_words_def MaxVlanID_def)
qed

text \<open>
  A failure to add a VLAN id is lost: when the call for the smallest id fails, \<open>AddLocalAreas\<close> makes
  no further call, so that none of the ids is added, and still returns nil.
\<close>

lemma AddLocalAreas_hides_failure:
  assumes "vis_ok vis" "vl_uplink v = Some l" "vids vis - {1} \<noteq> {}"
    and "BridgeVlanAdd nl l (word_of_int (Min (vids vis - {1}))) False False False True k = (Inl e, k')" "\<not> is_panic e"
  shows "AddLocalAreas nl v (Some vis) k = (Inr (), k')"
proof -
  let ?A = "vids vis - {1}"
  have fin: "finite ?A" using finite_vids [OF assms(1)] by simp
  then have list: "sorted_list_of_set ?A = Min ?A # sorted_list_of_set (?A - {Min ?A})"
    using assms(3) by (rule sorted_list_of_set_nonempty)
  have "2 \<le> Min ?A" "Min ?A \<le> MaxVlanID" using Min_in [OF fin assms(3)] vis_ok_bounds [OF assms(1)] by force+
  then have "\<not> (word_of_int (Min ?A) = defaultPVID \<or> word_of_int (Min ?A) = minVlanID)"
    by (subst unmanaged) simp
  then have "act_io (AddBridgeVlan nl l (word_of_int (Min ?A))) k = (Some (render ''add iface vlan failed, error: %v, link: %s, vid: %d'' e), k')"
    using assms(4) by (simp add: AddBridgeVlan_def act_io_def)
  then show ?thesis
    using assms(2,5) by (simp add: AddLocalAreas_def io_try_def io_act_def WalkVIDs_refines [OF assms(1)] list walk_callback_def)
qed

lemma AddLocalAreas_hides_failure_witness:
  "AddLocalAreas ref_netlink demo_vlan (Some (snd (SetVID 100 NewVlanIDSet))) (demo_net\<lparr>rs_script := [Some (EOther ''no memory'')]\<rparr>)
     = (Inr (), demo_net)"
proof -
  have s: "vids (snd (SetVID 100 NewVlanIDSet)) - {1} = {100}" "vis_ok (snd (SetVID 100 NewVlanIDSet))"
    using sample_set reachable_vis_ok by auto
  show ?thesis
    by (rule AddLocalAreas_hides_failure [OF s(2)])
      (auto simp: s demo_vlan_def ref_netlink_def scripted_def demo_net_def)
qed

end
