(* ===== verification/Bond_Info.thy ===== *)
theory Bond_Info
  imports Iface_Bond
begin

text \<open>
  \<open>pkg/utils/bondInterface.go\<close>: what the management bond of the node looks like, and whether the
  node's management VLAN config says so.
\<close>

section \<open>Operations\<close>

record MgmtBondInterfaceInfo =
  mi_MTU :: int
  mi_BondMode :: string
  mi_SlaveNames :: "string list option"

definition ManagementClusterNetworkBondDevicePrefix :: string where
  "ManagementClusterNetworkBondDevicePrefix = ManagementClusterNetworkName @ BondSuffix"

text \<open>\<open>slaveNames\<close> is declared without a value: it is nil when no link is a slave.\<close>

definition GetMgmtBondInfo :: "'k netlink \<Rightarrow> ('k, MgmtBondInterfaceInfo) io" where
  "GetMgmtBondInfo nl =
     io_bind (LinkByName nl ManagementClusterNetworkBondDevicePrefix) (\<lambda>mgmtBo.
       case mgmtBo of
         LBond bond \<Rightarrow>
           io_bind (LinkList nl) (\<lambda>links.
           let slaveNames = map link_Name (filter (\<lambda>l. link_Master l = link_Index mgmtBo) links) in
           io_ret \<lparr>mi_MTU = at_MTU (Attrs mgmtBo), mi_BondMode = BondModeString (bd_Mode bond),
                   mi_SlaveNames = (if slaveNames = [] then None else Some slaveNames)\<rparr>)
       | _ \<Rightarrow> io_throw (Errorf ''interface %s is not a bond device (got %T)''))"

definition compareStringSlices :: "string list \<Rightarrow> string list \<Rightarrow> bool" where
  "compareStringSlices a b = (if length a \<noteq> length b then False else list_all (\<lambda>v. v \<in> set a) b)"

text \<open>
  The two pointers are allocated first. MTU and mode are written when they differ, which is to say
  that they have the bond's values afterwards; each difference counts as a change.
\<close>

definition update_uplink :: "MgmtBondInterfaceInfo \<Rightarrow> Uplink \<Rightarrow> Uplink \<times> bool" where
  "update_uplink info up =
     (let la = (case up_LinkAttrs up of None \<Rightarrow> \<lparr>la_MTU = 0, la_TxQLen = -1, la_HardwareAddr = []\<rparr> | Some a \<Rightarrow> a);
          bo = (case up_BondOptions up of None \<Rightarrow> \<lparr>bo_Mode = [], bo_Miimon = -1\<rparr> | Some b \<Rightarrow> b);
          nics = compareStringSlices (slice_elems (up_NICs up)) (slice_elems (mi_SlaveNames info))
      in (\<lparr>up_NICs = (if nics then up_NICs up else mi_SlaveNames info),
           up_LinkAttrs = Some (la\<lparr>la_MTU := mi_MTU info\<rparr>),
           up_BondOptions = Some (bo\<lparr>bo_Mode := mi_BondMode info\<rparr>)\<rparr>,
          la_MTU la \<noteq> mi_MTU info \<or> bo_Mode bo \<noteq> mi_BondMode info \<or> \<not> nics))"

definition BuildUpdatedVlanConfig :: "VlanConfig option \<Rightarrow> MgmtBondInterfaceInfo \<Rightarrow> VlanConfig option \<times> bool" where
  "BuildUpdatedVlanConfig vc_ptr info =
     (case vc_ptr of
        None \<Rightarrow> (None, False)
      | Some vc \<Rightarrow> (case update_uplink info (vc_Uplink vc) of (up, changed) \<Rightarrow> (Some (vc\<lparr>vc_Uplink := up\<rparr>), changed)))"

section \<open>Properties\<close>

text \<open>The comparison ignores the order; it is set equality when the second list has no duplicates.\<close>

lemma compareStringSlices_set:
  assumes "distinct b"
  shows "compareStringSlices a b \<longleftrightarrow> length a = length b \<and> set a = set b"
proof -
  have "set a = set b" if "length a = length b" "set b \<subseteq> set a"
  proof (rule sym, rule card_subset_eq)
    have "card (set a) \<le> length a" by (rule card_length)
    also have "\<dots> = card (set b)" using that assms by (simp add: distinct_card)
    finally show "card (set b) = card (set a)" using that(2) by (meson card_mono eq_iff finite_set)
  qed (use that in auto)
  then show ?thesis by (auto simp: compareStringSlices_def list_all_iff)
qed

lemma compareStringSlices_refl [simp]: "compareStringSlices a a"
  by (simp add: compareStringSlices_def list_all_iff)

definition describes :: "VlanConfig \<Rightarrow> MgmtBondInterfaceInfo \<Rightarrow> bool" where
  "describes vc info \<longleftrightarrow>
     (\<exists>la bo. up_LinkAttrs (vc_Uplink vc) = Some la \<and> la_MTU la = mi_MTU info
        \<and> up_BondOptions (vc_Uplink vc) = Some bo \<and> bo_Mode bo = mi_BondMode info)
     \<and> set (slice_elems (up_NICs (vc_Uplink vc))) = set (slice_elems (mi_SlaveNames info))"

lemma update_uplink_idem: "update_uplink info (fst (update_uplink info up)) = (fst (update_uplink info up), False)"
  by (simp add: update_uplink_def Let_def)

lemma update_uplink_NICs:
  assumes "distinct (slice_elems (mi_SlaveNames info))"
  shows "set (slice_elems (up_NICs (fst (update_uplink info up)))) = set (slice_elems (mi_SlaveNames info))"
    "\<not> snd (update_uplink info up) \<Longrightarrow> set (slice_elems (up_NICs up)) = set (slice_elems (mi_SlaveNames info))"
  by (simp_all add: update_uplink_def Let_def compareStringSlices_set [OF assms])

lemma BuildUpdated_Some:
  "BuildUpdatedVlanConfig (Some vc) info =
     (Some (vc\<lparr>vc_Uplink := fst (update_uplink info (vc_Uplink vc))\<rparr>), snd (update_uplink info (vc_Uplink vc)))"
  by (simp add: BuildUpdatedVlanConfig_def split: prod.splits)

lemma BuildUpdated_describes:
  assumes "distinct (slice_elems (mi_SlaveNames info))" "BuildUpdatedVlanConfig (Some vc) info = (Some vc', changed)"
  shows "describes vc' info \<and> (\<exists>u. vc' = vc\<lparr>vc_Uplink := u\<rparr>)"
proof -
  from assms(2) have vc': "vc' = vc\<lparr>vc_Uplink := fst (update_uplink info (vc_Uplink vc))\<rparr>"
    by (simp add: BuildUpdated_Some)
  have "describes vc' info"
    using update_uplink_NICs(1) [OF assms(1)] by (simp add: vc' describes_def) (simp add: update_uplink_def Let_def)
  with vc' show ?thesis by blast
qed

text \<open>
  \<open>BuildUpdatedVlanConfig\<close> makes the VLAN config describe the bond (MTU, mode, and the slaves as a
  set), changes nothing but the uplink, and is idempotent: a second call reports no change. It
  reports no change in the first place only for a config that describes the bond once the two nil
  pointers are filled in. The names of the slaves are distinct, as interface names are.
\<close>

lemma BuildUpdated_idempotent:
  assumes "distinct (slice_elems (mi_SlaveNames info))"
  shows "\<exists>vc' changed u. BuildUpdatedVlanConfig (Some vc) info = (Some vc', changed)
     \<and> vc' = vc\<lparr>vc_Uplink := u\<rparr> \<and> describes vc' info
     \<and> BuildUpdatedVlanConfig (Some vc') info = (Some vc', False)
     \<and> (\<not> changed \<longrightarrow> set (slice_elems (up_NICs (vc_Uplink vc))) = set (slice_elems (mi_SlaveNames info)))"
proof -
  let ?vc = "vc\<lparr>vc_Uplink := fst (update_uplink info (vc_Uplink vc))\<rparr>" and ?c = "snd (update_uplink info (vc_Uplink vc))"
  have r: "BuildUpdatedVlanConfig (Some vc) info = (Some ?vc, ?c)" by (rule BuildUpdated_Some)
  moreover have "BuildUpdatedVlanConfig (Some ?vc) info = (Some ?vc, False)"
    by (simp add: BuildUpdated_Some update_uplink_idem)
  moreover note BuildUpdated_describes [OF assms r] update_uplink_NICs(2) [OF assms]
  ultimately show ?thesis by blast
qed

definition demo_info :: MgmtBondInterfaceInfo where
  "demo_info = \<lparr>mi_MTU = 1500, mi_BondMode = ''active-backup'', mi_SlaveNames = Some [''eth0'', ''eth1'']\<rparr>"

definition empty_vc :: "string \<Rightarrow> VlanConfig" where
  "empty_vc n = \<lparr>o_name = n, o_namespace = [], o_labels = None, o_annotations = None, o_deleting = False,
     vc_Description = [], vc_ClusterNetwork = [], vc_NodeSelector = [],
     vc_Uplink = \<lparr>up_NICs = None, up_LinkAttrs = None, up_BondOptions = None\<rparr>\<rparr>"

lemma BuildUpdated_idempotent_witness:
  "\<exists>vc'. BuildUpdatedVlanConfig (Some (empty_vc ''v'')) demo_info = (Some vc', True)
     \<and> BuildUpdatedVlanConfig (Some vc') demo_info = (Some vc', False) \<and> describes vc' demo_info"
proof -
  have "snd (BuildUpdatedVlanConfig (Some (empty_vc ''v'')) demo_info)"
    by (simp add: BuildUpdated_Some update_uplink_def Let_def empty_vc_def demo_info_def)
  moreover have "distinct (slice_elems (mi_SlaveNames demo_info))" by (simp add: demo_info_def)
  ultimately show ?thesis using BuildUpdated_idempotent [of demo_info "empty_vc ''v''"] by force
qed

end
