(* ===== verification/Agent_State.thy ===== *)
theory Agent_State
  imports Netlink
begin

text \<open>
  The state of the agent's handlers: the node's kernel and the log of API calls. The rules
  \<open>io_log_rules\<close> bound the calls that a handler can make.
\<close>

named_theorems io_log_rules \<open>which API calls stateful code can make\<close>

type_synonym 'k agent_state = "'k \<times> api_log"

definition api :: "api_server \<Rightarrow> api_call \<Rightarrow> ('k agent_state, unit) io" where
  "api srv a = on_snd (io_act (call srv a))"

definition enq :: "api_call \<Rightarrow> ('k agent_state, unit) io" where
  "enq a = on_snd (\<lambda>l. (Inr (), enqueue a l))"

text \<open>\<open>err = f()\<close>, to be handled later.\<close>

definition attempt :: "('s, 'a) io \<Rightarrow> ('s, go_error option) io" where
  "attempt m = io_try m (\<lambda>e. io_ret (Some e)) (\<lambda>_. io_ret None)"

lemma api_run:
  "api srv a (k, l) = ((case srv l a of None \<Rightarrow> Inr () | Some e \<Rightarrow> Inl e), k, l @ [(a, srv l a)])"
  by (simp add: api_def io_act_def call_def Let_def split: option.splits)

lemma enq_run [simp]: "enq a (k, l) = (Inr (), k, l @ [(a, None)])"
  by (simp add: enq_def enqueue_def)

lemma attempt_None: "attempt m s = (Inr None, s') \<longleftrightarrow> (\<exists>x. m s = (Inr x, s'))"
  by (auto simp: attempt_def io_results)

lemma attempt_Some: "attempt m s = (Inr (Some e), s') \<longleftrightarrow> m s = (Inl e, s') \<and> \<not> is_panic e"
  by (auto simp: attempt_def io_results)

lemma attempt_Inr: "m s = (Inr x, s') \<Longrightarrow> attempt m s = (Inr None, s')"
  and attempt_Inl: "m s = (Inl e, s') \<Longrightarrow> \<not> is_panic e \<Longrightarrow> attempt m s = (Inr (Some e), s')"
  by (simp_all add: attempt_def)

section \<open>The calls of a handler\<close>

definition io_logs :: "(api_call \<Rightarrow> bool) \<Rightarrow> ('k agent_state, 'a) io \<Rightarrow> bool" where
  "io_logs C m \<longleftrightarrow>
     (\<forall>k l. \<exists>r k' l'. m (k, l) = (r, k', l @ l') \<and> (\<forall>a \<in> set l'. C (fst a)))"

lemma io_logsD:
  assumes "io_logs C m" "m (k, l) = (r, k', l')"
  shows "\<exists>s. l' = l @ s \<and> (\<forall>a \<in> set s. C (fst a))"
  using assms unfolding io_logs_def by (metis prod.inject)

lemma io_logs_basic [io_log_rules]:
  "io_logs C (io_ret x)" "io_logs C (io_throw e)" "io_logs C (io_lift r)" "io_logs C (on_fst m)"
  by (auto simp: io_logs_def split: prod.splits)

lemma io_logs_api [io_log_rules]: "C a \<Longrightarrow> io_logs C (api srv a)"
  by (simp add: io_logs_def api_run)

lemma io_logs_enq [io_log_rules]: "C a \<Longrightarrow> io_logs C (enq a)"
  by (simp add: io_logs_def)

lemma io_logs_run:
  assumes "io_logs C m"
  obtains r k' l' where "m (k, l) = (r, k', l @ l')" "\<forall>a \<in> set l'. C (fst a)"
  using assms unfolding io_logs_def by blast

lemma io_logsI:
  assumes "\<And>k l. \<exists>r k' l'. m (k, l) = (r, k', l @ l') \<and> (\<forall>a \<in> set l'. C (fst a))"
  shows "io_logs C m"
  using assms by (simp add: io_logs_def)

text \<open>Code that runs after other code has extended the log.\<close>

lemma io_logs_from:
  assumes "io_logs C g" "\<forall>a \<in> set l1. C (fst a)"
  shows "\<exists>r k' l'. g (k1, l @ l1) = (r, k', l @ l') \<and> (\<forall>a \<in> set l'. C (fst a))"
  using assms(2) by (rule_tac io_logs_run [OF assms(1), of k1 "l @ l1"]) (auto intro!: exI [of _ "l1 @ _"])

lemma io_logs_bind [io_log_rules]:
  assumes "io_logs C m" "\<And>x. io_logs C (f x)"
  shows "io_logs C (io_bind m f)"
proof (rule io_logsI)
  fix k l
  obtain r k1 l1 where m: "m (k, l) = (r, k1, l @ l1)" "\<forall>a \<in> set l1. C (fst a)"
    by (rule io_logs_run [OF assms(1)])
  show "\<exists>r k' l'. io_bind m f (k, l) = (r, k', l @ l') \<and> (\<forall>a \<in> set l'. C (fst a))"
    using m io_logs_from [OF assms(2) m(2)] by (cases r) auto
qed

lemma io_logs_try [io_log_rules]:
  assumes "io_logs C m" "\<And>x. io_logs C (f x)" "\<And>e. io_logs C (h e)"
  shows "io_logs C (io_try m h f)"
proof (rule io_logsI)
  fix k l
  obtain r k1 l1 where m: "m (k, l) = (r, k1, l @ l1)" "\<forall>a \<in> set l1. C (fst a)"
    by (rule io_logs_run [OF assms(1)])
  show "\<exists>r k' l'. io_try m h f (k, l) = (r, k', l @ l') \<and> (\<forall>a \<in> set l'. C (fst a))"
    using m io_logs_from [OF assms(2) m(2)] io_logs_from [OF assms(3) m(2)] by (cases r) auto
qed

lemma io_logs_wrap [io_log_rules]:
  assumes "io_logs C m" shows "io_logs C (io_wrap w m)"
proof (rule io_logsI)
  fix k l
  obtain r k1 l1 where m: "m (k, l) = (r, k1, l @ l1)" "\<forall>a \<in> set l1. C (fst a)"
    by (rule io_logs_run [OF assms])
  then show "\<exists>r k' l'. io_wrap w m (k, l) = (r, k', l @ l') \<and> (\<forall>a \<in> set l'. C (fst a))"
    by (cases r) auto
qed

lemma io_logs_if [io_log_rules]: "io_logs C m \<Longrightarrow> io_logs C n \<Longrightarrow> io_logs C (if b then m else n)"
  by simp

lemma io_logs_each [io_log_rules]: "(\<And>x. x \<in> set xs \<Longrightarrow> io_logs C (f x)) \<Longrightarrow> io_logs C (io_each f xs)"
  by (induction xs) (auto intro!: io_log_rules)

section \<open>VLAN statuses and nodes after a log\<close>

definition stored_vs :: "cluster \<Rightarrow> string \<Rightarrow> VlanStatus option" where
  "stored_vs c n = find (\<lambda>x. key_of x = ([], n)) (indexer (cl_vss c))"

definition stored_node :: "cluster \<Rightarrow> string \<Rightarrow> Node option" where
  "stored_node c n = find (\<lambda>x. key_of x = ([], n)) (indexer (cl_nodes c))"

definition stored_vc :: "cluster \<Rightarrow> string \<Rightarrow> VlanConfig option" where
  "stored_vc c n = find (\<lambda>x. key_of x = ([], n)) (indexer (cl_vcs c))"

lemma stored_get:
  "store_get (indexer (cl_vss c)) [] n = (case stored_vs c n of None \<Rightarrow> Inl (ENotFound n) | Some x \<Rightarrow> Inr x)"
  "store_get (indexer (cl_nodes c)) [] n = (case stored_node c n of None \<Rightarrow> Inl (ENotFound n) | Some x \<Rightarrow> Inr x)"
  "store_get (indexer (cl_vcs c)) [] n = (case stored_vc c n of None \<Rightarrow> Inl (ENotFound n) | Some x \<Rightarrow> Inr x)"
  by (simp_all add: store_get_def stored_vs_def stored_node_def stored_vc_def)

lemma stored_put [simp]:
  "stored_vs (c\<lparr>cl_vss := v # cl_vss c\<rparr>) n = (if key_of v = ([], n) then Some v else stored_vs c n)"
  "stored_node (c\<lparr>cl_nodes := d # cl_nodes c\<rparr>) n = (if key_of d = ([], n) then Some d else stored_node c n)"
  "stored_vc (c\<lparr>cl_vcs := w # cl_vcs c\<rparr>) n = (if key_of w = ([], n) then Some w else stored_vc c n)"
  by (simp_all add: stored_vs_def stored_node_def stored_vc_def find_indexer_Cons)

lemma stored_key:
  "stored_vs c n = Some v \<Longrightarrow> key_of v = ([], n)" "stored_node c n = Some d \<Longrightarrow> key_of d = ([], n)"
  "stored_vc c n = Some w \<Longrightarrow> key_of w = ([], n)"
  by (auto simp: stored_vs_def stored_node_def stored_vc_def find_Some_iff)

fun vs_call :: "api_call \<Rightarrow> bool" where
  "vs_call (CreateVS _) = True"
| "vs_call (UpdateVS _) = True"
| "vs_call (DeleteVS _) = True"
| "vs_call _ = False"

fun node_call :: "api_call \<Rightarrow> bool" where
  "node_call (UpdateNode _) = True"
| "node_call _ = False"

lemma vs_frame:
  assumes "\<forall>a \<in> set l. \<not> vs_call (fst a)" shows "cl_vss (cluster_after l c) = cl_vss c"
proof -
  have "cl_vss (apply_call a c) = cl_vss c" if "\<not> vs_call a" for a c using that by (cases a) auto
  with assms show ?thesis by (induction l arbitrary: c) (auto simp: logged_def)
qed

lemma node_frame:
  assumes "\<forall>a \<in> set l. \<not> node_call (fst a)" shows "cl_nodes (cluster_after l c) = cl_nodes c"
proof -
  have "cl_nodes (apply_call a c) = cl_nodes c" if "\<not> node_call a" for a c using that by (cases a) auto
  with assms show ?thesis by (induction l arbitrary: c) (auto simp: logged_def)
qed

lemma stored_remove [simp]:
  "stored_vs (c\<lparr>cl_vss := store_remove [] m (cl_vss c)\<rparr>) n = (if n = m then None else stored_vs c n)"
proof -
  have "find (\<lambda>x. key_of x = ([], n)) (filter (\<lambda>x. key_of x \<noteq> ([], m)) xs) =
      (if n = m then None else find (\<lambda>x. key_of x = ([], n)) xs)" for xs :: "VlanStatus list"
    by (induction xs) auto
  from this [of "indexer (cl_vss c)"] show ?thesis
    by (simp add: stored_vs_def indexer_remove) (auto simp: store_remove_def)
qed

lemma stored_frame:
  "\<forall>a \<in> set l. \<not> vs_call (fst a) \<Longrightarrow> stored_vs (cluster_after l c) n = stored_vs c n"
  "\<forall>a \<in> set l. \<not> node_call (fst a) \<Longrightarrow> stored_node (cluster_after l c) n = stored_node c n"
  by (simp_all add: stored_vs_def stored_node_def vs_frame node_frame)

lemma vs_not_node: "vs_call a \<Longrightarrow> \<not> node_call a"
  by (cases a) simp_all

end
