(* ===== verification/Agent_VlanConfig.thy ===== *)
theory Agent_VlanConfig
  imports Agent_ClusterNetwork Bond_Info Agent_State
begin

text \<open>
  \<open>pkg/controller/agent/vlanconfig/controller.go\<close>: on each node, a VLAN config that matches the node
  is set up as a bond under a bridge and recorded in a VLAN status and in labels of the node; a
  config that no longer matches is torn down. At start the agent records the management bond in a
  VLAN config. The state is the node's kernel and the log of API calls.
\<close>

section \<open>The environment of the handler\<close>

text \<open>\<open>ve_now\<close> is the time stamp that a changed condition gets.\<close>

record 'k vc_env =
  ve_go :: golib
  ve_caches :: caches
  ve_nl :: "'k netlink"
  ve_srv :: api_server
  ve_node :: string
  ve_now :: string

section \<open>Operations\<close>

definition MatchNode :: "'k vc_env \<Rightarrow> VlanConfig \<Rightarrow> bool res" where
  "MatchNode env vc =
     (if mget (o_annotations vc) KeyMatchedNodes = [] then Inr False
      else bind_res (UnmarshalStrings (ve_go env) (mget (o_annotations vc) KeyMatchedNodes)) id (\<lambda>matchedNodes.
           Inr (ve_node env \<in> set matchedNodes)))"

definition getVlanStatus :: "'k vc_env \<Rightarrow> VlanConfig \<Rightarrow> VlanStatus option res" where
  "getVlanStatus env vc =
     bind_res (vsList (ve_caches env) (SelectorFromSet [(KeyVlanConfigLabel, o_name vc), (KeyNodeLabel, ve_node env)])) id (\<lambda>vss.
       case vss of
         [] \<Rightarrow> Inr None
       | [vs] \<Rightarrow> Inr (Some vs)
       | _ \<Rightarrow> Inl (Errorf ''invalid vlanstatus list for vlanconfig %s on node %s''))"

definition matchClusterNetwork :: "VlanConfig \<Rightarrow> VlanStatus \<Rightarrow> bool" where
  "matchClusterNetwork vc vs = (vc_ClusterNetwork vc = vs_ClusterNetwork vs)"

definition statusName :: "'k vc_env \<Rightarrow> string \<Rightarrow> string" where
  "statusName env clusterNetwork = Name [] [clusterNetwork, ve_node env]"

text \<open>The bond that \<open>setUplink\<close> builds from the spec.\<close>

definition uplink_bond :: "VlanConfig \<Rightarrow> NlBond" where
  "uplink_bond vc =
     (let up = vc_Uplink vc;
          attrs = NewLinkAttrs\<lparr>at_Name := vc_ClusterNetwork vc @ BondSuffix\<rparr>;
          attrs' = (case up_LinkAttrs up of
                      None \<Rightarrow> attrs
                    | Some la \<Rightarrow> attrs\<lparr>at_MTU := la_MTU la, at_TxQLen := la_TxQLen la, at_HardwareAddr := la_HardwareAddr la\<rparr>);
          mode = (case up_BondOptions up of
                    None \<Rightarrow> BOND_MODE_ACTIVE_BACKUP
                  | Some bo \<Rightarrow> if bo_Mode bo \<noteq> [] then StringToBondMode (bo_Mode bo) else BOND_MODE_ACTIVE_BACKUP);
          miimon = (case up_BondOptions up of
                      None \<Rightarrow> DefaultValueMiimon
                    | Some bo \<Rightarrow> if bo_Miimon bo \<noteq> -1 then bo_Miimon bo else DefaultValueMiimon)
      in (NewLinkBond attrs')\<lparr>bd_Mode := mode, bd_Miimon := miimon\<rparr>)"

definition setUplink :: "'k netlink \<Rightarrow> VlanConfig \<Rightarrow> ('k, nl_link) io" where
  "setUplink nl vc =
     io_bind (EnsureBond nl (uplink_bond vc) (slice_elems (up_NICs (vc_Uplink vc)))) (\<lambda>b. io_ret (LBond b))"

definition updateStatus :: "'k vc_env \<Rightarrow> VlanConfig \<Rightarrow> go_error option \<Rightarrow> ('k agent_state, unit) io" where
  "updateStatus env vc setupErr =
     (let name = statusName env (vc_ClusterNetwork vc);
          lbls = Some [KeyClusterNetworkLabel \<mapsto> vc_ClusterNetwork vc, KeyVlanConfigLabel \<mapsto> o_name vc, KeyNodeLabel \<mapsto> ve_node env];
          fill = (\<lambda>vs. vs\<lparr>o_labels := lbls, vs_ClusterNetwork := vc_ClusterNetwork vc, vs_VlanConfig := o_name vc,
                    vs_LinkMonitor := vc_ClusterNetwork vc, vs_Node := ve_node env,
                    vs_Conditions := (case setupErr of
                        None \<Rightarrow> setMessage (ve_now env) Ready [] (setStatus (ve_now env) Ready ''True'' (vs_Conditions vs))
                      | Some e \<Rightarrow> setMessage (ve_now env) Ready (ErrorText e) (setStatus (ve_now env) Ready ''False'' (vs_Conditions vs)))\<rparr>)
      in case vsGet (ve_caches env) name of
           Inl e \<Rightarrow>
             if \<not> IsNotFound e then io_throw (wrap ''could not get vlanstatus %s, error: %w'' e)
             else io_wrap (wrap ''failed to create vlanstatus %s, error: %w'')
                    (api (ve_srv env) (CreateVS (fill \<lparr>o_name = name, o_namespace = [], o_labels = None, o_annotations = None,
                        o_deleting = False, vs_ClusterNetwork = [], vs_VlanConfig = [], vs_LinkMonitor = [], vs_Node = [],
                        vs_LocalAreas = [], vs_Conditions = [], vs_OwnerReferences = [\<lparr>ow_Name = o_name vc\<rparr>]\<rparr>)))
         | Inr vs \<Rightarrow>
             if fill vs = vs then io_ret ()
             else io_wrap (wrap ''failed to update vlanstatus %s, error: %w'') (api (ve_srv env) (UpdateVS (fill vs))))"

definition deleteStatus :: "'k vc_env \<Rightarrow> VlanStatus \<Rightarrow> go_error option \<Rightarrow> ('k agent_state, unit) io" where
  "deleteStatus env vs teardownErr =
     (case teardownErr of
        Some e \<Rightarrow>
          io_wrap (wrap ''failed to update vlanstatus %s, error: %w'')
            (api (ve_srv env) (UpdateVS (vs\<lparr>vs_Conditions :=
               setMessage (ve_now env) Ready (ErrorText e) (setStatus (ve_now env) Ready ''False'' (vs_Conditions vs))\<rparr>)))
      | None \<Rightarrow> io_wrap (wrap ''failed to delete vlanstatus %s, error: %w'') (api (ve_srv env) (DeleteVS (o_name vs))))"

definition addNodeLabel :: "'k vc_env \<Rightarrow> VlanConfig \<Rightarrow> ('k agent_state, unit) io" where
  "addNodeLabel env vc =
     io_bind (io_lift (nodeGet (ve_caches env) (ve_node env))) (\<lambda>node.
     let key = GetLabelKeyOfClusterNetwork (vc_ClusterNetwork vc) in
     if o_labels node \<noteq> None \<and> mget (o_labels node) key = ValueTrue \<and> mget (o_labels node) KeyVlanConfigLabel = o_name vc
     then io_ret ()
     else io_wrap (wrap ''add labels for vlanconfig %s to node %s failed, error: %w'')
            (api (ve_srv env) (UpdateNode (node\<lparr>o_labels := mput KeyVlanConfigLabel (o_name vc) (mput key ValueTrue (o_labels node))\<rparr>))))"

definition removeNodeLabel :: "'k vc_env \<Rightarrow> VlanStatus \<Rightarrow> ('k agent_state, unit) io" where
  "removeNodeLabel env vs =
     io_bind (io_lift (nodeGet (ve_caches env) (ve_node env))) (\<lambda>node.
     let key = GetLabelKeyOfClusterNetwork (vs_ClusterNetwork vs) in
     if o_labels node \<noteq> None \<and>
        (mget (o_labels node) key = ValueTrue \<or> mget (o_labels node) KeyVlanConfigLabel = vs_VlanConfig vs)
     then io_wrap (wrap ''remove labels for vlanconfig %s from node %s failed, error: %w'')
            (api (ve_srv env) (UpdateNode (node\<lparr>o_labels := mdelete KeyVlanConfigLabel (mdelete key (o_labels node))\<rparr>)))
     else io_ret ())"

definition wakeUpClusterNetwork :: "'k vc_env \<Rightarrow> VlanConfig \<Rightarrow> ('k agent_state, unit) io" where
  "wakeUpClusterNetwork env vc =
     io_bind (io_lift (cnGet (ve_caches env) (vc_ClusterNetwork vc))) (\<lambda>_. enq (EnqueueCN (vc_ClusterNetwork vc)))"

definition reconcileHostNetwork :: "'k vc_env \<Rightarrow> string \<Rightarrow> ('k agent_state, unit) io" where
  "reconcileHostNetwork env clusterNetwork =
     io_bind (io_lift (hncList (ve_caches env) Everything)) (io_each (\<lambda>hnc.
       if hs_ClusterNetwork (hnc_Spec hnc) \<noteq> clusterNetwork then io_ret ()
       else if o_deleting hnc then io_ret ()
       else enq (EnqueueHNC (o_name hnc))))"

definition setup_network :: "'k netlink \<Rightarrow> VlanConfig \<Rightarrow> ('k, Vlan) io" where
  "setup_network nl vc = io_bind (setUplink nl vc) (Setup nl (NewVlan (vc_ClusterNetwork vc)))"

definition setupVLAN :: "'k vc_env \<Rightarrow> VlanConfig \<Rightarrow> ('k agent_state, unit) io" where
  "setupVLAN env vc =
     io_bind (on_fst (attempt (setup_network (ve_nl env) vc))) (\<lambda>setupErr.
     io_bind (io_wrap (wrap ''update status into vlanstatus %s failed, error: %w, setup error: %v'')
                (updateStatus env vc setupErr)) (\<lambda>_.
     case setupErr of
       Some e \<Rightarrow> io_throw (wrap ''set up VLAN failed, vlanconfig: %s, node: %s, error: %w'' e)
     | None \<Rightarrow>
         io_bind (io_wrap (wrap ''add node label to node %s for vlanconfig %s failed, error: %w'') (addNodeLabel env vc)) (\<lambda>_.
         io_bind (io_wrap (wrap ''wake up cluster network %s for vlanconfig %s failed, error: %w'') (wakeUpClusterNetwork env vc)) (\<lambda>_.
         io_wrap (wrap ''reconcile hostnetwork %s for vlanconfig %s failed, error: %w'')
           (reconcileHostNetwork env (vc_ClusterNetwork vc))))))"

text \<open>A missing link means that the VLAN has been torn down already.\<close>

definition teardown_network :: "'k netlink \<Rightarrow> string \<Rightarrow> ('k, go_error option) io" where
  "teardown_network nl clusterNetwork =
     io_try (vlan_GetVlan nl clusterNetwork)
       (\<lambda>e. io_ret (if IsLinkNotFound e then None else Some e))
       (\<lambda>v. attempt (Teardown nl v))"

definition removeVLAN :: "'k vc_env \<Rightarrow> VlanStatus \<Rightarrow> ('k agent_state, unit) io" where
  "removeVLAN env vs =
     io_bind (on_fst (teardown_network (ve_nl env) (vs_ClusterNetwork vs))) (\<lambda>teardownErr.
     io_bind (removeNodeLabel env vs) (\<lambda>_.
     io_bind (io_wrap (wrap ''update status into vlanstatus %s failed, error: %w, teardown error: %v'')
                (deleteStatus env vs teardownErr)) (\<lambda>_.
     case teardownErr of
       Some e \<Rightarrow> io_throw (wrap ''tear down VLAN failed, vlanconfig: %s, node: %s, error: %w'' e)
     | None \<Rightarrow>
         io_wrap (wrap ''reconcile hostnetwork %s for vlanconfig %s failed, error: %w'')
           (reconcileHostNetwork env (vs_ClusterNetwork vs)))))"

definition Agent_VC_OnChange :: "'k vc_env \<Rightarrow> VlanConfig option \<Rightarrow> ('k agent_state, VlanConfig option) io" where
  "Agent_VC_OnChange env vc_ptr =
     (case vc_ptr of
        None \<Rightarrow> io_ret None
      | Some vc \<Rightarrow>
          if vc_ClusterNetwork vc = ManagementClusterNetworkName \<or> o_deleting vc then io_ret None
          else io_bind (io_lift (MatchNode env vc)) (\<lambda>isMatched.
               io_bind (io_lift (getVlanStatus env vc)) (\<lambda>vs_ptr.
               io_bind (case vs_ptr of
                          Some vs \<Rightarrow> if \<not> isMatched \<or> \<not> matchClusterNetwork vc vs then removeVLAN env vs else io_ret ()
                        | None \<Rightarrow> io_ret ()) (\<lambda>_.
               io_bind (if isMatched then setupVLAN env vc else io_ret ()) (\<lambda>_.
               io_ret (Some vc))))))"

definition Agent_VC_OnRemove :: "'k vc_env \<Rightarrow> VlanConfig option \<Rightarrow> ('k agent_state, VlanConfig option) io" where
  "Agent_VC_OnRemove env vc_ptr =
     (case vc_ptr of
        None \<Rightarrow> io_ret None
      | Some vc \<Rightarrow>
          if vc_ClusterNetwork vc = ManagementClusterNetworkName then io_ret None
          else io_bind (io_lift (getVlanStatus env vc)) (\<lambda>vs_ptr.
               io_bind (case vs_ptr of Some vs \<Rightarrow> removeVLAN env vs | None \<Rightarrow> io_ret ()) (\<lambda>_.
               io_ret (Some vc))))"

section \<open>The management VLAN config\<close>

text \<open>The log line after a successful creation dereferences both pointers of the uplink.\<close>

definition createMgmtVlanConfig :: "'k vc_env \<Rightarrow> VlanConfig \<Rightarrow> ('k agent_state, unit) io" where
  "createMgmtVlanConfig env vc =
     io_try (api (ve_srv env) (CreateVC vc))
       (\<lambda>e. if IsAlreadyExists e then io_ret () else io_throw (wrap ''failed to create mgmt-vlanconfig %s: %w'' e))
       (\<lambda>_. if up_LinkAttrs (vc_Uplink vc) = None \<or> up_BondOptions (vc_Uplink vc) = None
            then io_throw (GoPanic ''nil pointer dereference'') else io_ret ())"

definition createOrUpdateMgmtVlanConfig :: "'k vc_env \<Rightarrow> MgmtBondInterfaceInfo \<Rightarrow> ('k agent_state, unit) io" where
  "createOrUpdateMgmtVlanConfig env mgmtInfo =
     (let name = GetMgmtVlanConfigName (ve_node env) in
      case vcGet (ve_caches env) name of
        Inl e \<Rightarrow>
          if \<not> IsNotFound e then io_throw e
          else createMgmtVlanConfig env
                 ((empty_vc name)\<lparr>o_labels := Some [KeyClusterNetworkLabel \<mapsto> ManagementClusterNetworkName],
                   vc_ClusterNetwork := ManagementClusterNetworkName,
                   vc_Uplink := \<lparr>up_NICs = mi_SlaveNames mgmtInfo,
                     up_LinkAttrs = Some \<lparr>la_MTU = mi_MTU mgmtInfo, la_TxQLen = -1, la_HardwareAddr = []\<rparr>,
                     up_BondOptions = Some \<lparr>bo_Mode = mi_BondMode mgmtInfo, bo_Miimon = -1\<rparr>\<rparr>\<rparr>)
      | Inr existing \<Rightarrow>
          (case BuildUpdatedVlanConfig (Some existing) mgmtInfo of
             (Some vcCopy, True) \<Rightarrow> api (ve_srv env) (UpdateVC vcCopy)
           | _ \<Rightarrow> io_ret ()))"

definition CreateOrUpdateMgmtVlanConfig :: "'k vc_env \<Rightarrow> ('k agent_state, unit) io" where
  "CreateOrUpdateMgmtVlanConfig env =
     io_try (on_fst (GetMgmtBondInfo (ve_nl env)))
       (\<lambda>e. io_wrap (wrap ''failed to create empty mgmt vlanconfig: %w'')
              (createMgmtVlanConfig env (empty_vc (GetMgmtVlanConfigName (ve_node env)))))
       (createOrUpdateMgmtVlanConfig env)"

definition agent_vc_initialize :: "'k vc_env \<Rightarrow> ('k agent_state, unit) io" where
  "agent_vc_initialize env =
     io_bind (io_wrap (render ''disable net.bridge.bridge-nf-call-iptables failed, error: %v'')
                (on_fst (DisableBridgeNF (ve_nl env)))) (\<lambda>_.
     io_wrap (wrap ''mgmt vlanconfig error: %w'') (CreateOrUpdateMgmtVlanConfig env))"

text \<open>\<open>Register\<close> subscribes the handlers unless the initialization fails.\<close>

definition Agent_VC_Register :: "'k vc_env \<Rightarrow> ('k agent_state, unit) io" where
  "Agent_VC_Register env = io_wrap (wrap ''initialize error: %w'') (agent_vc_initialize env)"

section \<open>Setting up a VLAN config\<close>

text \<open>What the VLAN status of a config records of the outcome of its setup.\<close>

definition records :: "'k vc_env \<Rightarrow> VlanConfig \<Rightarrow> go_error option \<Rightarrow> VlanStatus \<Rightarrow> bool" where
  "records env vc setupErr vs \<longleftrightarrow>
     o_labels vs = Some [KeyClusterNetworkLabel \<mapsto> vc_ClusterNetwork vc, KeyVlanConfigLabel \<mapsto> o_name vc, KeyNodeLabel \<mapsto> ve_node env]
     \<and> vs_ClusterNetwork vs = vc_ClusterNetwork vc \<and> vs_VlanConfig vs = o_name vc \<and> vs_Node vs = ve_node env
     \<and> vs_LinkMonitor vs = vc_ClusterNetwork vc
     \<and> getStatus Ready (vs_Conditions vs) = (if setupErr = None then ''True'' else ''False'')"

lemma findCond_setStatus [simp]: "findCond n (setStatus now n v cs) \<noteq> None"
  by (induction cs) (auto simp: setStatus_def cond_set_status_def)

lemma cluster_label_key: "GetLabelKeyOfClusterNetwork n = KeyVlanConfigLabel \<longleftrightarrow> n = ''vlanconfig''"
  by (simp add: GetLabelKeyOfClusterNetwork_def KeyVlanConfigLabel_def)

text \<open>A server that accepts every call, and caches that show the cluster \<open>c\<close>.\<close>

definition env_of :: "'k vc_env \<Rightarrow> cluster \<Rightarrow> bool" where
  "env_of env c \<longleftrightarrow> ve_caches env = caches_of c \<and> (\<forall>l a. ve_srv env l a = None)"

lemma env_ofD:
  assumes "env_of env c"
  shows "ve_caches env = caches_of c" "ve_srv env l a = None" "api (ve_srv env) a (k, l) = (Inr (), k, l @ [(a, None)])"
  using assms by (simp_all add: env_of_def api_run)

lemma updateStatus_ok:
  assumes "env_of env c"
  shows "\<exists>l' vs. updateStatus env vc r (k, l) = (Inr (), k, l @ l') \<and> (\<forall>a \<in> set l'. vs_call (fst a))
     \<and> stored_vs (cluster_after l' c) (statusName env (vc_ClusterNetwork vc)) = Some vs \<and> records env vc r vs"
proof -
  let ?n = "statusName env (vc_ClusterNetwork vc)"
  note env = env_ofD [OF assms]
  show ?thesis
  proof (cases "stored_vs c ?n")
    case None
    then show ?thesis
      by (simp add: updateStatus_def Let_def env stored_get)
         (simp add: records_def key_of_def split: option.splits)
  next
    case (Some vs)
    note key = stored_key(1) [OF Some]
    define vs' where "vs' = vs\<lparr>o_labels := Some [KeyClusterNetworkLabel \<mapsto> vc_ClusterNetwork vc, KeyVlanConfigLabel \<mapsto> o_name vc, KeyNodeLabel \<mapsto> ve_node env],
      vs_ClusterNetwork := vc_ClusterNetwork vc, vs_VlanConfig := o_name vc, vs_LinkMonitor := vc_ClusterNetwork vc, vs_Node := ve_node env,
      vs_Conditions := (case r of
          None \<Rightarrow> setMessage (ve_now env) Ready [] (setStatus (ve_now env) Ready ''True'' (vs_Conditions vs))
        | Some e \<Rightarrow> setMessage (ve_now env) Ready (ErrorText e) (setStatus (ve_now env) Ready ''False'' (vs_Conditions vs)))\<rparr>"
    have rec: "records env vc r vs'" "key_of vs' = ([], ?n)"
      using key by (simp_all add: vs'_def records_def key_of_def split: option.splits)
    have "updateStatus env vc r (k, l) = (Inr (), k, l @ (if vs' = vs then [] else [(UpdateVS vs', None)]))"
      by (simp add: updateStatus_def Let_def env stored_get Some vs'_def [symmetric])
    with rec Some show ?thesis by auto
  qed
qed

lemma addNodeLabel_ok:
  assumes "env_of env c" "stored_node c (ve_node env) = Some n" "vc_ClusterNetwork vc \<noteq> ''vlanconfig''"
    and "stored_node c' (ve_node env) = Some n"
  shows "\<exists>l' n'. addNodeLabel env vc (k, l) = (Inr (), k, l @ l') \<and> (\<forall>a \<in> set l'. node_call (fst a))
     \<and> stored_node (cluster_after l' c') (ve_node env) = Some n'
     \<and> mget (o_labels n') (GetLabelKeyOfClusterNetwork (vc_ClusterNetwork vc)) = ValueTrue
     \<and> mget (o_labels n') KeyVlanConfigLabel = o_name vc"
proof -
  note env = env_ofD [OF assms(1)]
  show ?thesis
    using assms(3) stored_key(2) [OF assms(2)] assms(4)
    by (auto simp: addNodeLabel_def Let_def key_of_def env stored_get assms(2) cluster_label_key)
qed


text \<open>The requests to reconcile the host network configs of a cluster network.\<close>

definition hnc_requests :: "cluster \<Rightarrow> string \<Rightarrow> api_log" where
  "hnc_requests c cn =
     map (\<lambda>h. (EnqueueHNC (o_name h), None))
       (filter (\<lambda>h. hs_ClusterNetwork (hnc_Spec h) = cn \<and> \<not> o_deleting h) (indexer (cl_hncs c)))"

lemma hnc_requests_call: "a \<in> set (hnc_requests c cn) \<Longrightarrow> \<not> vs_call (fst a) \<and> \<not> node_call (fst a)"
  by (auto simp: hnc_requests_def)

lemma reconcileHostNetwork_ok:
  assumes "env_of env c"
  shows "reconcileHostNetwork env cn (k, l) = (Inr (), k, l @ hnc_requests c cn)"
proof -
  have "io_each (\<lambda>hnc. if hs_ClusterNetwork (hnc_Spec hnc) \<noteq> cn then io_ret () else if o_deleting hnc then io_ret ()
       else enq (EnqueueHNC (o_name hnc))) hs (k, l) =
      (Inr (), k, l @ map (\<lambda>h. (EnqueueHNC (o_name h), None)) (filter (\<lambda>h. hs_ClusterNetwork (hnc_Spec h) = cn \<and> \<not> o_deleting h) hs))"
    for hs l
    by (induction hs arbitrary: l) (simp_all add: io_bind_def)
  then show ?thesis
    by (simp add: reconcileHostNetwork_def env_ofD [OF assms] store_list_def hnc_requests_def)
qed

lemma wakeUp_ok:
  assumes "env_of env c" "store_get (indexer (cl_cns c)) [] (vc_ClusterNetwork vc) = Inr cn"
  shows "wakeUpClusterNetwork env vc (k, l) = (Inr (), k, l @ [(EnqueueCN (vc_ClusterNetwork vc), None)])"
  by (simp add: wakeUpClusterNetwork_def env_ofD [OF assms(1)] assms(2))

text \<open>The two outcomes of a setup.\<close>

lemma setup_failed:
  assumes "env_of env c" "setup_network (ve_nl env) vc k = (Inl e, k')" "\<not> is_panic e"
  shows "\<exists>l' vs. setupVLAN env vc (k, l) = (Inl (wrap ''set up VLAN failed, vlanconfig: %s, node: %s, error: %w'' e), k', l @ l')
     \<and> (\<forall>a \<in> set l'. vs_call (fst a))
     \<and> stored_vs (cluster_after l' c) (statusName env (vc_ClusterNetwork vc)) = Some vs \<and> records env vc (Some e) vs"
proof -
  obtain l' vs where u: "updateStatus env vc (Some e) (k', l) = (Inr (), k', l @ l')"
    and rest: "\<forall>a \<in> set l'. vs_call (fst a)"
      "stored_vs (cluster_after l' c) (statusName env (vc_ClusterNetwork vc)) = Some vs" "records env vc (Some e) vs"
    using updateStatus_ok [OF assms(1)] by blast
  have "on_fst (attempt (setup_network (ve_nl env) vc)) (k, l) = (Inr (Some e), k', l)"
    using attempt_Inl [of "setup_network (ve_nl env) vc"] assms(2,3) by simp
  then have "setupVLAN env vc (k, l) = (Inl (wrap ''set up VLAN failed, vlanconfig: %s, node: %s, error: %w'' e), k', l @ l')"
    by (simp add: setupVLAN_def u)
  with rest show ?thesis by blast
qed

lemma setup_succeeded:
  assumes "env_of env c" "setup_network (ve_nl env) vc k = (Inr v, k')"
    and "stored_node c (ve_node env) = Some n" "store_get (indexer (cl_cns c)) [] (vc_ClusterNetwork vc) = Inr cn"
    and "vc_ClusterNetwork vc \<noteq> ''vlanconfig''"
  shows "\<exists>l' vs n'. setupVLAN env vc (k, l) = (Inr (), k', l @ l')
     \<and> stored_vs (cluster_after l' c) (statusName env (vc_ClusterNetwork vc)) = Some vs \<and> records env vc None vs
     \<and> stored_node (cluster_after l' c) (ve_node env) = Some n'
     \<and> mget (o_labels n') (GetLabelKeyOfClusterNetwork (vc_ClusterNetwork vc)) = ValueTrue
     \<and> mget (o_labels n') KeyVlanConfigLabel = o_name vc
     \<and> insert (EnqueueCN (vc_ClusterNetwork vc), None) (set (hnc_requests c (vc_ClusterNetwork vc))) \<subseteq> set l'"
proof -
  obtain l1 vs where u: "updateStatus env vc None (k', l) = (Inr (), k', l @ l1)" "\<forall>a \<in> set l1. vs_call (fst a)"
    and vs: "stored_vs (cluster_after l1 c) (statusName env (vc_ClusterNetwork vc)) = Some vs" "records env vc None vs"
    using updateStatus_ok [OF assms(1)] by blast
  have "\<forall>a \<in> set l1. \<not> node_call (fst a)" using u(2) vs_not_node by blast
  then have "stored_node (cluster_after l1 c) (ve_node env) = Some n" by (simp add: stored_frame assms(3))
  then obtain l2 n' where a: "addNodeLabel env vc (k', l @ l1) = (Inr (), k', (l @ l1) @ l2)" "\<forall>a \<in> set l2. node_call (fst a)"
    and n': "stored_node (cluster_after l2 (cluster_after l1 c)) (ve_node env) = Some n'"
     "mget (o_labels n') (GetLabelKeyOfClusterNetwork (vc_ClusterNetwork vc)) = ValueTrue"
     "mget (o_labels n') KeyVlanConfigLabel = o_name vc"
    using addNodeLabel_ok [OF assms(1,3,5)] by metis
  let ?l3 = "(EnqueueCN (vc_ClusterNetwork vc), None) # hnc_requests c (vc_ClusterNetwork vc)"
  have l3: "\<forall>a \<in> set ?l3. \<not> vs_call (fst a)" "\<forall>a \<in> set ?l3. \<not> node_call (fst a)"
    using hnc_requests_call by auto
  have l2: "\<forall>a \<in> set l2. \<not> vs_call (fst a)" using a(2) vs_not_node by blast
  have "on_fst (attempt (setup_network (ve_nl env) vc)) (k, l) = (Inr None, k', l)"
    using attempt_Inr [of "setup_network (ve_nl env) vc"] assms(2) by simp
  then have "setupVLAN env vc (k, l) = (Inr (), k', l @ l1 @ l2 @ ?l3)"
    using a(1) by (simp add: setupVLAN_def u(1) wakeUp_ok [OF assms(1,4)] reconcileHostNetwork_ok [OF assms(1)])
  moreover have "stored_vs (cluster_after (l1 @ l2 @ ?l3) c) (statusName env (vc_ClusterNetwork vc)) = Some vs"
    unfolding cluster_after_simps(3) by (simp only: stored_frame(1) [OF l3(1)] stored_frame(1) [OF l2] vs(1))
  moreover have "stored_node (cluster_after (l1 @ l2 @ ?l3) c) (ve_node env) = Some n'"
    unfolding cluster_after_simps(3) by (simp only: stored_frame(2) [OF l3(2)] n'(1))
  ultimately show ?thesis using vs(2) n'(2,3)
    by (intro exI [of _ "l1 @ l2 @ ?l3"] exI [of _ vs] exI [of _ n']) auto
qed

text \<open>
  C12. A config set up on a node is recorded. Whatever the kernel answers short of a panic, the
  cluster then holds a VLAN status for the cluster network and the node that names the config and is
  ready exactly when the setup succeeded. A failed setup is returned and leaves the node's labels
  alone; after a successful one the node carries the label of the cluster network and of the config,
  and the cluster network and its host network configs are requeued. (API server accepting, caches
  current, the node and the cluster network exist, and the cluster network is not named \<open>vlanconfig\<close>.)
\<close>

theorem setup_recorded:
  assumes "env_of env c" "setup_network (ve_nl env) vc k = (r, k')" "\<And>e. r = Inl e \<Longrightarrow> \<not> is_panic e"
    and "stored_node c (ve_node env) = Some n" "store_get (indexer (cl_cns c)) [] (vc_ClusterNetwork vc) = Inr cn"
    and "vc_ClusterNetwork vc \<noteq> ''vlanconfig''"
  shows "\<exists>r' l' vs n'. setupVLAN env vc (k, l) = (r', k', l @ l')
     \<and> stored_vs (cluster_after l' c) (statusName env (vc_ClusterNetwork vc)) = Some vs
     \<and> stored_node (cluster_after l' c) (ve_node env) = Some n'
     \<and> (case r of
          Inl e \<Rightarrow> r' = Inl (wrap ''set up VLAN failed, vlanconfig: %s, node: %s, error: %w'' e)
                   \<and> records env vc (Some e) vs \<and> n' = n
        | Inr v \<Rightarrow> r' = Inr () \<and> records env vc None vs
                   \<and> mget (o_labels n') (GetLabelKeyOfClusterNetwork (vc_ClusterNetwork vc)) = ValueTrue
                   \<and> mget (o_labels n') KeyVlanConfigLabel = o_name vc
                   \<and> insert (EnqueueCN (vc_ClusterNetwork vc), None) (set (hnc_requests c (vc_ClusterNetwork vc))) \<subseteq> set l')"
proof (cases r)
  case (Inl e)
  with assms obtain l' vs where l':
    "setupVLAN env vc (k, l) = (Inl (wrap ''set up VLAN failed, vlanconfig: %s, node: %s, error: %w'' e), k', l @ l')"
    "\<forall>a \<in> set l'. vs_call (fst a)"
    "stored_vs (cluster_after l' c) (statusName env (vc_ClusterNetwork vc)) = Some vs" "records env vc (Some e) vs"
    using setup_failed [OF assms(1)] by blast
  moreover from l'(2) have "stored_node (cluster_after l' c) (ve_node env) = Some n"
    using vs_not_node assms(4) by (subst stored_frame(2)) auto
  ultimately show ?thesis using Inl by auto
next
  case (Inr v)
  with setup_succeeded [OF assms(1) _ assms(4-6), of k v k' l] assms(2) show ?thesis by auto
qed

definition agent_vc :: VlanConfig where
  "agent_vc = (empty_vc ''vc1'')\<lparr>vc_ClusterNetwork := ''cn1'', vc_Uplink := \<lparr>up_NICs = Some [''eth0''], up_LinkAttrs = None, up_BondOptions = None\<rparr>\<rparr>"

definition agent_cluster :: cluster where
  "agent_cluster = cluster0\<lparr>cl_nodes := [\<lparr>o_name = ''n1'', o_namespace = [], o_labels = None, o_annotations = None, o_deleting = False, nd_ready = True\<rparr>],
     cl_cns := [agent_cn]\<rparr>"

definition agent_env :: "ref_state vc_env" where
  "agent_env = \<lparr>ve_go = demo_golib, ve_caches = caches_of agent_cluster, ve_nl = ref_netlink, ve_srv = (\<lambda>_ _. None), ve_node = ''n1'', ve_now = ''now''\<rparr>"

lemma agent_env_of: "env_of agent_env agent_cluster"
  by (simp add: env_of_def agent_env_def)

lemma agent_cluster_node: "\<exists>n. stored_node agent_cluster (ve_node agent_env) = Some n"
  by (simp add: agent_cluster_def agent_env_def cluster0_def stored_node_def indexer_def store_put_def key_of_def)

theorem setup_recorded_witness:
  "\<exists>k' l' vs. setupVLAN agent_env agent_vc (demo_kernel, []) = (Inr (), k', l')
     \<and> stored_vs (cluster_after l' agent_cluster) (statusName agent_env ''cn1'') = Some vs \<and> records agent_env agent_vc None vs
     \<and> (EnqueueCN ''cn1'', None) \<in> set l'"
proof -
  let ?s = "setup_network ref_netlink agent_vc demo_kernel"
  have ok: "\<not> isl (fst ?s)" by code_simp
  then obtain v where v: "?s = (Inr v, snd ?s)" by (metis prod.collapse sum.collapse(2))
  have n: "stored_node agent_cluster (ve_node agent_env) \<noteq> None" "\<not> isl (store_get (indexer (cl_cns agent_cluster)) [] (vc_ClusterNetwork agent_vc))"
    by (simp_all add: agent_cluster_def agent_env_def agent_vc_def agent_cn_def cluster0_def stored_node_def indexer_def store_put_def key_of_def store_get_def)
  then obtain n cn where n: "stored_node agent_cluster (ve_node agent_env) = Some n"
     "store_get (indexer (cl_cns agent_cluster)) [] (vc_ClusterNetwork agent_vc) = Inr cn" by (metis not_None_eq sum.collapse(2))
  have cn: "vc_ClusterNetwork agent_vc = ''cn1''" by (simp add: agent_vc_def)
  have nl: "ve_nl agent_env = ref_netlink" by (simp add: agent_env_def)
  have "setup_network (ve_nl agent_env) agent_vc demo_kernel = (Inr v, snd ?s)" using v by (simp only: nl)
  from setup_recorded [OF agent_env_of this _ n, of "[]"] show ?thesis by (auto simp: cn)
qed

section \<open>The network of a VLAN config\<close>

lemma uplink_bond_name: "at_Name (bd_attrs (uplink_bond vc)) = vc_ClusterNetwork vc @ BondSuffix"
  by (simp add: uplink_bond_def Let_def NewLinkBond_def split: option.splits)

lemma bridge_name: "at_Name (bg_attrs (NewBridge n)) = n"
  by (simp add: NewBridge_def)

lemma bridge_not_bond: "vc @ BondSuffix \<noteq> GenerateBridgeName cn"
proof
  assume "vc @ BondSuffix = GenerateBridgeName cn"
  then have "last (vc @ BondSuffix) = last (take 12 cn @ BridgeSuffix)" by (simp add: GenerateBridgeName_take)
  then show False by (simp add: device_consts)
qed

text \<open>
  C17. When the network of a VLAN config is set up without error, the node has its bond and its bridge,
  the bond belongs to the bridge, the bridge is up, and the slaves of the bond are exactly the NICs of
  the uplink, all up. This holds for every kernel with the documented behaviour, whatever was on the node
  before, if the bond carries no macvlan interface when it is attached.
\<close>

theorem network_set_up:
  assumes "kernel nl view" "setup_network nl vc k = (Inr v, k')"
    and "vc_ClusterNetwork vc @ BondSuffix \<notin> set (slice_elems (up_NICs (vc_Uplink vc)))"
    and "\<And>l k1 br k2 ls k3 x. setUplink nl vc k = (Inr l, k1) \<Longrightarrow> Ensure nl (NewBridge (GenerateBridgeName (vc_ClusterNetwork vc))) k1 = (Inr br, k2)
      \<Longrightarrow> LinkListSafe nl k2 = (Inr ls, k3) \<Longrightarrow> x \<in> set ls \<Longrightarrow> at_ParentIndex (Attrs x) = link_Index l \<Longrightarrow> Type x \<noteq> ''macvlan''"
  shows "\<exists>bo br. nv_name (view k') bo = Some (vc_ClusterNetwork vc @ BondSuffix)
     \<and> nv_name (view k') br = Some (GenerateBridgeName (vc_ClusterNetwork vc))
     \<and> nv_master (view k') bo = br \<and> nv_up (view k') br
     \<and> {s. \<exists>j. nv_name (view k') j = Some s \<and> nv_master (view k') j = bo} = set (slice_elems (up_NICs (vc_Uplink vc)))
     \<and> (\<forall>j \<in> dom (nv_name (view k')). nv_master (view k') j = bo \<longrightarrow> nv_up (view k') j)"
proof -
  let ?cn = "vc_ClusterNetwork vc" and ?NICs = "slice_elems (up_NICs (vc_Uplink vc))"
  from assms(2) obtain bond k1 where b: "EnsureBond nl (uplink_bond vc) ?NICs k = (Inr bond, k1)"
    and s: "Setup nl (NewVlan ?cn) (LBond bond) k1 = (Inr v, k')"
    by (auto simp: setup_network_def setUplink_def io_results)
  have u: "setUplink nl vc k = (Inr (LBond bond), k1)" using b by (simp add: setUplink_def)
  let ?B = "at_Index (bd_attrs bond)"
  note ok = kernel.EnsureBond_ok [OF assms(1) b, unfolded uplink_bond_name]
  have no: "?cn @ BondSuffix \<notin> set ?NICs" by (rule assms(3))
  have self: "nv_master (view k1) ?B \<noteq> ?B" using ok(1,2) no by blast
  have nv: "vl_bridge (NewVlan ?cn) = NewBridge (GenerateBridgeName ?cn)" by (simp add: NewVlan_def)
  have "\<exists>br. nv_name (view k') br = Some (GenerateBridgeName ?cn) \<and> nv_up (view k') br
     \<and> nv_name (view k') ?B = Some (?cn @ BondSuffix) \<and> nv_master (view k') ?B = br
     \<and> (\<forall>j n. nv_name (view k') j = Some n \<and> nv_master (view k') j = ?B \<longleftrightarrow> nv_name (view k1) j = Some n \<and> nv_master (view k1) j = ?B)
     \<and> (\<forall>j n. nv_name (view k1) j = Some n \<and> nv_up (view k1) j \<and> j \<noteq> ?B \<longrightarrow> nv_up (view k') j)"
  proof (rule kernel.Setup_ok [OF assms(1) s, of "?cn @ BondSuffix", unfolded nv bridge_name])
    show "at_MasterIndex (bg_attrs (NewBridge (GenerateBridgeName ?cn))) = 0" by (simp add: NewBridge_def attrs0_def)
    show "?B \<noteq> 0" by (rule kernel.EnsureBond_index [OF assms(1) b])
    show "nv_master (view k1) ?B = link_Master (LBond bond)" if "link_Master (LBond bond) \<noteq> ?B"
      using kernel.EnsureBond_master [OF assms(1) b _ that] no by (simp add: uplink_bond_name)
    show "Type x \<noteq> ''macvlan''" if "Ensure nl (NewBridge (GenerateBridgeName ?cn)) k1 = (Inr br, k2)" "LinkListSafe nl k2 = (Inr ls, k0)"
      "x \<in> set ls" "at_ParentIndex (Attrs x) = ?B" for br k2 ls k0 x
      using assms(4) [OF u that(1-3)] that(4) by simp
  qed (use ok(1) self bridge_not_bond in auto)
  then obtain br where br: "nv_name (view k') br = Some (GenerateBridgeName ?cn)" "nv_up (view k') br"
    "nv_name (view k') ?B = Some (?cn @ BondSuffix)" "nv_master (view k') ?B = br"
    and sl: "\<And>j n. nv_name (view k') j = Some n \<and> nv_master (view k') j = ?B \<longleftrightarrow> nv_name (view k1) j = Some n \<and> nv_master (view k1) j = ?B"
    and up: "\<And>j n. nv_name (view k1) j = Some n \<and> nv_up (view k1) j \<and> j \<noteq> ?B \<longrightarrow> nv_up (view k') j" by blast
  have "{s. \<exists>j. nv_name (view k') j = Some s \<and> nv_master (view k') j = ?B} = set ?NICs"
    using ok(2) sl by auto
  moreover have "\<forall>j \<in> dom (nv_name (view k')). nv_master (view k') j = ?B \<longrightarrow> nv_up (view k') j"
  proof (intro ballI impI)
    fix j assume "j \<in> dom (nv_name (view k'))" "nv_master (view k') j = ?B"
    then obtain n where n: "nv_name (view k1) j = Some n" "nv_master (view k1) j = ?B" using sl by blast
    with self ok(3) [of j] have "j \<noteq> ?B" "nv_up (view k1) j" by auto
    with up n(1) show "nv_up (view k') j" by blast
  qed
  ultimately show ?thesis using br by blast
qed

theorem network_set_up_witness:
  "\<exists>v k' bo br. setup_network ref_netlink agent_vc demo_kernel = (Inr v, k')
     \<and> nv_name (ref_view k') bo = Some ''cn1-bo'' \<and> nv_name (ref_view k') br = Some ''cn1-br'' \<and> nv_master (ref_view k') bo = br
     \<and> {s. \<exists>j. nv_name (ref_view k') j = Some s \<and> nv_master (ref_view k') j = bo} = {''eth0''}"
proof -
  let ?s = "setup_network ref_netlink agent_vc demo_kernel" and ?u = "setUplink ref_netlink agent_vc demo_kernel"
  let ?e = "Ensure ref_netlink (NewBridge ''cn1-br'') (snd ?u)"
  have "\<not> isl (fst ?s)" by code_simp
  then obtain v where v: "?s = (Inr v, snd ?s)" by (metis prod.collapse sum.collapse(2))
  have names: "vc_ClusterNetwork agent_vc @ BondSuffix = ''cn1-bo''" "GenerateBridgeName (vc_ClusterNetwork agent_vc) = ''cn1-br''"
    "slice_elems (up_NICs (vc_Uplink agent_vc)) = [''eth0'']" by code_simp+
  have none: "list_all (\<lambda>x. Type x \<noteq> ''macvlan'') (projr (fst (LinkListSafe ref_netlink (snd ?e))))" by code_simp
  have "\<exists>bo br. nv_name (ref_view (snd ?s)) bo = Some (vc_ClusterNetwork agent_vc @ BondSuffix)
     \<and> nv_name (ref_view (snd ?s)) br = Some (GenerateBridgeName (vc_ClusterNetwork agent_vc))
     \<and> nv_master (ref_view (snd ?s)) bo = br \<and> nv_up (ref_view (snd ?s)) br
     \<and> {s. \<exists>j. nv_name (ref_view (snd ?s)) j = Some s \<and> nv_master (ref_view (snd ?s)) j = bo} = set (slice_elems (up_NICs (vc_Uplink agent_vc)))
     \<and> (\<forall>j \<in> dom (nv_name (ref_view (snd ?s))). nv_master (ref_view (snd ?s)) j = bo \<longrightarrow> nv_up (ref_view (snd ?s)) j)"
  proof (rule network_set_up [OF rk.kernel_axioms v])
    show "vc_ClusterNetwork agent_vc @ BondSuffix \<notin> set (slice_elems (up_NICs (vc_Uplink agent_vc)))" by (simp add: names)
    fix l k1 br k2 ls k3 x
    assume "?u = (Inr l, k1)" "Ensure ref_netlink (NewBridge (GenerateBridgeName (vc_ClusterNetwork agent_vc))) k1 = (Inr br, k2)"
      "LinkListSafe ref_netlink k2 = (Inr ls, k3)" "x \<in> set ls"
    with none show "Type x \<noteq> ''macvlan''" by (simp add: names list_all_iff)
  qed
  then obtain bo br where "nv_name (ref_view (snd ?s)) bo = Some ''cn1-bo''" "nv_name (ref_view (snd ?s)) br = Some ''cn1-br''"
    "nv_master (ref_view (snd ?s)) bo = br"
    "{s. \<exists>j. nv_name (ref_view (snd ?s)) j = Some s \<and> nv_master (ref_view (snd ?s)) j = bo} = {''eth0''}"
    unfolding names by auto
  with v show ?thesis by blast
qed

section \<open>Removing a VLAN config\<close>

text \<open>The node without the labels of a VLAN status.\<close>

definition unlabelled :: "VlanStatus \<Rightarrow> Node \<Rightarrow> Node" where
  "unlabelled vs n =
     (if o_labels n \<noteq> None \<and> (mget (o_labels n) (GetLabelKeyOfClusterNetwork (vs_ClusterNetwork vs)) = ValueTrue
           \<or> mget (o_labels n) KeyVlanConfigLabel = vs_VlanConfig vs)
      then n\<lparr>o_labels := mdelete KeyVlanConfigLabel (mdelete (GetLabelKeyOfClusterNetwork (vs_ClusterNetwork vs)) (o_labels n))\<rparr>
      else n)"

lemma removeNodeLabel_ok:
  assumes "env_of env c" "stored_node c (ve_node env) = Some n"
  shows "\<exists>l'. removeNodeLabel env vs (k, l) = (Inr (), k, l @ l') \<and> (\<forall>a \<in> set l'. node_call (fst a))
     \<and> stored_node (cluster_after l' c) (ve_node env) = Some (unlabelled vs n)"
  using stored_key(2) [OF assms(2)]
  by (auto simp: removeNodeLabel_def Let_def env_ofD [OF assms(1)] stored_get assms(2) unlabelled_def key_of_def)

lemma removeVLAN_done:
  assumes "env_of env c" "stored_node c (ve_node env) = Some n"
    and "teardown_network (ve_nl env) (vs_ClusterNetwork vs) k = (Inr None, k')"
  shows "\<exists>l'. removeVLAN env vs (k, l) = (Inr (), k', l @ l')
     \<and> stored_vs (cluster_after l' c) (o_name vs) = None
     \<and> stored_node (cluster_after l' c) (ve_node env) = Some (unlabelled vs n)
     \<and> set (hnc_requests c (vs_ClusterNetwork vs)) \<subseteq> set l'"
proof -
  obtain l1 where r: "removeNodeLabel env vs (k', l) = (Inr (), k', l @ l1)"
    and n: "stored_node (cluster_after l1 c) (ve_node env) = Some (unlabelled vs n)"
    using removeNodeLabel_ok [OF assms(1,2)] by blast
  let ?l2 = "(DeleteVS (o_name vs), None) # hnc_requests c (vs_ClusterNetwork vs)"
  have h: "\<forall>a \<in> set (hnc_requests c (vs_ClusterNetwork vs)). \<not> vs_call (fst a)" "\<forall>a \<in> set ?l2. \<not> node_call (fst a)"
    using hnc_requests_call by auto
  have "removeVLAN env vs (k, l) = (Inr (), k', l @ l1 @ ?l2)"
    by (simp add: removeVLAN_def assms(3) r deleteStatus_def env_ofD [OF assms(1)] reconcileHostNetwork_ok [OF assms(1)])
  moreover have "stored_vs (cluster_after (l1 @ ?l2) c) (o_name vs) = None"
    by (simp add: stored_frame(1) [OF h(1)])
  moreover have "stored_node (cluster_after (l1 @ ?l2) c) (ve_node env) = Some (unlabelled vs n)"
    unfolding cluster_after_simps(3) by (simp only: stored_frame(2) [OF h(2)] n)
  ultimately show ?thesis by (intro exI [of _ "l1 @ ?l2"]) auto
qed

lemma teardown_missing:
  "vlan_GetVlan nl cn k = (Inl e, k') \<Longrightarrow> IsLinkNotFound e \<Longrightarrow> \<not> is_panic e \<Longrightarrow> teardown_network nl cn k = (Inr None, k')"
  by (simp add: teardown_network_def)

text \<open>
  A missing interface counts as a finished teardown: when the bridge or the uplink of the cluster
  network is not found, \<open>removeVLAN\<close> deletes the VLAN status, removes the labels of the node and
  returns no error, and leaves the interfaces as they are. So a bridge whose uplink is already gone (a
  teardown that failed half-way) stays on the node and nothing refers to it any more.
\<close>

lemma removeVLAN_missing_link:
  assumes "kernel (ve_nl env) view" "env_of env c" "stored_node c (ve_node env) = Some n"
    and "vlan_GetVlan (ve_nl env) (vs_ClusterNetwork vs) k = (Inl e, k')" "IsLinkNotFound e"
  shows "\<exists>l'. removeVLAN env vs (k, l) = (Inr (), k', l @ l') \<and> view k' = view k
     \<and> stored_vs (cluster_after l' c) (o_name vs) = None
     \<and> stored_node (cluster_after l' c) (ve_node env) = Some (unlabelled vs n)"
proof -
  have "\<not> is_panic e" "view k' = view k"
    using kernel.GetVlan_no_panic [OF assms(1,4)] kernel.GetVlan_err [OF assms(1,4)] by simp_all
  then show ?thesis using removeVLAN_done [OF assms(2,3) teardown_missing [OF assms(4,5)], of l] by blast
qed

text \<open>The witness: a first teardown in which the deletion of the bridge fails, then the retry.\<close>

definition demo_vs :: VlanStatus where
  "demo_vs = \<lparr>o_name = ''cn1-n1'', o_namespace = [], o_labels = None, o_annotations = None, o_deleting = False,
     vs_ClusterNetwork = ''cn1'', vs_VlanConfig = ''vc1'', vs_LinkMonitor = [], vs_Node = ''n1'', vs_LocalAreas = [],
     vs_Conditions = [], vs_OwnerReferences = []\<rparr>"

definition half_torn :: "go_error option res \<times> ref_state" where
  "half_torn = teardown_network ref_netlink ''cn1'' (demo_net\<lparr>rs_script := [None, None, None, None, None, Some (EOther ''busy'')]\<rparr>)"

lemma removeVLAN_missing_link_witness:
  "\<exists>k' l'. fst half_torn = Inr (Some (Wrapf ''delete bridge %s failed, error: %w'' (EOther ''busy'')))
     \<and> removeVLAN agent_env demo_vs (snd half_torn, []) = (Inr (), k', l')
     \<and> stored_vs (cluster_after l' agent_cluster) (o_name demo_vs) = None
     \<and> ''cn1-br'' \<in> ran (nv_name (ref_view k'))"
proof -
  have h: "fst half_torn = Inr (Some (Wrapf ''delete bridge %s failed, error: %w'' (EOther ''busy'')))"
    "vlan_GetVlan ref_netlink ''cn1'' (snd half_torn) = (Inl (ELinkNotFound ''cn1-bo''), snd half_torn)"
    "''cn1-br'' \<in> link_Name ` set (rs_table (snd half_torn))"
    by code_simp+
  have k: "kernel (ve_nl agent_env) ref_view" "ve_nl agent_env = ref_netlink" "vs_ClusterNetwork demo_vs = ''cn1''"
    using rk.kernel_axioms by (simp_all add: agent_env_def demo_vs_def)
  obtain n where n: "stored_node agent_cluster (ve_node agent_env) = Some n" using agent_cluster_node by blast
  have "vlan_GetVlan (ve_nl agent_env) (vs_ClusterNetwork demo_vs) (snd half_torn) = (Inl (ELinkNotFound ''cn1-bo''), snd half_torn)"
    using h(2) by (simp only: k(2,3))
  from removeVLAN_missing_link [OF k(1) agent_env_of n this, of "[]"] h(1,3) show ?thesis
    by (auto simp: ref_ran)
qed

text \<open>
  C18. A complete removal: when the network of the VLAN status is found and torn down, the node has
  neither its bond nor its bridge any more, the VLAN status is gone, the labels of the node are
  removed, the host network configs of the cluster network are requeued, and no error is returned.
\<close>

theorem removeVLAN_clean:
  assumes "kernel (ve_nl env) view" "env_of env c" "stored_node c (ve_node env) = Some n"
    and "vlan_GetVlan (ve_nl env) (vs_ClusterNetwork vs) k = (Inr v, k1)" "Teardown (ve_nl env) v k1 = (Inr (), k')"
  shows "\<exists>l'. removeVLAN env vs (k, l) = (Inr (), k', l @ l')
     \<and> GenerateBondName (vs_ClusterNetwork vs) \<notin> ran (nv_name (view k'))
     \<and> GenerateBridgeName (vs_ClusterNetwork vs) \<notin> ran (nv_name (view k'))
     \<and> stored_vs (cluster_after l' c) (o_name vs) = None
     \<and> stored_node (cluster_after l' c) (ve_node env) = Some (unlabelled vs n)
     \<and> set (hnc_requests c (vs_ClusterNetwork vs)) \<subseteq> set l'"
proof -
  have "teardown_network (ve_nl env) (vs_ClusterNetwork vs) k = (Inr None, k')"
    using assms(4,5) attempt_Inr [of "Teardown (ve_nl env) v"] by (simp add: teardown_network_def)
  from removeVLAN_done [OF assms(2,3) this] kernel.Teardown_ok [OF assms(1,4,5)] show ?thesis by blast
qed

theorem removeVLAN_clean_witness:
  "\<exists>k' l'. removeVLAN agent_env demo_vs (demo_net, []) = (Inr (), k', l')
     \<and> ''cn1-bo'' \<notin> ran (nv_name (ref_view k')) \<and> ''cn1-br'' \<notin> ran (nv_name (ref_view k'))"
proof -
  have g: "vlan_GetVlan ref_netlink ''cn1'' demo_net = (Inr demo_vlan, demo_net)"
    "fst (Teardown ref_netlink demo_vlan demo_net) = Inr ()" by code_simp+
  then have t: "Teardown ref_netlink demo_vlan demo_net = (Inr (), snd (Teardown ref_netlink demo_vlan demo_net))" by (metis prod.collapse)
  have k: "kernel (ve_nl agent_env) ref_view" "ve_nl agent_env = ref_netlink" "vs_ClusterNetwork demo_vs = ''cn1''"
    using rk.kernel_axioms by (simp_all add: agent_env_def demo_vs_def)
  obtain n where n: "stored_node agent_cluster (ve_node agent_env) = Some n" using agent_cluster_node by blast
  have "vlan_GetVlan (ve_nl agent_env) (vs_ClusterNetwork demo_vs) demo_net = (Inr demo_vlan, demo_net)"
    "Teardown (ve_nl agent_env) demo_vlan demo_net = (Inr (), snd (Teardown ref_netlink demo_vlan demo_net))"
    using g(1) t by (simp_all only: k(2,3))
  moreover have "GenerateBondName ''cn1'' = ''cn1-bo''" "GenerateBridgeName ''cn1'' = ''cn1-br''" by code_simp+
  ultimately show ?thesis using removeVLAN_clean [OF k(1) agent_env_of n, of demo_vs demo_net demo_vlan demo_net _ "[]"]
    by (auto simp: k(3))
qed

text \<open>
  The label of the VLAN config is shared by all configs of a node: the removal of one deletes the
  label that another has set, and a cluster network named \<open>vlanconfig\<close> never gets its own label.
\<close>

lemma vlanconfig_label_shared:
  assumes "mget (o_labels n) (GetLabelKeyOfClusterNetwork (vs_ClusterNetwork vs)) = ValueTrue"
  shows "mlookup (o_labels (unlabelled vs n)) KeyVlanConfigLabel = None"
  using assms by (auto simp: unlabelled_def ValueTrue_def)

lemma vlanconfig_label_clash:
  assumes "env_of env c" "stored_node c (ve_node env) = Some n" "vc_ClusterNetwork vc = ''vlanconfig''" "o_name vc \<noteq> ValueTrue"
  shows "\<exists>l' n'. addNodeLabel env vc (k, l) = (Inr (), k, l @ l')
     \<and> stored_node (cluster_after l' c) (ve_node env) = Some n'
     \<and> mget (o_labels n') (GetLabelKeyOfClusterNetwork (vc_ClusterNetwork vc)) \<noteq> ValueTrue"
proof -
  have key: "GetLabelKeyOfClusterNetwork (vc_ClusterNetwork vc) = KeyVlanConfigLabel"
    using assms(3) by (simp add: cluster_label_key)
  show ?thesis
    using stored_key(2) [OF assms(2)] assms(4)
    by (auto simp: addNodeLabel_def Let_def key_of_def env_ofD [OF assms(1)] stored_get assms(2) key)
qed

section \<open>The management VLAN config\<close>

lemma BondModeString_nonempty: "BondModeString m \<noteq> []"
  by (auto simp: BondModeString_def bond_modes_def split: option.splits if_splits)

lemma GetMgmtBondInfo_mode: "GetMgmtBondInfo nl k = (Inr info, k') \<Longrightarrow> mi_BondMode info \<noteq> []"
proof -
  assume "GetMgmtBondInfo nl k = (Inr info, k')"
  then obtain l k1 where "(case l of LBond bond \<Rightarrow>
           io_bind (LinkList nl) (\<lambda>links.
           let slaveNames = map link_Name (filter (\<lambda>x. link_Master x = link_Index l) links) in
           io_ret \<lparr>mi_MTU = at_MTU (Attrs l), mi_BondMode = BondModeString (bd_Mode bond),
                   mi_SlaveNames = (if slaveNames = [] then None else Some slaveNames)\<rparr>)
       | _ \<Rightarrow> io_throw (Errorf ''interface %s is not a bond device (got %T)'')) k1 = (Inr info, k')"
    by (auto simp: GetMgmtBondInfo_def io_bind_result)
  then show ?thesis by (cases l) (auto simp: io_results Let_def BondModeString_nonempty)
qed

text \<open>A config that needs no update describes the bond, if the bond has an MTU and a mode.\<close>

lemma unchanged_describes:
  assumes "distinct (slice_elems (mi_SlaveNames info))" "mi_MTU info \<noteq> 0" "mi_BondMode info \<noteq> []"
    and "\<not> snd (update_uplink info (vc_Uplink vc))"
  shows "describes vc info"
  using update_uplink_NICs(2) [OF assms(1,4)] assms(2-4)
  by (auto simp: describes_def update_uplink_def Let_def split: option.splits)

text \<open>
  At start, when the management bond is found, the cluster ends up with a VLAN config for the
  node's management network that describes the bond: it is created, updated, or already right. The
  bond has an MTU and distinct slaves.
\<close>

lemma mgmt_config_recorded:
  assumes "env_of env c" "GetMgmtBondInfo (ve_nl env) k = (Inr info, k')"
    and "distinct (slice_elems (mi_SlaveNames info))" "mi_MTU info \<noteq> 0"
  shows "\<exists>l' vc. CreateOrUpdateMgmtVlanConfig env (k, l) = (Inr (), k', l @ l')
     \<and> stored_vc (cluster_after l' c) (GetMgmtVlanConfigName (ve_node env)) = Some vc \<and> describes vc info"
proof -
  let ?n = "GetMgmtVlanConfigName (ve_node env)"
  note env = env_ofD [OF assms(1)]
  have run: "CreateOrUpdateMgmtVlanConfig env (k, l) = createOrUpdateMgmtVlanConfig env info (k', l)"
    by (simp add: CreateOrUpdateMgmtVlanConfig_def assms(2))
  show ?thesis
  proof (cases "stored_vc c ?n")
    case None
    then show ?thesis unfolding run
      by (simp add: createOrUpdateMgmtVlanConfig_def Let_def env stored_get createMgmtVlanConfig_def)
         (simp add: describes_def empty_vc_def key_of_def)
  next
    case (Some vc)
    let ?vc = "vc\<lparr>vc_Uplink := fst (update_uplink info (vc_Uplink vc))\<rparr>"
    show ?thesis
    proof (cases "snd (update_uplink info (vc_Uplink vc))")
      case True
      then have "createOrUpdateMgmtVlanConfig env info (k', l) = (Inr (), k', l @ [(UpdateVC ?vc, None)])"
        by (simp add: createOrUpdateMgmtVlanConfig_def Let_def env stored_get Some BuildUpdated_Some)
      moreover have "describes ?vc info" using BuildUpdated_describes [OF assms(3) BuildUpdated_Some] by blast
      moreover have "key_of ?vc = ([], ?n)" using stored_key(3) [OF Some] by (simp add: key_of_def)
      ultimately show ?thesis unfolding run by auto
    next
      case False
      then have "createOrUpdateMgmtVlanConfig env info (k', l) = (Inr (), k', l)"
        by (simp add: createOrUpdateMgmtVlanConfig_def Let_def env stored_get Some BuildUpdated_Some)
      moreover have "describes vc info"
        using unchanged_describes [OF assms(3,4) GetMgmtBondInfo_mode [OF assms(2)] False] .
      ultimately show ?thesis unfolding run using Some by auto
    qed
  qed
qed

definition mgmt_kernel :: ref_state where
  "mgmt_kernel = \<lparr>rs_links = [demo_nic 2 ''eth0'' 3,
       LBond ((NewLinkBond (attrs0\<lparr>at_Index := 3, at_Name := ''mgmt-bo'', at_MTU := 1500\<rparr>))\<lparr>bd_Mode := 1\<rparr>)],
     rs_vlans = [], rs_addrs = [], rs_script = []\<rparr>"

lemma mgmt_config_recorded_witness:
  "\<exists>k' l' vc. CreateOrUpdateMgmtVlanConfig agent_env (mgmt_kernel, []) = (Inr (), k', l')
     \<and> stored_vc (cluster_after l' agent_cluster) (GetMgmtVlanConfigName ''n1'') = Some vc
     \<and> slice_elems (up_NICs (vc_Uplink vc)) \<noteq> []"
proof -
  let ?i = "\<lparr>mi_MTU = 1500, mi_BondMode = ''active-backup'', mi_SlaveNames = Some [''eth0'']\<rparr>"
  have "GetMgmtBondInfo ref_netlink mgmt_kernel = (Inr ?i, mgmt_kernel)" by code_simp
  moreover have nl: "ve_nl agent_env = ref_netlink" "ve_node agent_env = ''n1''" by (simp_all add: agent_env_def)
  ultimately have "GetMgmtBondInfo (ve_nl agent_env) mgmt_kernel = (Inr ?i, mgmt_kernel)" by (simp only: nl)
  from mgmt_config_recorded [OF agent_env_of this, of "[]"] show ?thesis by (fastforce simp: nl describes_def)
qed

text \<open>
  Without a management bond the agent creates an empty VLAN config, and when that succeeds it
  panics: the log line after the creation reads the MTU through the nil \<open>LinkAttrs\<close>. The initialization
  of the controller does not return.
\<close>

lemma empty_mgmt_config_panics:
  assumes "env_of env c" "GetMgmtBondInfo (ve_nl env) k = (Inl e, k')" "\<not> is_panic e"
  shows "CreateOrUpdateMgmtVlanConfig env (k, l) =
     (Inl (GoPanic ''nil pointer dereference''), k', l @ [(CreateVC (empty_vc (GetMgmtVlanConfigName (ve_node env))), None)])"
  using assms(2,3)
  by (simp add: CreateOrUpdateMgmtVlanConfig_def createMgmtVlanConfig_def env_ofD [OF assms(1)] empty_vc_def wrap_def)

lemma empty_mgmt_config_panics_witness:
  "CreateOrUpdateMgmtVlanConfig agent_env (demo_kernel, []) =
     (Inl (GoPanic ''nil pointer dereference''), demo_kernel, [(CreateVC (empty_vc (GetMgmtVlanConfigName ''n1'')), None)])"
proof -
  have "GetMgmtBondInfo ref_netlink demo_kernel = (Inl (ELinkNotFound ''mgmt-bo''), demo_kernel)" by code_simp
  moreover have nl: "ve_nl agent_env = ref_netlink" "ve_node agent_env = ''n1''" by (simp_all add: agent_env_def)
  ultimately have "GetMgmtBondInfo (ve_nl agent_env) demo_kernel = (Inl (ELinkNotFound ''mgmt-bo''), demo_kernel)" by (simp only: nl)
  from empty_mgmt_config_panics [OF agent_env_of this, of "[]"] show ?thesis by (simp add: nl)
qed

section \<open>Isolation of the nodes\<close>

text \<open>The calls that concern the node \<open>node\<close> in the cluster \<open>c\<close>: its own object and its own statuses.\<close>

fun own_call :: "cluster \<Rightarrow> string \<Rightarrow> api_call \<Rightarrow> bool" where
  "own_call c node (UpdateNode n) = (o_name n = node)"
| "own_call c node (CreateVS vs) = (mlookup (o_labels vs) KeyNodeLabel = Some node)"
| "own_call c node (UpdateVS vs) = (mlookup (o_labels vs) KeyNodeLabel = Some node)"
| "own_call c node (DeleteVS n) =
     (\<exists>vs \<in> set (indexer (cl_vss c)). o_name vs = n \<and> mlookup (o_labels vs) KeyNodeLabel = Some node)"
| "own_call c node (EnqueueCN n) = True"
| "own_call c node (EnqueueHNC n) = True"
| "own_call c node a = False"

lemma io_logs_lift_bind:
  "(\<And>x. r = Inr x \<Longrightarrow> io_logs C (f x)) \<Longrightarrow> io_logs C (io_bind (io_lift r) f)"
  by (cases r) (simp_all add: io_logs_basic)

lemma node_labels_key [simp]:
  "mlookup (Some [KeyClusterNetworkLabel \<mapsto> a, KeyVlanConfigLabel \<mapsto> b, KeyNodeLabel \<mapsto> d]) KeyNodeLabel = Some d"
  by (simp add: mlookup_def)

lemma updateStatus_own: "io_logs (own_call c (ve_node env)) (updateStatus env vc r)"
  by (auto simp: updateStatus_def Let_def intro!: io_log_rules split: sum.splits)

lemma nodeGet_name: "store_get (indexer (cl_nodes c)) [] m = Inr n \<Longrightarrow> o_name n = m"
  by (auto simp: store_get_def key_of_def dest!: find_SomeD split: option.splits)

lemma addNodeLabel_own: "ve_caches env = caches_of c \<Longrightarrow> io_logs (own_call c (ve_node env)) (addNodeLabel env vc)"
  by (auto simp: addNodeLabel_def Let_def dest: nodeGet_name intro!: io_log_rules io_logs_lift_bind)

lemma removeNodeLabel_own: "ve_caches env = caches_of c \<Longrightarrow> io_logs (own_call c (ve_node env)) (removeNodeLabel env vs)"
  by (auto simp: removeNodeLabel_def Let_def dest: nodeGet_name intro!: io_log_rules io_logs_lift_bind)

lemma reconcile_own: "io_logs (own_call c m) (reconcileHostNetwork env cn)" "io_logs (own_call c m) (wakeUpClusterNetwork env vc)"
  by (auto simp: reconcileHostNetwork_def wakeUpClusterNetwork_def intro!: io_log_rules)

lemma setupVLAN_own: "ve_caches env = caches_of c \<Longrightarrow> io_logs (own_call c (ve_node env)) (setupVLAN env vc)"
  by (auto simp: setupVLAN_def intro!: io_log_rules updateStatus_own addNodeLabel_own reconcile_own split: option.splits)

lemma removeVLAN_own:
  assumes "ve_caches env = caches_of c" "vs \<in> set (indexer (cl_vss c))" "mlookup (o_labels vs) KeyNodeLabel = Some (ve_node env)"
  shows "io_logs (own_call c (ve_node env)) (removeVLAN env vs)"
proof -
  have "io_logs (own_call c (ve_node env)) (deleteStatus env vs r)" for r
    using assms(2,3) by (auto simp: deleteStatus_def intro!: io_log_rules split: option.splits)
  then show ?thesis
    by (auto simp: removeVLAN_def intro!: io_log_rules removeNodeLabel_own [OF assms(1)] reconcile_own split: option.splits)
qed

lemma getVlanStatus_own:
  assumes "ve_caches env = caches_of c" "getVlanStatus env vc = Inr (Some vs)"
  shows "vs \<in> set (indexer (cl_vss c))" "mlookup (o_labels vs) KeyNodeLabel = Some (ve_node env)"
proof -
  from assms obtain vss where l: "store_list (indexer (cl_vss c)) [] (SelectorFromSet [(KeyVlanConfigLabel, o_name vc), (KeyNodeLabel, ve_node env)]) = Inr vss"
    and "vs \<in> set vss"
    by (auto simp: getVlanStatus_def bind_res_def split: sum.splits list.splits)
  then show "vs \<in> set (indexer (cl_vss c))" "mlookup (o_labels vs) KeyNodeLabel = Some (ve_node env)"
    using store_list_set(3) [OF l] by auto
qed

text \<open>
  C19. The handler of a node writes nothing but what belongs to the node: every API call of
  \<open>OnChange\<close> and \<open>OnRemove\<close>, whatever the kernel and the server answer, concerns the node's own object
  or a VLAN status labelled with the node, or is a request to the agent's own queues.
\<close>

theorem agent_writes_own_objects:
  assumes "ve_caches env = caches_of c" "m \<in> {Agent_VC_OnChange env vc, Agent_VC_OnRemove env vc}" "m (k, l) = (r, k', l')"
  shows "\<exists>s. l' = l @ s \<and> (\<forall>a \<in> set s. own_call c (ve_node env) (fst a))"
proof (rule io_logsD [where m = m and k = k and r = r and k' = k'])
  note rules = io_log_rules io_logs_lift_bind setupVLAN_own [OF assms(1)] removeVLAN_own [OF assms(1)] getVlanStatus_own [OF assms(1)]
  have "io_logs (own_call c (ve_node env)) (Agent_VC_OnChange env vc)"
    by (auto simp: Agent_VC_OnChange_def intro!: rules split: option.splits)
  moreover have "io_logs (own_call c (ve_node env)) (Agent_VC_OnRemove env vc)"
    by (auto simp: Agent_VC_OnRemove_def intro!: rules split: option.splits)
  ultimately show "io_logs (own_call c (ve_node env)) m" using assms(2) by auto
  show "m (k, l) = (r, k', l')" by (rule assms(3))
qed

definition matched_env :: "ref_state vc_env" where
  "matched_env = agent_env\<lparr>ve_go := demo_golib\<lparr>UnmarshalStrings := (\<lambda>_. Inr [''n1''])\<rparr>\<rparr>"

definition matched_vc :: VlanConfig where
  "matched_vc = agent_vc\<lparr>o_annotations := Some [KeyMatchedNodes \<mapsto> ''[n1]'']\<rparr>"

theorem agent_writes_own_objects_witness:
  "\<exists>r k' l'. Agent_VC_OnChange matched_env (Some matched_vc) (demo_kernel, []) = (r, k', l')
     \<and> (EnqueueCN ''cn1'', None) \<in> set l' \<and> (\<forall>a \<in> set l'. own_call agent_cluster ''n1'' (fst a))"
proof -
  let ?m = "Agent_VC_OnChange matched_env (Some matched_vc)"
  have env: "env_of matched_env agent_cluster" "ve_caches matched_env = caches_of agent_cluster" "ve_node matched_env = ''n1''"
    "ve_nl matched_env = ref_netlink" "vc_ClusterNetwork matched_vc = ''cn1''"
    using agent_env_of by (simp_all add: matched_env_def matched_vc_def agent_vc_def agent_env_def env_of_def)
  have vss: "getVlanStatus matched_env matched_vc = Inr None"
    by (simp add: getVlanStatus_def env store_list_def agent_cluster_def cluster0_def indexer_def bind_res_def)
  have match: "MatchNode matched_env matched_vc = Inr True"
    by (simp add: MatchNode_def env(3) matched_vc_def mget_def) (simp add: matched_env_def bind_res_def)
  have "\<not> isl (fst (setup_network ref_netlink matched_vc demo_kernel))" by code_simp
  then obtain v k' where "setup_network ref_netlink matched_vc demo_kernel = (Inr v, k')" by (metis prod.collapse sum.collapse(2))
  then have s: "setup_network (ve_nl matched_env) matched_vc demo_kernel = (Inr v, k')" by (simp only: env)
  obtain n where n: "stored_node agent_cluster (ve_node matched_env) = Some n" using agent_cluster_node by (auto simp: env agent_env_def)
  have cn: "store_get (indexer (cl_cns agent_cluster)) [] (vc_ClusterNetwork matched_vc) = Inr agent_cn"
    by (simp add: env agent_cluster_def agent_cn_def cluster0_def indexer_def store_put_def key_of_def store_get_def)
  from setup_succeeded [OF env(1) s n cn, of "[]"] obtain l' where
    "setupVLAN matched_env matched_vc (demo_kernel, []) = (Inr (), k', l')" "(EnqueueCN ''cn1'', None) \<in> set l'"
    by (auto simp: env)
  then have run: "?m (demo_kernel, []) = (Inr (Some matched_vc), k', l')" "(EnqueueCN ''cn1'', None) \<in> set l'"
    by (simp_all add: Agent_VC_OnChange_def env ManagementClusterNetworkName_def match vss)
       (simp_all add: matched_vc_def agent_vc_def empty_vc_def)
  with agent_writes_own_objects [where m = ?m, OF env(2) _ run(1)] show ?thesis by (auto simp: env)
qed

end
