(* ===== verification/Agent_LinkMonitor.thy ===== *)
theory Agent_LinkMonitor
  imports Bond_Info Agent_State
begin

text \<open>
  \<open>pkg/network/monitor/monitor.go\<close> and \<open>pkg/controller/agent/linkmonitor/controller.go\<close>: per node, the
  rules of the link monitors, the link events that wake them up, and the link statuses they report.
  The state is the monitor and the node's kernel, and the log of API calls. The mutex of the monitor
  makes each operation on its rules atomic; regular expressions are a parameter.
\<close>

section \<open>The monitor\<close>

record Pattern =
  pt_Type :: string
  pt_Name :: string

definition NewPattern :: "string \<Rightarrow> string \<Rightarrow> Pattern" where
  "NewPattern typeRegexp nameRegexp = \<lparr>pt_Type = typeRegexp, pt_Name = nameRegexp\<rparr>"

text \<open>\<open>mo_rule\<close> is a Go map: one entry per key.\<close>

record Monitor =
  mo_rule :: "(string \<times> Pattern) list"
  mo_started :: bool

definition NewMonitor :: Monitor where "NewMonitor = \<lparr>mo_rule = [], mo_started = False\<rparr>"

definition AddPattern :: "string \<Rightarrow> Pattern \<Rightarrow> Monitor \<Rightarrow> Monitor" where
  "AddPattern key p m = m\<lparr>mo_rule := (key, p) # filter (\<lambda>x. fst x \<noteq> key) (mo_rule m)\<rparr>"

definition DeletePattern :: "string \<Rightarrow> Monitor \<Rightarrow> Monitor" where
  "DeletePattern key m = m\<lparr>mo_rule := filter (\<lambda>x. fst x \<noteq> key) (mo_rule m)\<rparr>"

definition GetPattern :: "string \<Rightarrow> Monitor \<Rightarrow> Pattern option" where
  "GetPattern key m = map_of (mo_rule m) key"

text \<open>\<open>regexp.MatchString\<close>.\<close>

type_synonym regexp_match = "string \<Rightarrow> string \<Rightarrow> bool res"

text \<open>The receiver may be nil; a loopback device is ignored before it is read.\<close>

definition pattern_match :: "regexp_match \<Rightarrow> Pattern option \<Rightarrow> nl_link \<Rightarrow> bool res" where
  "pattern_match re p_ptr l =
     (if at_EncapType (Attrs l) = TypeLoopback then Inr False
      else case p_ptr of
        None \<Rightarrow> Inl (GoPanic ''nil pointer dereference'')
      | Some p \<Rightarrow>
          bind_res (if pt_Name p = [] then Inr True else re (pt_Name p) (link_Name l)) id (\<lambda>isMatchName.
          bind_res (if pt_Type p = [] then Inr True else re (pt_Type p) (Type l)) id (\<lambda>isMatchType.
          Inr (isMatchName \<and> isMatchType))))"

fun match_rules :: "regexp_match \<Rightarrow> (string \<times> Pattern) list \<Rightarrow> nl_link \<Rightarrow> string option res" where
  "match_rules re [] l = Inr None"
| "match_rules re ((name, p) # rs) l =
     bind_res (pattern_match re (Some p) l) id (\<lambda>isMatch. if isMatch then Inr (Some name) else match_rules re rs l)"

text \<open>The rules in the order in which the loop over the map visits them.\<close>

definition visited :: "'k netlink \<Rightarrow> Monitor \<Rightarrow> (string \<times> Pattern) list" where
  "visited nl m =
     concat (map (\<lambda>n. case map_of (mo_rule m) n of None \<Rightarrow> [] | Some p \<Rightarrow> [(n, p)]) (map_order nl (map fst (mo_rule m))))"

definition monitor_match :: "regexp_match \<Rightarrow> 'k netlink \<Rightarrow> Monitor \<Rightarrow> nl_link \<Rightarrow> string option res" where
  "monitor_match re nl m l = match_rules re (visited nl m) l"

fun filter_links :: "(nl_link \<Rightarrow> bool res) \<Rightarrow> nl_link list \<Rightarrow> nl_link list res" where
  "filter_links f [] = Inr []"
| "filter_links f (l # ls) =
     bind_res (f l) id (\<lambda>ok. bind_res (filter_links f ls) id (\<lambda>ms. Inr (if ok then l # ms else ms)))"

definition ScanLinks :: "regexp_match \<Rightarrow> 'k netlink \<Rightarrow> Pattern option \<Rightarrow> ('k, nl_link list) io" where
  "ScanLinks re nl p_ptr =
     io_bind (LinkList nl) (\<lambda>links. io_lift (filter_links (pattern_match re p_ptr) links))"

datatype MsgType = RTM_NEWLINK | RTM_DELLINK | RTM_OTHER

record LinkUpdate =
  lu_Link :: nl_link
  lu_Type :: MsgType

text \<open>The two callbacks of the agent's monitor are \<open>UpdateLink\<close>, which requeues the link monitor.\<close>

definition UpdateLink :: "string \<Rightarrow> ('s agent_state, unit) io" where
  "UpdateLink key = enq (EnqueueLM key)"

definition handleLink :: "regexp_match \<Rightarrow> 'k netlink \<Rightarrow> LinkUpdate \<Rightarrow> ((Monitor \<times> 'k) agent_state, unit) io" where
  "handleLink re nl update st =
     (case monitor_match re nl (fst (fst st)) (lu_Link update) of
        Inl e \<Rightarrow> io_throw e st
      | Inr None \<Rightarrow> io_ret () st
      | Inr (Some key) \<Rightarrow>
          (case lu_Type update of
             RTM_NEWLINK \<Rightarrow> UpdateLink key st
           | RTM_DELLINK \<Rightarrow> UpdateLink key st
           | RTM_OTHER \<Rightarrow> io_ret () st))"

definition handle_event :: "regexp_match \<Rightarrow> 'k netlink \<Rightarrow> LinkUpdate \<Rightarrow> ((Monitor \<times> 'k) agent_state, unit) io" where
  "handle_event re nl l = io_try (handleLink re nl l) (\<lambda>_. io_ret ()) io_ret"

text \<open>
  The event loop, on the events that arrive before the context is done. An error of the handler is
  logged. \<open>subscribed\<close> is the answer of \<open>netlink.LinkSubscribe\<close>.
\<close>

definition monitor_start :: "regexp_match \<Rightarrow> 'k netlink \<Rightarrow> unit res \<Rightarrow> LinkUpdate list \<Rightarrow> ((Monitor \<times> 'k) agent_state, unit) io" where
  "monitor_start re nl subscribed events =
     io_try (io_lift subscribed) (\<lambda>_. io_ret ())
       (\<lambda>_. io_each (handle_event re nl) events)"

definition Monitor_Start :: "regexp_match \<Rightarrow> 'k netlink \<Rightarrow> unit res \<Rightarrow> LinkUpdate list \<Rightarrow> ((Monitor \<times> 'k) agent_state, unit) io" where
  "Monitor_Start re nl subscribed events st =
     (if mo_started (fst (fst st)) then (Inr (), st)
      else monitor_start re nl subscribed events (((fst (fst st))\<lparr>mo_started := True\<rparr>, snd (fst st)), snd st))"

section \<open>The controller\<close>

record 'k lm_env =
  le_re :: regexp_match
  le_caches :: caches
  le_nl :: "'k netlink"
  le_srv :: api_server
  le_node :: string

type_synonym 'k lm_state = "(Monitor \<times> 'k) agent_state"

definition on_monitor :: "(Monitor \<Rightarrow> Monitor) \<Rightarrow> ('k lm_state, unit) io" where
  "on_monitor f = on_fst (on_fst (\<lambda>m. (Inr (), f m)))"

definition on_kernel :: "('k, 'a) io \<Rightarrow> ('k lm_state, 'a) io" where
  "on_kernel m = on_fst (on_snd m)"

definition isMatchCurrentNode :: "'k lm_env \<Rightarrow> LinkMonitor \<Rightarrow> bool res" where
  "isMatchCurrentNode env lm =
     bind_res (nodeList (le_caches env) (SelectorFromSet (lm_NodeSelector lm))) id (\<lambda>nodes.
       Inr (list_ex (\<lambda>node. o_name node = le_node env \<and> \<not> o_deleting node) nodes))"

definition isRuleChange :: "LinkMonitor \<Rightarrow> Monitor \<Rightarrow> bool" where
  "isRuleChange lm m =
     (case GetPattern (o_name lm) m of
        Some p \<Rightarrow> \<not> (pt_Type p = lm_TypeRule lm \<and> pt_Name p = lm_NameRule lm)
      | None \<Rightarrow> True)"

definition AddPattern_lm :: "LinkMonitor \<Rightarrow> Monitor \<Rightarrow> Monitor" where
  "AddPattern_lm lm m = AddPattern (o_name lm) (NewPattern (lm_TypeRule lm) (lm_NameRule lm)) m"

definition DeletePattern_lm :: "LinkMonitor \<Rightarrow> Monitor \<Rightarrow> Monitor" where
  "DeletePattern_lm lm m = DeletePattern (o_name lm) m"

definition linkToLinkStatus :: "nl_link \<Rightarrow> LinkStatus" where
  "linkToLinkStatus l =
     \<lparr>lk_Name = link_Name l, lk_Index = link_Index l, lk_Type = Type l, lk_MAC = at_HardwareAddr (Attrs l),
      lk_Promiscuous = (at_Promisc (Attrs l) \<noteq> 0),
      lk_State = (case at_OperState (Attrs l) of OperUp \<Rightarrow> LinkUp | OperDown \<Rightarrow> LinkDown | _ \<Rightarrow> LinkUnknown),
      lk_MasterIndex = link_Master l\<rparr>"

definition compareLinkStatusList :: "LinkStatus list \<Rightarrow> LinkStatus list \<Rightarrow> bool" where
  "compareLinkStatusList m n =
     (if length m \<noteq> length n then False else list_all (\<lambda>(a, b). a = b) (zip m n))"

definition lm_updateStatus :: "'k lm_env \<Rightarrow> LinkMonitor \<Rightarrow> LinkStatus list \<Rightarrow> ('k lm_state, unit) io" where
  "lm_updateStatus env lm linkStatusList =
     (let current = (case lm_LinkStatus lm of None \<Rightarrow> [] | Some f \<Rightarrow> (case f (le_node env) of None \<Rightarrow> [] | Some x \<Rightarrow> x)) in
      if compareLinkStatusList current linkStatusList then io_ret ()
      else api (le_srv env) (UpdateLM (lm\<lparr>lm_LinkStatus :=
             Some ((case lm_LinkStatus lm of None \<Rightarrow> Map.empty | Some f \<Rightarrow> f)(le_node env \<mapsto> linkStatusList))\<rparr>)))"

definition syncLinkStatus :: "'k lm_env \<Rightarrow> LinkMonitor \<Rightarrow> ('k lm_state, unit) io" where
  "syncLinkStatus env lm st =
     io_bind (on_kernel (ScanLinks (le_re env) (le_nl env) (GetPattern (o_name lm) (fst (fst st)))))
       (\<lambda>links. lm_updateStatus env lm (map linkToLinkStatus links)) st"

definition updateMgmtVlanConfig :: "'k lm_env \<Rightarrow> ('k lm_state, unit) io" where
  "updateMgmtVlanConfig env =
     (case vcGet (le_caches env) (GetMgmtVlanConfigName (le_node env)) of
        Inl e \<Rightarrow> if IsNotFound e then io_ret () else io_throw (wrap ''failed to get VlanConfig %s: %w'' e)
      | Inr vc \<Rightarrow>
          io_bind (on_kernel (GetMgmtBondInfo (le_nl env))) (\<lambda>info.
            case BuildUpdatedVlanConfig (Some vc) info of
              (Some vcCopy, True) \<Rightarrow> io_wrap (wrap ''failed to update VlanConfig %s: %w'') (api (le_srv env) (UpdateVC vcCopy))
            | _ \<Rightarrow> io_ret ()))"

definition Agent_LM_OnChange :: "'k lm_env \<Rightarrow> LinkMonitor option \<Rightarrow> ('k lm_state, LinkMonitor option) io" where
  "Agent_LM_OnChange env lm_ptr =
     (case lm_ptr of
        None \<Rightarrow> io_ret None
      | Some lm \<Rightarrow>
          if o_deleting lm then io_ret None
          else io_bind (io_lift (isMatchCurrentNode env lm)) (\<lambda>isMatch.
               if \<not> isMatch then io_bind (on_monitor (DeletePattern_lm lm)) (\<lambda>_. io_ret (Some lm))
               else io_bind (on_monitor (\<lambda>m. if isRuleChange lm m then AddPattern_lm lm m else m)) (\<lambda>_.
                    io_bind (io_wrap (wrap ''synchronize links to link monitor %s failed, error: %w'') (syncLinkStatus env lm)) (\<lambda>_.
                    if o_name lm = ManagementClusterNetworkName
                    then io_bind (updateMgmtVlanConfig env) (\<lambda>_. io_ret None)
                    else io_ret (Some lm)))))"

definition Agent_LM_OnRemove :: "LinkMonitor option \<Rightarrow> ('k lm_state, LinkMonitor option) io" where
  "Agent_LM_OnRemove lm_ptr =
     (case lm_ptr of
        None \<Rightarrow> io_ret None
      | Some lm \<Rightarrow> io_bind (on_monitor (DeletePattern_lm lm)) (\<lambda>_. io_ret (Some lm)))"

section \<open>Rules\<close>

lemma GetPattern_simps [simp]:
  "GetPattern n (AddPattern key p m) = (if n = key then Some p else GetPattern n m)"
  "GetPattern n (DeletePattern key m) = (if n = key then None else GetPattern n m)"
proof -
  have "map_of (filter (\<lambda>x. fst x \<noteq> key) xs) n = (if n = key then None else map_of xs n)" for xs :: "(string \<times> Pattern) list"
    by (induction xs) auto
  then show "GetPattern n (AddPattern key p m) = (if n = key then Some p else GetPattern n m)"
    "GetPattern n (DeletePattern key m) = (if n = key then None else GetPattern n m)"
    by (simp_all add: GetPattern_def AddPattern_def DeletePattern_def)
qed

text \<open>A pattern whose regular expressions compile, and what it matches.\<close>

definition compiles :: "regexp_match \<Rightarrow> Pattern \<Rightarrow> bool" where
  "compiles re p \<longleftrightarrow> (\<forall>s. (\<exists>b. re (pt_Name p) s = Inr b) \<and> (\<exists>b. re (pt_Type p) s = Inr b))"

definition pattern_matches :: "regexp_match \<Rightarrow> Pattern \<Rightarrow> nl_link \<Rightarrow> bool" where
  "pattern_matches re p l \<longleftrightarrow> at_EncapType (Attrs l) \<noteq> TypeLoopback
     \<and> (pt_Name p = [] \<or> re (pt_Name p) (link_Name l) = Inr True) \<and> (pt_Type p = [] \<or> re (pt_Type p) (Type l) = Inr True)"

lemma pattern_match_ok: "compiles re p \<Longrightarrow> pattern_match re (Some p) l = Inr (pattern_matches re p l)"
proof -
  assume "compiles re p"
  then obtain a b where "re (pt_Name p) (link_Name l) = Inr a" "re (pt_Type p) (Type l) = Inr b"
    unfolding compiles_def by blast
  then show ?thesis by (simp add: pattern_match_def pattern_matches_def bind_res_def)
qed

lemma filter_links_ok: "(\<And>l. f l = Inr (P l)) \<Longrightarrow> filter_links f ls = Inr (filter P ls)"
  by (induction ls) (simp_all add: bind_res_def)

lemma compareLinkStatusList_eq: "compareLinkStatusList m n \<longleftrightarrow> m = n"
  by (auto simp: compareLinkStatusList_def list_all_iff list_eq_iff_zip_eq)

section \<open>Reported link statuses\<close>

definition node_links :: "LinkMonitor \<Rightarrow> string \<Rightarrow> LinkStatus list" where
  "node_links lm n = (case lm_LinkStatus lm of None \<Rightarrow> [] | Some f \<Rightarrow> (case f n of None \<Rightarrow> [] | Some x \<Rightarrow> x))"

definition stored_lm :: "cluster \<Rightarrow> string \<Rightarrow> LinkMonitor option" where
  "stored_lm c n = find (\<lambda>x. key_of x = ([], n)) (indexer (cl_lms c))"

lemma stored_lm_put [simp]:
  "stored_lm (c\<lparr>cl_lms := x # cl_lms c\<rparr>) n = (if key_of x = ([], n) then Some x else stored_lm c n)"
  by (simp add: stored_lm_def find_indexer_Cons)

lemma lm_updateStatus_ok:
  assumes "\<And>l a. le_srv env l a = None" "stored_lm c (o_name lm) = Some lm"
  shows "\<exists>l' lm'. lm_updateStatus env lm xs (s, l) = (Inr (), s, l @ l')
     \<and> stored_lm (cluster_after l' c) (o_name lm) = Some lm' \<and> node_links lm' = (node_links lm)(le_node env := xs)
     \<and> (l' = [] \<longleftrightarrow> node_links lm (le_node env) = xs) \<and> (l' = [] \<or> (\<exists>x. l' = [(UpdateLM x, None)]))"
proof (cases "node_links lm (le_node env) = xs")
  case True
  then have "lm_updateStatus env lm xs (s, l) = (Inr (), s, l @ [])"
    by (simp add: lm_updateStatus_def Let_def compareLinkStatusList_eq node_links_def)
  moreover have "node_links lm = (node_links lm)(le_node env := xs)" using True by auto
  ultimately show ?thesis using True assms(2) by (metis cluster_after_simps(1))
next
  case False
  define lm' where "lm' = lm\<lparr>lm_LinkStatus := Some ((case lm_LinkStatus lm of None \<Rightarrow> Map.empty | Some f \<Rightarrow> f)(le_node env \<mapsto> xs))\<rparr>"
  have "lm_updateStatus env lm xs (s, l) = (Inr (), s, l @ [(UpdateLM lm', None)])"
    using False by (simp add: lm_updateStatus_def Let_def compareLinkStatusList_eq node_links_def lm'_def api_run assms(1))
  moreover have "key_of lm' = ([], o_name lm)"
    using assms(2) by (auto simp: stored_lm_def lm'_def key_of_def dest: find_Some_iff [THEN iffD1])
  moreover have "node_links lm' = (node_links lm)(le_node env := xs)"
    by (auto simp: lm'_def node_links_def split: option.splits)
  ultimately show ?thesis using False by (intro exI [of _ "[(UpdateLM lm', None)]"] exI [of _ lm']) simp
qed

lemma on_monitor_run [simp]: "on_monitor f ((m, k), l) = (Inr (), (f m, k), l)"
  by (simp add: on_monitor_def)

lemma on_kernel_run [simp]: "on_kernel g ((m, k), l) = (case g k of (r, k') \<Rightarrow> (r, (m, k'), l))"
  by (simp add: on_kernel_def split: prod.splits)

lemma rule_installed:
  "GetPattern n (if isRuleChange lm m then AddPattern_lm lm m else m) =
     (if n = o_name lm then Some (NewPattern (lm_TypeRule lm) (lm_NameRule lm)) else GetPattern n m)"
  by (auto simp: isRuleChange_def AddPattern_lm_def NewPattern_def split: option.splits)

text \<open>
  What the run does after the report for the built-in management monitor: with no management VLAN
  config of the node in the cache, nothing; an error of the cache or of reading the bond is returned;
  otherwise the config is updated exactly when it differs from the bond, in its uplink only, so that it
  describes the bond.
\<close>

definition mgmt_follow_up :: "'k lm_env \<Rightarrow> 'k \<Rightarrow> LinkMonitor option res \<Rightarrow> 'k \<Rightarrow> api_log \<Rightarrow> bool" where
  "mgmt_follow_up env k r k' l \<longleftrightarrow>
     (case vcGet (le_caches env) (GetMgmtVlanConfigName (le_node env)) of
        Inl e \<Rightarrow> k' = k \<and> l = [] \<and> (if IsNotFound e then r = Inr None else \<exists>e'. r = Inl e')
      | Inr vc \<Rightarrow>
          (case GetMgmtBondInfo (le_nl env) k of
             (Inl e, k1) \<Rightarrow> k' = k1 \<and> l = [] \<and> r = Inl e
           | (Inr info, k1) \<Rightarrow> k' = k1 \<and> r = Inr None
               \<and> (\<exists>vc'. BuildUpdatedVlanConfig (Some vc) info = (Some vc', l \<noteq> [])
                    \<and> l \<in> {[], [(UpdateVC vc', None)]} \<and> (\<exists>u. vc' = vc\<lparr>vc_Uplink := u\<rparr>)
                    \<and> (if distinct (slice_elems (mi_SlaveNames info)) then describes vc' info else True))))"

lemma updateMgmtVlanConfig_run:
  assumes "\<And>l a. le_srv env l a = None"
  shows "\<exists>r k' l'. io_bind (updateMgmtVlanConfig env) (\<lambda>_. io_ret None) ((m, k), l) = (r, (m, k'), l @ l')
     \<and> mgmt_follow_up env k r k' l'"
proof (cases "vcGet (le_caches env) (GetMgmtVlanConfigName (le_node env))")
  case (Inl e)
  then show ?thesis by (auto simp: updateMgmtVlanConfig_def mgmt_follow_up_def io_bind_def io_ret_def io_throw_def)
next
  case (Inr vc)
  obtain i k1 where i: "GetMgmtBondInfo (le_nl env) k = (i, k1)" by fastforce
  show ?thesis
  proof (cases i)
    case (Inl e)
    with Inr i show ?thesis by (auto simp: updateMgmtVlanConfig_def mgmt_follow_up_def io_bind_def)
  next
    case info: (Inr info)
    obtain vc' b where b: "BuildUpdatedVlanConfig (Some vc) info = (Some vc', b)" by (simp add: BuildUpdated_Some)
    have u: "\<exists>u. vc' = vc\<lparr>vc_Uplink := u\<rparr>" using b by (auto simp: BuildUpdated_Some)
    note d = BuildUpdated_describes [OF _ b]
    show ?thesis
    proof (cases b)
      case True
      with Inr i info b have "io_bind (updateMgmtVlanConfig env) (\<lambda>_. io_ret None) ((m, k), l)
          = (Inr None, (m, k1), l @ [(UpdateVC vc', None)])"
        by (simp add: updateMgmtVlanConfig_def io_bind_def io_wrap_def io_try_def api_run assms io_ret_def)
      moreover have "mgmt_follow_up env k (Inr None) k1 [(UpdateVC vc', None)]"
        using Inr i info b True u d by (simp add: mgmt_follow_up_def)
      ultimately show ?thesis by blast
    next
      case False
      with Inr i info b have "io_bind (updateMgmtVlanConfig env) (\<lambda>_. io_ret None) ((m, k), l) = (Inr None, (m, k1), l @ [])"
        by (simp add: updateMgmtVlanConfig_def io_bind_def io_ret_def)
      moreover have "mgmt_follow_up env k (Inr None) k1 []"
        using Inr i info b False u d by (simp add: mgmt_follow_up_def)
      ultimately show ?thesis by blast
    qed
  qed
qed

lemma mgmt_follow_up_keeps: "mgmt_follow_up env k r k' l \<Longrightarrow> stored_lm (cluster_after l c) n = stored_lm c n"
proof -
  assume "mgmt_follow_up env k r k' l"
  then have "l = [] \<or> (\<exists>y. l = [(UpdateVC y, None)])"
    unfolding mgmt_follow_up_def
    by (cases "fst (GetMgmtBondInfo (le_nl env) k)") (auto split: sum.splits prod.splits)
  then show ?thesis by (auto simp: stored_lm_def)
qed

text \<open>
  C20. On a node that a link monitor selects, \<open>OnChange\<close> installs its rule and reports its links: the
  monitor's status for the node then lists exactly the non-loopback interfaces whose name and type
  match the rule, in kernel order, the other nodes' lists are kept, and no report is sent when the
  list is already right. The rules of other monitors are untouched. For a monitor other than the
  built-in one of the management network that is all, and the monitor is returned; for the built-in one
  the run goes on to compare the node's management VLAN config with the bond and may update it or
  return an error (\<open>mgmt_follow_up\<close>), which leaves the report as it is. (The monitor is live and stored
  as given, its rule compiles, the links can be listed, and the API server accepts the updates.)
\<close>

theorem link_status_reported:
  assumes "\<And>l a. le_srv env l a = None" "stored_lm c (o_name lm) = Some lm" "\<not> o_deleting lm"
    and "isMatchCurrentNode env lm = Inr True" "LinkList (le_nl env) k = (Inr links, k')"
    and "compiles (le_re env) (NewPattern (lm_TypeRule lm) (lm_NameRule lm))"
  shows "\<exists>r m' k'' l' l'' lm'. Agent_LM_OnChange env (Some lm) ((m, k), l) = (r, (m', k''), l @ l' @ l'')
     \<and> (\<forall>n. GetPattern n m' = (if n = o_name lm then Some (NewPattern (lm_TypeRule lm) (lm_NameRule lm)) else GetPattern n m))
     \<and> stored_lm (cluster_after (l' @ l'') c) (o_name lm) = Some lm'
     \<and> node_links lm' = (node_links lm)(le_node env :=
         map linkToLinkStatus (filter (pattern_matches (le_re env) (NewPattern (lm_TypeRule lm) (lm_NameRule lm))) links))
     \<and> (l' = [] \<longleftrightarrow> node_links lm' = node_links lm) \<and> (l' = [] \<or> (\<exists>x. l' = [(UpdateLM x, None)]))
     \<and> (if o_name lm = ManagementClusterNetworkName then mgmt_follow_up env k' r k'' l''
        else r = Inr (Some lm) \<and> k'' = k' \<and> l'' = [])"
proof -
  let ?p = "NewPattern (lm_TypeRule lm) (lm_NameRule lm)"
  let ?m = "if isRuleChange lm m then AddPattern_lm lm m else m"
  let ?xs = "map linkToLinkStatus (filter (pattern_matches (le_re env) ?p) links)"
  obtain l' lm' where u: "lm_updateStatus env lm ?xs ((?m, k'), l) = (Inr (), (?m, k'), l @ l')"
    and s: "stored_lm (cluster_after l' c) (o_name lm) = Some lm'" "node_links lm' = (node_links lm)(le_node env := ?xs)"
      "l' = [] \<longleftrightarrow> node_links lm (le_node env) = ?xs" "l' = [] \<or> (\<exists>x. l' = [(UpdateLM x, None)])"
    using lm_updateStatus_ok [OF assms(1,2)] by blast
  have "ScanLinks (le_re env) (le_nl env) (Some ?p) k = (Inr (filter (pattern_matches (le_re env) ?p) links), k')"
    by (simp add: ScanLinks_def assms(5) filter_links_ok [OF pattern_match_ok [OF assms(6)]])
  then have sync: "syncLinkStatus env lm ((?m, k), l) = (Inr (), (?m, k'), l @ l')"
    using u by (simp add: syncLinkStatus_def rule_installed del: AddPattern_lm_def)
  obtain r k'' l'' where g: "io_bind (updateMgmtVlanConfig env) (\<lambda>_. io_ret None) ((?m, k'), l @ l') = (r, (?m, k''), (l @ l') @ l'')"
    "mgmt_follow_up env k' r k'' l''" using updateMgmtVlanConfig_run [OF assms(1)] by blast
  have same: "l' = [] \<longleftrightarrow> node_links lm' = node_links lm"
    unfolding s(2,3) by (metis fun_upd_same fun_upd_triv)
  show ?thesis
  proof (cases "o_name lm = ManagementClusterNetworkName")
    case True
    have "Agent_LM_OnChange env (Some lm) ((m, k), l) = (r, (?m, k''), l @ l' @ l'')"
      using sync g(1) True by (simp add: Agent_LM_OnChange_def assms(3,4))
    moreover have "stored_lm (cluster_after (l' @ l'') c) (o_name lm) = Some lm'"
      using s(1) by (simp add: mgmt_follow_up_keeps [OF g(2)])
    ultimately show ?thesis using s(2,4) same g(2) True rule_installed [of _ lm m]
      by (intro exI [of _ r] exI [of _ ?m] exI [of _ k''] exI [of _ l'] exI [of _ l''] exI [of _ lm']) simp
  next
    case False
    have "Agent_LM_OnChange env (Some lm) ((m, k), l) = (Inr (Some lm), (?m, k'), l @ l' @ [])"
      using sync False by (simp add: Agent_LM_OnChange_def assms(3,4))
    then show ?thesis using s same False rule_installed [of _ lm m]
      by (intro exI [of _ "Inr (Some lm)"] exI [of _ ?m] exI [of _ k'] exI [of _ l'] exI [of _ "[]"] exI [of _ lm']) simp
  qed
qed

definition demo_re :: regexp_match where "demo_re p s = Inr (take (length p) s = p)"

definition demo_lm :: LinkMonitor where
  "demo_lm = \<lparr>o_name = ''nic'', o_namespace = [], o_labels = None, o_annotations = None, o_deleting = False,
     lm_NodeSelector = [], lm_TypeRule = ''device'', lm_NameRule = [], lm_Conditions = [], lm_LinkStatus = None\<rparr>"

definition lm_cluster :: cluster where
  "lm_cluster = cluster0\<lparr>cl_lms := [demo_lm],
     cl_nodes := [\<lparr>o_name = ''n1'', o_namespace = [], o_labels = None, o_annotations = None, o_deleting = False, nd_ready = True\<rparr>]\<rparr>"

definition demo_lm_env :: "ref_state lm_env" where
  "demo_lm_env = \<lparr>le_re = demo_re, le_caches = caches_of lm_cluster, le_nl = ref_netlink, le_srv = (\<lambda>_ _. None), le_node = ''n1''\<rparr>"

theorem link_status_reported_witness:
  "\<exists>m' k' l' lm'. Agent_LM_OnChange demo_lm_env (Some demo_lm) ((NewMonitor, demo_kernel), []) = (Inr (Some demo_lm), (m', k'), l')
     \<and> stored_lm (cluster_after l' lm_cluster) ''nic'' = Some lm' \<and> map lk_Name (node_links lm' ''n1'') = [''eth0'', ''eth1'']"
proof -
  have f: "stored_lm lm_cluster (o_name demo_lm) = Some demo_lm" "\<not> o_deleting demo_lm" "le_srv demo_lm_env l a = None"
    "compiles (le_re demo_lm_env) (NewPattern (lm_TypeRule demo_lm) (lm_NameRule demo_lm))" for l a
    by (simp_all add: stored_lm_def lm_cluster_def cluster0_def demo_lm_def demo_lm_env_def demo_re_def compiles_def
         indexer_def store_put_def key_of_def)
  have m: "isMatchCurrentNode demo_lm_env demo_lm = Inr True"
    by (simp add: isMatchCurrentNode_def demo_lm_env_def demo_lm_def lm_cluster_def store_list_def indexer_def store_put_def cluster0_def
         bind_res_def)
  have l: "LinkList (le_nl demo_lm_env) demo_kernel = (Inr (rs_table demo_kernel), demo_kernel)"
    "map lk_Name (map linkToLinkStatus (filter (pattern_matches (le_re demo_lm_env) (NewPattern (lm_TypeRule demo_lm) (lm_NameRule demo_lm)))
        (rs_table demo_kernel))) = [''eth0'', ''eth1'']"
    by code_simp+
  have n: "o_name demo_lm = ''nic''" "le_node demo_lm_env = ''n1''" by (simp_all add: demo_lm_def demo_lm_env_def)
  obtain m' l' lm' where r: "Agent_LM_OnChange demo_lm_env (Some demo_lm) ((NewMonitor, demo_kernel), []) = (Inr (Some demo_lm), (m', demo_kernel), l')"
    "stored_lm (cluster_after l' lm_cluster) ''nic'' = Some lm'"
    "node_links lm' = (node_links demo_lm)(''n1'' := map linkToLinkStatus (filter (pattern_matches (le_re demo_lm_env)
        (NewPattern (lm_TypeRule demo_lm) (lm_NameRule demo_lm))) (rs_table demo_kernel)))"
    using link_status_reported [OF f(3,1,2) m l(1) f(4), of NewMonitor "[]"] by (auto simp: n ManagementClusterNetworkName_def)
  have "map lk_Name (node_links lm' ''n1'') = [''eth0'', ''eth1'']" unfolding r(3) fun_upd_same by (rule l(2))
  with r(1,2) show ?thesis by (intro exI conjI)
qed

section \<open>Link events\<close>

text \<open>The monitors whose rule matches a link.\<close>

definition watchers :: "regexp_match \<Rightarrow> Monitor \<Rightarrow> nl_link \<Rightarrow> string set" where
  "watchers re m l = {n. \<exists>p. GetPattern n m = Some p \<and> pattern_matches re p l}"

definition rules_compile :: "regexp_match \<Rightarrow> Monitor \<Rightarrow> bool" where
  "rules_compile re m \<longleftrightarrow> (\<forall>n p. GetPattern n m = Some p \<longrightarrow> compiles re p)"

lemma match_rules_ok:
  assumes "\<And>n p. (n, p) \<in> set rs \<Longrightarrow> compiles re p"
  shows "match_rules re rs l = Inr (map_option fst (find (\<lambda>r. pattern_matches re (snd r) l) rs))"
  using assms
proof (induction rs)
  case (Cons r rs)
  have "compiles re (snd r)" using Cons.prems [of "fst r" "snd r"] by simp
  with Cons show ?case by (cases r) (auto simp: pattern_match_ok bind_res_def)
qed simp

context kernel
begin

lemma set_visited: "set (visited nl m) = {(n, p). GetPattern n m = Some p}"
proof -
  have "set (map_order nl (map fst (mo_rule m))) = fst ` set (mo_rule m)" using map_order by simp
  then show ?thesis
    by (auto simp: visited_def GetPattern_def split: option.splits dest: map_of_SomeD intro!: rev_image_eqI)
qed

lemma monitor_match_ok:
  assumes "rules_compile re m"
  shows "\<exists>r. monitor_match re nl m l = Inr r \<and> (case r of None \<Rightarrow> watchers re m l = {} | Some n \<Rightarrow> n \<in> watchers re m l)"
proof -
  have "match_rules re (visited nl m) l = Inr (map_option fst (find (\<lambda>r. pattern_matches re (snd r) l) (visited nl m)))"
    using assms by (intro match_rules_ok) (auto simp: set_visited rules_compile_def)
  then show ?thesis
    by (auto simp: monitor_match_def watchers_def find_None_iff set_visited split: option.splits dest!: find_SomeD)
qed

lemma handleLink_ok:
  assumes "rules_compile re m"
  shows "\<exists>ns. handleLink re nl u ((m, k), l) = (Inr (), (m, k), l @ map (\<lambda>n. (EnqueueLM n, None)) ns)
     \<and> set ns \<subseteq> watchers re m (lu_Link u)
     \<and> length ns = (if lu_Type u \<noteq> RTM_OTHER \<and> watchers re m (lu_Link u) \<noteq> {} then 1 else 0)"
proof -
  obtain r where r: "monitor_match re nl m (lu_Link u) = Inr r"
    "case r of None \<Rightarrow> watchers re m (lu_Link u) = {} | Some n \<Rightarrow> n \<in> watchers re m (lu_Link u)"
    using monitor_match_ok [OF assms] by blast
  show ?thesis
  proof (cases r)
    case None
    with r show ?thesis by (intro exI [of _ "[]"]) (simp add: handleLink_def)
  next
    case (Some n)
    with r show ?thesis
      by (intro exI [of _ "if lu_Type u = RTM_OTHER then [] else [n]"])
         (cases "lu_Type u"; auto simp: handleLink_def UpdateLink_def)
  qed
qed

end

text \<open>
  C21. Every link event wakes up one link monitor: while the rules compile, the loop handles all
  events without an error, and each event about a new or deleted link that some rule matches makes
  exactly one request, for a monitor whose rule matches; the other events make none. A second monitor
  whose rule matches the same link gets no request.
\<close>

theorem events_wake_monitors:
  assumes "kernel nl view" "rules_compile re m"
  shows "\<exists>nss. monitor_start re nl (Inr ()) events ((m, k), l)
       = (Inr (), (m, k), l @ map (\<lambda>n. (EnqueueLM n, None)) (concat nss))
     \<and> list_all2 (\<lambda>u ns. set ns \<subseteq> watchers re m (lu_Link u)
          \<and> length ns = (if lu_Type u \<noteq> RTM_OTHER \<and> watchers re m (lu_Link u) \<noteq> {} then 1 else 0)) events nss"
proof -
  have "\<exists>nss. io_each (handle_event re nl) events ((m, k), l)
       = (Inr (), (m, k), l @ map (\<lambda>n. (EnqueueLM n, None)) (concat nss))
     \<and> list_all2 (\<lambda>u ns. set ns \<subseteq> watchers re m (lu_Link u)
          \<and> length ns = (if lu_Type u \<noteq> RTM_OTHER \<and> watchers re m (lu_Link u) \<noteq> {} then 1 else 0)) events nss"
  proof (induction events arbitrary: l)
    case Nil
    show ?case by (intro exI [of _ "[]"]) simp
  next
    case (Cons u events)
    obtain ns where ns: "handleLink re nl u ((m, k), l) = (Inr (), (m, k), l @ map (\<lambda>n. (EnqueueLM n, None)) ns)"
      "set ns \<subseteq> watchers re m (lu_Link u)"
      "length ns = (if lu_Type u \<noteq> RTM_OTHER \<and> watchers re m (lu_Link u) \<noteq> {} then 1 else 0)"
      using kernel.handleLink_ok [OF assms] by blast
    from Cons [of "l @ map (\<lambda>n. (EnqueueLM n, None)) ns"] obtain nss where
      "io_each (handle_event re nl) events ((m, k), l @ map (\<lambda>n. (EnqueueLM n, None)) ns)
         = (Inr (), (m, k), (l @ map (\<lambda>n. (EnqueueLM n, None)) ns) @ map (\<lambda>n. (EnqueueLM n, None)) (concat nss))"
      "list_all2 (\<lambda>u ns. set ns \<subseteq> watchers re m (lu_Link u)
          \<and> length ns = (if lu_Type u \<noteq> RTM_OTHER \<and> watchers re m (lu_Link u) \<noteq> {} then 1 else 0)) events nss" by blast
    moreover from ns(1) have "handle_event re nl u ((m, k), l) = (Inr (), (m, k), l @ map (\<lambda>n. (EnqueueLM n, None)) ns)"
      by (simp add: handle_event_def)
    ultimately show ?case using ns(2,3) by (intro exI [of _ "ns # nss"]) simp
  qed
  then show ?thesis by (simp add: monitor_start_def)
qed

definition two_rules :: Monitor where
  "two_rules = AddPattern ''a'' (NewPattern [] ''eth'') (AddPattern ''b'' (NewPattern ''device'' []) NewMonitor)"

theorem events_wake_monitors_witness:
  "watchers demo_re two_rules (demo_nic 2 ''eth0'' 0) = {''a'', ''b''}
   \<and> (\<exists>n. monitor_start demo_re ref_netlink (Inr ()) [\<lparr>lu_Link = demo_nic 2 ''eth0'' 0, lu_Type = RTM_NEWLINK\<rparr>] ((two_rules, demo_kernel), [])
        = (Inr (), (two_rules, demo_kernel), [(EnqueueLM n, None)]))"
proof -
  let ?e = "\<lparr>lu_Link = demo_nic 2 ''eth0'' 0, lu_Type = RTM_NEWLINK\<rparr>"
  have new: "GetPattern n NewMonitor = None" for n by (simp add: GetPattern_def NewMonitor_def)
  have w: "watchers demo_re two_rules (demo_nic 2 ''eth0'' 0) = {''a'', ''b''}"
    by (auto simp: watchers_def two_rules_def new NewPattern_def pattern_matches_def
          demo_re_def demo_nic_def attrs0_def TypeLoopback_def split: if_splits)
  have "rules_compile demo_re two_rules" by (simp add: rules_compile_def compiles_def demo_re_def)
  from events_wake_monitors [OF rk.kernel_axioms this, of "[?e]" demo_kernel "[]"] obtain nss where
    r: "monitor_start demo_re ref_netlink (Inr ()) [?e] ((two_rules, demo_kernel), [])
       = (Inr (), (two_rules, demo_kernel), map (\<lambda>n. (EnqueueLM n, None)) (concat nss))"
    "list_all2 (\<lambda>u ns. set ns \<subseteq> watchers demo_re two_rules (lu_Link u)
          \<and> length ns = (if lu_Type u \<noteq> RTM_OTHER \<and> watchers demo_re two_rules (lu_Link u) \<noteq> {} then 1 else 0)) [?e] nss" by auto
  from r(2) obtain ns where "nss = [ns]" "length ns = 1" by (auto simp: list_all2_Cons1 w)
  moreover from this obtain n where "ns = [n]" by (auto simp: length_Suc_conv)
  ultimately have "map (\<lambda>n. (EnqueueLM n, None :: go_error option)) (concat nss) = [(EnqueueLM n, None)]" by simp
  with r(1) w show ?thesis by metis
qed

end
