(* ===== verification/Lease_Manager.thy ===== *)
theory Lease_Manager
  imports Iface_Bond Go_Net
begin

text \<open>
  \<open>pkg/controller/agent/hostnetworkconfig/leasemanager.go\<close>: a manager per VLAN interface that asks a DHCP
  server for an address, sets it and renews the lease in a goroutine until it is stopped. The
  operations are functions on the manager and the node's kernel; the DHCP client is a parameter.
  The interleavings of the renewal loop with \<open>Stop\<close> are a step relation, with one step per critical
  section or call.
\<close>

section \<open>The outcomes of setting an address\<close>

text \<open>
  What the addresses \<open>A\<close> of an interface can be after \<open>SetIPAddress\<close> with \<open>a\<close>. On success the ones with
  another IP are gone. A run that fails has either not got to adding \<open>a\<close>, or has added it and deleted
  some of the others before it failed. \<open>ip\<close> reads the IP of an address.
\<close>

definition set_results :: "('a \<Rightarrow> 'b) \<Rightarrow> 'a \<Rightarrow> 'a set \<Rightarrow> bool \<Rightarrow> 'a set \<Rightarrow> bool" where
  "set_results ip a A ok A' \<longleftrightarrow>
     (if ok then A' = insert a {b \<in> A. ip b = ip a}
      else A' = A \<or> (\<exists>D. D \<subseteq> {b \<in> A. ip b \<noteq> ip a} \<and> A' = insert a (A - D)))"

text \<open>The view with other addresses of one interface.\<close>

definition addr_upd :: "int \<Rightarrow> (Addr set \<Rightarrow> Addr set) \<Rightarrow> netview \<Rightarrow> netview" where
  "addr_upd i f v = v\<lparr>nv_addrs := (nv_addrs v)(i := f (nv_addrs v i))\<rparr>"

lemma addr_upd_simps [simp]:
  "nv_name (addr_upd i f v) = nv_name v" "nv_addrs (addr_upd i f v) i = f (nv_addrs v i)"
  "addr_upd i g (addr_upd i f v) = addr_upd i (g \<circ> f) v" "addr_upd i id v = v"
  by (simp_all add: addr_upd_def)

context kernel
begin

lemma insert_other: "{b \<in> insert a A. ad_IP b \<noteq> ad_IP a} = {b \<in> A. ad_IP b \<noteq> ad_IP a}"
  by auto

lemma addr_cleanup:
  assumes "io_each (\<lambda>b. if ad_IP a \<noteq> ad_IP b then io_wrap w (AddrDel nl x b) else io_ret ()) as k = (r, k')" "link_Index x \<noteq> 0"
  shows "\<exists>D. D \<subseteq> {b \<in> set as. ad_IP b \<noteq> ad_IP a} \<and> (r = Inr () \<longrightarrow> D = {b \<in> set as. ad_IP b \<noteq> ad_IP a})
     \<and> view k' = addr_upd (link_Index x) (\<lambda>A. A - D) (view k)"
  using assms(1)
proof (induction as arbitrary: k)
  case Nil
  then show ?case by (auto simp: addr_upd_def io_ret_def)
next
  case (Cons b as)
  let ?f = "\<lambda>b. if ad_IP a \<noteq> ad_IP b then io_wrap w (AddrDel nl x b) else io_ret ()"
  let ?i = "link_Index x"
  obtain r1 k1 where k1: "?f b k = (r1, k1)" by fastforce
  show ?case
  proof (cases r1)
    case (Inl e)
    with k1 have "ad_IP a \<noteq> ad_IP b" "\<exists>e'. AddrDel nl x b k = (Inl e', k1)"
      by (auto simp: io_ret_def io_wrap_def io_try_def io_throw_def split: if_splits prod.splits sum.splits)
    with call_lawD(2) [OF addr_del_law] have "view k1 = view k" by blast
    moreover have "r = Inl e" "k' = k1" using Cons.prems k1 Inl by (auto simp: io_bind_def)
    ultimately show ?thesis by (intro exI [of _ "{}"]) (simp add: addr_upd_def)
  next
    case (Inr u)
    then have s: "?f b k = (Inr (), k1)" "io_each ?f as k1 = (r, k')" using Cons.prems k1 by (auto simp: io_bind_def)
    have v1: "view k1 = addr_upd ?i (\<lambda>A. A - (if ad_IP a \<noteq> ad_IP b then {b} else {})) (view k)"
    proof (cases "ad_IP a = ad_IP b")
      case False
      with s(1) have "AddrDel nl x b k = (Inr (), k1)" by (simp add: io_wrap_result)
      from call_lawD(1) [OF addr_del_law this] assms(2) False show ?thesis by (simp add: eff_addr_def addr_upd_def)
    qed (use s(1) in \<open>simp add: addr_upd_def\<close>)
    from Cons.IH [OF s(2)] obtain D where D: "D \<subseteq> {c \<in> set as. ad_IP c \<noteq> ad_IP a}"
      "r = Inr () \<longrightarrow> D = {c \<in> set as. ad_IP c \<noteq> ad_IP a}" "view k' = addr_upd ?i (\<lambda>A. A - D) (view k1)" by blast
    let ?E = "(if ad_IP a \<noteq> ad_IP b then {b} else {}) \<union> D"
    have "(\<lambda>A. A - D) \<circ> (\<lambda>A. A - (if ad_IP a \<noteq> ad_IP b then {b} else {})) = (\<lambda>A. A - ?E)"
      by (auto simp: fun_eq_iff)
    with D(3) v1 have "view k' = addr_upd ?i (\<lambda>A. A - ?E) (view k)" by simp
    moreover have "?E \<subseteq> {c \<in> set (b # as). ad_IP c \<noteq> ad_IP a}" using D(1) by auto
    moreover have "?E = {c \<in> set (b # as). ad_IP c \<noteq> ad_IP a}" if "r = Inr ()" using D(2) that by auto
    ultimately show ?thesis by blast
  qed
qed

lemma addr_list_cleanup:
  assumes "io_bind (AddrList nl x)
      (io_each (\<lambda>b. if ad_IP a \<noteq> ad_IP b then io_wrap w (AddrDel nl x b) else io_ret ())) k = (r, k')" "link_Index x \<noteq> 0"
  shows "\<exists>D. D \<subseteq> {b \<in> nv_addrs (view k) (link_Index x). ad_IP b \<noteq> ad_IP a}
     \<and> (r = Inr () \<longrightarrow> D = {b \<in> nv_addrs (view k) (link_Index x). ad_IP b \<noteq> ad_IP a})
     \<and> view k' = addr_upd (link_Index x) (\<lambda>A. A - D) (view k)"
proof -
  obtain rl k1 where l: "AddrList nl x k = (rl, k1)" by fastforce
  show ?thesis
  proof (cases rl)
    case (Inl e)
    have "view k1 = view k" using call_lawD(2) [OF addr_list_law] l Inl by blast
    moreover have "r = Inl e" "k' = k1" using assms(1) l Inl by (auto simp: io_bind_def)
    ultimately show ?thesis by (intro exI [of _ "{}"]) (simp add: addr_upd_def)
  next
    case (Inr as)
    have v: "view k1 = view k" "set as = nv_addrs (view k) (link_Index x)"
      using call_lawD(1) [OF addr_list_law] l Inr assms(2) by (force simp: eff_read_def)+
    have "io_each (\<lambda>b. if ad_IP a \<noteq> ad_IP b then io_wrap w (AddrDel nl x b) else io_ret ()) as k1 = (r, k')"
      using assms(1) l Inr by (simp add: io_bind_def)
    from addr_cleanup [OF this assms(2)] v show ?thesis by simp
  qed
qed

text \<open>On every kernel that obeys the laws, \<open>SetIPAddress\<close> changes nothing or has one of these outcomes.\<close>

lemma SetIPAddress_results:
  assumes run: "SetIPAddress nl l cidr v k = (r, k')"
  shows "(view k' = view k \<and> (\<exists>e. r = Inl e))
     \<or> (\<exists>i a A'. nv_name (view k) i = Some (GetClusterNetworkBrVlanDevice (link_Name l) v) \<and> ParseAddr nl cidr = Inr a
          \<and> set_results ad_IP a (nv_addrs (view k) i) (r = Inr ()) A' \<and> view k' = addr_upd i (\<lambda>_. A') (view k))"
proof -
  let ?dev = "GetClusterNetworkBrVlanDevice (link_Name l) v"
  let ?w = "render ''delete ip address failed, error: %v, link: %s, ipNet: %v''"
  obtain rx k1 where x1: "LinkByName nl ?dev k = (rx, k1)" by fastforce
  show ?thesis
  proof (cases rx)
    case (Inl e)
    have "view k1 = view k" using call_lawD(2) [OF byname_law] x1 Inl by blast
    then show ?thesis using run x1 Inl by (auto simp: SetIPAddress_def io_bind_def io_wrap_def io_try_def io_throw_def)
  next
    case x: (Inr x)
    note b = byname_ok [OF x1 [unfolded x]]
    then have i: "link_Index x \<noteq> 0" "nv_name (view k) (link_Index x) = Some ?dev" by (auto simp: sees_def)
    let ?i = "link_Index x"
    show ?thesis
    proof (cases "ParseAddr nl cidr")
      case (Inl e)
      then show ?thesis using run x1 x b
        by (auto simp: SetIPAddress_def io_bind_def io_wrap_def io_try_def io_ret_def io_lift_def)
    next
      case a: (Inr a)
      obtain ra k2 where r2: "AddrReplace nl x a k1 = (ra, k2)" by fastforce
      show ?thesis
      proof (cases ra)
        case (Inl e)
        have "view k2 = view k" using call_lawD(2) [OF addr_replace_law] r2 Inl b by metis
        then show ?thesis using run x1 x a r2 Inl
          by (auto simp: SetIPAddress_def io_bind_def io_wrap_def io_try_def io_ret_def io_lift_def io_throw_def)
      next
        case (Inr u)
        then have r2: "AddrReplace nl x a k1 = (Inr (), k2)" using r2 by simp
        have v2: "view k2 = addr_upd ?i (insert a) (view k)"
          using call_lawD(1) [OF addr_replace_law r2] b i(1) by (simp add: eff_addr_def addr_upd_def)
        have rest: "io_bind (AddrList nl x)
            (io_each (\<lambda>address. if ad_IP a \<noteq> ad_IP address then io_wrap ?w (AddrDel nl x address) else io_ret ())) k2 = (r, k')"
          using run x1 x a r2 by (simp add: SetIPAddress_def io_bind_def io_wrap_def io_try_def io_ret_def io_lift_def)
        let ?A = "nv_addrs (view k) ?i"
        from addr_list_cleanup [OF rest i(1)] obtain D where "D \<subseteq> {b \<in> insert a ?A. ad_IP b \<noteq> ad_IP a}"
            "r = Inr () \<longrightarrow> D = {b \<in> insert a ?A. ad_IP b \<noteq> ad_IP a}" "view k' = addr_upd ?i (\<lambda>A. A - D) (view k2)"
          by (auto simp: v2)
        then have "\<exists>D. D \<subseteq> {b \<in> ?A. ad_IP b \<noteq> ad_IP a}
            \<and> (r = Inr () \<longrightarrow> D = {b \<in> ?A. ad_IP b \<noteq> ad_IP a}) \<and> view k' = addr_upd ?i (\<lambda>A. insert a A - D) (view k)"
          unfolding insert_other v2 by (intro exI [of _ D]) (simp add: comp_def)
        then obtain D where D: "D \<subseteq> {b \<in> ?A. ad_IP b \<noteq> ad_IP a}" "r = Inr () \<longrightarrow> D = {b \<in> ?A. ad_IP b \<noteq> ad_IP a}"
          "view k' = addr_upd ?i (\<lambda>A. insert a A - D) (view k)" by blast
        have "insert a ?A - D = insert a (?A - D)" using D(1) by auto
        moreover have "insert a (?A - D) = insert a {b \<in> ?A. ad_IP b = ad_IP a}" if "r = Inr ()" using D(2) that by auto
        ultimately have "set_results ad_IP a ?A (r = Inr ()) (insert a ?A - D)" using D(1) unfolding set_results_def by auto
        moreover have "view k' = addr_upd ?i (\<lambda>_. insert a ?A - D) (view k)" using D(3) by (simp add: addr_upd_def)
        ultimately show ?thesis using i(2) a by blast
      qed
    qed
  qed
qed

lemma SetIPAddress_ok:
  assumes "SetIPAddress nl l cidr v k = (Inr (), k')"
  shows "\<exists>i a. nv_name (view k) i = Some (GetClusterNetworkBrVlanDevice (link_Name l) v) \<and> ParseAddr nl cidr = Inr a
     \<and> view k' = addr_upd i (\<lambda>A. insert a {b \<in> A. ad_IP b = ad_IP a}) (view k)"
  using SetIPAddress_results [OF assms] by (auto simp: set_results_def addr_upd_def)

end

section \<open>Leases\<close>

text \<open>
  The parts of \<open>nclient4.Lease\<close> that are read: the assigned address, the subnet mask option, and the
  times T1 and lease time in nanoseconds (0 when the option is missing).
\<close>

record Lease =
  le_IP :: string
  le_Mask :: "8 word list option"
  le_T1 :: int
  le_Time :: int

definition ipAddrFromLease :: "Lease \<Rightarrow> string res" where
  "ipAddrFromLease lease =
     (case le_Mask lease of
        None \<Rightarrow> Inl (Errorf ''subnet mask not provided by DHCP server'')
      | Some maskOpt \<Rightarrow>
          if length maskOpt \<noteq> 4 then Inl (Errorf ''invalid subnet mask length: %d'')
          else (case IPMask_Size maskOpt of (ones, bits) \<Rightarrow>
            if bits \<noteq> 32 then Inl (Errorf ''invalid IPv4 subnet mask'')
            else Inr (le_IP lease @ ''/'' @ Itoa (int ones))))"

definition Second :: int where "Second = 1000000000"

definition renewalDelay :: "Lease \<Rightarrow> int" where
  "renewalDelay lease =
     (if le_T1 lease > 0 then le_T1 lease
      else if le_Time lease > 0 then le_Time lease div 2
      else 30 * Second)"

section \<open>The manager\<close>

text \<open>
  \<open>lmg_cancel\<close> says that the cancel function is not nil, \<open>lmg_done\<close> that the context is cancelled.
\<close>

record LeaseManager =
  lmg_iface :: string
  lmg_link :: nl_link
  lmg_vlanID :: "16 word"
  lmg_lease :: "Lease option"
  lmg_ipAddr :: string
  lmg_running :: bool
  lmg_cancel :: bool
  lmg_done :: bool

text \<open>
  The DHCP client of an interface, over the same state as the kernel calls. \<open>Request\<close> and \<open>Renew\<close> get
  the context: whether it is cancelled.
\<close>

record 'k dhcp =
  dh_New :: "string \<Rightarrow> ('k, unit) io"
  dh_Request :: "string \<Rightarrow> bool \<Rightarrow> ('k, Lease) io"
  dh_Renew :: "string \<Rightarrow> bool \<Rightarrow> Lease \<Rightarrow> ('k, Lease) io"
  dh_Release :: "string \<Rightarrow> Lease \<Rightarrow> ('k, unit) io"

definition NewLeaseManager :: "'k dhcp \<Rightarrow> string \<Rightarrow> nl_link \<Rightarrow> 16 word \<Rightarrow> ('k, LeaseManager) io" where
  "NewLeaseManager dh ifname link v =
     io_bind (dh_New dh ifname) (\<lambda>_.
     io_ret \<lparr>lmg_iface = ifname, lmg_link = link, lmg_vlanID = v, lmg_lease = None, lmg_ipAddr = [],
             lmg_running = False, lmg_cancel = False, lmg_done = False\<rparr>)"

text \<open>A lease with its address, set on the interface.\<close>

definition obtain_lease :: "'k dhcp \<Rightarrow> 'k netlink \<Rightarrow> LeaseManager \<Rightarrow> ('k, Lease \<times> string) io" where
  "obtain_lease dh nl lm =
     io_bind (dh_Request dh (lmg_iface lm) (lmg_done lm)) (\<lambda>lease.
     io_bind (io_lift (ipAddrFromLease lease)) (\<lambda>ipAddr.
     if ipAddr = [] then io_throw (Errorf ''no IP address obtained from DHCP server'')
     else io_bind (SetIPAddress nl (lmg_link lm) ipAddr (lmg_vlanID lm)) (\<lambda>_. io_ret (lease, ipAddr))))"

text \<open>The context is created before the first call that can fail; the loop starts at the end.\<close>

definition LM_Start :: "'k dhcp \<Rightarrow> 'k netlink \<Rightarrow> (LeaseManager \<times> 'k, unit) io" where
  "LM_Start dh nl s =
     (case s of (lm, k) \<Rightarrow>
        if lmg_running lm then (Inr (), lm, k)
        else let lm1 = lm\<lparr>lmg_cancel := True, lmg_done := False\<rparr> in
          (case obtain_lease dh nl lm1 k of
             (Inl e, k') \<Rightarrow> (Inl e, lm1, k')
           | (Inr (lease, ipAddr), k') \<Rightarrow>
               (Inr (), lm1\<lparr>lmg_lease := Some lease, lmg_ipAddr := ipAddr, lmg_running := True\<rparr>, k')))"

definition LM_Stop :: "'k dhcp \<Rightarrow> (LeaseManager \<times> 'k, unit) io" where
  "LM_Stop dh s =
     (case s of (lm, k) \<Rightarrow>
        if \<not> lmg_running lm then (Inr (), lm, k)
        else (Inr (), lm\<lparr>lmg_running := False, lmg_cancel := False, lmg_lease := None, lmg_done := lmg_done lm \<or> lmg_cancel lm\<rparr>,
              (case lmg_lease lm of None \<Rightarrow> k | Some lease \<Rightarrow> snd (dh_Release dh (lmg_iface lm) lease k))))"

section \<open>Properties of leases\<close>

lemma renewalDelay_bounds:
  assumes "le_T1 lease = 0 \<or> Second \<le> le_T1 lease" "le_Time lease = 0 \<or> Second \<le> le_Time lease"
  shows "Second div 2 \<le> renewalDelay lease"
  using assms by (auto simp: renewalDelay_def Second_def)

section \<open>The renewal loop and Stop\<close>

text \<open>
  Where the loop is: at its head; waiting with a lease; with a new lease and its address; about to set
  the address; about to record it; at its end. \<open>Stop\<close> has not been called, has cleared the fields and
  will cancel the context, will release the lease, or is done.
\<close>

datatype loop_pc = LTop | LWait Lease | LGot Lease string | LSet string | LStore string | LExit

datatype stop_pc = SIdle | SCancel "Lease option" bool | SRelease "Lease option" | SDone

text \<open>
  Beside the manager: the IPv4 addresses that the interface has; whether an attempt to set one has
  changed them and failed since the last that succeeded; and the leases that the server has granted
  and that were released. An address is in CIDR form, as \<open>ipAddrFromLease\<close> gives it.
\<close>

definition cidr_ip :: "string \<Rightarrow> string" where
  "cidr_ip s = takeWhile (\<lambda>c. c \<noteq> CHR ''/'') s"

record loop_state =
  st_mgr :: LeaseManager
  st_pc :: loop_pc
  st_stop :: stop_pc
  st_addrs :: "string set"
  st_dirty :: bool
  st_granted :: "Lease list"
  st_released :: "Lease list"

datatype label = Quiet | Fire

text \<open>
  The steps of \<open>renewLoop\<close>. \<open>Fire\<close> marks the steps in which the timer wins the select; the server may
  then grant a lease or not, by renewal or by a new request. Setting the address is one step: nothing of
  it is under the lock of the manager, and no step of \<open>Stop\<close> reads or writes the addresses. It succeeds,
  or fails before or after the new address was added (\<open>set_results\<close>, the outcomes of \<open>SetIPAddress\<close> by
  \<open>SetIPAddress_results\<close>).
\<close>

inductive renew_step :: "label \<Rightarrow> loop_state \<Rightarrow> loop_state \<Rightarrow> bool" where
  head_nil: "st_pc s = LTop \<Longrightarrow> lmg_lease (st_mgr s) = None \<Longrightarrow> renew_step Quiet s (s\<lparr>st_pc := LExit\<rparr>)"
| head: "st_pc s = LTop \<Longrightarrow> lmg_lease (st_mgr s) = Some x \<Longrightarrow> renew_step Quiet s (s\<lparr>st_pc := LWait x\<rparr>)"
| cancelled: "st_pc s = LWait x \<Longrightarrow> lmg_done (st_mgr s) \<Longrightarrow> renew_step Quiet s (s\<lparr>st_pc := LExit\<rparr>)"
| fire_fail: "st_pc s = LWait x \<Longrightarrow> renew_step Fire s (s\<lparr>st_pc := LTop\<rparr>)"
| fire_bad: "st_pc s = LWait x \<Longrightarrow> ipAddrFromLease y = Inl e \<Longrightarrow>
    renew_step Fire s (s\<lparr>st_pc := LTop, st_granted := y # st_granted s\<rparr>)"
| fire: "st_pc s = LWait x \<Longrightarrow> ipAddrFromLease y = Inr ip \<Longrightarrow>
    renew_step Fire s (s\<lparr>st_pc := LGot y ip, st_granted := y # st_granted s\<rparr>)"
| store: "st_pc s = LGot y ip \<Longrightarrow>
    renew_step Quiet s (s\<lparr>st_mgr := (st_mgr s)\<lparr>lmg_lease := Some y\<rparr>,
      st_pc := (if ip = lmg_ipAddr (st_mgr s) then LTop else LSet ip)\<rparr>)"
| set_fail: "st_pc s = LSet ip \<Longrightarrow> set_results cidr_ip ip (st_addrs s) False A \<Longrightarrow>
    renew_step Quiet s (s\<lparr>st_pc := LTop, st_addrs := A, st_dirty := st_dirty s \<or> A \<noteq> st_addrs s\<rparr>)"
| set_ok: "st_pc s = LSet ip \<Longrightarrow> set_results cidr_ip ip (st_addrs s) True A \<Longrightarrow>
    renew_step Quiet s (s\<lparr>st_pc := LStore ip, st_addrs := A, st_dirty := False\<rparr>)"
| record_ip: "st_pc s = LStore ip \<Longrightarrow>
    renew_step Quiet s (s\<lparr>st_mgr := (st_mgr s)\<lparr>lmg_ipAddr := ip\<rparr>, st_pc := LTop\<rparr>)"

inductive_cases renew_stepE: "renew_step a s s'"

text \<open>The steps of \<open>Stop\<close>.\<close>

inductive stop_step :: "loop_state \<Rightarrow> loop_state \<Rightarrow> bool" where
  clear: "st_stop s = SIdle \<Longrightarrow> lmg_running (st_mgr s) \<Longrightarrow>
    stop_step s (s\<lparr>st_mgr := (st_mgr s)\<lparr>lmg_running := False, lmg_cancel := False, lmg_lease := None\<rparr>,
      st_stop := SCancel (lmg_lease (st_mgr s)) (lmg_cancel (st_mgr s))\<rparr>)"
| cancel: "st_stop s = SCancel x c \<Longrightarrow>
    stop_step s (s\<lparr>st_mgr := (st_mgr s)\<lparr>lmg_done := lmg_done (st_mgr s) \<or> c\<rparr>, st_stop := SRelease x\<rparr>)"
| release: "st_stop s = SRelease x \<Longrightarrow>
    stop_step s (s\<lparr>st_stop := SDone, st_released := (case x of None \<Rightarrow> [] | Some y \<Rightarrow> [y]) @ st_released s\<rparr>)"

inductive_cases stop_stepE: "stop_step s s'"

text \<open>
  The state in which \<open>Start\<close> leaves the manager, and what can be reached from it. \<open>SetIPAddress\<close> has left
  no address with another IP than the one recorded.
\<close>

definition only_ip :: "string \<Rightarrow> string set \<Rightarrow> bool" where
  "only_ip a A \<longleftrightarrow> a \<in> A \<and> (\<forall>b \<in> A. cidr_ip b = cidr_ip a)"

lemma only_ip_set: "set_results cidr_ip a A True A' \<Longrightarrow> only_ip a A'"
  by (auto simp: set_results_def only_ip_def)

definition just_started :: "loop_state \<Rightarrow> bool" where
  "just_started s \<longleftrightarrow> lmg_running (st_mgr s) \<and> lmg_cancel (st_mgr s) \<and> \<not> lmg_done (st_mgr s) \<and> st_pc s = LTop \<and> st_stop s = SIdle
     \<and> only_ip (lmg_ipAddr (st_mgr s)) (st_addrs s) \<and> \<not> st_dirty s \<and> st_released s = []
     \<and> (\<exists>x. lmg_lease (st_mgr s) = Some x \<and> st_granted s = [x] \<and> ipAddrFromLease x = Inr (lmg_ipAddr (st_mgr s)))"

inductive lease_reachable :: "loop_state \<Rightarrow> bool" where
  start: "just_started s \<Longrightarrow> lease_reachable s"
| renew: "lease_reachable s \<Longrightarrow> renew_step a s s' \<Longrightarrow> lease_reachable s'"
| stop: "lease_reachable s \<Longrightarrow> stop_step s s' \<Longrightarrow> lease_reachable s'"

lemma LM_Start_just_started:
  assumes "LM_Start dh nl (lm, k) = (Inr (), lm', k')" "\<not> lmg_running lm" "set_results cidr_ip (lmg_ipAddr lm') A True A'"
  shows "\<exists>x. just_started \<lparr>st_mgr = lm', st_pc = LTop, st_stop = SIdle, st_addrs = A', st_dirty = False,
                    st_granted = [x], st_released = []\<rparr>"
proof -
  from assms obtain x ip where o: "obtain_lease dh nl (lm\<lparr>lmg_cancel := True, lmg_done := False\<rparr>) k = (Inr (x, ip), k')"
    and lm': "lm' = lm\<lparr>lmg_cancel := True, lmg_done := False, lmg_lease := Some x, lmg_ipAddr := ip, lmg_running := True\<rparr>"
    by (auto simp: LM_Start_def Let_def split: prod.splits sum.splits)
  from o have "ipAddrFromLease x = Inr ip"
    by (auto simp: obtain_lease_def io_results io_lift_def split: if_splits)
  then show ?thesis using only_ip_set [OF assms(3)] by (auto simp: just_started_def lm')
qed

text \<open>Without interference the three steps of \<open>Stop\<close> are the operation \<open>LM_Stop\<close>.\<close>

lemma LM_Stop_steps:
  assumes "lmg_running (st_mgr s)" "st_stop s = SIdle"
  shows "\<exists>s'. (stop_step OO stop_step OO stop_step) s s' \<and> st_stop s' = SDone \<and> st_mgr s' = fst (snd (LM_Stop dh (st_mgr s, k)))"
proof -
  let ?s1 = "s\<lparr>st_mgr := (st_mgr s)\<lparr>lmg_running := False, lmg_cancel := False, lmg_lease := None\<rparr>,
      st_stop := SCancel (lmg_lease (st_mgr s)) (lmg_cancel (st_mgr s))\<rparr>"
  let ?s2 = "?s1\<lparr>st_mgr := (st_mgr ?s1)\<lparr>lmg_done := lmg_done (st_mgr ?s1) \<or> lmg_cancel (st_mgr s)\<rparr>, st_stop := SRelease (lmg_lease (st_mgr s))\<rparr>"
  have "stop_step s ?s1" by (rule clear [OF assms(2,1)])
  moreover have "stop_step ?s1 ?s2" by (rule cancel) simp
  moreover have "stop_step ?s2 (?s2\<lparr>st_stop := SDone, st_released := (case lmg_lease (st_mgr s) of None \<Rightarrow> [] | Some y \<Rightarrow> [y]) @ st_released ?s2\<rparr>)"
    by (rule release) simp
  ultimately show ?thesis using assms(1)
    by (intro exI [of _ "?s2\<lparr>st_stop := SDone, st_released := (case lmg_lease (st_mgr s) of None \<Rightarrow> [] | Some y \<Rightarrow> [y]) @ st_released ?s2\<rparr>"])
       (auto simp: LM_Stop_def)
qed

section \<open>Invariant\<close>

definition of_granted :: "loop_state \<Rightarrow> string \<Rightarrow> bool" where
  "of_granted s a \<longleftrightarrow> (\<exists>x \<in> set (st_granted s). \<exists>b. ipAddrFromLease x = Inr b \<and> cidr_ip a = cidr_ip b)"

definition lease_inv :: "loop_state \<Rightarrow> bool" where
  "lease_inv s \<longleftrightarrow>
     (lmg_running (st_mgr s) \<longleftrightarrow> st_stop s = SIdle)
     \<and> (lmg_running (st_mgr s) \<longrightarrow> lmg_lease (st_mgr s) \<noteq> None \<and> \<not> lmg_done (st_mgr s) \<and> lmg_cancel (st_mgr s))
     \<and> (\<forall>x c. st_stop s = SCancel x c \<longrightarrow> c)
     \<and> (st_stop s \<in> {SDone} \<union> range SRelease \<longrightarrow> lmg_done (st_mgr s))
     \<and> (st_pc s = LExit \<longrightarrow> \<not> lmg_running (st_mgr s))
     \<and> (\<exists>x \<in> set (st_granted s). ipAddrFromLease x = Inr (lmg_ipAddr (st_mgr s)))
     \<and> (case st_pc s of LGot y ip \<Rightarrow> y \<in> set (st_granted s) \<and> ipAddrFromLease y = Inr ip
         | LSet ip \<Rightarrow> \<exists>x \<in> set (st_granted s). ipAddrFromLease x = Inr ip
         | LStore ip \<Rightarrow> \<exists>x \<in> set (st_granted s). ipAddrFromLease x = Inr ip | _ \<Rightarrow> True)"

definition addr_inv :: "loop_state \<Rightarrow> bool" where
  "addr_inv s \<longleftrightarrow> st_addrs s \<noteq> {} \<and> (\<forall>a \<in> st_addrs s. of_granted s a)
     \<and> (st_dirty s \<or> only_ip (case st_pc s of LStore ip \<Rightarrow> ip | _ \<Rightarrow> lmg_ipAddr (st_mgr s)) (st_addrs s))"

lemma set_results_owned:
  assumes "set_results cidr_ip ip A ok A'" "\<forall>a \<in> A. P (cidr_ip a)" "P (cidr_ip ip)" "A \<noteq> {}"
  shows "A' \<noteq> {} \<and> (\<forall>a \<in> A'. P (cidr_ip a))"
  using assms unfolding set_results_def by (cases ok) auto

lemma lease_inv_start: "just_started s \<Longrightarrow> lease_inv s"
  by (auto simp: just_started_def lease_inv_def)

lemma addr_inv_start: "just_started s \<Longrightarrow> addr_inv s"
proof -
  assume s: "just_started s"
  then have o: "only_ip (lmg_ipAddr (st_mgr s)) (st_addrs s)" "st_pc s = LTop"
    and g: "\<exists>x \<in> set (st_granted s). ipAddrFromLease x = Inr (lmg_ipAddr (st_mgr s))" by (auto simp: just_started_def)
  then have "st_addrs s \<noteq> {}" "\<forall>a \<in> st_addrs s. of_granted s a" unfolding only_ip_def of_granted_def by blast+
  with o show ?thesis by (simp add: addr_inv_def)
qed

lemma lease_inv_renew: "renew_step a s s' \<Longrightarrow> lease_inv s \<Longrightarrow> lease_inv s'"
  by (induction rule: renew_step.induct) (auto simp: lease_inv_def)

lemma addr_inv_set:
  assumes "addr_inv s" "lease_inv s" "st_pc s = LSet ip" "set_results cidr_ip ip (st_addrs s) ok A"
  shows "A \<noteq> {} \<and> (\<forall>a \<in> A. of_granted s a)"
proof -
  from assms(1) have o: "st_addrs s \<noteq> {}" "\<forall>a \<in> st_addrs s. of_granted s a" by (simp_all add: addr_inv_def)
  from assms(2,3) have ip: "of_granted s ip" by (auto simp: lease_inv_def of_granted_def)
  show ?thesis
    using set_results_owned [OF assms(4), of "\<lambda>i. \<exists>x \<in> set (st_granted s). \<exists>b. ipAddrFromLease x = Inr b \<and> i = cidr_ip b"] o ip
    unfolding of_granted_def by blast
qed

lemma addr_inv_renew: "renew_step a s s' \<Longrightarrow> lease_inv s \<Longrightarrow> addr_inv s \<Longrightarrow> addr_inv s'"
proof (induction rule: renew_step.induct)
  case (set_fail s ip A)
  with addr_inv_set [of s ip False A] show ?case by (auto simp: addr_inv_def of_granted_def)
next
  case (set_ok s ip A)
  with addr_inv_set [of s ip True A] only_ip_set show ?case by (auto simp: addr_inv_def of_granted_def)
qed (auto simp: addr_inv_def of_granted_def)

lemma lease_inv_stop: "stop_step s s' \<Longrightarrow> lease_inv s \<Longrightarrow> lease_inv s'"
  by (induction rule: stop_step.induct) (auto simp: lease_inv_def split: loop_pc.splits)

lemma addr_inv_stop: "stop_step s s' \<Longrightarrow> addr_inv s \<Longrightarrow> addr_inv s'"
  by (induction rule: stop_step.induct) (auto simp: addr_inv_def of_granted_def split: loop_pc.splits)

lemma lease_reachable_inv: "lease_reachable s \<Longrightarrow> lease_inv s \<and> addr_inv s"
  by (induction rule: lease_reachable.induct)
    (auto intro: lease_inv_start lease_inv_renew lease_inv_stop addr_inv_start addr_inv_renew addr_inv_stop)

text \<open>
  C15. In every interleaving of the renewal loop with \<open>Stop\<close>: the loop does not end before \<open>Stop\<close> has
  been called, and until then the manager has a lease and its context is live. The interface always has
  an address, and all it has are IPs of leases the server granted; the recorded address is that of a
  granted lease. Unless an attempt to set an address has changed the addresses and failed since the last
  one that succeeded, the interface has the recorded address (between setting a new one and recording it:
  the new one) and none with another IP. (Nobody else changes the addresses of the interface.)
\<close>

theorem renewal_invariant:
  assumes "lease_reachable s"
  shows "(lmg_running (st_mgr s) \<longleftrightarrow> st_stop s = SIdle)
     \<and> (lmg_running (st_mgr s) \<longrightarrow> st_pc s \<noteq> LExit \<and> lmg_lease (st_mgr s) \<noteq> None \<and> \<not> lmg_done (st_mgr s))
     \<and> st_addrs s \<noteq> {}
     \<and> (\<forall>a \<in> st_addrs s. \<exists>x \<in> set (st_granted s). \<exists>b. ipAddrFromLease x = Inr b \<and> cidr_ip a = cidr_ip b)
     \<and> (\<exists>x \<in> set (st_granted s). ipAddrFromLease x = Inr (lmg_ipAddr (st_mgr s)))
     \<and> (st_dirty s \<or> only_ip (case st_pc s of LStore ip \<Rightarrow> ip | _ \<Rightarrow> lmg_ipAddr (st_mgr s)) (st_addrs s))"
  using lease_reachable_inv [OF assms]
  by (auto simp: lease_inv_def addr_inv_def of_granted_def split del: loop_pc.splits)

definition lease1 :: Lease where
  "lease1 = \<lparr>le_IP = ''10.0.0.1'', le_Mask = Some [255, 255, 255, 0], le_T1 = 0, le_Time = 60 * Second\<rparr>"

definition lease2 :: Lease where "lease2 = lease1\<lparr>le_IP := ''10.0.0.2''\<rparr>"

lemma lease_addrs: "ipAddrFromLease lease1 = Inr ''10.0.0.1/24''" "ipAddrFromLease lease2 = Inr ''10.0.0.2/24''"
  by code_simp+

definition mgr1 :: LeaseManager where
  "mgr1 = \<lparr>lmg_iface = ''cn1-br.7'', lmg_link = LBridge (NewBridge ''cn1-br''), lmg_vlanID = 7, lmg_lease = Some lease1,
     lmg_ipAddr = ''10.0.0.1/24'', lmg_running = True, lmg_cancel = True, lmg_done = False\<rparr>"

definition run1 :: loop_state where
  "run1 = \<lparr>st_mgr = mgr1, st_pc = LTop, st_stop = SIdle, st_addrs = {''10.0.0.1/24''}, st_dirty = False, st_granted = [lease1],
     st_released = []\<rparr>"

lemma run1_reachable: "lease_reachable run1"
  by (rule lease_reachable.start) (simp add: just_started_def only_ip_def run1_def mgr1_def lease_addrs)

text \<open>
  A renewal to a new address that fails after adding it: the interface has both. When the server then
  grants the recorded address again, the loop takes the address for unchanged and leaves the other one.
\<close>

definition mixed1 :: loop_state where
  "mixed1 = run1\<lparr>st_mgr := mgr1\<lparr>lmg_lease := Some lease1\<rparr>, st_addrs := {''10.0.0.1/24'', ''10.0.0.2/24''}, st_dirty := True,
     st_granted := [lease1, lease2, lease1]\<rparr>"

lemma cidr_ips: "cidr_ip ''10.0.0.1/24'' = ''10.0.0.1''" "cidr_ip ''10.0.0.2/24'' = ''10.0.0.2''"
  by code_simp+

lemma mixed1_reachable: "lease_reachable mixed1"
proof -
  let ?w = "run1\<lparr>st_pc := LWait lease1\<rparr>"
  let ?g = "run1\<lparr>st_pc := LGot lease2 ''10.0.0.2/24'', st_granted := [lease2, lease1]\<rparr>"
  let ?t = "?g\<lparr>st_mgr := mgr1\<lparr>lmg_lease := Some lease2\<rparr>, st_pc := LSet ''10.0.0.2/24''\<rparr>"
  let ?f = "?t\<lparr>st_pc := LTop, st_addrs := {''10.0.0.1/24'', ''10.0.0.2/24''}, st_dirty := True\<rparr>"
  let ?v = "?f\<lparr>st_pc := LWait lease2\<rparr>"
  let ?h = "?f\<lparr>st_pc := LGot lease1 ''10.0.0.1/24'', st_granted := [lease1, lease2, lease1]\<rparr>"
  have "renew_step Quiet run1 ?w" using renew_step.head [of run1 lease1] by (simp add: run1_def mgr1_def)
  moreover have "renew_step Fire ?w ?g"
    using renew_step.fire [of ?w lease1 lease2 "''10.0.0.2/24''"] by (simp add: lease_addrs run1_def)
  moreover have "renew_step Quiet ?g ?t"
    using renew_step.store [of ?g lease2 "''10.0.0.2/24''"] by (simp add: run1_def mgr1_def)
  moreover have "renew_step Quiet ?t ?f"
  proof -
    have "set_results cidr_ip ''10.0.0.2/24'' (st_addrs ?t) False {''10.0.0.1/24'', ''10.0.0.2/24''}"
      unfolding set_results_def by (auto simp: run1_def intro!: exI [of _ "{}"])
    from renew_step.set_fail [OF _ this] show ?thesis by (simp add: run1_def)
  qed
  moreover have "renew_step Quiet ?f ?v" using renew_step.head [of ?f lease2] by (simp add: mgr1_def)
  moreover have "renew_step Fire ?v ?h"
    using renew_step.fire [of ?v lease2 lease1 "''10.0.0.1/24''"] by (simp add: lease_addrs run1_def)
  moreover have "renew_step Quiet ?h mixed1"
    using renew_step.store [of ?h lease1 "''10.0.0.1/24''"] by (simp add: mixed1_def run1_def mgr1_def)
  ultimately show ?thesis by (meson lease_reachable.renew run1_reachable)
qed

lemma stale_address_kept:
  "lease_reachable mixed1 \<and> lmg_lease (st_mgr mixed1) = Some lease1 \<and> lmg_ipAddr (st_mgr mixed1) = ''10.0.0.1/24''
   \<and> ''10.0.0.2/24'' \<in> st_addrs mixed1 \<and> st_pc mixed1 = LTop"
  using mixed1_reachable by (simp add: mixed1_def run1_def mgr1_def)

theorem renewal_invariant_witness:
  "only_ip (lmg_ipAddr (st_mgr run1)) (st_addrs run1) \<and> lmg_lease (st_mgr run1) \<noteq> None
   \<and> (\<exists>x \<in> set (st_granted mixed1). \<exists>b. ipAddrFromLease x = Inr b \<and> cidr_ip ''10.0.0.2/24'' = cidr_ip b)"
  using renewal_invariant [OF run1_reachable] renewal_invariant [OF mixed1_reachable] by (simp add: run1_def mgr1_def mixed1_def)

text \<open>The number of steps to the end of the loop.\<close>

fun pc_measure :: "loop_pc \<Rightarrow> nat" where
  "pc_measure LExit = 0"
| "pc_measure (LWait x) = 1"
| "pc_measure LTop = 2"
| "pc_measure (LStore ip) = 3"
| "pc_measure (LSet ip) = 4"
| "pc_measure (LGot y ip) = 5"

lemma quiet_decreases: "renew_step Quiet s s' \<Longrightarrow> pc_measure (st_pc s') < pc_measure (st_pc s)"
  by (erule renew_stepE) auto

lemma quiet_keeps_done: "renew_step a s s' \<Longrightarrow> lmg_done (st_mgr s') = lmg_done (st_mgr s)"
  by (erule renew_stepE) auto

lemma quiet_enabled: "lmg_done (st_mgr s) \<Longrightarrow> st_pc s \<noteq> LExit \<Longrightarrow> \<exists>s'. renew_step Quiet s s'"
proof (cases "st_pc s")
  case (LSet ip)
  have "set_results cidr_ip ip (st_addrs s) True (insert ip {b \<in> st_addrs s. cidr_ip b = cidr_ip ip})"
    by (simp add: set_results_def)
  from renew_step.set_ok [OF LSet this] show ?thesis by blast
qed (cases "lmg_lease (st_mgr s)"; auto intro: renew_step.intros)+

text \<open>
  C23. Once \<open>Stop\<close> has cancelled the context, the loop ends: a run of the loop in which the timer does
  not win the select again takes at most five steps, and can be continued until the loop has returned.
\<close>

theorem renew_loop_ends:
  assumes "lmg_done (st_mgr s)" "(renew_step Quiet ^^ n) s s'"
  shows "n \<le> 5 \<and> (st_pc s' = LExit \<or> (\<exists>s''. renew_step Quiet s' s''))"
proof -
  have "lmg_done (st_mgr s') \<and> n + pc_measure (st_pc s') \<le> pc_measure (st_pc s)"
    using assms
  proof (induction n arbitrary: s')
    case (Suc n)
    then obtain t where "(renew_step Quiet ^^ n) s t" "renew_step Quiet t s'" by auto
    with Suc.IH [of t] Suc.prems(1) quiet_decreases [of t s'] quiet_keeps_done [of Quiet t s'] show ?case by auto
  qed auto
  moreover have "pc_measure (st_pc s) \<le> 5" by (cases "st_pc s") auto
  ultimately show ?thesis using quiet_enabled by fastforce
qed

definition stopped1 :: loop_state where
  "stopped1 = run1\<lparr>st_mgr := mgr1\<lparr>lmg_running := False, lmg_cancel := False, lmg_lease := None, lmg_done := True\<rparr>,
     st_pc := LGot lease2 ''10.0.0.2/24'', st_stop := SDone, st_granted := [lease2, lease1], st_released := [lease1]\<rparr>"

definition leaked1 :: loop_state where
  "leaked1 = stopped1\<lparr>st_mgr := (st_mgr stopped1)\<lparr>lmg_lease := Some lease2, lmg_ipAddr := ''10.0.0.2/24''\<rparr>,
     st_pc := LExit, st_addrs := {''10.0.0.2/24''}\<rparr>"

lemma fresh_set: "set_results cidr_ip ''10.0.0.2/24'' {''10.0.0.1/24''} True {''10.0.0.2/24''}"
proof -
  have "{b \<in> {''10.0.0.1/24''}. cidr_ip b = cidr_ip ''10.0.0.2/24''} = {}" using cidr_ips by fastforce
  then show ?thesis by (simp only: set_results_def if_True)
qed

lemma leak_steps:
  "renew_step Quiet stopped1 (stopped1\<lparr>st_mgr := (st_mgr stopped1)\<lparr>lmg_lease := Some lease2\<rparr>, st_pc := LSet ''10.0.0.2/24''\<rparr>)"
  "renew_step Quiet (stopped1\<lparr>st_mgr := (st_mgr stopped1)\<lparr>lmg_lease := Some lease2\<rparr>, st_pc := LSet ''10.0.0.2/24''\<rparr>)
     (stopped1\<lparr>st_mgr := (st_mgr stopped1)\<lparr>lmg_lease := Some lease2\<rparr>, st_pc := LStore ''10.0.0.2/24'', st_addrs := {''10.0.0.2/24''}\<rparr>)"
  "renew_step Quiet (stopped1\<lparr>st_mgr := (st_mgr stopped1)\<lparr>lmg_lease := Some lease2\<rparr>, st_pc := LStore ''10.0.0.2/24'', st_addrs := {''10.0.0.2/24''}\<rparr>)
     (leaked1\<lparr>st_pc := LTop\<rparr>)"
  "renew_step Quiet (leaked1\<lparr>st_pc := LTop\<rparr>) (leaked1\<lparr>st_pc := LWait lease2\<rparr>)"
  "renew_step Quiet (leaked1\<lparr>st_pc := LWait lease2\<rparr>) leaked1"
proof -
  let ?a = "stopped1\<lparr>st_mgr := (st_mgr stopped1)\<lparr>lmg_lease := Some lease2\<rparr>, st_pc := LSet ''10.0.0.2/24''\<rparr>"
  let ?b = "stopped1\<lparr>st_mgr := (st_mgr stopped1)\<lparr>lmg_lease := Some lease2\<rparr>, st_pc := LStore ''10.0.0.2/24'', st_addrs := {''10.0.0.2/24''}\<rparr>"
  show "renew_step Quiet stopped1 ?a"
    using renew_step.store [of stopped1 lease2 "''10.0.0.2/24''"] by (simp add: stopped1_def mgr1_def)
  have "st_addrs ?a = {''10.0.0.1/24''}" "st_dirty ?a = False" by (simp_all add: stopped1_def run1_def)
  then show "renew_step Quiet ?a ?b"
    using renew_step.set_ok [of ?a "''10.0.0.2/24''" "{''10.0.0.2/24''}"] fresh_set
    by (simp add: stopped1_def run1_def)
  show "renew_step Quiet ?b (leaked1\<lparr>st_pc := LTop\<rparr>)"
    using renew_step.record_ip [of ?b "''10.0.0.2/24''"] by (simp add: leaked1_def stopped1_def run1_def)
  show "renew_step Quiet (leaked1\<lparr>st_pc := LTop\<rparr>) (leaked1\<lparr>st_pc := LWait lease2\<rparr>)"
    using renew_step.head [of "leaked1\<lparr>st_pc := LTop\<rparr>" lease2] by (simp add: leaked1_def)
  show "renew_step Quiet (leaked1\<lparr>st_pc := LWait lease2\<rparr>) leaked1"
    using renew_step.cancelled [of "leaked1\<lparr>st_pc := LWait lease2\<rparr>" lease2] by (simp add: leaked1_def stopped1_def run1_def)
qed

theorem renew_loop_ends_witness:
  "(renew_step Quiet ^^ 5) stopped1 leaked1 \<and> st_pc leaked1 = LExit \<and> \<not> (\<exists>s. (renew_step Quiet ^^ 6) stopped1 s)"
proof -
  have d: "lmg_done (st_mgr stopped1)" by (simp add: stopped1_def)
  have "(renew_step Quiet ^^ 5) stopped1 leaked1"
    using leak_steps by (auto simp: numeral_eq_Suc relcompp_apply)
  moreover from renew_loop_ends [OF d, of 6] have "\<not> (\<exists>s. (renew_step Quiet ^^ 6) stopped1 s)" by fastforce
  ultimately show ?thesis by (simp add: leaked1_def)
qed


lemma stopped1_reachable: "lease_reachable stopped1"
proof -
  let ?w = "run1\<lparr>st_pc := LWait lease1\<rparr>"
  let ?g = "run1\<lparr>st_pc := LGot lease2 ''10.0.0.2/24'', st_granted := [lease2, lease1]\<rparr>"
  let ?c = "?g\<lparr>st_mgr := mgr1\<lparr>lmg_running := False, lmg_cancel := False, lmg_lease := None\<rparr>, st_stop := SCancel (Some lease1) True\<rparr>"
  let ?r = "?c\<lparr>st_mgr := (st_mgr ?c)\<lparr>lmg_done := True\<rparr>, st_stop := SRelease (Some lease1)\<rparr>"
  have "renew_step Quiet run1 ?w" using renew_step.head [of run1 lease1] by (simp add: run1_def mgr1_def)
  moreover have "renew_step Fire ?w ?g"
    using renew_step.fire [of ?w lease1 lease2 "''10.0.0.2/24''"] by (simp add: lease_addrs run1_def)
  moreover have "stop_step ?g ?c" using stop_step.clear [of ?g] by (simp add: run1_def mgr1_def)
  moreover have "stop_step ?c ?r" using stop_step.cancel [of ?c "Some lease1" True] by (simp add: mgr1_def)
  moreover have "stop_step ?r stopped1" using stop_step.release [of ?r "Some lease1"] by (simp add: run1_def stopped1_def)
  ultimately show ?thesis by (meson lease_reachable.intros run1_reachable)
qed

text \<open>
  C40. \<open>Stop\<close> does not wait for the loop, so a renewal that is under way survives it: there is an
  interleaving in which \<open>Stop\<close> has returned and the loop has ended, but the loop has stored a lease after
  \<open>Stop\<close> had cleared the field and has set its address on the interface, and this lease is never
  released.
\<close>

theorem stop_leaks_lease:
  "\<exists>s x. lease_reachable s \<and> st_stop s = SDone \<and> st_pc s = LExit
     \<and> lmg_lease (st_mgr s) = Some x \<and> x \<in> set (st_granted s) \<and> x \<notin> set (st_released s)
     \<and> (\<exists>a. ipAddrFromLease x = Inr a \<and> st_addrs s = {a}) \<and> (\<forall>s'. \<not> stop_step s s') \<and> (\<forall>a s'. \<not> renew_step a s s')"
proof (intro exI conjI allI notI)
  show "lease_reachable leaked1"
    using stopped1_reachable leak_steps by (meson lease_reachable.renew)
  show "st_stop leaked1 = SDone" "st_pc leaked1 = LExit" "lmg_lease (st_mgr leaked1) = Some lease2"
    "lease2 \<in> set (st_granted leaked1)" "ipAddrFromLease lease2 = Inr ''10.0.0.2/24''" "st_addrs leaked1 = {''10.0.0.2/24''}"
    by (simp_all add: leaked1_def stopped1_def lease_addrs)
  show "lease2 \<in> set (st_released leaked1) \<Longrightarrow> False"
    by (simp add: leaked1_def stopped1_def lease2_def lease1_def)
  show "stop_step leaked1 s' \<Longrightarrow> False" "renew_step a leaked1 s' \<Longrightarrow> False" for a s'
    by (auto simp: leaked1_def stopped1_def elim!: stop_stepE renew_stepE)
qed

text \<open>
  \<open>ipAddrFromLease\<close> accepts a lease exactly when its mask is that of a prefix length up to 32, and then
  returns the address with this prefix length; a missing mask, one of another length and one with
  ones after a zero are errors.
\<close>

lemma lease_address_iff:
  "ipAddrFromLease lease = Inr a \<longleftrightarrow>
     (\<exists>n \<le> 32. le_Mask lease = Some (CIDRMask n) \<and> a = le_IP lease @ ''/'' @ Itoa (int n))"
proof
  assume "ipAddrFromLease lease = Inr a"
  then obtain m ones where m: "le_Mask lease = Some m" "length m = 4" "IPMask_Size m = (ones, 32)"
    and a: "a = le_IP lease @ ''/'' @ Itoa (int ones)"
    by (auto simp: ipAddrFromLease_def split: option.splits if_splits prod.splits)
  note b = IPMask_Size_bits [OF m(3)]
  have n: "ones \<le> 32" using b(2) by simp
  have "mask_bits m = mask_bits (CIDRMask ones)"
    using b(1) IPMask_Size_bits(1) [OF CIDRMask_Size [OF n]] by simp
  then have "m = CIDRMask ones" using m(2) by (intro mask_bits_inj) (simp_all add: CIDRMask_def)
  with m(1) a n show "\<exists>n \<le> 32. le_Mask lease = Some (CIDRMask n) \<and> a = le_IP lease @ ''/'' @ Itoa (int n)" by blast
next
  assume "\<exists>n \<le> 32. le_Mask lease = Some (CIDRMask n) \<and> a = le_IP lease @ ''/'' @ Itoa (int n)"
  then show "ipAddrFromLease lease = Inr a"
    by (auto simp: ipAddrFromLease_def CIDRMask_Size) (simp_all add: CIDRMask_def)
qed

end
