(* ===== verification/Agent_HostNetworkConfig.thy ===== *)
theory Agent_HostNetworkConfig
  imports Agent_ClusterNetwork Agent_State Lease_Manager
begin

text \<open>
  \<open>pkg/controller/agent/hostnetworkconfig/controller.go\<close>: a host network config that selects the node gets
  a VLAN sub-interface on the bridge of its cluster network, with a static address or one from DHCP;
  the outcome is reported per node, and the node's annotation names the interface of the overlay
  underlay. The state is the table of lease managers and the node's kernel, and the log of API calls.
\<close>

section \<open>The environment of the handler\<close>

definition agent_IPModeDHCP :: string where "agent_IPModeDHCP = ''dhcp''"
definition agent_IPModeStatic :: string where "agent_IPModeStatic = ''static''"

record 'k hn_env =
  he_caches :: caches
  he_nl :: "'k netlink"
  he_dh :: "'k dhcp"
  he_srv :: api_server
  he_node :: string
  he_mgmtIntf :: string

type_synonym lease_table = "string \<rightharpoonup> LeaseManager"
type_synonym 'k hn_state = "(lease_table \<times> 'k) agent_state"

definition on_node :: "('k, 'a) io \<Rightarrow> ('k hn_state, 'a) io" where
  "on_node m = on_fst (on_snd m)"

definition on_leases :: "(lease_table \<times> 'k, 'a) io \<Rightarrow> ('k hn_state, 'a) io" where
  "on_leases m = on_fst m"

section \<open>Lease managers\<close>

text \<open>\<open>Stop\<close> runs on the manager after it has been taken out of the table.\<close>

definition stopLeaseManager :: "'k hn_env \<Rightarrow> string \<Rightarrow> ('k hn_state, unit) io" where
  "stopLeaseManager env vlanIntfName =
     on_leases (\<lambda>(t, k). case t vlanIntfName of
         None \<Rightarrow> (Inr (), t, k)
       | Some lm \<Rightarrow> (Inr (), t(vlanIntfName := None), snd (snd (LM_Stop (he_dh env) (lm, k)))))"

definition getOrCreateLeaseManager :: "'k hn_env \<Rightarrow> nl_link \<Rightarrow> 16 word \<Rightarrow> (lease_table \<times> 'k, LeaseManager) io" where
  "getOrCreateLeaseManager env bridgelink v s =
     (let name = GetClusterNetworkBrVlanDevice (link_Name bridgelink) v in
      case s of (t, k) \<Rightarrow>
        (case t name of
           Some lm \<Rightarrow> (Inr lm, t, k)
         | None \<Rightarrow>
             (case NewLeaseManager (he_dh env) name bridgelink v k of
                (Inl e, k') \<Rightarrow> (Inl e, t, k')
              | (Inr newLM, k') \<Rightarrow> (Inr newLM, t(name \<mapsto> newLM), k'))))"

text \<open>The manager is in the table before it is started, and stays there when \<open>Start\<close> fails.\<close>

definition startLeaseManager :: "'k hn_env \<Rightarrow> nl_link \<Rightarrow> 16 word \<Rightarrow> ('k hn_state, unit) io" where
  "startLeaseManager env bridgelink v =
     on_leases (io_bind (getOrCreateLeaseManager env bridgelink v) (\<lambda>lm (t, k).
       case LM_Start (he_dh env) (he_nl env) (lm, k) of
         (r, lm', k') \<Rightarrow> (r, t(GetClusterNetworkBrVlanDevice (link_Name bridgelink) v \<mapsto> lm'), k')))"

section \<open>Node status and annotation\<close>

definition node_status :: "HostNetworkConfig \<Rightarrow> go_error option \<Rightarrow> HostNetworkConfigNodeStatus" where
  "node_status hnc setupErr =
     \<lparr>hn_ClusterNetwork = hs_ClusterNetwork (hnc_Spec hnc), hn_VlanID = hs_VlanID (hnc_Spec hnc), hn_Mode = hs_Mode (hnc_Spec hnc),
      hn_Conditions = [\<lparr>c_Type = Ready, c_Status = (if setupErr = None then ''True'' else ''False''),
        c_LastUpdateTime = [], c_LastTransitionTime = [], c_Reason = [],
        c_Message = (case setupErr of None \<Rightarrow> [] | Some e \<Rightarrow> ''setup l3 connectivity failed: '' @ ErrorText e)\<rparr>]\<rparr>"

definition setHostNetworkPerNodeStatus :: "'k hn_env \<Rightarrow> HostNetworkConfig \<Rightarrow> go_error option \<Rightarrow> ('k hn_state, unit) io" where
  "setHostNetworkPerNodeStatus env hnc setupErr =
     io_wrap (wrap ''failed to patch HostNetworkConfig status for node %s: %w'')
       (api (he_srv env) (PatchHNCNodeStatus (o_name hnc) (he_node env) (node_status hnc setupErr)))"

definition agent_setHostNetworkStatus :: "'k hn_env \<Rightarrow> HostNetworkConfig \<Rightarrow> go_error option \<Rightarrow> ('k hn_state, unit) io" where
  "agent_setHostNetworkStatus env hnc setupErr = setHostNetworkPerNodeStatus env hnc setupErr"

definition removeHostNetworkPerNodeStatus :: "'k hn_env \<Rightarrow> HostNetworkConfig \<Rightarrow> ('k hn_state, unit) io" where
  "removeHostNetworkPerNodeStatus env hnc =
     (case hnc_NodeStatus hnc of
        None \<Rightarrow> io_ret ()
      | Some f \<Rightarrow>
          if f (he_node env) = None then io_ret ()
          else io_wrap (wrap ''failed to patch HostNetworkConfig status for node %s: %w'')
                 (api (he_srv env) (PatchHNCNodeRemoved (o_name hnc) (he_node env))))"

definition updateHostNetworkReadyStatus :: "'k hn_env \<Rightarrow> HostNetworkConfig \<Rightarrow> go_error option \<Rightarrow> ('k hn_state, unit) io" where
  "updateHostNetworkReadyStatus env hnc l3setupErr =
     io_bind (io_wrap (wrap ''set host network %s unready failed, error: %w configErr: %v'')
                (agent_setHostNetworkStatus env hnc l3setupErr)) (\<lambda>_.
     case l3setupErr of
       Some e \<Rightarrow> io_throw (wrap ''setup host network config %s failed, error: %w'' e)
     | None \<Rightarrow> io_ret ())"

definition addNodeAnnotation :: "'k hn_env \<Rightarrow> string \<Rightarrow> bool \<Rightarrow> ('k hn_state, unit) io" where
  "addNodeAnnotation env underlayIntfName underlay =
     io_bind (io_lift (nodeGet (he_caches env) (he_node env))) (\<lambda>node.
     if o_deleting node then io_ret ()
     else let name = (if underlay then underlayIntfName else he_mgmtIntf env) in
       if o_annotations node \<noteq> None \<and> mget (o_annotations node) KeyUnderlayIntf = name then io_ret ()
       else io_wrap (wrap ''failed to update tunnel interface %s annotation to node %s, error %w'')
              (api (he_srv env) (UpdateNode (node\<lparr>o_annotations := mput KeyUnderlayIntf name (o_annotations node)\<rparr>))))"

definition hn_wakeUpClusterNetwork :: "'k hn_env \<Rightarrow> string \<Rightarrow> ('k hn_state, unit) io" where
  "hn_wakeUpClusterNetwork env clusterNetwork =
     io_bind (io_lift (cnGet (he_caches env) clusterNetwork)) (\<lambda>_. enq (EnqueueCN clusterNetwork))"

definition matchNode :: "'k hn_env \<Rightarrow> LabelSelector option \<Rightarrow> bool res" where
  "matchNode env nodeSelector =
     (case nodeSelector of
        None \<Rightarrow> Inr True
      | Some sel \<Rightarrow>
          bind_res (nodeGet (he_caches env) (he_node env)) id (\<lambda>node.
          if o_deleting node then Inr False
          else bind_res (LabelSelectorAsSelector (Some sel)) id (\<lambda>s. Inr (sel_matches s (o_labels node)))))"

definition findMatchingIPfromNode :: "string \<Rightarrow> strmap \<Rightarrow> string res" where
  "findMatchingIPfromNode nodeName hostIPs =
     (if mget hostIPs nodeName \<noteq> [] then Inr (mget hostIPs nodeName) else Inl (Errorf ''no matching IP found for node %s''))"

section \<open>Handlers\<close>

definition checkifHostNetworkInterfaceExists :: "'k netlink \<Rightarrow> HostNetworkConfig \<Rightarrow> ('k, bool) io" where
  "checkifHostNetworkInterfaceExists nl hnc =
     io_try (vlan_GetVlan nl (hs_ClusterNetwork (hnc_Spec hnc)))
       (\<lambda>e. if IsLinkNotFound e then io_ret False else io_throw e)
       (\<lambda>v. io_bind (GetBridgelink nl v) (\<lambda>bridgelink.
            io_try (LinkByName nl (GetClusterNetworkBrVlanDevice (link_Name bridgelink) (hs_VlanID (hnc_Spec hnc))))
              (\<lambda>e. if IsLinkNotFound e then io_ret False else io_throw e)
              (\<lambda>_. io_ret True)))"

definition removeHostNetworkInterface :: "'k hn_env \<Rightarrow> HostNetworkConfig \<Rightarrow> bool \<Rightarrow> ('k hn_state, HostNetworkConfig option) io" where
  "removeHostNetworkInterface env hnc onChange =
     (let vid' = hs_VlanID (hnc_Spec hnc); nl = he_nl env in
      io_try (on_node (vlan_GetVlan nl (hs_ClusterNetwork (hnc_Spec hnc))))
        (\<lambda>e. if IsLinkNotFound e then io_ret None else io_throw e)
        (\<lambda>v. io_try (on_node (GetBridgelink nl v))
          (\<lambda>e. if IsLinkNotFound e then io_ret None else io_throw (wrap ''failed to get link for bridge %s, error: %w'' e))
          (\<lambda>bridgelink.
            io_bind (io_wrap (wrap ''del bridge vlanconfig %d failed for %s, error: %w'') (on_node (DelBridgeVlanSelf nl bridgelink vid'))) (\<lambda>_.
            io_bind (stopLeaseManager env (GetClusterNetworkBrVlanDevice (link_Name bridgelink) vid')) (\<lambda>_.
            io_bind (io_wrap (wrap ''del vlan subinterface %d failed for %s, error: %w'') (on_node (DelVlanSubInterface nl bridgelink vid'))) (\<lambda>_.
            io_bind (io_wrap (wrap ''wake up cluster network %s failed, error: %w'')
                       (hn_wakeUpClusterNetwork env (hs_ClusterNetwork (hnc_Spec hnc)))) (\<lambda>_.
            io_bind (if onChange then removeHostNetworkPerNodeStatus env hnc else io_ret ()) (\<lambda>_.
            io_ret (Some hnc)))))))))"

text \<open>\<open>if err = m; err != nil { return hnc, h.updateHostNetworkReadyStatus(hnc, err) }\<close>, then \<open>k\<close>.\<close>

definition or_unready :: "'k hn_env \<Rightarrow> HostNetworkConfig \<Rightarrow> ('k hn_state, 'a) io
    \<Rightarrow> ('a \<Rightarrow> ('k hn_state, HostNetworkConfig option) io) \<Rightarrow> ('k hn_state, HostNetworkConfig option) io" where
  "or_unready env hnc m k =
     io_try m (\<lambda>e. io_bind (updateHostNetworkReadyStatus env hnc (Some e)) (\<lambda>_. io_ret (Some hnc))) k"

text \<open>The switch over the address mode.\<close>

definition assign_address :: "'k hn_env \<Rightarrow> HostNetworkConfig \<Rightarrow> nl_link \<Rightarrow> ('k hn_state, unit) io" where
  "assign_address env hnc bridgelink =
     (let vid' = hs_VlanID (hnc_Spec hnc) in
      if hs_Mode (hnc_Spec hnc) = agent_IPModeDHCP then startLeaseManager env bridgelink vid'
      else if hs_Mode (hnc_Spec hnc) = agent_IPModeStatic then
        io_bind (stopLeaseManager env (GetClusterNetworkBrVlanDevice (link_Name bridgelink) vid')) (\<lambda>_.
        io_bind (io_lift (findMatchingIPfromNode (he_node env) (hs_HostIPs (hnc_Spec hnc)))) (\<lambda>addr.
        on_node (SetIPAddress (he_nl env) bridgelink addr vid')))
      else io_throw (Errorf ''unsupported ip assignment mode %s for host network config %s''))"

text \<open>The part of \<open>OnChange\<close> for a config that selects the node and whose interface does not exist yet.\<close>

definition apply_host_network :: "'k hn_env \<Rightarrow> HostNetworkConfig \<Rightarrow> ('k hn_state, HostNetworkConfig option) io" where
  "apply_host_network env hnc =
     (let vid' = hs_VlanID (hnc_Spec hnc); cn = hs_ClusterNetwork (hnc_Spec hnc); nl = he_nl env in
      io_try (on_node (vlan_GetVlan nl cn))
        (\<lambda>e. if IsLinkNotFound e
             then io_bind (stopLeaseManager env (GetClusterNetworkVlanDevice cn vid')) (\<lambda>_. io_ret None)
             else io_bind (updateHostNetworkReadyStatus env hnc (Some e)) (\<lambda>_. io_ret (Some hnc)))
        (\<lambda>v. or_unready env hnc (on_node (GetBridgelink nl v)) (\<lambda>bridgelink.
             or_unready env hnc (on_node (AddBridgeVlanSelf nl bridgelink vid')) (\<lambda>_.
             or_unready env hnc (on_node (CreateVlanSubInterface nl bridgelink vid')) (\<lambda>_.
             io_bind (io_wrap (wrap ''wake up cluster network %s failed, error: %w'') (hn_wakeUpClusterNetwork env cn)) (\<lambda>_.
             or_unready env hnc (assign_address env hnc bridgelink) (\<lambda>_.
             io_bind (updateHostNetworkReadyStatus env hnc None) (\<lambda>_.
             io_bind (io_wrap (wrap ''add node annotation to node %s for host network config %s failed, error: %w'')
                        (addNodeAnnotation env (GetClusterNetworkBrVlanDevice (link_Name bridgelink) vid') (hs_Underlay (hnc_Spec hnc)))) (\<lambda>_.
             io_ret (Some hnc))))))))))"

definition Agent_HNC_OnChange :: "'k hn_env \<Rightarrow> HostNetworkConfig option \<Rightarrow> ('k hn_state, HostNetworkConfig option) io" where
  "Agent_HNC_OnChange env hnc_ptr =
     (case hnc_ptr of
        None \<Rightarrow> io_ret None
      | Some hnc \<Rightarrow>
          if o_deleting hnc then io_ret None
          else io_bind (io_lift (matchNode env (hs_NodeSelector (hnc_Spec hnc)))) (\<lambda>matched.
               io_bind (on_node (checkifHostNetworkInterfaceExists (he_nl env) hnc)) (\<lambda>intfExists.
               if \<not> matched then
                 if intfExists then removeHostNetworkInterface env hnc True
                 else io_bind (removeHostNetworkPerNodeStatus env hnc) (\<lambda>_. io_ret (Some hnc))
               else if intfExists then
                 io_bind (io_wrap (wrap ''add node annotation to node %s for host network config %s failed, error: %w'')
                            (addNodeAnnotation env (GetClusterNetworkVlanDevice (hs_ClusterNetwork (hnc_Spec hnc)) (hs_VlanID (hnc_Spec hnc)))
                               (hs_Underlay (hnc_Spec hnc)))) (\<lambda>_.
                 io_bind (setHostNetworkPerNodeStatus env hnc None) (\<lambda>_. io_ret (Some hnc)))
               else apply_host_network env hnc)))"

definition Agent_HNC_OnRemove :: "'k hn_env \<Rightarrow> HostNetworkConfig option \<Rightarrow> ('k hn_state, HostNetworkConfig option) io" where
  "Agent_HNC_OnRemove env hnc_ptr =
     (case hnc_ptr of None \<Rightarrow> io_ret None | Some hnc \<Rightarrow> removeHostNetworkInterface env hnc False)"

text \<open>\<open>Register\<close> looks up the management interface and fails without one.\<close>

definition Agent_HNC_Register :: "'k netlink \<Rightarrow> ('k, string) io" where
  "Agent_HNC_Register nl =
     io_wrap (wrap ''failed to get management interface for node %s, error: %w'') (GetMgmtInterface nl)"

section \<open>The table of lease managers\<close>

lemma on_node_run [simp]: "on_node m ((t, k), l) = (case m k of (r, k') \<Rightarrow> (r, (t, k'), l))"
  by (simp add: on_node_def split: prod.splits)

lemma on_leases_run [simp]: "on_leases m (tk, l) = (case m tk of (r, tk') \<Rightarrow> (r, tk', l))"
  by (simp add: on_leases_def split: prod.splits)

text \<open>A manager is filed under the name of the interface that it sets addresses on.\<close>

definition leases_ok :: "lease_table \<Rightarrow> bool" where
  "leases_ok t \<longleftrightarrow>
     (\<forall>n lm. t n = Some lm \<longrightarrow> lmg_iface lm = n \<and> GetClusterNetworkBrVlanDevice (link_Name (lmg_link lm)) (lmg_vlanID lm) = n)"

lemma leases_okD:
  "leases_ok t \<Longrightarrow> t n = Some lm \<Longrightarrow> lmg_iface lm = n \<and> GetClusterNetworkBrVlanDevice (link_Name (lmg_link lm)) (lmg_vlanID lm) = n"
  by (simp add: leases_ok_def)

lemma LM_Start_frame:
  "LM_Start dh nl (lm, k) = (r, lm', k') \<Longrightarrow>
     lmg_iface lm' = lmg_iface lm \<and> lmg_link lm' = lmg_link lm \<and> lmg_vlanID lm' = lmg_vlanID lm"
  by (auto simp: LM_Start_def Let_def split: if_splits prod.splits sum.splits)

definition table_kept :: "'k hn_state \<Rightarrow> bool" where "table_kept s \<longleftrightarrow> leases_ok (fst (fst s))"

lemma keeps_on_node [io_rules]: "io_keeps table_kept (on_node m)"
  by (auto simp: io_keeps_state table_kept_def on_node_def on_fst_def on_snd_def split: prod.splits)

lemma keeps_api [io_rules]: "io_keeps table_kept (api srv a)" "io_keeps table_kept (enq a)"
  by (auto simp: io_keeps_state table_kept_def api_def enq_def on_snd_def split: prod.splits)

lemma keeps_stop [io_rules]: "io_keeps table_kept (stopLeaseManager env n)"
  by (auto simp: io_keeps_state table_kept_def stopLeaseManager_def leases_ok_def split: prod.splits option.splits)

lemma getOrCreate_ok:
  assumes "getOrCreateLeaseManager env b v (t, k) = (r, t', k')" "leases_ok t"
  shows "leases_ok t' \<and> (\<forall>lm. r = Inr lm \<longrightarrow> t' (GetClusterNetworkBrVlanDevice (link_Name b) v) = Some lm)"
proof (cases "t (GetClusterNetworkBrVlanDevice (link_Name b) v)")
  case None
  show ?thesis
  proof (cases "NewLeaseManager (he_dh env) (GetClusterNetworkBrVlanDevice (link_Name b) v) b v k")
    case (Pair q k1)
    show ?thesis
    proof (cases q)
      case (Inr lm)
      with Pair have "lmg_iface lm = GetClusterNetworkBrVlanDevice (link_Name b) v \<and> lmg_link lm = b \<and> lmg_vlanID lm = v"
        by (auto simp: NewLeaseManager_def io_results)
      moreover from Pair Inr None assms(1) have "t' = t(GetClusterNetworkBrVlanDevice (link_Name b) v \<mapsto> lm)" "r = Inr lm"
        by (auto simp: getOrCreateLeaseManager_def Let_def)
      ultimately show ?thesis using assms(2) by (simp add: leases_ok_def)
    qed (use Pair None assms in \<open>auto simp: getOrCreateLeaseManager_def Let_def\<close>)
  qed
qed (use assms in \<open>auto simp: getOrCreateLeaseManager_def Let_def\<close>)

lemma keeps_start [io_rules]: "io_keeps table_kept (startLeaseManager env b v)"
  unfolding io_keeps_state
proof (intro allI impI)
  fix s :: "'a hn_state" assume ok: "table_kept s"
  obtain t k l where s: "s = ((t, k), l)" by (metis prod.collapse)
  let ?n = "GetClusterNetworkBrVlanDevice (link_Name b) v"
  obtain r t1 k1 where g: "getOrCreateLeaseManager env b v (t, k) = (r, t1, k1)" by (metis prod_cases3)
  have t1: "leases_ok t1" "\<And>lm. r = Inr lm \<Longrightarrow> t1 ?n = Some lm"
    using getOrCreate_ok [OF g] ok by (auto simp: table_kept_def s)
  show "table_kept (snd (startLeaseManager env b v s))"
  proof (cases r)
    case (Inr lm)
    obtain q lm' k2 where st: "LM_Start (he_dh env) (he_nl env) (lm, k1) = (q, lm', k2)" by (metis prod_cases3)
    from leases_okD [OF t1(1) t1(2) [OF Inr]] LM_Start_frame [OF st] t1(1) have "leases_ok (t1(?n \<mapsto> lm'))"
      by (auto simp: leases_ok_def)
    with g Inr st show ?thesis by (simp add: startLeaseManager_def s table_kept_def)
  qed (use g t1 in \<open>simp add: startLeaseManager_def s table_kept_def\<close>)
qed

lemma keeps_status [io_rules]:
  "io_keeps table_kept (setHostNetworkPerNodeStatus env hnc r)" "io_keeps table_kept (removeHostNetworkPerNodeStatus env hnc)"
  "io_keeps table_kept (hn_wakeUpClusterNetwork env cn)" "io_keeps table_kept (addNodeAnnotation env n u)"
  by (auto simp: setHostNetworkPerNodeStatus_def removeHostNetworkPerNodeStatus_def hn_wakeUpClusterNetwork_def addNodeAnnotation_def Let_def
        intro!: io_rules split: option.splits)

lemma keeps_ready [io_rules]: "io_keeps table_kept (updateHostNetworkReadyStatus env hnc r)"
  by (auto simp: updateHostNetworkReadyStatus_def agent_setHostNetworkStatus_def intro!: io_rules split: option.splits)

lemma keeps_or_unready [io_rules]:
  "io_keeps table_kept m \<Longrightarrow> (\<And>x. io_keeps table_kept (k x)) \<Longrightarrow> io_keeps table_kept (or_unready env hnc m k)"
  by (auto simp: or_unready_def intro!: io_rules)

lemma keeps_assign [io_rules]: "io_keeps table_kept (assign_address env hnc b)"
  by (auto simp: assign_address_def Let_def intro!: io_rules)

lemma keeps_remove [io_rules]: "io_keeps table_kept (removeHostNetworkInterface env hnc b)"
  unfolding removeHostNetworkInterface_def Let_def by (intro io_rules)

lemma keeps_apply [io_rules]: "io_keeps table_kept (apply_host_network env hnc)"
  by (auto simp: apply_host_network_def Let_def intro!: io_rules)

text \<open>
  C22. The table of lease managers is well-formed and stays so under every handler, whatever the kernel,
  the DHCP server and the API server answer: a manager is filed under the name of the interface it
  requests leases on, which is also the interface it sets the address of.
\<close>

theorem lease_table_ok:
  assumes "leases_ok t" "m \<in> {Agent_HNC_OnChange env hnc, Agent_HNC_OnRemove env hnc}"
  shows "leases_ok (fst (fst (snd (m ((t, k), l)))))"
proof -
  have "io_keeps table_kept (Agent_HNC_OnChange env hnc)" "io_keeps table_kept (Agent_HNC_OnRemove env hnc)"
    by (auto simp: Agent_HNC_OnChange_def Agent_HNC_OnRemove_def intro!: io_rules split: option.splits)
  then have "io_keeps table_kept m" using assms(2) by auto
  from io_keepsD [OF this, of "((t, k), l)"] assms(1) show ?thesis by (simp add: table_kept_def)
qed

section \<open>A config that is applied\<close>

lemma ready_error: "updateHostNetworkReadyStatus env hnc (Some e) s \<noteq> (Inr x, s')"
  by (simp add: updateHostNetworkReadyStatus_def io_results)

lemma or_unready_ok:
  "or_unready env hnc m k s = (Inr y, s'') \<longleftrightarrow> (\<exists>x s'. m s = (Inr x, s') \<and> k x s' = (Inr y, s''))"
  by (simp add: or_unready_def io_results ready_error)

lemma api_ok: "api srv a (s, l) = (Inr (), s', l') \<longleftrightarrow> s' = s \<and> l' = l @ [(a, None)] \<and> srv l a = None"
  by (auto simp: api_run split: option.splits)

lemma on_node_ok: "on_node m ((t, k), l) = (Inr x, s') \<longleftrightarrow> (\<exists>k'. m k = (Inr x, k') \<and> s' = ((t, k'), l))"
  by (auto split: prod.splits)

lemma ready_ok:
  "updateHostNetworkReadyStatus env hnc None (s, l) = (Inr (), s', l') \<Longrightarrow>
     s' = s \<and> l' = l @ [(PatchHNCNodeStatus (o_name hnc) (he_node env) (node_status hnc None), None)]"
  by (simp add: updateHostNetworkReadyStatus_def agent_setHostNetworkStatus_def setHostNetworkPerNodeStatus_def io_results api_ok)

lemma wake_ok: "hn_wakeUpClusterNetwork env cn (s, l) = (Inr (), s', l') \<Longrightarrow> s' = s \<and> l' = l @ [(EnqueueCN cn, None)]"
  by (cases s) (auto simp: hn_wakeUpClusterNetwork_def io_results)

lemma annotation_ok:
  "addNodeAnnotation env n u (s, l) = (Inr (), s', l') \<Longrightarrow> s' = s \<and> (\<exists>l1. l' = l @ l1)"
  by (auto simp: addNodeAnnotation_def Let_def io_results api_ok split: if_splits)


text \<open>A run of \<open>OnChange\<close> that applies a config without an error.\<close>

lemma apply_run:
  assumes "apply_host_network env hnc ((t, k), l) = (Inr (Some hnc), (t', k'), l')"
  shows "\<exists>v b k1 k2 l2. vlan_GetVlan (he_nl env) (hs_ClusterNetwork (hnc_Spec hnc)) k = (Inr v, k1)
     \<and> GetBridgelink (he_nl env) v k1 = (Inr b, k2)
     \<and> (\<exists>k3. assign_address env hnc b ((t, k3), l2) = (Inr (), (t', k'), l2))
     \<and> l2 = l @ [(EnqueueCN (hs_ClusterNetwork (hnc_Spec hnc)), None)]
     \<and> (\<exists>l3. l' = l2 @ (PatchHNCNodeStatus (o_name hnc) (he_node env) (node_status hnc None), None) # l3)"
proof -
  let ?cn = "hs_ClusterNetwork (hnc_Spec hnc)"
  have keep: "snd (snd (assign_address env hnc b ((t, k), l))) = l" for b t k l
    by (auto simp: assign_address_def Let_def stopLeaseManager_def startLeaseManager_def io_bind_def io_lift_def
          split: prod.splits sum.splits option.splits)
  obtain v k1 where v: "vlan_GetVlan (he_nl env) ?cn k = (Inr v, k1)"
    using assms by (auto simp: apply_host_network_def Let_def io_try_result io_bind_result ready_error split: if_splits prod.splits)
  from assms v obtain b k2 k3 k4 s5 where b: "GetBridgelink (he_nl env) v k1 = (Inr b, k2)"
    and w: "hn_wakeUpClusterNetwork env ?cn ((t, k4), l) = (Inr (), s5)"
    and rest: "or_unready env hnc (assign_address env hnc b) (\<lambda>_.
             io_bind (updateHostNetworkReadyStatus env hnc None) (\<lambda>_.
             io_bind (io_wrap (wrap ''add node annotation to node %s for host network config %s failed, error: %w'')
                        (addNodeAnnotation env (GetClusterNetworkBrVlanDevice (link_Name b) (hs_VlanID (hnc_Spec hnc))) (hs_Underlay (hnc_Spec hnc)))) (\<lambda>_.
             io_ret (Some hnc)))) s5 = (Inr (Some hnc), (t', k'), l')"
    by (auto simp: apply_host_network_def Let_def or_unready_ok io_bind_result io_wrap_result on_node_ok simp del: on_node_run)
  have s5: "s5 = ((t, k4), l @ [(EnqueueCN ?cn, None)])" using wake_ok w by (metis prod.collapse)
  from rest obtain s6 s7 where a: "assign_address env hnc b s5 = (Inr (), s6)"
    and u: "updateHostNetworkReadyStatus env hnc None s6 = (Inr (), s7)"
    and n: "addNodeAnnotation env (GetClusterNetworkBrVlanDevice (link_Name b) (hs_VlanID (hnc_Spec hnc))) (hs_Underlay (hnc_Spec hnc)) s7
        = (Inr (), (t', k'), l')"
    by (auto simp: or_unready_ok io_bind_result io_wrap_result)
  from keep [of b t k4 "l @ [(EnqueueCN ?cn, None)]"] a s5 obtain tk where s6: "s6 = (tk, l @ [(EnqueueCN ?cn, None)])"
    by (metis prod.collapse snd_conv)
  from ready_ok [of env hnc tk "l @ [(EnqueueCN ?cn, None)]" "fst s7" "snd s7"] u s6
  have s7: "s7 = (tk, (l @ [(EnqueueCN ?cn, None)]) @ [(PatchHNCNodeStatus (o_name hnc) (he_node env) (node_status hnc None), None)])"
    by (metis prod.collapse)
  from annotation_ok [of env _ _ tk _ "(t', k')" l'] n s7 have "tk = (t', k')"
    "\<exists>l3. l' = ((l @ [(EnqueueCN ?cn, None)]) @ [(PatchHNCNodeStatus (o_name hnc) (he_node env) (node_status hnc None), None)]) @ l3"
    by metis+
  with v b a s5 s6 show ?thesis by auto
qed

text \<open>The VLAN interface of a config.\<close>

definition host_device :: "HostNetworkConfig \<Rightarrow> string" where
  "host_device hnc = GetClusterNetworkBrVlanDevice (GenerateBridgeName (hs_ClusterNetwork (hnc_Spec hnc))) (hs_VlanID (hnc_Spec hnc))"

lemma OnChange_apply:
  assumes "\<not> o_deleting hnc" "matchNode env (hs_NodeSelector (hnc_Spec hnc)) = Inr True"
    and "checkifHostNetworkInterfaceExists (he_nl env) hnc k = (Inr False, k1)"
  shows "Agent_HNC_OnChange env (Some hnc) ((t, k), l) = apply_host_network env hnc ((t, k1), l)"
  using assms by (simp add: Agent_HNC_OnChange_def)

context kernel
begin

lemma check_reads:
  assumes "checkifHostNetworkInterfaceExists nl hnc k = (Inr True, k')" shows "view k' = view k"
proof -
  from assms obtain v k1 b k2 x where "vlan_GetVlan nl (hs_ClusterNetwork (hnc_Spec hnc)) k = (Inr v, k1)"
    "GetBridgelink nl v k1 = (Inr b, k2)"
    "LinkByName nl (GetClusterNetworkBrVlanDevice (link_Name b) (hs_VlanID (hnc_Spec hnc))) k2 = (Inr x, k')"
    by (auto simp: checkifHostNetworkInterfaceExists_def io_results split: if_splits)
  with GetVlan_ok [of "hs_ClusterNetwork (hnc_Spec hnc)" k v k1] byname_ok show ?thesis
    unfolding GetBridgelink_def by metis
qed

lemma DelVlanSubInterface_ok:
  assumes "DelVlanSubInterface nl l v k = (Inr (), k')"
  shows "GetClusterNetworkBrVlanDevice (link_Name l) v \<notin> ran (nv_name (view k'))"
proof (cases "LinkByName nl (GetClusterNetworkBrVlanDevice (link_Name l) v) k")
  case (Pair r k1)
  show ?thesis
  proof (cases r)
    case (Inl e)
    with assms Pair have "IsLinkNotFound e" "k' = k1" by (auto simp: DelVlanSubInterface_def split: if_splits)
    with byname_none Pair Inl byname_err show ?thesis by metis
  next
    case (Inr x)
    with assms Pair have del: "LinkDel nl x k1 = (Inr (), k')" by (auto simp: DelVlanSubInterface_def io_results)
    from Pair Inr byname_ok have x: "sees (view k) x" "link_Name x = GetClusterNetworkBrVlanDevice (link_Name l) v" "view k1 = view k"
      by auto
    with call_lawD(1) [OF del_law del] have gone: "link_gone (link_Index x) (view k) (view k')"
      by (simp add: eff_del_def link_gone_def sees_def)
    show ?thesis
    proof
      assume "GetClusterNetworkBrVlanDevice (link_Name l) v \<in> ran (nv_name (view k'))"
      then obtain j where j: "nv_name (view k') j = Some (link_Name x)" by (auto simp: ran_def x(2))
      from link_gone_back [OF gone j] have "j = link_Index x" using names_inj x(1) by (auto simp: sees_def)
      with gone j show False by (simp add: link_gone_def)
    qed
  qed
qed

lemma bridge_device:
  assumes "vlan_GetVlan nl cn k = (Inr v, k1)" "GetBridgelink nl v k1 = (Inr b, k2)"
  shows "link_Name b = GenerateBridgeName cn"
  using GetVlan_ok [OF assms(1)] byname_ok [of "GenerateBridgeName (vl_name v)" k1 b k2] assms(2) by (auto simp: GetBridgelink_def)

end

text \<open>
  C16. When \<open>OnChange\<close> applies a static config for the first time and returns no error, the VLAN
  interface of the config exists and has the address that the config gives for the node, beside it at
  most the same IP with another prefix length; no lease manager is left for the interface; the
  cluster network is requeued, and the node is reported ready.
\<close>

theorem static_host_network_applied:
  assumes "kernel (he_nl env) view" "\<not> o_deleting hnc" "matchNode env (hs_NodeSelector (hnc_Spec hnc)) = Inr True"
    and "checkifHostNetworkInterfaceExists (he_nl env) hnc k = (Inr False, k1)"
    and "hs_Mode (hnc_Spec hnc) = agent_IPModeStatic"
    and "Agent_HNC_OnChange env (Some hnc) ((t, k), l) = (Inr (Some hnc), (t', k'), l')"
  shows "\<exists>i a. nv_name (view k') i = Some (host_device hnc)
     \<and> ParseAddr (he_nl env) (mget (hs_HostIPs (hnc_Spec hnc)) (he_node env)) = Inr a
     \<and> a \<in> nv_addrs (view k') i \<and> (\<forall>b \<in> nv_addrs (view k') i. ad_IP b = ad_IP a)
     \<and> t' (host_device hnc) = None
     \<and> {(EnqueueCN (hs_ClusterNetwork (hnc_Spec hnc)), None),
        (PatchHNCNodeStatus (o_name hnc) (he_node env) (node_status hnc None), None)} \<subseteq> set l'"
proof -
  from assms(6) have "apply_host_network env hnc ((t, k1), l) = (Inr (Some hnc), (t', k'), l')"
    by (simp add: OnChange_apply [OF assms(2,3,4)])
  from apply_run [OF this] obtain v b k2 k3 k4 l2 l3 where
    g: "vlan_GetVlan (he_nl env) (hs_ClusterNetwork (hnc_Spec hnc)) k1 = (Inr v, k2)" "GetBridgelink (he_nl env) v k2 = (Inr b, k3)"
    and a: "assign_address env hnc b ((t, k4), l2) = (Inr (), (t', k'), l2)"
    and l2: "l2 = l @ [(EnqueueCN (hs_ClusterNetwork (hnc_Spec hnc)), None)]"
    and l': "l' = l2 @ (PatchHNCNodeStatus (o_name hnc) (he_node env) (node_status hnc None), None) # l3" by blast
  have dev: "GetClusterNetworkBrVlanDevice (link_Name b) (hs_VlanID (hnc_Spec hnc)) = host_device hnc"
    using kernel.bridge_device [OF assms(1) g] by (simp add: host_device_def)
  have "agent_IPModeStatic \<noteq> agent_IPModeDHCP" by (simp add: agent_IPModeStatic_def agent_IPModeDHCP_def)
  with a assms(5) obtain k5 addr where s: "stopLeaseManager env (host_device hnc) ((t, k4), l2) = (Inr (), (t', k5), l2)"
    and f: "findMatchingIPfromNode (he_node env) (hs_HostIPs (hnc_Spec hnc)) = Inr addr"
    and ip: "SetIPAddress (he_nl env) b addr (hs_VlanID (hnc_Spec hnc)) k5 = (Inr (), k')"
    by (auto simp: assign_address_def Let_def dev io_bind_result io_lift_def on_node_ok simp del: on_node_run)
  have "t' (host_device hnc) = None" using s by (auto simp: stopLeaseManager_def split: option.splits)
  moreover have "addr = mget (hs_HostIPs (hnc_Spec hnc)) (he_node env)"
    using f by (auto simp: findMatchingIPfromNode_def split: if_splits)
  moreover from kernel.SetIPAddress_ok [OF assms(1) ip, unfolded dev] obtain i x where
    "nv_name (view k5) i = Some (host_device hnc)" "ParseAddr (he_nl env) addr = Inr x"
    "view k' = addr_upd i (\<lambda>A. insert x {b \<in> A. ad_IP b = ad_IP x}) (view k5)" by blast
  ultimately show ?thesis using l2 l' by (intro exI [of _ i] exI [of _ x]) auto
qed

definition host_net :: ref_state where
  "host_net = demo_net\<lparr>rs_links := [LBridge ((NewBridge ''cn1-br'')\<lparr>bg_attrs := attrs0\<lparr>at_Index := 2, at_Name := ''cn1-br''\<rparr>\<rparr>),
        LBond (NewLinkBond (attrs0\<lparr>at_Index := 3, at_Name := ''cn1-bo'', at_MasterIndex := 2\<rparr>))]\<rparr>"

definition host_config :: "string \<Rightarrow> strmap \<Rightarrow> HostNetworkConfig" where
  "host_config mode ips = \<lparr>o_name = ''h1'', o_namespace = [], o_labels = None, o_annotations = None, o_deleting = False,
     hnc_Spec = \<lparr>hs_Description = [], hs_NodeSelector = None, hs_ClusterNetwork = ''cn1'', hs_Underlay = False, hs_VlanID = 7,
       hs_Mode = mode, hs_HostIPs = ips\<rparr>, hnc_Conditions = [], hnc_NodeStatus = None\<rparr>"

text \<open>A DHCP client whose requests are granted.\<close>

definition ref_dhcp :: "ref_state dhcp" where
  "ref_dhcp = \<lparr>dh_New = (\<lambda>_. io_ret ()), dh_Request = (\<lambda>_ c. if c then io_throw (EOther ''context canceled'') else io_ret lease1),
     dh_Renew = (\<lambda>_ c x. if c then io_throw (EOther ''context canceled'') else io_ret x), dh_Release = (\<lambda>_ _. io_ret ())\<rparr>"

definition host_env :: "ref_state hn_env" where
  "host_env = \<lparr>he_caches = caches_of (cluster0\<lparr>cl_cns := [agent_cn],
        cl_nodes := [\<lparr>o_name = ''n1'', o_namespace = [], o_labels = None, o_annotations = None, o_deleting = False, nd_ready = True\<rparr>]\<rparr>),
     he_nl = ref_netlink, he_dh = ref_dhcp, he_srv = (\<lambda>_ _. None), he_node = ''n1'', he_mgmtIntf = ''mgmt-br''\<rparr>"

abbreviation static_config :: HostNetworkConfig where
  "static_config \<equiv> host_config ''static'' (Some [''n1'' \<mapsto> ''10.0.0.5/24''])"

lemma apply_result: "apply_host_network env hnc s = (Inr (Some r), s') \<Longrightarrow> r = hnc"
  by (auto simp: apply_host_network_def Let_def or_unready_ok io_try_result io_bind_result ready_error split: if_splits)

definition returned :: "'a option res \<times> 's \<Rightarrow> bool" where
  "returned r = (case fst r of Inr (Some _) \<Rightarrow> True | _ \<Rightarrow> False)"

lemma returnedE: "returned p \<Longrightarrow> (\<And>r s. p = (Inr (Some r), s) \<Longrightarrow> thesis) \<Longrightarrow> thesis"
  by (cases p) (auto simp: returned_def split: sum.splits option.splits)

lemma host_env_facts:
  "kernel (he_nl host_env) ref_view" "he_nl host_env = ref_netlink" "he_node host_env = ''n1''"
  "matchNode host_env (hs_NodeSelector (hnc_Spec (host_config m ips))) = Inr True" "\<not> o_deleting (host_config m ips)"
  using rk.kernel_axioms by (simp_all add: host_env_def matchNode_def host_config_def)

theorem static_host_network_applied_witness:
  "\<exists>t' k' l' i. Agent_HNC_OnChange host_env (Some static_config) ((Map.empty, host_net), []) = (Inr (Some static_config), (t', k'), l')
     \<and> nv_name (ref_view k') i = Some ''cn1-br.7'' \<and> \<lparr>ad_IP = ''10.0.0.5'', ad_Prefix = 24\<rparr> \<in> nv_addrs (ref_view k') i"
proof -
  let ?s = "((Map.empty, host_net), [])"
  have c: "checkifHostNetworkInterfaceExists ref_netlink static_config host_net = (Inr False, host_net)"
    "returned (Agent_HNC_OnChange host_env (Some static_config) ?s)"
    "ParseAddr ref_netlink ''10.0.0.5/24'' = Inr \<lparr>ad_IP = ''10.0.0.5'', ad_Prefix = 24\<rparr>" "host_device static_config = ''cn1-br.7''"
    by code_simp+
  have c1: "checkifHostNetworkInterfaceExists (he_nl host_env) static_config host_net = (Inr False, host_net)"
    using c(1) by (simp only: host_env_facts)
  from c(2) obtain r t' k' l' where run: "Agent_HNC_OnChange host_env (Some static_config) ?s = (Inr (Some r), (t', k'), l')"
    by (rule returnedE) (metis prod.collapse)
  with apply_result have r: "r = static_config" by (metis OnChange_apply [OF host_env_facts(5,4) c1])
  have m: "hs_Mode (hnc_Spec static_config) = agent_IPModeStatic" "mget (hs_HostIPs (hnc_Spec static_config)) ''n1'' = ''10.0.0.5/24''"
    by (simp_all add: host_config_def agent_IPModeStatic_def mget_def)
  from static_host_network_applied [OF host_env_facts(1,5,4) c1 m(1) run [unfolded r]] c(3,4) m(2) show ?thesis
    using run r by (auto simp: host_env_facts)
qed






section \<open>DHCP\<close>

text \<open>
  \<open>startLeaseManager\<close> that returns no error leaves a running manager for the interface in the table. If
  none was running before, the interface has the address of its lease. If one was running, nothing
  is done at all: an interface that was deleted and created again under a running manager gets no
  address.
\<close>

lemma lease_manager_started:
  assumes "kernel (he_nl env) view" "leases_ok t"
    and "startLeaseManager env b v ((t, k), l) = (Inr (), (t', k'), l')"
  shows "l' = l \<and> (\<exists>lm. t' (GetClusterNetworkBrVlanDevice (link_Name b) v) = Some lm \<and> lmg_running lm
     \<and> (case t (GetClusterNetworkBrVlanDevice (link_Name b) v) of
          Some lm0 \<Rightarrow> lmg_running lm0 \<longrightarrow> t' = t \<and> k' = k
        | None \<Rightarrow> True)
     \<and> ((\<exists>lm0. t (GetClusterNetworkBrVlanDevice (link_Name b) v) = Some lm0 \<and> lmg_running lm0) \<or>
        (\<exists>i a. nv_name (view k') i = Some (GetClusterNetworkBrVlanDevice (link_Name b) v)
           \<and> ParseAddr (he_nl env) (lmg_ipAddr lm) = Inr a \<and> a \<in> nv_addrs (view k') i)))"
proof -
  let ?n = "GetClusterNetworkBrVlanDevice (link_Name b) v"
  obtain q t1 k1 where g0: "getOrCreateLeaseManager env b v (t, k) = (q, t1, k1)" by (metis prod_cases3)
  with assms(3) obtain lm where q: "q = Inr lm" by (cases q) (auto simp: startLeaseManager_def)
  obtain p lm' k2 where s0: "LM_Start (he_dh env) (he_nl env) (lm, k1) = (p, lm', k2)" by (metis prod_cases3)
  from assms(3) g0 q s0 have *: "p = Inr ()" "k2 = k'" and t': "t' = t1(?n \<mapsto> lm')" and l: "l' = l"
    by (simp_all add: startLeaseManager_def)
  note g = g0 [unfolded q] and s = s0 [unfolded *]
  have t1: "leases_ok t1" "t1 ?n = Some lm" using getOrCreate_ok [OF g assms(2)] by simp_all
  show ?thesis
  proof (cases "lmg_running lm")
    case True
    have lm0: "t ?n = Some lm" "t1 = t" "k1 = k"
      using g True by (auto simp: getOrCreateLeaseManager_def Let_def NewLeaseManager_def io_results split: option.splits prod.splits sum.splits)
    from s True have "lm' = lm" "k' = k1" by (auto simp: LM_Start_def)
    with True t' lm0 l show ?thesis by (auto simp: fun_upd_idem)
  next
    case False
    then obtain x ip where o: "obtain_lease (he_dh env) (he_nl env) (lm\<lparr>lmg_cancel := True, lmg_done := False\<rparr>) k1 = (Inr (x, ip), k')"
      and lm': "lm' = lm\<lparr>lmg_cancel := True, lmg_done := False, lmg_lease := Some x, lmg_ipAddr := ip, lmg_running := True\<rparr>"
      using s by (auto simp: LM_Start_def Let_def split: prod.splits sum.splits)
    from o obtain k2 where "SetIPAddress (he_nl env) (lmg_link lm) ip (lmg_vlanID lm) k2 = (Inr (), k')"
      by (auto simp: obtain_lease_def io_bind_result io_lift_def split: if_splits)
    from kernel.SetIPAddress_ok [OF assms(1) this] leases_okD [OF t1]
    have "\<exists>i a. nv_name (view k') i = Some ?n \<and> ParseAddr (he_nl env) ip = Inr a \<and> a \<in> nv_addrs (view k') i" by force
    moreover have "\<not> (\<exists>lm0. t ?n = Some lm0 \<and> lmg_running lm0)"
      using g False by (auto simp: getOrCreateLeaseManager_def Let_def)
    ultimately show ?thesis using l t' lm' by (auto split: option.splits)
  qed
qed

definition host_bridge :: nl_link where
  "host_bridge = LBridge ((NewBridge ''cn1-br'')\<lparr>bg_attrs := attrs0\<lparr>at_Index := 2, at_Name := ''cn1-br''\<rparr>\<rparr>)"

lemma lease_manager_started_witness:
  "\<exists>t' k' lm i. startLeaseManager host_env host_bridge 7 ((Map.empty, demo_net), []) = (Inr (), (t', k'), [])
     \<and> t' ''cn1-br.7'' = Some lm \<and> lmg_running lm \<and> nv_name (ref_view k') i = Some ''cn1-br.7'' \<and> nv_addrs (ref_view k') i \<noteq> {}"
proof -
  let ?r = "startLeaseManager host_env host_bridge 7 ((Map.empty, demo_net), [])"
  have c: "\<not> isl (fst ?r)" "GetClusterNetworkBrVlanDevice (link_Name host_bridge) 7 = ''cn1-br.7''" by code_simp+
  obtain q t' k' l' where q: "?r = (q, (t', k'), l')" by (metis prod.collapse)
  with c(1) have "q = Inr ()" by (cases q) auto
  note run = q [unfolded this]
  have "leases_ok Map.empty" by (simp add: leases_ok_def)
  from lease_manager_started [OF host_env_facts(1) this run] c(2) run show ?thesis by auto
qed

section \<open>Removal\<close>

text \<open>
  When the interface of a config is removed (the config is deleted or no longer selects the node) and
  no error is returned, the VLAN interface is gone, its lease manager is out of the table, and the
  cluster network is requeued so that its uplink drops the id.
\<close>

lemma host_network_removed:
  assumes "kernel (he_nl env) view" "removeHostNetworkInterface env hnc onChange ((t, k), l) = (Inr (Some hnc), (t', k'), l')"
  shows "host_device hnc \<notin> ran (nv_name (view k')) \<and> t' (host_device hnc) = None
     \<and> (\<forall>n. n \<noteq> host_device hnc \<longrightarrow> t' n = t n) \<and> (EnqueueCN (hs_ClusterNetwork (hnc_Spec hnc)), None) \<in> set l'"
proof -
  let ?cn = "hs_ClusterNetwork (hnc_Spec hnc)" and ?v = "hs_VlanID (hnc_Spec hnc)"
  from assms(2) obtain v k1 b k2 k3 s4 k5 s6 where
    g: "vlan_GetVlan (he_nl env) ?cn k = (Inr v, k1)" "GetBridgelink (he_nl env) v k1 = (Inr b, k2)"
    and s: "stopLeaseManager env (GetClusterNetworkBrVlanDevice (link_Name b) ?v) ((t, k3), l) = (Inr (), s4)"
    and d: "on_node (DelVlanSubInterface (he_nl env) b ?v) s4 = (Inr (), k5)"
    and w: "hn_wakeUpClusterNetwork env ?cn k5 = (Inr (), s6)"
    and e: "(if onChange then removeHostNetworkPerNodeStatus env hnc else io_ret ()) s6 = (Inr (), (t', k'), l')"
    by (auto simp: removeHostNetworkInterface_def Let_def io_try_result io_bind_result io_wrap_result on_node_ok
          simp del: on_node_run split: if_splits)
  have dev: "GetClusterNetworkBrVlanDevice (link_Name b) ?v = host_device hnc"
    using kernel.bridge_device [OF assms(1) g] by (simp add: host_device_def)
  obtain k4 where s4: "s4 = ((t(host_device hnc := None), k4), l)"
    using s unfolding dev by (auto simp: stopLeaseManager_def fun_upd_idem split: option.splits)
  obtain k6 where k6: "DelVlanSubInterface (he_nl env) b ?v k4 = (Inr (), k6)" "k5 = ((t(host_device hnc := None), k6), l)"
    using d s4 by (auto simp: on_node_ok simp del: on_node_run)
  have s6: "s6 = ((t(host_device hnc := None), k6), l @ [(EnqueueCN ?cn, None)])"
    using wake_ok w k6(2) by (metis prod.collapse)
  have "t' = t(host_device hnc := None)" "k' = k6" "\<exists>l3. l' = (l @ [(EnqueueCN ?cn, None)]) @ l3"
    using e s6 by (auto simp: removeHostNetworkPerNodeStatus_def io_wrap_result api_ok split: if_splits option.splits)
  moreover have "host_device hnc \<notin> ran (nv_name (view k6))"
    using kernel.DelVlanSubInterface_ok [OF assms(1) k6(1)] dev by simp
  ultimately show ?thesis by auto
qed

abbreviation dhcp_config :: HostNetworkConfig where "dhcp_config \<equiv> host_config ''dhcp'' None"

definition leased :: "ref_state hn_state" where
  "leased = snd (Agent_HNC_OnChange host_env (Some dhcp_config) ((Map.empty, host_net), []))"

lemma host_network_removed_witness:
  "\<exists>t' k' l'. \<not> Option.is_none (fst (fst leased) ''cn1-br.7'')
     \<and> removeHostNetworkInterface host_env dhcp_config False leased = (Inr (Some dhcp_config), (t', k'), l')
     \<and> ''cn1-br.7'' \<notin> ran (nv_name (ref_view k')) \<and> t' ''cn1-br.7'' = None"
proof -
  let ?r = "removeHostNetworkInterface host_env dhcp_config False leased"
  have c: "returned ?r" "\<not> Option.is_none (fst (fst leased) ''cn1-br.7'')" "host_device dhcp_config = ''cn1-br.7''" by code_simp+
  from c(1) obtain r t' k' l' where run: "?r = (Inr (Some r), (t', k'), l')" by (rule returnedE) (metis prod.collapse)
  then have "r = dhcp_config"
    by (auto simp: removeHostNetworkInterface_def Let_def io_try_result io_bind_result split: if_splits)
  moreover obtain t k l where l: "leased = ((t, k), l)" by (metis prod.collapse)
  ultimately have "removeHostNetworkInterface host_env dhcp_config False ((t, k), l) = (Inr (Some dhcp_config), (t', k'), l')"
    using run by simp
  from host_network_removed [OF host_env_facts(1) this] c run \<open>r = dhcp_config\<close> show ?thesis by auto
qed

theorem lease_table_ok_witness:
  "leases_ok (fst (fst leased)) \<and> \<not> Option.is_none (fst (fst leased) ''cn1-br.7'')"
proof -
  have "leases_ok Map.empty" by (simp add: leases_ok_def)
  from lease_table_ok [OF this, of "Agent_HNC_OnChange host_env (Some dhcp_config)" host_env "Some dhcp_config" host_net "[]"]
  have "leases_ok (fst (fst leased))" by (simp add: leased_def)
  moreover have "\<not> Option.is_none (fst (fst leased) ''cn1-br.7'')" by code_simp
  ultimately show ?thesis ..
qed

text \<open>
  When the cluster network is gone from the node, the removal of a config returns at once: a lease
  manager that is still in the table keeps running.
\<close>

lemma removal_without_network:
  assumes "vlan_GetVlan (he_nl env) (hs_ClusterNetwork (hnc_Spec hnc)) k = (Inl e, k')" "IsLinkNotFound e" "\<not> is_panic e"
  shows "Agent_HNC_OnRemove env (Some hnc) ((t, k), l) = (Inr None, (t, k'), l)"
  using assms by (simp add: Agent_HNC_OnRemove_def removeHostNetworkInterface_def Let_def)

text \<open>The two ways in which the code names the interface agree for names of admissible length.\<close>

lemma device_names_agree:
  assumes "length cn \<le> 12"
  shows "GetClusterNetworkVlanDevice cn v = GetClusterNetworkBrVlanDevice (GenerateBridgeName cn) v"
  using assms
  by (simp add: GetClusterNetworkVlanDevice_def GetClusterNetworkBrVlanDevice_def GenerateBridgeName_def generateName_def
        GetClusterNetworkDevicePrefix_def LenOfBridgeSuffix_def BridgeSuffix_def MaxDeviceNameLen_def Let_def)

end
