(* ===== verification/Helper.thy ===== *)
theory Helper
  imports Mgr_Nad Agent_State Ref_Kernel Go_Net
begin

text \<open>
  \<open>pkg/helper\<close> and \<open>cmd/network-helper\<close>: the program of the helper job. It runs in a pod on the VLAN, asks a
  DHCP server for the subnet mask and the router, and records the network in the route annotation of the
  NAD. The state is the pod's kernel, with the DHCP client, and the log of API calls.
\<close>

section \<open>The environment\<close>

text \<open>
  What is read of a DHCP message: the options for router and subnet mask (a missing option is empty)
  and the type. The inform message that is sent has a random transaction id.
\<close>

record DHCPv4 =
  dp_Router :: "8 word list"
  dp_SubnetMask :: "8 word list"
  dp_MessageType :: nat

record dhcp_inform =
  in_Xid :: "32 word"
  in_ClientHWAddr :: string
  in_ClientIPAddr :: string
  in_RequestedOptions :: "string list"
  in_MessageType :: nat

definition MessageTypeNak :: nat where "MessageTypeNak = 6"
definition MessageTypeInform :: nat where "MessageTypeInform = 8"
definition DHCPFailed :: string where "DHCPFailed = ''DHCP failed''"

text \<open>
  The libraries: \<open>nclient4.New\<close> of an interface, for broadcast or with the address of a server; \<open>Close\<close>;
  \<open>DiscoverOffer\<close> and \<open>SendAndRead\<close>; \<open>dhcpv4.New\<close>, which draws the transaction id; the API client's \<open>Get\<close>;
  JSON of the selected networks (interface, namespace, name); and the configuration of the client.
\<close>

record 'k helper_env =
  hp_go :: golib
  hp_nl :: "'k netlink"
  hp_NewClient :: "string \<Rightarrow> 8 word list option \<Rightarrow> ('k, unit) io"
  hp_Close :: "string \<Rightarrow> 'k \<Rightarrow> 'k"
  hp_DiscoverOffer :: "string \<Rightarrow> ('k, DHCPv4) io"
  hp_SendAndRead :: "string \<Rightarrow> 8 word list \<Rightarrow> dhcp_inform \<Rightarrow> ('k, DHCPv4) io"
  hp_NewMessage :: "('k, 32 word) io"
  hp_getNad :: "api_log \<Rightarrow> string \<Rightarrow> string \<Rightarrow> Nad res"
  hp_srv :: api_server
  hp_UnmarshalNetworks :: "string \<Rightarrow> (string \<times> string \<times> string) list res"
  hp_BuildConfigFromFlags :: "string \<Rightarrow> string \<Rightarrow> unit res"
  hp_NewFactoryFromConfig :: "unit res"

text \<open>\<open>defer client.Close()\<close>, then \<open>m\<close>.\<close>

definition closing :: "('s \<Rightarrow> 's) \<Rightarrow> ('s, 'a) io \<Rightarrow> ('s, 'a) io" where
  "closing close m s = (case m s of (r, s') \<Rightarrow> (r, close s'))"

section \<open>DHCP\<close>

definition newInform :: "'k helper_env \<Rightarrow> string \<Rightarrow> string \<Rightarrow> ('k, dhcp_inform) io" where
  "newInform env ciaddr hwaddr =
     io_bind (hp_NewMessage env) (\<lambda>xid.
     io_ret \<lparr>in_Xid = xid, in_ClientHWAddr = hwaddr, in_ClientIPAddr = ciaddr,
             in_RequestedOptions = [''SubnetMask'', ''Router'', ''DomainName'', ''DomainNameServer''],
             in_MessageType = MessageTypeInform\<rparr>)"

definition sendDiscoverMessage :: "'k helper_env \<Rightarrow> string \<Rightarrow> ('k, DHCPv4) io" where
  "sendDiscoverMessage env ifname =
     io_bind (hp_NewClient env ifname None) (\<lambda>_. closing (hp_Close env ifname) (hp_DiscoverOffer env ifname))"

definition sendInformMessage :: "'k helper_env \<Rightarrow> string \<Rightarrow> 8 word list \<Rightarrow> ('k, DHCPv4) io" where
  "sendInformMessage env ifname siaddr =
     io_bind (LinkByName (hp_nl env) ifname) (\<lambda>l.
     io_bind (AddrList (hp_nl env) l) (\<lambda>addresses.
     case addresses of
       [] \<Rightarrow> io_throw (Errorf ''not found IP address'')
     | a # _ \<Rightarrow>
         io_bind (hp_NewClient env ifname (Some siaddr)) (\<lambda>_.
         closing (hp_Close env ifname)
           (io_bind (newInform env (ad_IP a) (at_HardwareAddr (Attrs l))) (\<lambda>inform.
            io_bind (hp_SendAndRead env ifname siaddr inform) (\<lambda>response.
            if dp_MessageType response = MessageTypeNak then io_throw (Errorf ''receive nak, %+v'')
            else io_ret response))))))"

definition obtainCIDRAndGw :: "'k helper_env \<Rightarrow> string \<Rightarrow> 8 word list option \<Rightarrow> ('k, IPNet \<times> 8 word list) io" where
  "obtainCIDRAndGw env ifname serverAddr =
     io_bind (case serverAddr of Some a \<Rightarrow> sendInformMessage env ifname a | None \<Rightarrow> sendDiscoverMessage env ifname) (\<lambda>ack.
     let defaultGateway = dp_Router ack in
     io_ret (\<lparr>net_IP = IP_Mask defaultGateway (dp_SubnetMask ack), net_Mask = dp_SubnetMask ack\<rparr>, defaultGateway))"

section \<open>The helper\<close>

definition GetVLANLayer3Network :: "'k helper_env \<Rightarrow> string \<times> string \<times> string \<Rightarrow> string \<Rightarrow> ('k agent_state, Layer3NetworkConf) io" where
  "GetVLANLayer3Network env selectedNetwork serverIPAddr =
     (let networkConf = L3empty\<lparr>l3_Mode := Auto, l3_ServerIPAddr := serverIPAddr\<rparr> in
      io_try (on_fst (obtainCIDRAndGw env (fst selectedNetwork) (ParseIP (hp_go env) serverIPAddr)))
        (\<lambda>_. io_ret (networkConf\<lparr>l3_Connectivity := DHCPFailed\<rparr>))
        (\<lambda>(cidr, gw). io_ret (networkConf\<lparr>l3_CIDR := IPNet_String cidr, l3_Gateway := IP_String gw\<rparr>)))"

definition RecordToNad :: "'k helper_env \<Rightarrow> string \<times> string \<times> string \<Rightarrow> Layer3NetworkConf \<Rightarrow> ('k agent_state, unit) io" where
  "RecordToNad env selectedNetwork networkConf =
     (case selectedNetwork of (_, ns, n) \<Rightarrow>
        io_bind (\<lambda>s. (hp_getNad env (snd s) ns n, s)) (\<lambda>nad.
        io_bind (io_lift (L3ToString (hp_go env) networkConf)) (\<lambda>confStr.
        api (hp_srv env) (UpdateNad (nad\<lparr>o_annotations := mput KeyNetworkRoute confStr (o_annotations nad)\<rparr>)))))"

definition NewNADSelectedNetworks :: "'k helper_env \<Rightarrow> string \<Rightarrow> (string \<times> string \<times> string) list res" where
  "NewNADSelectedNetworks env conf = bind_res (hp_UnmarshalNetworks env conf) id Inr"

definition helper_run :: "'k helper_env \<Rightarrow> string \<Rightarrow> string \<Rightarrow> string \<Rightarrow> string \<Rightarrow> ('k agent_state, unit) io" where
  "helper_run env masterURL kubeconfig networks dhcpServerIPAddr =
     io_bind (io_lift (bind_res (hp_BuildConfigFromFlags env masterURL kubeconfig) (wrap ''error building config from flags: %w'') Inr)) (\<lambda>_.
     io_bind (io_lift (hp_NewFactoryFromConfig env)) (\<lambda>_.
     io_bind (io_lift (bind_res (NewNADSelectedNetworks env networks)
                (wrap ''failed to create nad selected network, networks: %s, error: %w'') Inr)) (\<lambda>selectedNetworks.
     io_each (\<lambda>sn. io_bind (GetVLANLayer3Network env sn dhcpServerIPAddr) (\<lambda>networkConf.
                   io_wrap (wrap ''failed to record to nad cr, error: %w'') (RecordToNad env sn networkConf)))
       selectedNetworks)))"

text \<open>
  The program started without arguments, as in the job: each flag is its environment variable. An error
  of \<open>run\<close> ends the program with a panic.
\<close>

definition helper_main :: "'k helper_env \<Rightarrow> (string \<Rightarrow> string) \<Rightarrow> ('k agent_state, unit) io" where
  "helper_main env getenv =
     io_wrap panic_with
       (helper_run env (getenv ''MASTERURL'') (getenv ''KUBECONFIG'') (getenv JobEnvNadNetwork) (getenv JobEnvDHCPServer))"

section \<open>The text of the network\<close>

lemma Join_nonempty: "xs \<noteq> [] \<Longrightarrow> hd xs \<noteq> [] \<Longrightarrow> Join xs sep \<noteq> []"
  by (induction xs sep rule: Join.induct) auto

lemma IP_String_nonempty: "IP_String ip \<noteq> []"
proof -
  have "dotted x \<noteq> []" if "x \<noteq> []" for x
    using that unfolding dotted_def by (intro Join_nonempty) (auto simp: hd_map)
  moreover have "string6 x \<noteq> []" if "length x = 16" for x
  proof -
    have "groups x \<noteq> []" using that by (cases x rule: groups.cases) auto
    moreover have "hex_group g \<noteq> []" for g by (simp add: hex_group_def Let_def)
    ultimately have "Join (map hex_group (groups x)) '':'' \<noteq> []" by (intro Join_nonempty) (auto simp: hd_map)
    then show ?thesis by (auto simp: string6_def Let_def split: prod.splits)
  qed
  ultimately show ?thesis
    by (auto simp: IP_String_def To4_def)
qed

lemma IPNet_String_nonempty: "IPNet_String n \<noteq> []"
  by (auto simp: IPNet_String_def split: option.splits)

lemma length_CIDRMask [simp]: "length (CIDRMask p) = 4"
  by (simp add: CIDRMask_def)

text \<open>An IPv4 router and the mask of a prefix give the network in the usual notation.\<close>

lemma network_text:
  assumes "length gw = 4" "p \<le> 32"
  shows "IP_String gw = dotted gw"
    and "IPNet_String \<lparr>net_IP = IP_Mask gw (CIDRMask p), net_Mask = CIDRMask p\<rparr>
           = dotted (map2 (AND) gw (CIDRMask p)) @ ''/'' @ Itoa (int p)"
  using assms
  by (auto simp: IP_String_def IPNet_String_def networkNumberAndMask_def To4_def IP_Mask_def CIDRMask_Size simp flip: length_0_conv)

text \<open>Without a router, or with several, there is no network number.\<close>

lemma network_text_bad:
  assumes "length gw \<noteq> 4" "length gw \<noteq> 16" "length m = 4"
  shows "IPNet_String \<lparr>net_IP = IP_Mask gw m, net_Mask = m\<rparr> = ''<nil>''"
  using assms by (simp add: IPNet_String_def networkNumberAndMask_def To4_def IP_Mask_def)

lemma obtain_discovered:
  assumes "hp_NewClient env i None k = (Inr (), k1)" "hp_DiscoverOffer env i k1 = (Inr ack, k2)"
  shows "obtainCIDRAndGw env i None k = (Inr (\<lparr>net_IP = IP_Mask (dp_Router ack) (dp_SubnetMask ack), net_Mask = dp_SubnetMask ack\<rparr>, dp_Router ack), hp_Close env i k2)"
  using assms by (simp add: obtainCIDRAndGw_def sendDiscoverMessage_def closing_def io_bind_def Let_def)

section \<open>What the helper records\<close>

text \<open>The configuration for an outcome of DHCP.\<close>

definition layer3_of :: "string \<Rightarrow> (IPNet \<times> 8 word list) res \<Rightarrow> Layer3NetworkConf" where
  "layer3_of server r =
     (case r of
        Inl _ \<Rightarrow> \<lparr>l3_Mode = Auto, l3_CIDR = [], l3_Gateway = [], l3_ServerIPAddr = server, l3_Connectivity = DHCPFailed, l3_Outdated = False\<rparr>
      | Inr (cidr, gw) \<Rightarrow> \<lparr>l3_Mode = Auto, l3_CIDR = IPNet_String cidr, l3_Gateway = IP_String gw, l3_ServerIPAddr = server,
                           l3_Connectivity = [], l3_Outdated = False\<rparr>)"

lemma GetVLANLayer3Network_run:
  "GetVLANLayer3Network env sn server (k, l) = (Inr conf, k', l') \<Longrightarrow>
     l' = l \<and> conf = layer3_of server (fst (obtainCIDRAndGw env (fst sn) (ParseIP (hp_go env) server) k))"
  by (auto simp: GetVLANLayer3Network_def Let_def io_try_result layer3_of_def L3empty_def split: prod.splits)

lemma helper_main_records:
  assumes "helper_main env getenv (k, l) = (Inr (), k', l')"
    and "hp_UnmarshalNetworks env (getenv JobEnvNadNetwork) = Inr [(i, ns, n)]"
  shows "\<exists>nad s. hp_getNad env l ns n = Inr nad
     \<and> MarshalL3 (hp_go env) (layer3_of (getenv JobEnvDHCPServer)
          (fst (obtainCIDRAndGw env i (ParseIP (hp_go env) (getenv JobEnvDHCPServer)) k))) = Inr s
     \<and> l' = l @ [(UpdateNad (nad\<lparr>o_annotations := mput KeyNetworkRoute s (o_annotations nad)\<rparr>), None)]"
proof -
  from assms obtain conf k1 l1 where g: "GetVLANLayer3Network env (i, ns, n) (getenv JobEnvDHCPServer) (k, l) = (Inr conf, k1, l1)"
    and r: "RecordToNad env (i, ns, n) conf (k1, l1) = (Inr (), k', l')"
    by (auto simp: helper_main_def helper_run_def NewNADSelectedNetworks_def io_results bind_res_def io_lift_def split: sum.splits)
  note l1 = GetVLANLayer3Network_run [OF g]
  from r l1 show ?thesis
    by (auto simp: RecordToNad_def io_results L3ToString_def bind_res_def api_run io_lift_def split: sum.splits option.splits)
qed

section \<open>What the manager makes of it\<close>

text \<open>Neither clearing an old job nor the first ping creates a job.\<close>

lemma clearOutdatedJob_calls:
  "clearOutdatedJob m h srv nad netconf conf (chk, l) = (r, chk', l') \<Longrightarrow> \<exists>k. l' = l @ k \<and> (\<forall>a \<in> set k. \<forall>j. fst a \<noteq> CreateJob j)"
  by (auto simp: clearOutdatedJob_def Let_def act_then_def on_log_def act_ignore_def call_def removeItem_def
      split: sum.splits if_splits option.splits)

lemma initializeConnectivity_calls: "makes (\<lambda>a. \<forall>j. a \<noteq> CreateJob j) (initializeConnectivity m srv nad conf)"
  by (auto simp: initializeConnectivity_def updateNetworkConf_def act_bind_def intro!: go_api split: sum.splits)

lemma EnsureJob_accepts:
  assumes "mget (o_annotations nad) KeyNetworkRoute = s" "s \<noteq> []" "NewLayer3NetworkConf (go m) s = Inr conf"
    and "\<not> IsOverlayNad (Some nad)" "l3_Mode conf = Auto" "l3_CIDR conf \<noteq> []" "l3_Gateway conf \<noteq> []" "\<not> l3_Outdated conf"
    and "EnsureJob2GetLayer3NetworkInfo m h srv nad netconf (chk, l) = (None, chk', l')"
  shows "chk' (o_namespace nad, o_name nad) = Some (l3_Gateway conf)"
    "\<exists>k. l' = l @ k \<and> (\<forall>a \<in> set k. \<forall>j. fst a \<noteq> CreateJob j)"
proof -
  let ?ping = "act_ignore (\<lambda>e. \<not> is_panic e) (initializeConnectivity m srv nad conf)"
  from assms obtain chk1 l1 chk2 l2 where c: "clearOutdatedJob m h srv nad netconf conf (chk, l) = (None, chk1, l1)"
    and p: "(if l3_Connectivity conf = [] then on_log ?ping else act_ok) (chk1, l1) = (None, chk2, l2)"
    and a: "addItem (o_namespace nad) (o_name nad) (l3_Gateway conf) (chk2, l2) = (None, chk', l')"
    by (auto simp: EnsureJob2GetLayer3NetworkInfo_def GetNadAnnotation_def act_then_None Let_def)
  from a show "chk' (o_namespace nad, o_name nad) = Some (l3_Gateway conf)"
    by (auto simp: addItem_def split: if_splits)
  have "\<exists>k. l2 = l1 @ k \<and> (\<forall>a \<in> set k. \<forall>j. fst a \<noteq> CreateJob j)"
    using p makesD [OF initializeConnectivity_calls, of m srv nad conf l1]
    by (auto simp: on_log_def act_ignore_def split: if_splits prod.splits option.splits)
  then obtain k1 k2 where "l1 = l @ k1" "l2 = l1 @ k2" "\<forall>a \<in> set k1. \<forall>j. fst a \<noteq> CreateJob j" "\<forall>a \<in> set k2. \<forall>j. fst a \<noteq> CreateJob j"
    using clearOutdatedJob_calls [OF c] by blast
  moreover from a have "l' = l2" by (simp add: addItem_def)
  ultimately show "\<exists>k. l' = l @ k \<and> (\<forall>a \<in> set k. \<forall>j. fst a \<noteq> CreateJob j)"
    by (intro exI [of _ "k1 @ k2"]) (simp add: ball_Un)
qed

section \<open>From the job to the checks of the manager\<close>

text \<open>
  The environment of a job's pod: a variable has its value, or that of the field it refers to; an
  annotation as a field is that of the pod.
\<close>

definition pod_env :: "Job \<Rightarrow> (string \<Rightarrow> string) \<Rightarrow> bool" where
  "pod_env job getenv \<longleftrightarrow>
     (\<exists>fieldRef. (\<forall>key. fieldRef (''metadata.annotations['' @ [CHR 39] @ key @ [CHR 39] @ '']'') = mget (jb_TemplateAnnotations job) key)
        \<and> (\<forall>ct \<in> set (jb_Containers job). \<forall>v \<in> set (ct_Env ct).
             getenv (ev_Name v) = (case ev_FieldPath v of None \<Rightarrow> ev_Value v | Some p \<Rightarrow> fieldRef p)))"

lemma job_pod_env:
  assumes "constructJob m None nad netconf l3 = Inr job" "pod_env job getenv"
  shows "MarshalNetworks m [(defaultInterface, o_namespace nad, o_name nad)] = Inr (getenv JobEnvNadNetwork)"
    and "getenv JobEnvDHCPServer = l3_ServerIPAddr l3"
proof -
  from assms(1) obtain s ct where s: "MarshalNetworks m [(defaultInterface, o_namespace nad, o_name nad)] = Inr s"
    and job: "jb_Containers job = [ct]" "ct_Env ct = job_env m l3" "mget (jb_TemplateAnnotations job) NetworkAttachmentAnnot = s"
    by (auto simp: constructJob_def Let_def)
  from assms(2) job(1) obtain fieldRef where f: "\<And>key. fieldRef (''metadata.annotations['' @ [CHR 39] @ key @ [CHR 39] @ '']'') = mget (jb_TemplateAnnotations job) key"
    and e: "\<And>v. v \<in> set (job_env m l3) \<Longrightarrow> getenv (ev_Name v) = (case ev_FieldPath v of None \<Rightarrow> ev_Value v | Some p \<Rightarrow> fieldRef p)"
    by (auto simp: pod_env_def job(2))
  from e [of "\<lparr>ev_Name = JobEnvNadNetwork, ev_Value = [],
       ev_FieldPath = Some (''metadata.annotations['' @ [CHR 39] @ NetworkAttachmentAnnot @ [CHR 39] @ '']'')\<rparr>"]
  have "getenv JobEnvNadNetwork = s" unfolding job_env_def using f [of NetworkAttachmentAnnot] job(3) by simp
  with s show "MarshalNetworks m [(defaultInterface, o_namespace nad, o_name nad)] = Inr (getenv JobEnvNadNetwork)" by simp
  from e [of "\<lparr>ev_Name = JobEnvDHCPServer, ev_Value = GetDHCPServerIPAddr (Some l3), ev_FieldPath = None\<rparr>"]
  show "getenv JobEnvDHCPServer = l3_ServerIPAddr l3" by (simp add: job_env_def GetDHCPServerIPAddr_def)
qed

lemma layer3_of_facts [simp]:
  "l3_Mode (layer3_of server r) = Auto" "\<not> l3_Outdated (layer3_of server r)"
  "l3_CIDR (layer3_of server (Inr (cidr, gw))) = IPNet_String cidr" "l3_Gateway (layer3_of server (Inr (cidr, gw))) = IP_String gw"
  "l3_Connectivity (layer3_of server (Inr x)) = []"
  by (auto simp: layer3_of_def split: sum.splits prod.splits)

abbreviation stored_nad :: "cluster \<Rightarrow> string \<Rightarrow> string \<Rightarrow> Nad res" where
  "stored_nad c ns n \<equiv> store_get (indexer (cl_nads c)) ns n"

lemma stored_nad_key: "store_get xs ns n = Inr nad \<Longrightarrow> key_of nad = (ns, n) \<and> o_namespace nad = ns \<and> o_name nad = n" for nad :: Nad
  by (auto simp: store_get_def key_of_def dest!: find_SomeD split: option.splits)

lemma stored_nad_update:
  fixes nad :: Nad
  assumes "store_get (indexer xs) ns n = Inr nad"
  shows "store_get (indexer (nad\<lparr>o_annotations := a\<rparr> # xs)) ns' n' =
    (if (ns', n') = (ns, n) then Inr (nad\<lparr>o_annotations := a\<rparr>) else store_get (indexer xs) ns' n')"
  using stored_nad_key [OF assms] by (simp add: store_get_def find_indexer_Cons) (simp add: key_of_def)

lemma Auto_not_Manual: "Auto \<noteq> Manual"
  by (simp add: Auto_def Manual_def)

lemma layer3_recorded:
  assumes "constructJob m None nad netconf l3 = Inr job" "pod_env job getenv"
    and "\<And>xs s. MarshalNetworks m xs = Inr s \<Longrightarrow> hp_UnmarshalNetworks env s = Inr xs"
    and "\<And>x s. MarshalL3 (hp_go env) x = Inr s \<Longrightarrow> s \<noteq> [] \<and> UnmarshalL3 (hp_go env) s = Inr x"
    and "hp_getNad env = (\<lambda>l. stored_nad (cluster_after l c))"
    and "helper_main env getenv (k, []) = (Inr (), k', log)"
  shows "\<exists>nad'. o_namespace nad' = o_namespace nad \<and> o_name nad' = o_name nad \<and> mget (o_annotations nad') KeyNetworkRoute \<noteq> []
     \<and> (\<forall>ns n. stored_nad (cluster_after log c) ns n = (if (ns, n) = (o_namespace nad, o_name nad) then Inr nad' else stored_nad c ns n))
     \<and> NewLayer3NetworkConf (hp_go env) (mget (o_annotations nad') KeyNetworkRoute) = Inr (layer3_of (l3_ServerIPAddr l3)
          (fst (obtainCIDRAndGw env defaultInterface (ParseIP (hp_go env) (l3_ServerIPAddr l3)) k)))"
proof -
  note e = job_pod_env [OF assms(1,2)]
  obtain nad0 s where nad0: "stored_nad c (o_namespace nad) (o_name nad) = Inr nad0"
    and s: "MarshalL3 (hp_go env) (layer3_of (l3_ServerIPAddr l3)
          (fst (obtainCIDRAndGw env defaultInterface (ParseIP (hp_go env) (l3_ServerIPAddr l3)) k))) = Inr s"
    and log: "log = [(UpdateNad (nad0\<lparr>o_annotations := mput KeyNetworkRoute s (o_annotations nad0)\<rparr>), None)]"
    using helper_main_records [OF assms(6) assms(3) [OF e(1)]] by (auto simp: assms(5) e(2))
  from assms(4) [OF s] have "NewLayer3NetworkConf (hp_go env) s = Inr (layer3_of (l3_ServerIPAddr l3)
          (fst (obtainCIDRAndGw env defaultInterface (ParseIP (hp_go env) (l3_ServerIPAddr l3)) k)))" "s \<noteq> []"
    by (auto simp: NewLayer3NetworkConf_def validateL3_def Auto_not_Manual)
  then show ?thesis
    using stored_nad_update [OF nad0] stored_nad_key [OF nad0]
    by (intro exI [of _ "nad0\<lparr>o_annotations := mput KeyNetworkRoute s (o_annotations nad0)\<rparr>"]) (simp add: log logged_def)
qed

text \<open>
  C24. From the job to the checks: when the helper, started by the manager's job for a NAD, ends without
  error, the NAD has a route annotation with mode auto and the job's DHCP server, which holds the network and
  gateway of the server's answer, or the mark of a failure; other NADs are as before. If there was
  an answer, a run of the manager for this NAD without error has the gateway among its connectivity checks
  and creates no further job.
\<close>

theorem layer3_discovered:
  assumes "constructJob m None nad netconf l3 = Inr job" "pod_env job getenv"
    and "\<And>xs s. MarshalNetworks m xs = Inr s \<Longrightarrow> hp_UnmarshalNetworks env s = Inr xs" "go m = hp_go env"
    and "\<And>x s. MarshalL3 (hp_go env) x = Inr s \<Longrightarrow> s \<noteq> [] \<and> UnmarshalL3 (hp_go env) s = Inr x"
    and "hp_getNad env = (\<lambda>l. stored_nad (cluster_after l c))"
    and "helper_main env getenv (k, []) = (Inr (), k', log)"
    and "answer = fst (obtainCIDRAndGw env defaultInterface (ParseIP (hp_go env) (l3_ServerIPAddr l3)) k)"
  shows "\<exists>nad'. stored_nad (cluster_after log c) (o_namespace nad) (o_name nad) = Inr nad'
     \<and> NewLayer3NetworkConf (hp_go env) (mget (o_annotations nad') KeyNetworkRoute) = Inr (layer3_of (l3_ServerIPAddr l3) answer)
     \<and> (\<forall>ns n. (ns, n) \<noteq> (o_namespace nad, o_name nad) \<longrightarrow> stored_nad (cluster_after log c) ns n = stored_nad c ns n)
     \<and> (\<forall>cidr gw h srv chk l chk' l'. answer = Inr (cidr, gw) \<and> \<not> IsOverlayNad (Some nad')
          \<and> EnsureJob2GetLayer3NetworkInfo m h srv nad' netconf (chk, l) = (None, chk', l') \<longrightarrow>
            chk' (o_namespace nad, o_name nad) = Some (IP_String gw)
            \<and> (\<exists>calls. l' = l @ calls \<and> (\<forall>a \<in> set calls. \<forall>j. fst a \<noteq> CreateJob j)))"
proof -
  from layer3_recorded [OF assms(1-3,5-7)] obtain nad' where key: "o_namespace nad' = o_namespace nad" "o_name nad' = o_name nad"
    and route: "mget (o_annotations nad') KeyNetworkRoute \<noteq> []"
    and after: "\<And>ns n. stored_nad (cluster_after log c) ns n = (if (ns, n) = (o_namespace nad, o_name nad) then Inr nad' else stored_nad c ns n)"
    and conf: "NewLayer3NetworkConf (hp_go env) (mget (o_annotations nad') KeyNetworkRoute) = Inr (layer3_of (l3_ServerIPAddr l3) answer)"
    unfolding assms(8) by metis
  show ?thesis
  proof (intro exI [of _ nad'] conjI allI impI)
    fix cidr gw h srv chk l chk' l'
    assume a: "answer = Inr (cidr, gw) \<and> \<not> IsOverlayNad (Some nad')
      \<and> EnsureJob2GetLayer3NetworkInfo m h srv nad' netconf (chk, l) = (None, chk', l')"
    with EnsureJob_accepts [OF refl route conf [folded assms(4)], of h srv netconf chk l chk' l']
    show "chk' (o_namespace nad, o_name nad) = Some (IP_String gw)"
      "\<exists>calls. l' = l @ calls \<and> (\<forall>a \<in> set calls. \<forall>j. fst a \<noteq> CreateJob j)"
      by (simp_all add: key IPNet_String_nonempty IP_String_nonempty)
  qed (auto simp: after conf)
qed

text \<open>A helper pod whose DHCP server gives one answer.\<close>

definition helper_answer :: "8 word list \<Rightarrow> DHCPv4" where
  "helper_answer router = \<lparr>dp_Router = router, dp_SubnetMask = CIDRMask 23, dp_MessageType = 2\<rparr>"

definition helper_conf :: "8 word list \<Rightarrow> Layer3NetworkConf" where
  "helper_conf router = layer3_of [] (Inr (\<lparr>net_IP = IP_Mask router (CIDRMask 23), net_Mask = CIDRMask 23\<rparr>, router))"

definition helper_golib :: "8 word list \<Rightarrow> golib" where
  "helper_golib router = demo_golib\<lparr>UnmarshalL3 := (\<lambda>_. Inr (helper_conf router)),
     MarshalL3 := (\<lambda>x. if x = helper_conf router then Inr ''{}'' else Inl (EOther ''unsupported''))\<rparr>"

definition helper_cluster :: cluster where
  "helper_cluster = cluster0\<lparr>cl_nads := [demo_nad ''{}'']\<rparr>"

definition helper_demo :: "8 word list \<Rightarrow> ref_state helper_env" where
  "helper_demo router = \<lparr>hp_go = helper_golib router, hp_nl = ref_netlink, hp_NewClient = (\<lambda>_ _. io_ret ()), hp_Close = (\<lambda>_ k. k),
     hp_DiscoverOffer = (\<lambda>_. io_ret (helper_answer router)), hp_SendAndRead = (\<lambda>_ _ _. io_throw (EOther ''timeout'')),
     hp_NewMessage = io_ret 7, hp_getNad = (\<lambda>l. stored_nad (cluster_after l helper_cluster)), hp_srv = (\<lambda>_ _. None),
     hp_UnmarshalNetworks = (\<lambda>_. Inr [(''net1'', ''default'', ''n1'')]), hp_BuildConfigFromFlags = (\<lambda>_ _. Inr ()),
     hp_NewFactoryFromConfig = Inr ()\<rparr>"

definition helper_mgr :: "8 word list \<Rightarrow> mgr_env" where
  "helper_mgr router = demo_env\<lparr>go := helper_golib router,
     MarshalNetworks := (\<lambda>xs. if xs = [(''net1'', ''default'', ''n1'')] then Inr ''[]'' else Inl (EOther ''unsupported''))\<rparr>"

definition helper_getenv :: "string \<Rightarrow> string" where
  "helper_getenv v = (if v = JobEnvNadNetwork then ''[]'' else [])"

definition helper_state :: ref_state where
  "helper_state = \<lparr>rs_links = [], rs_vlans = [], rs_addrs = [], rs_script = []\<rparr>"

lemma helper_job:
  obtains job where "constructJob (helper_mgr router) None (demo_nad ''{}'') None L3empty = Inr job" "pod_env job helper_getenv"
proof -
  obtain job where job: "constructJob (helper_mgr router) None (demo_nad ''{}'') None L3empty = Inr job"
    by (simp add: constructJob_def helper_mgr_def demo_nad_def defaultInterface_def Let_def)
  let ?f = "\<lambda>p. let key = butlast (butlast (drop 22 p)) in mget (jb_TemplateAnnotations job) key"
  have f: "?f (''metadata.annotations['' @ [CHR 39] @ key @ [CHR 39] @ '']'') = mget (jb_TemplateAnnotations job) key" for key
    by (simp add: butlast_append)
  have "pod_env job helper_getenv"
    unfolding pod_env_def
  proof (rule exI [of _ ?f], intro conjI allI ballI)
    show "?f (''metadata.annotations['' @ [CHR 39] @ key @ [CHR 39] @ '']'') = mget (jb_TemplateAnnotations job) key" for key by (rule f)
    fix ct v assume "ct \<in> set (jb_Containers job)" "v \<in> set (ct_Env ct)"
    with job f [of NetworkAttachmentAnnot] show "helper_getenv (ev_Name v) = (case ev_FieldPath v of None \<Rightarrow> ev_Value v | Some p \<Rightarrow> ?f p)"
      by (auto simp: constructJob_def helper_mgr_def demo_nad_def defaultInterface_def Let_def job_env_def demo_env_def helper_getenv_def
          JobEnvNadNetwork_def JobEnvDHCPServer_def GetDHCPServerIPAddr_def L3empty_def)
  qed
  with job that show thesis by blast
qed

lemma helper_demo_laws:
  "MarshalNetworks (helper_mgr router) xs = Inr s \<Longrightarrow> hp_UnmarshalNetworks (helper_demo router) s = Inr xs"
  "go (helper_mgr router) = hp_go (helper_demo router)"
  "MarshalL3 (hp_go (helper_demo router)) x = Inr t \<Longrightarrow> t \<noteq> [] \<and> UnmarshalL3 (hp_go (helper_demo router)) t = Inr x"
  "hp_getNad (helper_demo router) = (\<lambda>l. stored_nad (cluster_after l helper_cluster))"
  "ParseIP (hp_go (helper_demo router)) (l3_ServerIPAddr L3empty) = None"
  "hp_NewClient (helper_demo router) i None k = (Inr (), k)" "hp_DiscoverOffer (helper_demo router) i k = (Inr (helper_answer router), k)"
  by (auto simp: helper_mgr_def helper_demo_def helper_golib_def demo_golib_def split: if_splits)

lemma helper_demo_run:
  obtains log where "helper_main (helper_demo router) helper_getenv (helper_state, []) = (Inr (), helper_state, log)"
proof -
  have "GetVLANLayer3Network (helper_demo router) (''net1'', ns, n) [] (helper_state, []) = (Inr (helper_conf router), helper_state, [])" for ns n
    using obtain_discovered [OF helper_demo_laws(6,7)] helper_demo_laws(5) [of router]
    by (simp add: GetVLANLayer3Network_def L3empty_def Let_def io_try_def helper_conf_def layer3_of_def helper_answer_def)
       (simp add: helper_demo_def)
  then show thesis using that
    by (simp add: helper_main_def helper_run_def NewNADSelectedNetworks_def RecordToNad_def L3ToString_def api_run
        helper_getenv_def JobEnvDHCPServer_def JobEnvNadNetwork_def helper_demo_def helper_golib_def io_wrap_def io_bind_def
        helper_cluster_def cluster0_def store_get_def indexer_def store_put_def key_of_def demo_nad_def)
qed

lemma helper_conf_texts:
  "l3_CIDR (helper_conf [10, 0, 3, 1]) = ''10.0.2.0/23''" "l3_Gateway (helper_conf [10, 0, 3, 1]) = ''10.0.3.1''"
  "l3_Gateway (helper_conf []) = ''<nil>''" "length (dp_SubnetMask (helper_answer [])) = 4"
  by code_simp+

theorem layer3_discovered_witness:
  "\<exists>log nad' conf. fst (helper_main (helper_demo [10, 0, 3, 1]) helper_getenv (helper_state, [])) = Inr ()
     \<and> stored_nad (cluster_after log helper_cluster) ''default'' ''n1'' = Inr nad'
     \<and> NewLayer3NetworkConf (helper_golib [10, 0, 3, 1]) (mget (o_annotations nad') KeyNetworkRoute) = Inr conf
     \<and> l3_CIDR conf = ''10.0.2.0/23'' \<and> l3_Gateway conf = ''10.0.3.1''"
proof -
  let ?r = "[10, 0, 3, 1] :: 8 word list"
  obtain job where job: "constructJob (helper_mgr ?r) None (demo_nad ''{}'') None L3empty = Inr job" "pod_env job helper_getenv"
    by (rule helper_job)
  obtain log where run: "helper_main (helper_demo ?r) helper_getenv (helper_state, []) = (Inr (), helper_state, log)"
    by (rule helper_demo_run)
  have "fst (obtainCIDRAndGw (helper_demo ?r) defaultInterface (ParseIP (hp_go (helper_demo ?r)) (l3_ServerIPAddr L3empty)) helper_state)
      = Inr (\<lparr>net_IP = IP_Mask ?r (CIDRMask 23), net_Mask = CIDRMask 23\<rparr>, ?r)"
    by (simp add: helper_demo_laws(5) obtain_discovered [OF helper_demo_laws(6,7)] helper_answer_def)
  from layer3_discovered [OF job helper_demo_laws(1-4) run this [symmetric]]
  obtain nad' where "stored_nad (cluster_after log helper_cluster) ''default'' ''n1'' = Inr nad'"
    "NewLayer3NetworkConf (helper_golib ?r) (mget (o_annotations nad') KeyNetworkRoute) = Inr (helper_conf ?r)"
    by (auto simp: demo_nad_def helper_conf_def L3empty_def helper_demo_def)
  with run helper_conf_texts show ?thesis by (auto intro!: exI [of _ log] exI [of _ nad'])
qed

section \<open>Answers without a single router\<close>

text \<open>
  C38. A DHCP answer without a router, or with more than one (but not four), is recorded as the network
  \<open><nil>\<close> without the mark of a failure, and the manager takes it for the result: it checks the
  connectivity of a gateway that is not an address and creates no further job.
\<close>

theorem bad_router_accepted:
  assumes "constructJob m None nad netconf l3 = Inr job" "pod_env job getenv"
    and "\<And>xs s. MarshalNetworks m xs = Inr s \<Longrightarrow> hp_UnmarshalNetworks env s = Inr xs" "go m = hp_go env"
    and "\<And>x s. MarshalL3 (hp_go env) x = Inr s \<Longrightarrow> s \<noteq> [] \<and> UnmarshalL3 (hp_go env) s = Inr x"
    and "hp_getNad env = (\<lambda>l. stored_nad (cluster_after l c))"
    and "helper_main env getenv (k, []) = (Inr (), k', log)"
    and "ParseIP (hp_go env) (l3_ServerIPAddr l3) = None"
    and "hp_NewClient env defaultInterface None k = (Inr (), k1)" "hp_DiscoverOffer env defaultInterface k1 = (Inr ack, k2)"
    and "length (dp_Router ack) \<notin> {4, 16}" "length (dp_SubnetMask ack) = 4"
  shows "\<exists>nad' conf. stored_nad (cluster_after log c) (o_namespace nad) (o_name nad) = Inr nad'
     \<and> NewLayer3NetworkConf (hp_go env) (mget (o_annotations nad') KeyNetworkRoute) = Inr conf
     \<and> l3_CIDR conf = ''<nil>'' \<and> l3_Connectivity conf = [] \<and> l3_Gateway conf = IP_String (dp_Router ack)
     \<and> (dp_Router ack = [] \<longrightarrow> l3_Gateway conf = ''<nil>'')
     \<and> (\<forall>h srv chk l chk' l'. \<not> IsOverlayNad (Some nad')
          \<and> EnsureJob2GetLayer3NetworkInfo m h srv nad' netconf (chk, l) = (None, chk', l') \<longrightarrow>
            chk' (o_namespace nad, o_name nad) = Some (l3_Gateway conf)
            \<and> (\<exists>calls. l' = l @ calls \<and> (\<forall>a \<in> set calls. \<forall>j. fst a \<noteq> CreateJob j)))"
proof -
  let ?cidr = "\<lparr>net_IP = IP_Mask (dp_Router ack) (dp_SubnetMask ack), net_Mask = dp_SubnetMask ack\<rparr>"
  let ?conf = "layer3_of (l3_ServerIPAddr l3) (Inr (?cidr, dp_Router ack))"
  from layer3_recorded [OF assms(1-3,5-7)] obtain nad' where key: "o_namespace nad' = o_namespace nad" "o_name nad' = o_name nad"
    and route: "mget (o_annotations nad') KeyNetworkRoute \<noteq> []"
    and after: "stored_nad (cluster_after log c) (o_namespace nad) (o_name nad) = Inr nad'"
    and conf: "NewLayer3NetworkConf (hp_go env) (mget (o_annotations nad') KeyNetworkRoute) = Inr ?conf"
    unfolding assms(8) obtain_discovered [OF assms(9,10)] fst_conv by metis
  note accepts = EnsureJob_accepts [OF refl route conf [folded assms(4)]]
  have "l3_CIDR ?conf = ''<nil>''" using assms(11,12) by (simp add: network_text_bad)
  moreover have "dp_Router ack = [] \<longrightarrow> l3_Gateway ?conf = ''<nil>''" by (simp add: IP_String_def)
  moreover have "chk' (o_namespace nad, o_name nad) = Some (l3_Gateway ?conf)
      \<and> (\<exists>calls. l' = l @ calls \<and> (\<forall>a \<in> set calls. \<forall>j. fst a \<noteq> CreateJob j))"
    if "\<not> IsOverlayNad (Some nad')" "EnsureJob2GetLayer3NetworkInfo m h srv nad' netconf (chk, l) = (None, chk', l')" for h srv chk l chk' l'
    using accepts [OF that(1) _ _ _ _ that(2)] by (simp add: key IPNet_String_nonempty IP_String_nonempty)
  ultimately show ?thesis using after conf by (intro exI [of _ nad'] exI [of _ ?conf]) auto
qed

theorem bad_router_accepted_witness:
  "\<exists>log nad' conf. fst (helper_main (helper_demo []) helper_getenv (helper_state, [])) = Inr ()
     \<and> stored_nad (cluster_after log helper_cluster) ''default'' ''n1'' = Inr nad'
     \<and> NewLayer3NetworkConf (helper_golib []) (mget (o_annotations nad') KeyNetworkRoute) = Inr conf
     \<and> l3_CIDR conf = ''<nil>'' \<and> l3_Gateway conf = ''<nil>''"
proof -
  obtain job where job: "constructJob (helper_mgr []) None (demo_nad ''{}'') None L3empty = Inr job" "pod_env job helper_getenv"
    by (rule helper_job)
  obtain log where run: "helper_main (helper_demo []) helper_getenv (helper_state, []) = (Inr (), helper_state, log)"
    by (rule helper_demo_run)
  have router: "dp_Router (helper_answer []) = []" by (simp add: helper_answer_def)
  then have "length (dp_Router (helper_answer [])) \<notin> {4, 16}" by simp
  from bad_router_accepted [OF job helper_demo_laws(1-4) run helper_demo_laws(5-7) this helper_conf_texts(4)]
  obtain nad' conf where "stored_nad (cluster_after log helper_cluster) ''default'' ''n1'' = Inr nad'"
    "NewLayer3NetworkConf (helper_golib []) (mget (o_annotations nad') KeyNetworkRoute) = Inr conf"
    "l3_CIDR conf = ''<nil>''" "l3_Gateway conf = ''<nil>''"
    by (auto simp: demo_nad_def router helper_demo_def)
  with run show ?thesis by (auto intro!: exI [of _ log] exI [of _ nad'])
qed

end
