(* ===== verification/Startup.thy ===== *)
theory Startup
  imports Go_Io
begin

text \<open>
  Starting the programs: \<open>pkg/utils/crd/crd.go\<close> and \<open>pkg/config/context.go\<close> install the CRD of the NADs and register the
  controllers; \<open>cmd/webhook/main.go\<close> starts the webhook server and restarts it when the CRD of the
  subnets comes or goes; \<open>cmd/network-controller/main.go\<close> runs the manager or the agent. The state is the
  outside world with the API server; the calls of the clients are parameters.
\<close>

section \<open>CRDs\<close>

text \<open>What is read of a CRD: its name, whether it is being deleted, types and statuses of its conditions.\<close>

record CustomResourceDefinition =
  cr_Name :: string
  cr_deleting :: bool
  cr_Conditions :: "(string \<times> string) list"

record GroupVersionKind =
  gk_Group :: string
  gk_Version :: string
  gk_Kind :: string

text \<open>What is read of wrangler's \<open>crd.CRD\<close>, a CRD to install.\<close>

record CRD =
  cd_GVK :: GroupVersionKind
  cd_PluralName :: string

text \<open>
  The clients: \<open>List\<close> and \<open>Get\<close> of CRDs, \<open>ApplyObjects\<close>, the conversion of a \<open>crd.CRD\<close>, \<open>name.GuessPluralName\<close>,
  \<open>apierrors.IsForbidden\<close>, \<open>ctx.Err\<close>, the order in which Go ranges over a map, and how often
  \<open>wait.PollUntilContextTimeout\<close> calls its function in a minute, once every half second at most.
\<close>

record 's crd_client =
  cc_List :: "('s, CustomResourceDefinition list) io"
  cc_Get :: "string \<Rightarrow> ('s, CustomResourceDefinition) io"
  cc_Apply :: "CustomResourceDefinition \<Rightarrow> ('s, unit) io"
  cc_ToCRD :: "CRD \<Rightarrow> CustomResourceDefinition res"
  cc_GuessPluralName :: "string \<Rightarrow> string"
  cc_IsForbidden :: "go_error \<Rightarrow> bool"
  cc_CtxErr :: "('s, unit) io"
  cc_order :: "GroupVersionKind list \<Rightarrow> GroupVersionKind list"
  cc_polls :: nat

definition getCRDName :: "string \<Rightarrow> string \<Rightarrow> string" where
  "getCRDName pluralName groupName = pluralName @ ''.'' @ groupName"

text \<open>The condition that the loops over \<open>crd.Status.Conditions\<close> look for.\<close>

definition established :: "CustomResourceDefinition \<Rightarrow> bool" where
  "established crd = list_ex (\<lambda>(t, st). t = ''Established'' \<and> st = ''True'') (cr_Conditions crd)"

definition ensureAccess :: "'s crd_client \<Rightarrow> ('s, bool) io" where
  "ensureAccess f =
     io_try (cc_List f) (\<lambda>e. if cc_IsForbidden f e then io_ret False else io_throw e) (\<lambda>_. io_ret True)"

definition ready_map :: "CustomResourceDefinition list \<Rightarrow> string \<rightharpoonup> CustomResourceDefinition" where
  "ready_map = foldl (\<lambda>result crd. if established crd then result(cr_Name crd \<mapsto> crd) else result) Map.empty"

definition getReadyCRDs :: "'s crd_client \<Rightarrow> ('s, string \<rightharpoonup> CustomResourceDefinition) io" where
  "getReadyCRDs f = io_bind (cc_List f) (\<lambda>items. io_ret (ready_map items))"

definition createCRD :: "'s crd_client \<Rightarrow> CRD \<Rightarrow> ('s, CustomResourceDefinition) io" where
  "createCRD f crdDef =
     io_bind (io_lift (cc_ToCRD f crdDef)) (\<lambda>crd.
     io_bind (cc_Apply f crd) (\<lambda>_. cc_Get f (cr_Name crd)))"

fun poll_crd :: "'s crd_client \<Rightarrow> string \<Rightarrow> nat \<Rightarrow> ('s, CustomResourceDefinition) io" where
  "poll_crd f crdName 0 = io_throw (EOther ''context deadline exceeded'')"
| "poll_crd f crdName (Suc n) =
     io_bind (cc_Get f crdName) (\<lambda>crd.
     if established crd then io_ret crd
     else io_bind (cc_CtxErr f) (\<lambda>_. poll_crd f crdName n))"

type_synonym crd_status = "GroupVersionKind \<rightharpoonup> CustomResourceDefinition"

definition waitCRD :: "'s crd_client \<Rightarrow> string \<Rightarrow> GroupVersionKind \<Rightarrow> crd_status \<Rightarrow> ('s, crd_status) io" where
  "waitCRD f crdName gvk crdStatus =
     io_bind (poll_crd f crdName (cc_polls f)) (\<lambda>crd. io_ret (crdStatus(gvk \<mapsto> crd)))"

definition crd_name :: "'s crd_client \<Rightarrow> CRD \<Rightarrow> string" where
  "crd_name f crdDef =
     getCRDName (if cd_PluralName crdDef = [] then ToLower (cc_GuessPluralName f (gk_Kind (cd_GVK crdDef))) else cd_PluralName crdDef)
       (gk_Group (cd_GVK crdDef))"

text \<open>The loop that creates; the map of the created ones, with its keys in order of insertion.\<close>

fun create_crds :: "'s crd_client \<Rightarrow> bool \<Rightarrow> (string \<rightharpoonup> CustomResourceDefinition) \<Rightarrow> CRD list \<Rightarrow> crd_status \<Rightarrow> ('s, crd_status) io" where
  "create_crds f updateIfExisted ready [] st = io_ret st"
| "create_crds f updateIfExisted ready (d # ds) st =
     (if \<not> updateIfExisted \<and> ready (crd_name f d) \<noteq> None then create_crds f updateIfExisted ready ds st
      else io_bind (createCRD f d) (\<lambda>crd. create_crds f updateIfExisted ready ds (st(cd_GVK d \<mapsto> crd))))"

text \<open>The loop that waits, over the keys of the map.\<close>

fun await_crds :: "'s crd_client \<Rightarrow> (string \<rightharpoonup> CustomResourceDefinition) \<Rightarrow> GroupVersionKind list \<Rightarrow> crd_status \<Rightarrow> ('s, crd_status) io" where
  "await_crds f ready [] st = io_ret st"
| "await_crds f ready (gvk # gvks) st =
     (case st gvk of
        None \<Rightarrow> await_crds f ready gvks st
      | Some crd \<Rightarrow>
          (case ready (cr_Name crd) of
             Some readyCrd \<Rightarrow> await_crds f ready gvks (st(gvk \<mapsto> readyCrd))
           | None \<Rightarrow> io_bind (waitCRD f (cr_Name crd) gvk st) (await_crds f ready gvks)))"

text \<open>The result is \<open>None\<close> when there is nothing to do or no access, as the nil map.\<close>

definition CreateCRDs :: "'s crd_client \<Rightarrow> bool \<Rightarrow> CRD list \<Rightarrow> ('s, crd_status option) io" where
  "CreateCRDs f updateIfExisted crds =
     (if crds = [] then io_ret None
      else io_bind (ensureAccess f) (\<lambda>ok.
           if \<not> ok then io_ret None
           else io_bind (getReadyCRDs f) (\<lambda>ready.
                io_bind (create_crds f updateIfExisted ready crds Map.empty) (\<lambda>st.
                io_bind (getReadyCRDs f) (\<lambda>ready'.
                io_bind (await_crds f ready' (cc_order f (filter (\<lambda>g. st g \<noteq> None) (remdups (map cd_GVK crds)))) st) (\<lambda>st'.
                io_ret (Some st')))))))"

text \<open>
  \<open>BatchCreateCRDsIfNotExisted\<close> runs \<open>CreateCRDs\<close> in a goroutine that \<open>BatchWait\<close> waits for; the factory keeps
  the first error.
\<close>

definition BatchCreateCRDsIfNotExisted :: "'s crd_client \<Rightarrow> CRD list \<Rightarrow> go_error option \<Rightarrow> ('s, go_error option) io" where
  "BatchCreateCRDsIfNotExisted f crds err =
     io_try (CreateCRDs f False crds) (\<lambda>e. io_ret (if err = None then Some e else err)) (\<lambda>_. io_ret err)"

definition BatchWait :: "go_error option \<Rightarrow> ('s, unit) io" where
  "BatchWait err = (case err of Some e \<Rightarrow> io_throw e | None \<Rightarrow> io_ret ())"

definition createNetworkAttachmentDefinitionCRD :: CRD where
  "createNetworkAttachmentDefinitionCRD =
     \<lparr>cd_GVK = \<lparr>gk_Group = ''k8s.cni.cncf.io'', gk_Version = ''v1'', gk_Kind = ''NetworkAttachmentDefinition''\<rparr>,
      cd_PluralName = ''network-attachment-definitions''\<rparr>"

definition createCRDsIfNotExisted :: "'s crd_client res \<Rightarrow> ('s, unit) io" where
  "createCRDsIfNotExisted newFactory =
     io_bind (io_lift newFactory) (\<lambda>f.
     io_bind (BatchCreateCRDsIfNotExisted f [createNetworkAttachmentDefinitionCRD] None) BatchWait)"

definition Management_Register :: "'s crd_client res \<Rightarrow> ('s, unit) io list \<Rightarrow> ('s, unit) io" where
  "Management_Register newFactory registerFuncList =
     io_bind (createCRDsIfNotExisted newFactory) (\<lambda>_. io_each (\<lambda>f. f) registerFuncList)"

section \<open>Commands\<close>

definition subnetsCRDName :: string where "subnetsCRDName = ''subnets.kubeovn.io''"

text \<open>The client of the API extensions may fail to be built; the text of its error is dropped.\<close>

definition isSubnetsCRDPresent :: "'s crd_client res \<Rightarrow> ('s, bool) io" where
  "isSubnetsCRDPresent newClient =
     (case newClient of
        Inl _ \<Rightarrow> io_throw (Errorf ''error initialising api extensions client'')
      | Inr client \<Rightarrow>
          io_try (cc_Get client subnetsCRDName)
            (\<lambda>e. if IsNotFound e then io_ret False else io_throw (wrap ''error looking up crd %s: %w'' e))
            (\<lambda>obj. io_ret (\<not> cr_deleting obj)))"

text \<open>
  The loop of \<open>watchAndTriggerReload\<close>, over the check: it returns when the server is to be interrupted. A
  sleep lies between two checks.
\<close>

partial_function (option) watchAndTriggerReload :: "('s, bool) io \<Rightarrow> bool \<Rightarrow> 's \<Rightarrow> 's option" where
  "watchAndTriggerReload check initalBootStatus s =
     (case check s of
        (Inr checkStatus, s') \<Rightarrow> if initalBootStatus = checkStatus then watchAndTriggerReload check initalBootStatus s' else Some s'
      | (Inl _, s') \<Rightarrow> watchAndTriggerReload check initalBootStatus s')"

datatype Validator = CnValidator | NadValidator | VlanConfigValidator | HostNetworkConfigValidator | SubnetValidator

datatype Mutator = NadMutator | VlanConfigMutator

text \<open>
  The factories of clients and informers, and the libraries of the webhook server: building a factory, which panics
  without one, adding the index \<open>VMByNetworkIndex\<close> to the informer of a kind of machines, starting the informers,
  registering and starting the server.
\<close>

datatype Factory = HarvesterNetworkFactory | CoreFactory | AppsFactory | BatchFactory | CniFactory | KubeovnFactory | KubevirtFactory

record 's web_server =
  ws_NewFactoryFromConfigOrDie :: "Factory \<Rightarrow> ('s, unit) io"
  ws_AddIndexer :: "string \<Rightarrow> ('s, unit) io"
  ws_StartAll :: "int \<Rightarrow> Factory list \<Rightarrow> ('s, unit) io"
  ws_RegisterMutators :: "Mutator list \<Rightarrow> ('s, unit) io"
  ws_RegisterValidators :: "Validator list \<Rightarrow> ('s, unit) io"
  ws_Start :: "('s, unit) io"

definition webhook_starters :: "bool \<Rightarrow> Factory list" where
  "webhook_starters crdExists =
     [KubevirtFactory, CniFactory, HarvesterNetworkFactory, CoreFactory] @ (if crdExists then [KubeovnFactory] else [])"

definition newCaches :: "'s web_server \<Rightarrow> int \<Rightarrow> bool \<Rightarrow> ('s, unit) io" where
  "newCaches srv threadiness crdExists =
     io_bind (io_each (ws_NewFactoryFromConfigOrDie srv) (webhook_starters crdExists)) (\<lambda>_.
     io_bind (io_each (ws_AddIndexer srv) [''VirtualMachineInstance'', ''VirtualMachine'']) (\<lambda>_.
     ws_StartAll srv threadiness (webhook_starters crdExists)))"

definition webhook_validators :: "bool \<Rightarrow> Validator list" where
  "webhook_validators crdExists =
     [CnValidator, NadValidator, VlanConfigValidator, HostNetworkConfigValidator] @ (if crdExists then [SubnetValidator] else [])"

text \<open>
  \<open>run\<close> up to the start of the goroutine that watches the CRD; the result is the status this goroutine
  compares with. The errors of registering lose their chain (\<open>%v\<close>).
\<close>

definition webhook_run :: "'s crd_client res \<Rightarrow> 's web_server \<Rightarrow> int \<Rightarrow> ('s, bool) io" where
  "webhook_run newClient srv threadiness =
     io_bind (isSubnetsCRDPresent newClient) (\<lambda>crdExists.
     io_bind (newCaches srv threadiness crdExists) (\<lambda>_.
     io_bind (io_wrap (render ''failed to register mutators: %v'') (ws_RegisterMutators srv [NadMutator, VlanConfigMutator])) (\<lambda>_.
     io_bind (io_wrap (render ''failed to register validators: %v'') (ws_RegisterValidators srv (webhook_validators crdExists))) (\<lambda>_.
     io_bind (ws_Start srv) (\<lambda>_. io_ret crdExists)))))"

text \<open>
  The manager and the agent: building the factories of their clients, starting the controllers, and leader
  election, which runs a function when this process leads.
\<close>

record 's controller_env =
  ce_BuildConfigFromFlags :: "('s, unit) io"
  ce_NewForConfig :: "('s, unit) io"
  ce_NewSharedControllerFactory :: "('s, unit) io"
  ce_NewFactory :: "Factory \<Rightarrow> ('s, unit) io"
  ce_StartAll :: "int \<Rightarrow> Factory list \<Rightarrow> ('s, unit) io"
  ce_RunOrDie :: "('s, unit) io \<Rightarrow> ('s, unit) io"
  ce_crds :: "'s crd_client res"

definition SetupManagement :: "'s controller_env \<Rightarrow> ('s, Factory list) io" where
  "SetupManagement env =
     (let starters = [HarvesterNetworkFactory, CoreFactory, AppsFactory, BatchFactory, CniFactory, KubeovnFactory] in
      io_bind (ce_NewSharedControllerFactory env) (\<lambda>_.
      io_bind (io_each (ce_NewFactory env) starters) (\<lambda>_.
      io_bind (ce_NewForConfig env) (\<lambda>_. io_ret starters))))"

definition defaultThreadCount :: int where "defaultThreadCount = 2"

definition controller_run :: "'s controller_env \<Rightarrow> int \<Rightarrow> ('s, unit) io list \<Rightarrow> bool \<Rightarrow> ('s, unit) io" where
  "controller_run env threads registerFuncList leaderelection =
     (let threadiness = (if threads \<le> 0 then defaultThreadCount else threads) in
      io_bind (io_wrap panic_with (ce_BuildConfigFromFlags env)) (\<lambda>_.
      io_bind (io_wrap panic_with (ce_NewForConfig env)) (\<lambda>_.
      io_bind (io_wrap panic_with (SetupManagement env)) (\<lambda>starters.
      let callback = io_bind (io_wrap panic_with (Management_Register (ce_crds env) registerFuncList)) (\<lambda>_.
                     io_wrap panic_with (ce_StartAll env threadiness starters)) in
      if leaderelection then ce_RunOrDie env callback else callback))))"

text \<open>
  The commands set the log level first; one that is not known becomes \<open>info\<close>. The errors of \<open>run\<close> end the program.
\<close>

datatype Level = PanicLevel | FatalLevel | ErrorLevel | WarnLevel | InfoLevel | DebugLevel | TraceLevel

definition ParseLevel :: "string \<Rightarrow> Level res" where
  "ParseLevel lvl =
     (let l = ToLower lvl in
      if l = ''panic'' then Inr PanicLevel
      else if l = ''fatal'' then Inr FatalLevel
      else if l = ''error'' then Inr ErrorLevel
      else if l = ''warn'' \<or> l = ''warning'' then Inr WarnLevel
      else if l = ''info'' then Inr InfoLevel
      else if l = ''debug'' then Inr DebugLevel
      else if l = ''trace'' then Inr TraceLevel
      else Inl (Errorf ''not a valid logrus Level: %q''))"

fun Level_String :: "Level \<Rightarrow> string" where
  "Level_String TraceLevel = ''trace''"
| "Level_String DebugLevel = ''debug''"
| "Level_String InfoLevel = ''info''"
| "Level_String WarnLevel = ''warning''"
| "Level_String ErrorLevel = ''error''"
| "Level_String FatalLevel = ''fatal''"
| "Level_String PanicLevel = ''panic''"

text \<open>The global level of the logger is the state.\<close>

definition SetLogLevel :: "string \<Rightarrow> Level \<Rightarrow> Level" where
  "SetLogLevel level _ = (case ParseLevel level of Inl _ \<Rightarrow> InfoLevel | Inr ll \<Rightarrow> ll)"

definition GetLogLevel :: "Level \<Rightarrow> string" where "GetLogLevel l = Level_String l"

definition GetDefaultLogLevel :: string where "GetDefaultLogLevel = ''info''"

definition IsDefaultLogLevel :: "Level \<Rightarrow> bool" where "IsDefaultLogLevel l \<longleftrightarrow> l = InfoLevel"

lemma log_level_set:
  "SetLogLevel (GetLogLevel l) l' = l" "IsDefaultLogLevel (SetLogLevel GetDefaultLogLevel l')"
  "ParseLevel level = Inl e \<Longrightarrow> IsDefaultLogLevel (SetLogLevel level l')"
proof -
  show "SetLogLevel (GetLogLevel l) l' = l" by (induction l) code_simp+
  show "IsDefaultLogLevel (SetLogLevel GetDefaultLogLevel l')" by code_simp
  show "ParseLevel level = Inl e \<Longrightarrow> IsDefaultLogLevel (SetLogLevel level l')" by (simp add: SetLogLevel_def IsDefaultLogLevel_def)
qed

text \<open>\<open>main\<close> of the webhook server, over the state with the log level: \<open>cfg\<close> builds the client config.\<close>

definition webhook_main :: "('s, unit) io \<Rightarrow> string \<Rightarrow> ('s, bool) io \<Rightarrow> ('s \<times> Level, bool) io" where
  "webhook_main cfg logLevel run =
     io_bind (on_fst (io_wrap panic_with cfg)) (\<lambda>_ (s, l). on_fst (io_wrap panic_with run) (s, SetLogLevel logLevel l))"

text \<open>A command of the network controller: \<open>managerRun\<close> or \<open>agentRun\<close>.\<close>

definition command_action :: "string \<Rightarrow> ('s, unit) io \<Rightarrow> ('s \<times> Level, unit) io" where
  "command_action logLevel run = (\<lambda>(s, l). on_fst (io_wrap panic_with run) (s, SetLogLevel logLevel l))"

section \<open>Command-line flags\<close>

text \<open>
  What is read of a flag: its names, its environment variable and its default. The value of a flag is the
  argument under one of its names, else the environment variable if it is set, else the default.
\<close>

record cli_flag =
  fl_Names :: "string list"
  fl_EnvVar :: string
  fl_Value :: string

definition flag :: "string list \<Rightarrow> string \<Rightarrow> string \<Rightarrow> cli_flag" where
  "flag ns ev d = \<lparr>fl_Names = ns, fl_EnvVar = ev, fl_Value = d\<rparr>"

definition flag_value :: "(string \<rightharpoonup> string) \<Rightarrow> (string \<rightharpoonup> string) \<Rightarrow> cli_flag \<Rightarrow> string" where
  "flag_value args getenv f =
     (case find (\<lambda>n. args n \<noteq> None) (fl_Names f) of
        Some n \<Rightarrow> the (args n)
      | None \<Rightarrow> (case getenv (fl_EnvVar f) of Some v \<Rightarrow> v | None \<Rightarrow> fl_Value f))"

definition cli_String :: "cli_flag list \<Rightarrow> (string \<rightharpoonup> string) \<Rightarrow> (string \<rightharpoonup> string) \<Rightarrow> string \<Rightarrow> string" where
  "cli_String flags args getenv name =
     (case find (\<lambda>f. name \<in> set (fl_Names f)) flags of None \<Rightarrow> [] | Some f \<Rightarrow> flag_value args getenv f)"

definition commonFlags :: "cli_flag list" where
  "commonFlags =
     [flag [''loglevel''] EnvLogLevel GetDefaultLogLevel,
      flag [''node-name''] ''NODENAME'' [],
      flag [''kubeconfig'', ''k''] ''KUBECONFIG'' [],
      flag [''master'', ''m''] ''MASTERURL'' [],
      flag [''namespace'', ''n''] ''NAMESPACE'' [],
      flag [''threads'', ''t''] ''THREADS'' (Itoa defaultThreadCount),
      flag [''enable-vip-controller''] ''ENABLE_VIP_CONTROLLER'' ''false'',
      flag [''helper-image''] ''HELPER_IMAGE'' ''rancher/harvester-network-helper:master-head'']"

definition webhook_flags :: "cli_flag list" where
  "webhook_flags =
     [flag [''loglevel''] EnvLogLevel GetDefaultLogLevel,
      flag [''threadiness''] ''THREADINESS'' ''5'',
      flag [''https-port''] ''WEBHOOK_SERVER_HTTPS_PORT'' ''8443'',
      flag [''namespace''] ''NAMESPACE'' ''harvester-system'',
      flag [''controller-user''] ''CONTROLLER_USER_NAME'' ''system:serviceaccount:harvester-system:harvester-network-controller'',
      flag [''gc-user''] ''GARBAGE_COLLECTION_USER_NAME'' ''system:serviceaccount:kube-system:generic-garbage-collector'']"

record Options =
  op_Namespace :: string
  op_HelperImage :: string
  op_NodeName :: string

definition run_options :: "(string \<rightharpoonup> string) \<Rightarrow> (string \<rightharpoonup> string) \<Rightarrow> Options" where
  "run_options args getenv =
     (let c = cli_String commonFlags args getenv in
      \<lparr>op_Namespace = c ''namespace'', op_HelperImage = c ''helper-image'', op_NodeName = c ''node-name''\<rparr>)"

text \<open>An argument under either of its names goes before the environment, and a flag never becomes that of another one.\<close>

lemma run_options_simps:
  "op_NodeName (run_options args getenv) = (case args ''node-name'' of Some v \<Rightarrow> v | None \<Rightarrow> (case getenv ''NODENAME'' of Some v \<Rightarrow> v | None \<Rightarrow> []))"
  "op_Namespace (run_options args getenv) =
     (case args ''namespace'' of Some v \<Rightarrow> v | None \<Rightarrow> (case args ''n'' of Some v \<Rightarrow> v
        | None \<Rightarrow> (case getenv ''NAMESPACE'' of Some v \<Rightarrow> v | None \<Rightarrow> [])))"
  by (auto simp: run_options_def cli_String_def commonFlags_def flag_def flag_value_def Let_def split: option.splits)

lemma default_threads: "cli_String commonFlags Map.empty Map.empty ''threads'' = ''2''"
  by code_simp

section \<open>Installing CRDs\<close>

lemma ready_map_Some: "ready_map items n = Some crd \<Longrightarrow> crd \<in> set items \<and> established crd \<and> cr_Name crd = n"
proof (induction items rule: rev_induct)
  case (snoc x xs)
  then show ?case by (auto simp: ready_map_def split: if_splits)
qed (simp add: ready_map_def)

lemma ready_map_None: "ready_map items n = None \<longleftrightarrow> (\<forall>crd \<in> set items. established crd \<longrightarrow> cr_Name crd \<noteq> n)"
  by (induction items rule: rev_induct) (auto simp: ready_map_def)

lemma poll_crd_established: "poll_crd f n k s = (Inr crd, s') \<Longrightarrow> established crd"
  by (induction k arbitrary: s) (auto simp: io_bind_result split: if_splits)

lemma create_crds_keys:
  "create_crds f u ready ds st s = (Inr st', s') \<Longrightarrow> dom st \<subseteq> dom st'
     \<and> (\<forall>d \<in> set ds. (\<not> u \<and> ready (crd_name f d) \<noteq> None) \<or> cd_GVK d \<in> dom st') \<and> dom st' \<subseteq> dom st \<union> cd_GVK ` set ds"
proof (induction ds arbitrary: st s)
  case (Cons d ds)
  show ?case
  proof (cases "\<not> u \<and> ready (crd_name f d) \<noteq> None")
    case True
    with Cons.prems have "create_crds f u ready ds st s = (Inr st', s')" by simp
    from Cons.IH [OF this] True show ?thesis by auto
  next
    case False
    with Cons.prems obtain crd s1 where "create_crds f u ready ds (st(cd_GVK d \<mapsto> crd)) s1 = (Inr st', s')"
      by (auto simp: io_bind_result)
    from Cons.IH [OF this] show ?thesis by (auto simp: dom_fun_upd simp del: fun_upd_apply)
  qed
qed auto

lemma await_crds_established:
  assumes "await_crds f (ready_map items) gs st s = (Inr st', s')"
  shows "dom st' = dom st \<and> (\<forall>g crd. st' g = Some crd \<longrightarrow> g \<notin> set gs \<and> st g = Some crd \<or> established crd)"
  using assms
proof (induction gs arbitrary: st s)
  case (Cons g gs)
  consider (skip) "st g = None" | (ready) crd r where "st g = Some crd" "ready_map items (cr_Name crd) = Some r"
    | (wait) crd where "st g = Some crd" "ready_map items (cr_Name crd) = None"
    by (metis option.exhaust)
  then show ?case
  proof cases
    case skip
    with Cons.prems have "await_crds f (ready_map items) gs st s = (Inr st', s')" by simp
    from Cons.IH [OF this] skip show ?thesis by (auto split: if_splits)
  next
    case ready
    with Cons.prems have "await_crds f (ready_map items) gs (st(g \<mapsto> r)) s = (Inr st', s')" by simp
    from Cons.IH [OF this] ready_map_Some [OF ready(2)] ready(1) show ?thesis
      by (auto split: if_splits)
  next
    case wait
    with Cons.prems obtain crd' s1 s2 where w: "poll_crd f (cr_Name crd) (cc_polls f) s = (Inr crd', s1)"
      and a: "await_crds f (ready_map items) gs (st(g \<mapsto> crd')) s1 = (Inr st', s')"
      by (auto simp: waitCRD_def io_bind_result)
    from Cons.IH [OF a] poll_crd_established [OF w] wait(1) show ?thesis by (auto split: if_splits)
  qed
qed auto

text \<open>
  When \<open>CreateCRDs\<close> returns without error, and was not denied access, each of the CRDs is
  established: it was when the call began and was then left alone, or it was created and the result holds it with the
  condition established, which it may have waited for.
\<close>

lemma crds_established:
  assumes "CreateCRDs f False crds s = (Inr (Some st), s')" "\<And>gs. set (cc_order f gs) = set gs"
  shows "\<exists>items s1 s2. snd (cc_List f s) = s1 \<and> cc_List f s1 = (Inr items, s2)
     \<and> (\<forall>d \<in> set crds. (\<exists>crd \<in> set items. established crd \<and> cr_Name crd = crd_name f d)
          \<or> (\<exists>crd. st (cd_GVK d) = Some crd \<and> established crd))"
proof -
  let ?order = "\<lambda>st1. cc_order f (filter (\<lambda>g. st1 g \<noteq> None) (remdups (map cd_GVK crds)))"
  from assms(1) obtain l0 s1 items s2 st1 s3 items' s4 where l: "cc_List f s = (Inr l0, s1)" "cc_List f s1 = (Inr items, s2)"
    and c: "create_crds f False (ready_map items) crds Map.empty s2 = (Inr st1, s3)"
    and a: "await_crds f (ready_map items') (?order st1) st1 s4 = (Inr st, s')"
    by (auto simp: CreateCRDs_def ensureAccess_def getReadyCRDs_def io_results split: if_splits)
  note keys = create_crds_keys [OF c]
  have order: "set (?order st1) = dom st1" using keys by (auto simp: assms(2))
  note est = await_crds_established [OF a, unfolded order]
  have "(\<exists>crd \<in> set items. established crd \<and> cr_Name crd = crd_name f d) \<or> (\<exists>crd. st (cd_GVK d) = Some crd \<and> established crd)"
    if "d \<in> set crds" for d
  proof (cases "ready_map items (crd_name f d)")
    case None
    with keys that have "cd_GVK d \<in> dom st1" by auto
    with est show ?thesis by blast
  qed (use ready_map_Some in blast)
  then show ?thesis using l by auto
qed

definition demo_crd :: "bool \<Rightarrow> CustomResourceDefinition" where
  "demo_crd ok = \<lparr>cr_Name = ''network-attachment-definitions.k8s.cni.cncf.io'', cr_deleting = False,
     cr_Conditions = [(''NamesAccepted'', ''True''), (''Established'', if ok then ''True'' else ''False'')]\<rparr>"

text \<open>A server that establishes the CRD some time after it was applied; the state is a clock.\<close>

definition demo_crds :: "nat crd_client" where
  "demo_crds = \<lparr>cc_List = (\<lambda>s. (Inr (if 3 \<le> s then [demo_crd True] else []), s)),
     cc_Get = (\<lambda>n s. if s = 0 then (Inl (ENotFound n), 0) else (Inr (demo_crd (3 \<le> s)), Suc s)), cc_Apply = (\<lambda>_ s. (Inr (), 1)),
     cc_ToCRD = (\<lambda>_. Inr (demo_crd False)), cc_GuessPluralName = (\<lambda>k. k @ ''s''), cc_IsForbidden = (\<lambda>_. False),
     cc_CtxErr = io_ret (), cc_order = (\<lambda>gs. gs), cc_polls = 121\<rparr>"

lemma crds_established_witness:
  "\<exists>st s' crd. CreateCRDs demo_crds False [createNetworkAttachmentDefinitionCRD] 0 = (Inr (Some st), s')
     \<and> st (cd_GVK createNetworkAttachmentDefinitionCRD) = Some crd \<and> established crd"
proof -
  have "(case fst (CreateCRDs demo_crds False [createNetworkAttachmentDefinitionCRD] 0) of Inr (Some _) \<Rightarrow> True | _ \<Rightarrow> False)"
    by code_simp
  then obtain st s' where run: "CreateCRDs demo_crds False [createNetworkAttachmentDefinitionCRD] 0 = (Inr (Some st), s')"
    by (cases "CreateCRDs demo_crds False [createNetworkAttachmentDefinitionCRD] 0") (auto split: sum.splits option.splits)
  have "cc_List demo_crds 0 = (Inr [], 0)" by (simp add: demo_crds_def)
  with crds_established [OF run] run show ?thesis by (auto simp: demo_crds_def)
qed

text \<open>CRDs that are all established are not touched: the only calls are the three lists.\<close>

lemma established_crds_kept:
  assumes "crds \<noteq> []" "cc_List f s = (Inr l0, s1)" "cc_List f s1 = (Inr items, s2)" "cc_List f s2 = (Inr items', s3)"
    and "\<And>d. d \<in> set crds \<Longrightarrow> \<exists>crd \<in> set items. established crd \<and> cr_Name crd = crd_name f d" "cc_order f [] = []"
  shows "CreateCRDs f False crds s = (Inr (Some Map.empty), s3)"
proof -
  have "create_crds f False (ready_map items) ds Map.empty s2 = (Inr Map.empty, s2)" if "set ds \<subseteq> set crds" for ds
    using that
  proof (induction ds)
    case (Cons d ds)
    then have "ready_map items (crd_name f d) \<noteq> None" using assms(5) by (auto simp: ready_map_None)
    with Cons show ?case by simp
  qed simp
  from this [OF subset_refl] assms show ?thesis
    by (simp add: CreateCRDs_def ensureAccess_def getReadyCRDs_def io_try_def io_bind_def)
qed

section \<open>Watching the CRD of the subnets\<close>

text \<open>The state after \<open>n\<close> checks.\<close>

definition after_checks :: "('s, bool) io \<Rightarrow> nat \<Rightarrow> 's \<Rightarrow> 's" where
  "after_checks check n = ((\<lambda>s. snd (check s)) ^^ n)"

lemma after_checks_Suc: "after_checks check (Suc i) s = after_checks check i (snd (check s))"
  by (simp add: after_checks_def funpow_Suc_right del: funpow.simps)

lemma watch_unfold:
  "watchAndTriggerReload check b s =
     (if fst (check s) = Inr (\<not> b) then Some (snd (check s)) else watchAndTriggerReload check b (snd (check s)))"
  by (subst watchAndTriggerReload.simps) (auto split: prod.splits sum.splits)

lemma watch_returns:
  assumes "fst (check (after_checks check n s)) = Inr (\<not> b)" "\<And>i. i < n \<Longrightarrow> fst (check (after_checks check i s)) \<noteq> Inr (\<not> b)"
  shows "watchAndTriggerReload check b s = Some (after_checks check (Suc n) s)"
  using assms
proof (induction n arbitrary: s)
  case 0
  then show ?case by (subst watch_unfold) (simp add: after_checks_def)
next
  case (Suc n)
  note shift = after_checks_Suc [symmetric]
  have "fst (check s) \<noteq> Inr (\<not> b)" using Suc.prems(2) [of 0] by (simp add: after_checks_def)
  moreover have "watchAndTriggerReload check b (snd (check s)) = Some (after_checks check (Suc n) (snd (check s)))"
    using Suc.prems by (intro Suc.IH) (auto simp: shift)
  ultimately show ?case by (subst watch_unfold) (simp add: shift)
qed

lemma watch_returned: "watchAndTriggerReload check b s = Some s' \<Longrightarrow> \<exists>n. fst (check (after_checks check n s)) = Inr (\<not> b)"
proof (rule watchAndTriggerReload.raw_induct [where P = "\<lambda>check b s s'. \<exists>n. fst (check (after_checks check n s)) = Inr (\<not> b)"])
  fix w check b and s s' :: 'a
  assume 1: "\<And>c b s y. w c b s = Some y \<Longrightarrow> \<exists>n. fst (c (after_checks c n s)) = Inr (\<not> b)"
    "(case check s of (Inl _, s') \<Rightarrow> w check b s' | (Inr x, s') \<Rightarrow> if b = x then w check b s' else Some s') = Some s'"
  show "\<exists>n. fst (check (after_checks check n s)) = Inr (\<not> b)"
  proof (cases "fst (check s) = Inr (\<not> b)")
    case True
    then have "fst (check (after_checks check 0 s)) = Inr (\<not> b)" by (simp add: after_checks_def)
    then show ?thesis ..
  next
    case False
    with 1(2) have "w check b (snd (check s)) = Some s'" by (auto split: prod.splits sum.splits if_splits)
    from 1(1) [OF this] show ?thesis unfolding after_checks_Suc [symmetric] by blast
  qed
qed

text \<open>
  C25. The watcher of the webhook server triggers a restart exactly when some check of the CRD of the
  subnets succeeds with another status than the one at the start, and then at the first such check; failed
  checks and checks without a change never trigger it, and without a change it runs for ever.
\<close>

theorem reload_iff:
  "watchAndTriggerReload (isSubnetsCRDPresent cl) b s = Some s' \<longleftrightarrow>
     (\<exists>n. fst (isSubnetsCRDPresent cl (after_checks (isSubnetsCRDPresent cl) n s)) = Inr (\<not> b)
        \<and> (\<forall>i < n. fst (isSubnetsCRDPresent cl (after_checks (isSubnetsCRDPresent cl) i s)) \<noteq> Inr (\<not> b))
        \<and> s' = after_checks (isSubnetsCRDPresent cl) (Suc n) s)"
  (is "?watch = Some s' \<longleftrightarrow> (\<exists>n. ?C n \<and> (\<forall>i < n. \<not> ?C i) \<and> s' = ?after n)")
proof
  assume w: "?watch = Some s'"
  from watch_returned [OF w] obtain n where n: "?C n" "\<forall>i < n. \<not> ?C i"
    using exists_least_iff [of ?C] by blast
  with watch_returns [of "isSubnetsCRDPresent cl" n s b] w show "\<exists>n. ?C n \<and> (\<forall>i < n. \<not> ?C i) \<and> s' = ?after n"
    by (intro exI [of _ n]) auto
next
  assume "\<exists>n. ?C n \<and> (\<forall>i < n. \<not> ?C i) \<and> s' = ?after n"
  then show "?watch = Some s'" using watch_returns [of "isSubnetsCRDPresent cl" _ s b] by auto
qed

theorem reload_iff_witness: "watchAndTriggerReload (isSubnetsCRDPresent (Inr demo_crds)) False 0 = None \<and>
  watchAndTriggerReload (isSubnetsCRDPresent (Inr demo_crds)) False 1 = Some 2"
proof -
  let ?check = "isSubnetsCRDPresent (Inr demo_crds)"
  have c: "?check 0 = (Inr False, 0)" "?check (Suc 0) = (Inr True, 2)"
    by (simp_all add: isSubnetsCRDPresent_def io_try_def demo_crds_def demo_crd_def numeral_2_eq_2)
  have zero: "after_checks ?check n 0 = 0" for n by (induction n) (simp_all add: after_checks_def c)
  have one: "after_checks ?check 0 (Suc 0) = Suc 0" "after_checks ?check (Suc 0) (Suc 0) = 2" by (simp_all add: after_checks_def c)
  have "watchAndTriggerReload ?check False 0 \<noteq> Some s'" for s'
    using c by (subst reload_iff) (simp add: zero)
  moreover have "watchAndTriggerReload ?check False (Suc 0) = Some 2"
    by (subst reload_iff, rule exI [of _ 0]) (use c in \<open>simp add: one\<close>)
  ultimately show ?thesis by (cases "watchAndTriggerReload ?check False 0") auto
qed

end
