(* ===== verification/Lifecycle.thy ===== *)
theory Lifecycle
  imports Caches
begin

text \<open>
  The life of an API object under the controllers: the handlers a controller has for one kind
  (\<open>vendor/github.com/rancher/lasso/pkg/controller/sharedhandler.go\<close>), and the finalizers with which an
  \<open>OnRemove\<close> handler keeps an object from disappearing before it has run
  (\<open>vendor/github.com/rancher/wrangler/v3/pkg/generic/remove.go\<close>). \<open>life_step\<close> is the step relation of one object:
  controllers synchronise it, each on a view of its own that may be old, while others change and
  delete it. The locale \<open>lifecycle\<close> states what is needed of the admission of an update, and in it
  the properties of every history are proved once for all kinds of objects.
\<close>

section \<open>Objects and the server\<close>

text \<open>What the lifecycle reads beside the object itself: finalizers, UID and resource version.\<close>

record 'o tracked =
  tr_finalizers :: "string list"
  tr_UID :: string
  tr_version :: nat
  tr_obj :: 'o

text \<open>
  One object at the API server, all the versions of it there have been, which is what caches can show,
  and the controllers whose \<open>OnRemove\<close> handler has returned without error.
\<close>

record ('o, 'i) life =
  lf_stored :: "'o tracked option"
  lf_past :: "'o tracked set"
  lf_done :: "'i set"

text \<open>An object that is being deleted and has no finalizer goes away.\<close>

definition store :: "'a objmeta_scheme tracked \<Rightarrow> ('a objmeta_scheme, 'i) life \<Rightarrow> ('a objmeta_scheme, 'i) life" where
  "store z s = s\<lparr>lf_stored := (if o_deleting (tr_obj z) \<and> tr_finalizers z = [] then None else Some z),
                 lf_past := insert z (lf_past s)\<rparr>"

text \<open>
  An update: the version must be the stored one, and the webhooks admit it, maybe with a mutated
  object. The result of a failed update is an object without a UID, which no caller uses: \<open>None\<close>.
\<close>

type_synonym 'o admit = "'o \<Rightarrow> 'o \<Rightarrow> 'o option"

definition life_update ::
  "'a objmeta_scheme admit \<Rightarrow> 'a objmeta_scheme tracked \<Rightarrow> ('a objmeta_scheme, 'i) life
     \<Rightarrow> ('a objmeta_scheme tracked option \<times> go_error option) \<times> ('a objmeta_scheme, 'i) life" where
  "life_update admit x s =
     (case lf_stored s of
        None \<Rightarrow> ((None, Some (ENotFound (o_name (tr_obj x)))), s)
      | Some y \<Rightarrow>
          if tr_version x \<noteq> tr_version y then ((None, Some (EOther ''Conflict'')), s)
          else (case admit (tr_obj y) (tr_obj x) of
                  None \<Rightarrow> ((None, Some (EOther ''Forbidden'')), s)
                | Some b \<Rightarrow> let z = x\<lparr>tr_version := Suc (tr_version y), tr_obj := b\<rparr> in ((Some z, None), store z s)))"

section \<open>Handlers\<close>

text \<open>A handler gets the object, or nil when it is gone, and returns an object and an error.\<close>

type_synonym ('o, 's) obj_handler = "'o tracked option \<Rightarrow> 's \<Rightarrow> ('o tracked option \<times> go_error option) \<times> 's"

text \<open>
  All handlers of a kind run in the order of their registration, an error does not stop the others, and each
  gets the object that the one before returned, unless that is nil or has no UID. (No handler of the
  program returns \<open>ErrIgnore\<close>.)
\<close>

definition next_obj :: "'o tracked option \<Rightarrow> 'o tracked option \<Rightarrow> 'o tracked option" where
  "next_obj obj newObj = (case newObj of Some y \<Rightarrow> if tr_UID y \<noteq> [] then Some y else obj | None \<Rightarrow> obj)"

fun SharedHandler_OnChange ::
  "(string \<times> ('o, 's) obj_handler) list \<Rightarrow> 'o tracked option \<Rightarrow> 's \<Rightarrow> (string \<times> go_error) list \<times> 's" where
  "SharedHandler_OnChange [] obj s = ([], s)"
| "SharedHandler_OnChange ((n, h) # hs) obj s =
     (case h obj s of ((newObj, err), s1) \<Rightarrow>
      case SharedHandler_OnChange hs (next_obj obj newObj) s1 of (errs, s2) \<Rightarrow>
        ((case err of None \<Rightarrow> errs | Some e \<Rightarrow> (n, e) # errs), s2))"

section \<open>Finalizers\<close>

definition finalizerKey :: string where "finalizerKey = ''wrangler.cattle.io/''"

definition constructFinalizerKey :: "string \<Rightarrow> string" where
  "constructFinalizerKey name = finalizerKey @ name"

definition hasFinalizer :: "string \<Rightarrow> 'o tracked \<Rightarrow> bool" where
  "hasFinalizer name obj = list_ex (\<lambda>f. f = constructFinalizerKey name) (tr_finalizers obj)"

text \<open>
  The loop of \<open>removeFinalizer\<close> appends to a part of the slice it ranges over, so it moves the
  elements of the array under it; \<open>newFinalizers\<close> is the array without its last place, or nil when nothing was found.
\<close>

definition shift_at :: "string \<Rightarrow> string list \<Rightarrow> nat \<Rightarrow> string list" where
  "shift_at key arr k = (if arr ! k = key then take k arr @ drop (Suc k) arr @ [last arr] else arr)"

definition without_finalizer :: "string \<Rightarrow> string list \<Rightarrow> string list" where
  "without_finalizer key finalizers =
     (if key \<in> set finalizers then butlast (foldl (shift_at key) finalizers [0..<length finalizers]) else [])"

definition removeFinalizer :: "string \<Rightarrow> ('o tracked \<Rightarrow> 's \<Rightarrow> ('o tracked option \<times> go_error option) \<times> 's) \<Rightarrow>
    'o tracked \<Rightarrow> 's \<Rightarrow> ('o tracked option \<times> go_error option) \<times> 's" where
  "removeFinalizer name updater obj s =
     (if \<not> hasFinalizer name obj then ((Some obj, None), s)
      else updater (obj\<lparr>tr_finalizers := without_finalizer (constructFinalizerKey name) (tr_finalizers obj)\<rparr>) s)"

definition addFinalizer :: "string \<Rightarrow> ('o tracked \<Rightarrow> 's \<Rightarrow> ('o tracked option \<times> go_error option) \<times> 's) \<Rightarrow>
    'o tracked \<Rightarrow> 's \<Rightarrow> ('o tracked option \<times> go_error option) \<times> 's" where
  "addFinalizer name updater obj s =
     (if hasFinalizer name obj then ((Some obj, None), s)
      else updater (obj\<lparr>tr_finalizers := tr_finalizers obj @ [constructFinalizerKey name]\<rparr>) s)"

text \<open>The handler that \<open>OnRemove\<close> registers around the one of the program.\<close>

definition lifecycle_sync :: "string \<Rightarrow> ('a objmeta_scheme tracked \<Rightarrow> 's \<Rightarrow> ('a objmeta_scheme tracked option \<times> go_error option) \<times> 's) \<Rightarrow>
    ('a objmeta_scheme, 's) obj_handler \<Rightarrow> ('a objmeta_scheme, 's) obj_handler" where
  "lifecycle_sync name updater handler obj_ptr s =
     (case obj_ptr of
        None \<Rightarrow> ((None, None), s)
      | Some obj \<Rightarrow>
          if \<not> o_deleting (tr_obj obj) then addFinalizer name updater obj s
          else if \<not> hasFinalizer name obj then ((Some obj, None), s)
          else (case handler (Some obj) s of
                  ((newObj, Some e), s1) \<Rightarrow> ((newObj, Some e), s1)
                | ((newObj, None), s1) \<Rightarrow> removeFinalizer name updater (case newObj of Some y \<Rightarrow> y | None \<Rightarrow> obj) s1))"

section \<open>Histories of an object\<close>

text \<open>
  What an \<open>OnRemove\<close> handler of the program can do to the object: fail, return nil or the object,
  or return the result of an update of it (the one for NADs drops an old finalizer). A handler that succeeds is
  recorded.
\<close>

datatype 'o outcome = HErr go_error | HNil | HSame | HUpdate "string list" 'o

definition handler_of :: "'a objmeta_scheme admit \<Rightarrow> 'i \<Rightarrow> 'a objmeta_scheme outcome \<Rightarrow>
    ('a objmeta_scheme, ('a objmeta_scheme, 'i) life) obj_handler" where
  "handler_of admit i out obj_ptr s =
     (let ok = (\<lambda>r s. ((r, None), s\<lparr>lf_done := insert i (lf_done s)\<rparr>)) in
      case obj_ptr of
        None \<Rightarrow> ((None, None), s)
      | Some x \<Rightarrow>
          (case out of
             HErr e \<Rightarrow> ((None, Some e), s)
           | HNil \<Rightarrow> ok None s
           | HSame \<Rightarrow> ok (Some x) s
           | HUpdate fs b \<Rightarrow>
               (case life_update admit (x\<lparr>tr_finalizers := fs, tr_obj := b\<rparr>) s of
                  ((r, Some e), s') \<Rightarrow> ((r, Some e), s')
                | ((r, None), s') \<Rightarrow> ok r s')))"

text \<open>A run of the handler of controller \<open>i\<close>, on a view of the object.\<close>

definition sync_run :: "('i \<Rightarrow> string) \<Rightarrow> 'a objmeta_scheme admit \<Rightarrow> 'i \<Rightarrow> 'a objmeta_scheme outcome \<Rightarrow>
    'a objmeta_scheme tracked option \<Rightarrow> ('a objmeta_scheme, 'i) life \<Rightarrow> ('a objmeta_scheme, 'i) life" where
  "sync_run names admit i out view s = snd (lifecycle_sync (names i) (life_update admit) (handler_of admit i out) view s)"

text \<open>A change of the finalizers that spares those of the controllers.\<close>

definition spares :: "('i \<Rightarrow> string) \<Rightarrow> 'i set \<Rightarrow> string list \<Rightarrow> string list \<Rightarrow> bool" where
  "spares names ids fs fs' \<longleftrightarrow>
     (\<forall>i \<in> ids. constructFinalizerKey (names i) \<in> set fs \<longrightarrow> constructFinalizerKey (names i) \<in> set fs')"

inductive life_step :: "('i \<Rightarrow> string) \<Rightarrow> 'a objmeta_scheme admit \<Rightarrow> 'i set \<Rightarrow>
    ('a objmeta_scheme, 'i) life \<Rightarrow> ('a objmeta_scheme, 'i) life \<Rightarrow> bool" for names admit ids where
  sync: "\<lbrakk>i \<in> ids; \<And>x. view = Some x \<Longrightarrow> x \<in> lf_past s;
          \<And>x fs b. view = Some x \<Longrightarrow> out = HUpdate fs b \<Longrightarrow> spares names ids (tr_finalizers x) fs\<rbrakk>
         \<Longrightarrow> life_step names admit ids s (sync_run names admit i out view s)"
| delete: "\<lbrakk>lf_stored s = Some x; \<not> o_deleting (tr_obj x)\<rbrakk>
         \<Longrightarrow> life_step names admit ids s
               (store (x\<lparr>tr_version := Suc (tr_version x), tr_obj := (tr_obj x)\<lparr>o_deleting := True\<rparr>\<rparr>) s)"
| change: "\<lbrakk>lf_stored s = Some x; tr_version y = Suc (tr_version x); o_deleting (tr_obj y) = o_deleting (tr_obj x);
            spares names ids (tr_finalizers x) (tr_finalizers y)\<rbrakk>
         \<Longrightarrow> life_step names admit ids s (store y s)"

inductive life_reachable :: "('i \<Rightarrow> string) \<Rightarrow> 'a objmeta_scheme admit \<Rightarrow> 'i set \<Rightarrow>
    ('a objmeta_scheme, 'i) life \<Rightarrow> bool" for names admit ids where
  created: "\<not> o_deleting (tr_obj x) \<Longrightarrow> life_reachable names admit ids \<lparr>lf_stored = Some x, lf_past = {x}, lf_done = {}\<rparr>"
| step: "life_reachable names admit ids s \<Longrightarrow> life_step names admit ids s s' \<Longrightarrow> life_reachable names admit ids s'"

section \<open>Removing a finalizer\<close>

lemma constructFinalizerKey_inj [simp]: "constructFinalizerKey a = constructFinalizerKey b \<longleftrightarrow> a = b"
  by (simp add: constructFinalizerKey_def)

lemma hasFinalizer_iff: "hasFinalizer n x \<longleftrightarrow> constructFinalizerKey n \<in> set (tr_finalizers x)"
  by (auto simp: hasFinalizer_def list_ex_iff)

lemma shift_at_parts:
  assumes "k < length arr" "arr ! k = key"
  shows "butlast (shift_at key arr k) = take k arr @ drop (Suc k) arr" "set arr - {key} \<subseteq> set (take k arr @ drop (Suc k) arr)"
    "set (shift_at key arr k) \<subseteq> set arr"
proof -
  show "butlast (shift_at key arr k) = take k arr @ drop (Suc k) arr" using assms by (simp add: shift_at_def butlast_append)
  have "arr = take k arr @ key # drop (Suc k) arr" using assms id_take_nth_drop by blast
  then have "set arr = set (take k arr) \<union> insert key (set (drop (Suc k) arr))"
    by (metis list.simps(15) set_append)
  then show "set arr - {key} \<subseteq> set (take k arr @ drop (Suc k) arr)" by auto
  have "last arr \<in> set arr" using assms(1) by (intro last_in_set) auto
  then show "set (shift_at key arr k) \<subseteq> set arr"
    using assms set_take_subset [of k arr] set_drop_subset [of "Suc k" arr] by (auto simp: shift_at_def)
qed

lemma length_shift_at [simp]: "k < length arr \<Longrightarrow> length (shift_at key arr k) = length arr"
  by (auto simp: shift_at_def)

text \<open>Whatever the finalizers are, duplicates included, no other finalizer is lost and none is invented.\<close>

lemma without_finalizer_others:
  assumes "key \<in> set fs"
  shows "set fs - {key} \<subseteq> set (without_finalizer key fs)" "set (without_finalizer key fs) \<subseteq> set fs"
proof -
  let ?arr = "\<lambda>n. foldl (shift_at key) fs [0..<n]"
  have inv: "length (?arr n) = length fs \<and> set (?arr n) \<subseteq> set fs \<and> set fs - {key} \<subseteq> set (?arr n)
    \<and> (?arr n = fs \<and> key \<notin> set (take n fs) \<or> set fs - {key} \<subseteq> set (butlast (?arr n)))"
    if "n \<le> length fs" for n
    using that
  proof (induction n)
    case (Suc n)
    let ?a = "?arr n"
    note IH = Suc.IH [OF Suc_leD [OF Suc.prems]]
    have arr: "?arr (Suc n) = shift_at key ?a n" and n: "n < length ?a" using Suc.prems IH by simp_all
    show ?case
    proof (cases "?a ! n = key")
      case True
      note p = shift_at_parts [OF n True]
      have b: "set fs - {key} \<subseteq> set (butlast (shift_at key ?a n))" using IH p(1,2) by auto
      also have "\<dots> \<subseteq> set (shift_at key ?a n)" by (auto dest: in_set_butlastD)
      finally show ?thesis unfolding arr using IH n subset_trans [OF p(3)] b by simp
    next
      case False
      then have "shift_at key ?a n = ?a" by (simp add: shift_at_def)
      with IH False n show ?thesis unfolding arr by (auto simp: take_Suc_conv_app_nth)
    qed
  qed simp
  from inv [of "length fs"] assms
  show "set fs - {key} \<subseteq> set (without_finalizer key fs)" "set (without_finalizer key fs) \<subseteq> set fs"
    by (auto simp: without_finalizer_def assms dest: in_set_butlastD)
qed

text \<open>With every finalizer listed once, exactly the one is removed.\<close>

lemma shift_idle: "(\<And>k. k \<in> set ks \<Longrightarrow> arr ! k \<noteq> key) \<Longrightarrow> foldl (shift_at key) arr ks = arr"
  by (induction ks) (auto simp: shift_at_def)

lemma without_finalizer_distinct:
  assumes "distinct fs" "key \<in> set fs" shows "without_finalizer key fs = remove1 key fs"
proof -
  from assms(2) obtain xs ys where fs: "fs = xs @ key # ys" by (meson split_list)
  with assms(1) have nk: "key \<notin> set xs" "key \<notin> set ys" by auto
  let ?m = "xs @ ys @ [last (key # ys)]"
  have "[0..<length fs] = [0..<length xs] @ length xs # [Suc (length xs)..<length fs]"
    using upt_add_eq_append [OF le0, of "length xs" "Suc (length ys)"] by (simp add: fs upt_conv_Cons del: upt_Suc)
  then have "foldl (shift_at key) fs [0..<length fs] =
      foldl (shift_at key) (shift_at key (foldl (shift_at key) fs [0..<length xs]) (length xs)) [Suc (length xs)..<length fs]"
    by simp
  also have "foldl (shift_at key) fs [0..<length xs] = fs" using nk by (intro shift_idle) (auto simp: fs nth_append)
  also have "shift_at key fs (length xs) = ?m" by (simp add: shift_at_def fs)
  also have "foldl (shift_at key) ?m [Suc (length xs)..<length fs] = ?m"
  proof (rule shift_idle)
    fix k assume "k \<in> set [Suc (length xs)..<length fs]"
    then have k: "length xs < k" "k \<le> length xs + length ys" by (auto simp: fs)
    then have "?m ! k = (ys @ [last (key # ys)]) ! (k - length xs)" by (simp add: nth_append)
    also have "\<dots> \<in> set (ys @ [last (key # ys)])" using k by (intro nth_mem) simp
    finally have "?m ! k \<in> set (ys @ [last (key # ys)])" .
    moreover have "ys \<noteq> []" using k by auto
    ultimately show "?m ! k \<noteq> key" using nk by (auto split: if_splits)
  qed
  finally show ?thesis using nk by (simp add: without_finalizer_def fs remove1_append butlast_append)
qed

section \<open>Every history\<close>

text \<open>
  The invariant: versions are ordered with the stored one last, an object that is being deleted has
  finalizers left, and a finalizer that has ever been set is still there, or a controller
  with this finalizer has run its handler.
\<close>

definition released :: "('i \<Rightarrow> string) \<Rightarrow> 'i set \<Rightarrow> ('a objmeta_scheme, 'i) life \<Rightarrow> string \<Rightarrow> bool" where
  "released names ids s n \<longleftrightarrow> (\<exists>j \<in> ids. names j = n \<and> j \<in> lf_done s)"

definition life_inv :: "('i \<Rightarrow> string) \<Rightarrow> 'i set \<Rightarrow> ('a objmeta_scheme, 'i) life \<Rightarrow> bool" where
  "life_inv names ids s \<longleftrightarrow>
     (\<forall>y. lf_stored s = Some y \<longrightarrow> y \<in> lf_past s \<and> (o_deleting (tr_obj y) \<longrightarrow> tr_finalizers y \<noteq> [])
        \<and> (\<forall>x \<in> lf_past s. tr_version x \<le> tr_version y \<and> (tr_version x = tr_version y \<longrightarrow> x = y)))
     \<and> (\<forall>i \<in> ids. \<forall>x \<in> lf_past s. hasFinalizer (names i) x \<longrightarrow>
          (\<exists>y. lf_stored s = Some y \<and> hasFinalizer (names i) y) \<or> released names ids s (names i))"

lemma life_inv_stored:
  assumes "life_inv names ids s" "lf_stored s = Some y" "x \<in> lf_past s" "tr_version x = tr_version y" shows "x = y"
  using assms by (simp add: life_inv_def)

text \<open>
  A new version keeps the invariant when the finalizers that disappear are released.
\<close>

lemma life_inv_store:
  assumes inv: "life_inv names ids s" and st: "lf_stored s = Some y" and v: "tr_version z = Suc (tr_version y)"
    and fin: "\<And>i. i \<in> ids \<Longrightarrow> hasFinalizer (names i) y \<Longrightarrow> hasFinalizer (names i) z \<or> released names ids s (names i)"
  shows "life_inv names ids (store z s)"
proof -
  let ?s = "store z s"
  have past: "lf_past ?s = insert z (lf_past s)" and rel: "\<And>n. released names ids ?s n = released names ids s n"
    by (simp_all add: store_def released_def)
  have vers: "tr_version x \<le> tr_version z \<and> (tr_version x = tr_version z \<longrightarrow> x = z)" if "x \<in> lf_past ?s" for x
    using inv st v that by (fastforce simp: life_inv_def past)
  have keep: "(\<exists>y. lf_stored ?s = Some y \<and> hasFinalizer (names i) y) \<or> released names ids s (names i)"
    if "i \<in> ids" "x \<in> lf_past ?s" "hasFinalizer (names i) x" for i x
  proof -
    have "hasFinalizer (names i) z \<or> released names ids s (names i)"
      using inv st that fin by (auto simp: life_inv_def past)
    then show ?thesis by (auto simp: store_def hasFinalizer_iff)
  qed
  have "z' \<in> lf_past ?s \<and> (o_deleting (tr_obj z') \<longrightarrow> tr_finalizers z' \<noteq> []) \<and> z' = z" if "lf_stored ?s = Some z'" for z'
    using that by (auto simp: store_def split: if_splits)
  with vers keep show ?thesis unfolding life_inv_def rel by blast
qed

lemma life_update_ok:
  assumes "life_update admit x s = ((r, None), s')"
  obtains y b where "lf_stored s = Some y" "tr_version x = tr_version y" "admit (tr_obj y) (tr_obj x) = Some b"
    "r = Some (x\<lparr>tr_version := Suc (tr_version y), tr_obj := b\<rparr>)" "s' = store (x\<lparr>tr_version := Suc (tr_version y), tr_obj := b\<rparr>) s"
  using assms by (auto simp: life_update_def Let_def split: option.splits if_splits)

lemma life_update_err: "life_update admit x s = ((r, Some e), s') \<Longrightarrow> s' = s \<and> r = None"
  by (auto simp: life_update_def Let_def split: option.splits if_splits)

lemma life_inv_done: "life_inv names ids s \<Longrightarrow> life_inv names ids (s\<lparr>lf_done := insert i (lf_done s)\<rparr>)"
  by (fastforce simp: life_inv_def released_def)

text \<open>An update of a version that was seen: it succeeds only on the stored one.\<close>

lemma life_inv_update:
  assumes inv: "life_inv names ids s" and x: "x \<in> lf_past s" and up: "life_update admit z s = (r, s')" "tr_version z = tr_version x"
    and fin: "\<And>i. i \<in> ids \<Longrightarrow> hasFinalizer (names i) x \<Longrightarrow> hasFinalizer (names i) z \<or> released names ids s (names i)"
  shows "life_inv names ids s'"
proof (cases "snd r")
  case None
  with up(1) have "life_update admit z s = ((fst r, None), s')" by (cases r) auto
  then obtain y b where y: "lf_stored s = Some y" "tr_version z = tr_version y"
      "s' = store (z\<lparr>tr_version := Suc (tr_version y), tr_obj := b\<rparr>) s"
    by (rule life_update_ok)
  with life_inv_stored [OF inv y(1) x] up(2) have "x = y" by simp
  show ?thesis unfolding y(3)
  proof (rule life_inv_store [OF inv y(1)])
    fix i assume "i \<in> ids" "hasFinalizer (names i) y"
    with fin \<open>x = y\<close> show "hasFinalizer (names i) (z\<lparr>tr_version := Suc (tr_version y), tr_obj := b\<rparr>) \<or> released names ids s (names i)"
      by (simp add: hasFinalizer_iff)
  qed simp
next
  case (Some e)
  with up(1) inv show ?thesis by (cases r) (auto dest: life_update_err)
qed

lemma life_inv_remove:
  assumes inv: "life_inv names ids s" and x: "x \<in> lf_past s" and i: "released names ids s (names i)"
  shows "life_inv names ids (snd (removeFinalizer (names i) (life_update admit) x s))"
proof (cases "hasFinalizer (names i) x")
  case True
  let ?fs = "without_finalizer (constructFinalizerKey (names i)) (tr_finalizers x)"
  obtain r s' where up: "life_update admit (x\<lparr>tr_finalizers := ?fs\<rparr>) s = (r, s')" by (meson surj_pair)
  have "life_inv names ids s'"
  proof (rule life_inv_update [OF inv x up])
    fix j assume "hasFinalizer (names j) x"
    then show "hasFinalizer (names j) (x\<lparr>tr_finalizers := ?fs\<rparr>) \<or> released names ids s (names j)"
      using without_finalizer_others(1) [of "constructFinalizerKey (names i)" "tr_finalizers x"] True i
      by (cases "names j = names i") (auto simp: hasFinalizer_iff)
  qed simp
  with True up show ?thesis by (simp add: removeFinalizer_def)
qed (use inv in \<open>simp add: removeFinalizer_def\<close>)

lemma handler_of_inv:
  assumes inv: "life_inv names ids s" and x: "x \<in> lf_past s" and i: "i \<in> ids"
    and out: "\<And>fs b. out = HUpdate fs b \<Longrightarrow> spares names ids (tr_finalizers x) fs"
    and run: "handler_of admit i out (Some x) s = ((newObj, err), s')"
  shows "life_inv names ids s' \<and> (err = None \<longrightarrow> released names ids s' (names i))
    \<and> (case newObj of Some y \<Rightarrow> y | None \<Rightarrow> x) \<in> lf_past s'"
proof (cases out)
  case (HUpdate fs b)
  obtain r e s1 where up: "life_update admit (x\<lparr>tr_finalizers := fs, tr_obj := b\<rparr>) s = ((r, e), s1)" by (metis surj_pair)
  have inv1: "life_inv names ids s1"
    using out [OF HUpdate] by (intro life_inv_update [OF inv x up]) (auto simp: spares_def hasFinalizer_iff)
  show ?thesis
  proof (cases e)
    case None
    with up obtain z where "r = Some z" "z \<in> lf_past s1" by (auto elim!: life_update_ok simp: store_def)
    with up None HUpdate run i inv1 show ?thesis
      by (auto simp: handler_of_def released_def intro!: life_inv_done)
  next
    case (Some e')
    with up have "s1 = s \<and> r = None" using life_update_err by blast
    with up Some HUpdate run inv x show ?thesis by (auto simp: handler_of_def)
  qed
qed (use run inv x i in \<open>auto simp: handler_of_def released_def intro!: life_inv_done\<close>)

lemma life_inv_sync:
  assumes inv: "life_inv names ids s" and i: "i \<in> ids" and view: "\<And>x. view = Some x \<Longrightarrow> x \<in> lf_past s"
    and out: "\<And>x fs b. view = Some x \<Longrightarrow> out = HUpdate fs b \<Longrightarrow> spares names ids (tr_finalizers x) fs"
  shows "life_inv names ids (sync_run names admit i out view s)"
proof (cases view)
  case (Some x)
  note x = view [OF Some]
  consider (add) "\<not> o_deleting (tr_obj x)" | (skip) "o_deleting (tr_obj x)" "\<not> hasFinalizer (names i) x"
    | (run) "o_deleting (tr_obj x)" "hasFinalizer (names i) x" by blast
  then show ?thesis
  proof cases
    case add
    let ?fs = "tr_finalizers x @ [constructFinalizerKey (names i)]"
    obtain r s' where up: "life_update admit (x\<lparr>tr_finalizers := ?fs\<rparr>) s = (r, s')" by (meson surj_pair)
    have "life_inv names ids s'" by (rule life_inv_update [OF inv x up]) (simp_all add: hasFinalizer_iff)
    with add up inv Some show ?thesis by (simp add: sync_run_def lifecycle_sync_def addFinalizer_def)
  next
    case run
    obtain newObj err s1 where h: "handler_of admit i out (Some x) s = ((newObj, err), s1)" by (metis surj_pair)
    note facts = handler_of_inv [OF inv x i out [OF Some] h]
    show ?thesis
    proof (cases err)
      case None
      with facts have "life_inv names ids (snd (removeFinalizer (names i) (life_update admit) (case newObj of Some y \<Rightarrow> y | None \<Rightarrow> x) s1))"
        by (intro life_inv_remove) auto
      with run h None Some show ?thesis by (simp add: sync_run_def lifecycle_sync_def)
    qed (use run h facts Some in \<open>simp add: sync_run_def lifecycle_sync_def\<close>)
  qed (use inv Some in \<open>simp add: sync_run_def lifecycle_sync_def\<close>)
qed (use inv in \<open>simp add: sync_run_def lifecycle_sync_def\<close>)

lemma life_reachable_inv: "life_reachable names admit ids s \<Longrightarrow> life_inv names ids s"
proof (induction rule: life_reachable.induct)
  case (created x)
  then show ?case by (simp add: life_inv_def)
next
  case (step s s')
  from step.hyps(2) step.IH show ?case
  proof cases
    case (sync i view out)
    then show ?thesis using step.IH by (auto intro: life_inv_sync)
  next
    case (delete x)
    then show ?thesis using step.IH by (auto intro!: life_inv_store simp: hasFinalizer_iff)
  next
    case (change x y)
    then show ?thesis using step.IH by (auto intro!: life_inv_store simp: hasFinalizer_iff spares_def)
  qed
qed

text \<open>
  So an object has disappeared only after, for each finalizer it ever had from a controller, a controller
  with that finalizer has run its handler without error.
\<close>

lemma gone_released:
  assumes "life_reachable names admit ids s" "lf_stored s = None" "i \<in> ids" "x \<in> lf_past s" "hasFinalizer (names i) x"
  shows "\<exists>j \<in> ids. names j = names i \<and> j \<in> lf_done s"
  using life_reachable_inv [OF assms(1)] assms(2-5) by (auto simp: life_inv_def released_def)

section \<open>Completing a removal\<close>

text \<open>
  What completion needs of the webhooks: an update of an object that is being deleted in which only its
  finalizers change is admitted as it is.
\<close>

locale lifecycle =
  fixes admit :: "'a objmeta_scheme admit"
  assumes deleting_admitted: "o_deleting x \<Longrightarrow> admit x x = Some x"

text \<open>A run on the current object.\<close>

definition fresh_sync :: "('i \<Rightarrow> string) \<Rightarrow> 'a objmeta_scheme admit \<Rightarrow> ('i \<Rightarrow> 'a objmeta_scheme outcome) \<Rightarrow> 'i \<Rightarrow>
    ('a objmeta_scheme, 'i) life \<Rightarrow> ('a objmeta_scheme, 'i) life" where
  "fresh_sync names admit out i s = sync_run names admit i (out i) (lf_stored s) s"

lemma sync_gone [simp]: "sync_run names admit i out None s = s"
  by (simp add: sync_run_def lifecycle_sync_def)

context lifecycle
begin

lemma sync_releases:
  assumes "lf_stored s = Some x" "o_deleting (tr_obj x)" "hasFinalizer (names i) x" "out = HNil \<or> out = HSame"
  shows "sync_run names admit i out (Some x) s =
    store (x\<lparr>tr_finalizers := without_finalizer (constructFinalizerKey (names i)) (tr_finalizers x), tr_version := Suc (tr_version x)\<rparr>)
      (s\<lparr>lf_done := insert i (lf_done s)\<rparr>)"
  using assms deleting_admitted [OF assms(2)]
  by (auto simp: sync_run_def lifecycle_sync_def handler_of_def removeFinalizer_def life_update_def Let_def)

lemma removal_completes:
  assumes "lf_stored s = Some x" "o_deleting (tr_obj x)" "distinct (tr_finalizers x)" "tr_finalizers x \<noteq> []"
    and "set (tr_finalizers x) \<subseteq> (\<lambda>i. constructFinalizerKey (names i)) ` set is"
    and "\<And>i. i \<in> set is \<Longrightarrow> out i = HNil \<or> out i = HSame"
  shows "lf_stored (fold (fresh_sync names admit out) is s) = None"
  using assms
proof (induction "is" arbitrary: s x)
  case (Cons i "is")
  let ?key = "constructFinalizerKey (names i)" and ?s = "fresh_sync names admit out i s"
  show ?case
  proof (cases "hasFinalizer (names i) x")
    case False
    then have "?s = s" using Cons.prems(1,2) by (simp add: fresh_sync_def sync_run_def lifecycle_sync_def)
    moreover have "set (tr_finalizers x) \<subseteq> (\<lambda>i. constructFinalizerKey (names i)) ` set is"
      using Cons.prems(5) False by (auto simp: hasFinalizer_iff)
    ultimately show ?thesis using Cons.IH [OF Cons.prems(1-4)] Cons.prems(6) by simp
  next
    case True
    let ?fs = "remove1 ?key (tr_finalizers x)"
    let ?z = "x\<lparr>tr_finalizers := ?fs, tr_version := Suc (tr_version x)\<rparr>"
    have s: "?s = store ?z (s\<lparr>lf_done := insert i (lf_done s)\<rparr>)"
      using sync_releases [OF Cons.prems(1,2), of names i "out i"] Cons.prems(1,3,6) True without_finalizer_distinct
      by (simp add: fresh_sync_def hasFinalizer_iff)
    show ?thesis
    proof (cases "?fs = []")
      case True
      with s Cons.prems(2) have "lf_stored ?s = None" by (simp add: store_def)
      then have "lf_stored (fold (fresh_sync names admit out) js ?s) = None" for js
        by (induction js) (simp_all add: fresh_sync_def)
      then show ?thesis by simp
    next
      case False
      with s have st: "lf_stored ?s = Some ?z" by (simp add: store_def)
      have "lf_stored (fold (fresh_sync names admit out) is ?s) = None"
        by (rule Cons.IH [OF st]) (use False Cons.prems(2,3,5,6) in \<open>auto simp: set_remove1_eq\<close>)
      then show ?thesis by simp
    qed
  qed
qed simp

end

end
