(* ===== verification/Wiring.thy ===== *)
theory Wiring
  imports Lifecycle Startup Webhook_Subnet Webhook_HostNetworkConfig Webhook_ClusterNetwork Webhook_VlanConfig Webhook_Nad
    Mgr_ClusterNetwork Agent_VlanConfig Agent_HostNetworkConfig
begin

text \<open>
  How the parts are connected: which handlers the \<open>Register\<close> functions of manager and agent
  (\<open>pkg/controller\<close>) subscribe to which kind of objects under which name, and for which requests the webhooks are
  called (\<open>pkg/webhook\<close>). The name under which an \<open>OnRemove\<close> handler is registered is its finalizer; with the histories
  of \<open>Lifecycle\<close> it follows what a deletion waits for.
\<close>

section \<open>Subscriptions\<close>

datatype Kind = KNode | KVlanConfig | KVlanStatus | KClusterNetwork | KNad | KHostNetworkConfig | KLinkMonitor | KSubnet

datatype Event = OnChange | OnRemove

text \<open>\<open>su_handler\<close> is the method of the Go handler.\<close>

record subscription =
  su_kind :: Kind
  su_event :: Event
  su_name :: string
  su_handler :: string

definition sub :: "Kind \<Rightarrow> Event \<Rightarrow> string \<Rightarrow> string \<Rightarrow> subscription" where
  "sub k ev name h = \<lparr>su_kind = k, su_event = ev, su_name = name, su_handler = h\<rparr>"

text \<open>Registering appends to the handlers of the process, beside the state of the outside world.\<close>

definition subscribe :: "subscription list \<Rightarrow> ('s \<times> subscription list, unit) io" where
  "subscribe subs = (\<lambda>(s, r). (Inr (), s, r @ subs))"

text \<open>
  \<open>backoff.Retry\<close>: the number of times after which the back-off gives up is a parameter. The operation of the manager
  returns no permanent error, and its context is never done.
\<close>

fun backoff_Retry :: "nat \<Rightarrow> 's act \<Rightarrow> 's act" where
  "backoff_Retry 0 operation s = operation s"
| "backoff_Retry (Suc n) operation s =
     (case operation s of (None, s') \<Rightarrow> (None, s') | (Some _, s') \<Rightarrow> backoff_Retry n operation s')"

definition mgr_cn_initialize :: "nat \<Rightarrow> string \<Rightarrow> api_server \<Rightarrow> action" where
  "mgr_cn_initialize retries now srv = backoff_Retry retries (initialize_attempt now srv)"

definition Mgr_Nad_ControllerName :: string where "Mgr_Nad_ControllerName = ''harvester-network-manager-nad-controller''"
definition Mgr_VC_ControllerName :: string where "Mgr_VC_ControllerName = ''harvester-network-manager-vlanconfig-controller''"
definition Mgr_Node_controllerName :: string where "Mgr_Node_controllerName = ''harvester-network-manager-node-controller''"
definition Mgr_CN_controllerName :: string where "Mgr_CN_controllerName = ''harvester-network-manager-cn-controller''"
definition Agent_VC_ControllerName :: string where "Agent_VC_ControllerName = ''harvester-network-vlanconfig-controller''"
definition Agent_LM_controllerName :: string where "Agent_LM_controllerName = ''harvester-network-link-monitor-controller''"
definition Agent_CN_controllerName :: string where "Agent_CN_controllerName = ''harvester-network-cn-controller''"
definition Agent_HNC_ControllerName :: string where "Agent_HNC_ControllerName = ''harvester-network-hostnetworkconfig-controller''"

lemmas controller_names = Mgr_Nad_ControllerName_def Mgr_VC_ControllerName_def Mgr_Node_controllerName_def Mgr_CN_controllerName_def
  Agent_VC_ControllerName_def Agent_LM_controllerName_def Agent_CN_controllerName_def Agent_HNC_ControllerName_def

text \<open>The goroutine with the periodic connectivity checks is started beside.\<close>

definition mgr_nad_subs :: "subscription list" where
  "mgr_nad_subs =
     [sub KNad OnChange Mgr_Nad_ControllerName ''OnChange'',
      sub KNad OnRemove Mgr_Nad_ControllerName ''OnRemove'',
      sub KClusterNetwork OnChange Mgr_Nad_ControllerName ''OnCNChange'']"

definition mgr_vc_subs :: "subscription list" where
  "mgr_vc_subs =
     [sub KVlanConfig OnChange Mgr_VC_ControllerName ''EnsureClusterNetwork'',
      sub KVlanConfig OnRemove Mgr_VC_ControllerName ''OnVlanConfigRemove'',
      sub KVlanStatus OnChange Mgr_VC_ControllerName ''SetClusterNetworkReady'',
      sub KVlanStatus OnRemove Mgr_VC_ControllerName ''SetClusterNetworkUnready'']"

definition mgr_node_subs :: "subscription list" where
  "mgr_node_subs =
     [sub KNode OnChange Mgr_Node_controllerName ''OnChange'',
      sub KNode OnRemove Mgr_Node_controllerName ''OnRemove'']"

definition mgr_cn_subs :: "subscription list" where
  "mgr_cn_subs =
     [sub KClusterNetwork OnChange Mgr_CN_controllerName ''EnsureLinkMonitor'',
      sub KClusterNetwork OnChange Mgr_CN_controllerName ''SetNadReadyLabel'',
      sub KClusterNetwork OnChange Mgr_CN_controllerName ''SetHostNetworkStatus'',
      sub KClusterNetwork OnRemove Mgr_CN_controllerName ''DeleteLinkMonitor'']"

definition Mgr_CN_Register :: "nat \<Rightarrow> string \<Rightarrow> api_server \<Rightarrow> (api_log \<times> subscription list, unit) io" where
  "Mgr_CN_Register retries now srv =
     io_bind (on_fst (io_wrap (wrap ''initialize error: %w'') (io_act (mgr_cn_initialize retries now srv)))) (\<lambda>_.
     subscribe mgr_cn_subs)"

definition agent_vc_subs :: "subscription list" where
  "agent_vc_subs =
     [sub KVlanConfig OnChange Agent_VC_ControllerName ''OnChange'',
      sub KVlanConfig OnRemove Agent_VC_ControllerName ''OnRemove'']"

text \<open>The goroutine of the link monitor is started beside.\<close>

definition agent_lm_subs :: "subscription list" where
  "agent_lm_subs =
     [sub KLinkMonitor OnChange Agent_LM_controllerName ''OnChange'',
      sub KLinkMonitor OnRemove Agent_LM_controllerName ''OnRemove'']"

definition agent_cn_subs :: "subscription list" where
  "agent_cn_subs = [sub KClusterNetwork OnChange Agent_CN_controllerName ''OnChange'']"

definition agent_hnc_subs :: "subscription list" where
  "agent_hnc_subs =
     [sub KHostNetworkConfig OnChange Agent_HNC_ControllerName ''OnChange'',
      sub KHostNetworkConfig OnRemove Agent_HNC_ControllerName ''OnRemove'']"

definition manager_RegisterFuncList :: "nat \<Rightarrow> string \<Rightarrow> api_server \<Rightarrow> (api_log \<times> subscription list, unit) io list" where
  "manager_RegisterFuncList retries now srv =
     [subscribe mgr_nad_subs, subscribe mgr_vc_subs, subscribe mgr_node_subs, Mgr_CN_Register retries now srv]"

definition agent_RegisterFuncList :: "'k vc_env \<Rightarrow> ('k agent_state \<times> subscription list, unit) io list" where
  "agent_RegisterFuncList env =
     [io_bind (on_fst (Agent_VC_Register env)) (\<lambda>_. subscribe agent_vc_subs),
      subscribe agent_lm_subs, subscribe agent_cn_subs,
      io_bind (on_fst (on_fst (Agent_HNC_Register (ve_nl env)))) (\<lambda>_. subscribe agent_hnc_subs)]"

definition managerRun :: "(api_log \<times> subscription list) controller_env \<Rightarrow> int \<Rightarrow> nat \<Rightarrow> string \<Rightarrow> api_server \<Rightarrow>
    (api_log \<times> subscription list, unit) io" where
  "managerRun c threads retries now srv = controller_run c threads (manager_RegisterFuncList retries now srv) True"

definition agentRun :: "('k agent_state \<times> subscription list) controller_env \<Rightarrow> int \<Rightarrow> 'k vc_env \<Rightarrow>
    ('k agent_state \<times> subscription list, unit) io" where
  "agentRun c threads env = controller_run c threads (agent_RegisterFuncList env) False"

text \<open>What each process has subscribed once all its functions have run.\<close>

definition manager_subs :: "subscription list" where
  "manager_subs = mgr_nad_subs @ mgr_vc_subs @ mgr_node_subs @ mgr_cn_subs"

definition agent_subs :: "subscription list" where
  "agent_subs = agent_vc_subs @ agent_lm_subs @ agent_cn_subs @ agent_hnc_subs"

lemma subscribe_run [simp]: "subscribe subs (s, r) = (Inr (), s, r @ subs)"
  by (simp add: subscribe_def)

lemma manager_registers:
  "io_each (\<lambda>f. f) (manager_RegisterFuncList retries now srv) (l, []) = (Inr (), l', r) \<Longrightarrow> r = manager_subs"
  by (auto simp: manager_RegisterFuncList_def Mgr_CN_Register_def manager_subs_def io_bind_def on_fst_def
      split: prod.splits sum.splits)

lemma agent_registers:
  "io_each (\<lambda>f. f) (agent_RegisterFuncList env) (k, []) = (Inr (), k', r) \<Longrightarrow> r = agent_subs"
  by (auto simp: agent_RegisterFuncList_def agent_subs_def io_bind_def on_fst_def split: prod.splits sum.splits)

text \<open>The initialization of the manager fails only if every attempt failed, and its error is that of the last one.\<close>

lemma backoff_Retry_fails:
  "backoff_Retry n op s = (Some e, s') \<Longrightarrow>
     (\<forall>i \<le> n. fst (op (((\<lambda>s. snd (op s)) ^^ i) s)) \<noteq> None) \<and> op (((\<lambda>s. snd (op s)) ^^ n) s) = (Some e, s')"
proof (induction n arbitrary: s)
  case (Suc n)
  let ?f = "\<lambda>s. snd (op s)"
  from Suc.prems obtain e1 s1 where 1: "op s = (Some e1, s1)" "backoff_Retry n op s1 = (Some e, s')"
    by (auto split: prod.splits option.splits)
  from Suc.IH [OF 1(2)] have IH: "\<forall>i \<le> n. fst (op ((?f ^^ i) s1)) \<noteq> None" "op ((?f ^^ n) s1) = (Some e, s')" by auto
  have shift: "(?f ^^ Suc i) s = (?f ^^ i) s1" for i using 1(1) by (simp add: funpow_Suc_right del: funpow.simps)
  have "fst (op ((?f ^^ i) s)) \<noteq> None" if "i \<le> Suc n" for i
    using that 1(1) IH(1) shift by (cases i) (auto simp del: funpow.simps(2))
  with IH(2) shift [of n] show ?case by simp
qed auto

section \<open>Finalizers of the processes\<close>

text \<open>One manager leads; every node has an agent.\<close>

datatype Process = Manager | Agent string

fun process_subs :: "Process \<Rightarrow> subscription list" where
  "process_subs Manager = manager_subs"
| "process_subs (Agent _) = agent_subs"

definition remove_names :: "Process \<Rightarrow> Kind \<Rightarrow> string list" where
  "remove_names p k = map su_name (filter (\<lambda>s. su_kind s = k \<and> su_event s = OnRemove) (process_subs p))"

text \<open>The \<open>OnRemove\<close> handlers for objects of a kind, over all processes.\<close>

definition removers :: "Kind \<Rightarrow> (Process \<times> string) set" where
  "removers k = {(p, n). n \<in> set (remove_names p k)}"

lemmas subs_defs = manager_subs_def agent_subs_def mgr_nad_subs_def mgr_vc_subs_def mgr_node_subs_def mgr_cn_subs_def
  agent_vc_subs_def agent_lm_subs_def agent_cn_subs_def agent_hnc_subs_def sub_def

lemma remove_names_eval:
  "remove_names Manager k = (case k of KNad \<Rightarrow> [Mgr_Nad_ControllerName] | KVlanConfig \<Rightarrow> [Mgr_VC_ControllerName]
     | KVlanStatus \<Rightarrow> [Mgr_VC_ControllerName] | KNode \<Rightarrow> [Mgr_Node_controllerName] | KClusterNetwork \<Rightarrow> [Mgr_CN_controllerName] | _ \<Rightarrow> [])"
  "remove_names (Agent node) k = (case k of KVlanConfig \<Rightarrow> [Agent_VC_ControllerName] | KLinkMonitor \<Rightarrow> [Agent_LM_controllerName]
     | KHostNetworkConfig \<Rightarrow> [Agent_HNC_ControllerName] | _ \<Rightarrow> [])"
  by (cases k; simp add: remove_names_def subs_defs)+

text \<open>No agent has a finalizer of the manager.\<close>

lemma manager_names_own: "n \<in> set (remove_names Manager k) \<Longrightarrow> n \<notin> set (remove_names (Agent node) k')"
  by (cases k; cases k') (auto simp: remove_names_eval controller_names)

text \<open>
  C7. Whatever deletions, changes and runs of handlers happen, on however old a view of the object: once an
  object has disappeared that has ever had a finalizer of the program, the \<open>OnRemove\<close> handler behind that finalizer
  has run without error: that of the manager if it is the manager's, and that of some
  node's agent if it is the agents'.
\<close>

theorem removal_handled:
  assumes "life_reachable snd admit (removers k) s" "lf_stored s = None"
    and "(p, n) \<in> removers k" "x \<in> lf_past s" "hasFinalizer n x"
  shows "(p = Manager \<longrightarrow> (Manager, n) \<in> lf_done s) \<and> (\<exists>q. (q, n) \<in> lf_done s \<and> (p = Manager \<longleftrightarrow> q = Manager))"
proof -
  obtain q where q: "(q, n) \<in> removers k" "(q, n) \<in> lf_done s"
    using gone_released [OF assms(1-4)] assms(5) by auto
  have "p = Manager \<longleftrightarrow> q = Manager"
    using q(1) assms(3) manager_names_own [of n k _ k] by (cases p; cases q) (auto simp: removers_def)
  with q(2) show ?thesis by blast
qed

text \<open>A history: the manager enrols, the object is deleted, the handler of the manager runs.\<close>

definition demo_object :: "bool \<Rightarrow> string list \<Rightarrow> nat \<Rightarrow> objmeta tracked" where
  "demo_object del fs v = \<lparr>tr_finalizers = fs, tr_UID = ''uid'', tr_version = v,
     tr_obj = \<lparr>o_name = ''vc1'', o_namespace = [], o_labels = None, o_annotations = None, o_deleting = del\<rparr>\<rparr>"

theorem removal_handled_witness:
  "\<exists>(s :: (objmeta, Process \<times> string) life) x. life_reachable snd (\<lambda>_ b. Some b) (removers KVlanConfig) s
     \<and> lf_stored s = None \<and> x \<in> lf_past s \<and> hasFinalizer Mgr_VC_ControllerName x \<and> (Manager, Mgr_VC_ControllerName) \<in> lf_done s"
proof -
  let ?admit = "\<lambda>_ b. Some b" and ?i = "(Manager, Mgr_VC_ControllerName)" and ?R = "removers KVlanConfig"
  let ?key = "constructFinalizerKey Mgr_VC_ControllerName"
  let ?x = "demo_object False [] 1" and ?y = "demo_object False [?key] 2" and ?z = "demo_object True [?key] 3"
  define s0 :: "(objmeta, Process \<times> string) life" where "s0 = \<lparr>lf_stored = Some ?x, lf_past = {?x}, lf_done = {}\<rparr>"
  define s1 where "s1 = sync_run snd ?admit ?i HSame (lf_stored s0) s0"
  define s2 where "s2 = store ?z s1"
  define s3 where "s3 = sync_run snd ?admit ?i HSame (lf_stored s2) s2"
  note defs = sync_run_def lifecycle_sync_def addFinalizer_def removeFinalizer_def hasFinalizer_def life_update_def store_def
    handler_of_def demo_object_def without_finalizer_def shift_at_def Let_def
  have 1: "lf_stored s1 = Some ?y" "?y \<in> lf_past s1" "lf_done s1 = {}"
    by (simp_all add: s1_def s0_def defs)
  have 2: "lf_stored s2 = Some ?z" "?y \<in> lf_past s2" "?z \<in> lf_past s2" using 1 by (simp_all add: s2_def store_def demo_object_def)
  have 3: "lf_stored s3 = None" "?y \<in> lf_past s3" using 2 by (simp_all add: s3_def defs)
  have i: "?i \<in> ?R" by (simp add: removers_def remove_names_eval)
  have "life_reachable snd ?admit ?R s0" unfolding s0_def by (rule life_reachable.created) (simp add: demo_object_def)
  then have "life_reachable snd ?admit ?R s1"
    unfolding s1_def by (rule life_reachable.step) (rule life_step.sync [OF i], auto simp: s0_def)
  moreover have "?z = ?y\<lparr>tr_version := Suc (tr_version ?y), tr_obj := (tr_obj ?y)\<lparr>o_deleting := True\<rparr>\<rparr>"
    by (simp add: demo_object_def)
  ultimately have "life_reachable snd ?admit ?R s2"
    unfolding s2_def by (metis life_reachable.step life_step.delete 1(1) demo_object_def objmeta.select_convs(5) tracked.select_convs(4))
  then have r: "life_reachable snd ?admit ?R s3"
    unfolding s3_def by (rule life_reachable.step) (rule life_step.sync [OF i], use 2 in auto)
  from removal_handled [OF r 3(1) i 3(2)] have "?i \<in> lf_done s3" by (simp add: hasFinalizer_iff demo_object_def)
  with 3 r show ?thesis by (intro exI [of _ s3] exI [of _ ?y]) (simp add: hasFinalizer_iff demo_object_def)
qed

section \<open>Deleting a VLAN config on several nodes\<close>

text \<open>A handler over objects as a handler over what the queue holds.\<close>

definition FromObjectHandlerToHandler :: "('o option \<Rightarrow> ('s, 'o option) io) \<Rightarrow> ('o, 's) obj_handler" where
  "FromObjectHandlerToHandler sync obj s =
     (case sync (map_option tr_obj obj) s of
        (Inl e, s') \<Rightarrow> ((None, Some e), s')
      | (Inr r, s') \<Rightarrow> ((case r of None \<Rightarrow> None | Some y \<Rightarrow> map_option (\<lambda>x. x\<lparr>tr_obj := y\<rparr>) obj, None), s'))"

text \<open>The webhooks on an update of a VLAN config.\<close>

definition vc_admit :: "golib \<Rightarrow> caches \<Rightarrow> request option \<Rightarrow> VlanConfig admit" where
  "vc_admit g v req old new =
     (case VlanConfigMutator_Update g v old new of
        Inl _ \<Rightarrow> None
      | Inr p \<Rightarrow> let new' = apply_vc_patch p new in
               if VlanConfigValidator_Update g v req old new' = None then Some new' else None)"

text \<open>
  What an agent does with a VLAN config from its queue: the two handlers its \<open>Register\<close> subscribes. The state is that of the
  node with its API calls, and the VLAN config at the server.
\<close>

definition agent_vc_dispatch :: "'k vc_env \<Rightarrow> VlanConfig admit \<Rightarrow> VlanConfig tracked option \<Rightarrow>
    'k agent_state \<times> (VlanConfig, 'i) life \<Rightarrow> (string \<times> go_error) list \<times> 'k agent_state \<times> (VlanConfig, 'i) life" where
  "agent_vc_dispatch env admit =
     (let updater = (\<lambda>x (k, l). case life_update admit x l of (r, l') \<Rightarrow> (r, k, l')) in
      SharedHandler_OnChange
        [(Agent_VC_ControllerName, FromObjectHandlerToHandler (\<lambda>vc. on_fst (Agent_VC_OnChange env vc))),
         (Agent_VC_ControllerName, lifecycle_sync Agent_VC_ControllerName updater
            (FromObjectHandlerToHandler (\<lambda>vc. on_fst (Agent_VC_OnRemove env vc))))])"

lemma vc_admit_deleting: "o_deleting vc \<Longrightarrow> vc_admit g v req vc vc = Some vc"
  by (simp add: vc_admit_def VlanConfigMutator_Update_def VlanConfigValidator_Update_def apply_vc_patch_def)

lemma OnRemove_returns: "Agent_VC_OnRemove env (Some vc) k = (Inr r, k') \<Longrightarrow> r = None \<or> r = Some vc"
  by (auto simp: Agent_VC_OnRemove_def io_results split: if_splits)

text \<open>On a VLAN config that is being deleted only the handler for removals has something to do.\<close>

lemma removeFinalizer_lifted:
  "removeFinalizer n (\<lambda>x (k, l). case life_update admit x l of (r, l') \<Rightarrow> (r, k, l')) x (k, l) =
     (case removeFinalizer n (life_update admit) x l of (r, l') \<Rightarrow> (r, k, l'))"
  by (simp add: removeFinalizer_def)

lemma dispatch_deleting:
  assumes "o_deleting (tr_obj x)" "hasFinalizer Agent_VC_ControllerName x" "Agent_VC_OnRemove env (Some (tr_obj x)) k = (res, k')"
  shows "agent_vc_dispatch env admit (Some x) (k, l) =
    (case res of
       Inl e \<Rightarrow> ([(Agent_VC_ControllerName, e)], k', l)
     | Inr _ \<Rightarrow> (case removeFinalizer Agent_VC_ControllerName (life_update admit) x l of
                 ((_, err), l') \<Rightarrow> ((case err of None \<Rightarrow> [] | Some e \<Rightarrow> [(Agent_VC_ControllerName, e)]), k', l')))"
proof -
  have change: "FromObjectHandlerToHandler (\<lambda>vc. on_fst (Agent_VC_OnChange env vc)) (Some x) (k, l) = ((None, None), k, l)"
    using assms(1) by (simp add: FromObjectHandlerToHandler_def Agent_VC_OnChange_def on_fst_def io_ret_def)
  have remove: "FromObjectHandlerToHandler (\<lambda>vc. on_fst (Agent_VC_OnRemove env vc)) (Some x) (k, l) =
      ((case res of Inl e \<Rightarrow> (None, Some e) | Inr r \<Rightarrow> (map_option (\<lambda>y. x\<lparr>tr_obj := y\<rparr>) r, None)), k', l)"
    using assms(3) by (simp add: FromObjectHandlerToHandler_def on_fst_def option.case_eq_if map_option_case split: sum.splits)
  have same: "(case map_option (\<lambda>y. x\<lparr>tr_obj := y\<rparr>) r of Some y \<Rightarrow> y | None \<Rightarrow> x) = x" if "res = Inr r" for r
    using OnRemove_returns [of env "tr_obj x" k r k'] assms(3) that by auto
  show ?thesis
    unfolding agent_vc_dispatch_def Let_def SharedHandler_OnChange.simps change
    using assms(1,2) same by (cases res) (simp_all add: next_obj_def lifecycle_sync_def remove removeFinalizer_lifted split: prod.split)
qed

lemma dispatch_gone: "agent_vc_dispatch env admit None (k, l) = ([], k, l)"
  by (simp add: agent_vc_dispatch_def FromObjectHandlerToHandler_def Agent_VC_OnChange_def on_fst_def io_ret_def
      next_obj_def lifecycle_sync_def)

text \<open>
  C33. All agents put the same finalizer on a VLAN config, so the first agent that has torn its
  network down removes it. When the teardown on another node failed, this node keeps its error, but the
  object is gone before its next attempt: the attempt then does nothing and reports no error, and the
  network stays as the failed teardown left it.
\<close>

theorem teardown_not_retried:
  assumes "lf_stored l = Some x" "o_deleting (tr_obj x)" "tr_finalizers x = [constructFinalizerKey Agent_VC_ControllerName]"
    and "Agent_VC_OnRemove env\<^sub>b (Some (tr_obj x)) k\<^sub>b = (Inl e, k\<^sub>b')" "Agent_VC_OnRemove env\<^sub>a (Some (tr_obj x)) k\<^sub>a = (Inr r, k\<^sub>a')"
  shows "agent_vc_dispatch env\<^sub>b (vc_admit g v req) (Some x) (k\<^sub>b, l) = ([(Agent_VC_ControllerName, e)], k\<^sub>b', l)
    \<and> (\<exists>l'. agent_vc_dispatch env\<^sub>a (vc_admit g v req) (Some x) (k\<^sub>a, l) = ([], k\<^sub>a', l') \<and> lf_stored l' = None
         \<and> agent_vc_dispatch env\<^sub>b (vc_admit g v req) (lf_stored l') (k\<^sub>b', l') = ([], k\<^sub>b', l'))"
proof -
  have has: "hasFinalizer Agent_VC_ControllerName x" using assms(3) by (simp add: hasFinalizer_iff)
  have "without_finalizer (constructFinalizerKey Agent_VC_ControllerName) (tr_finalizers x) = []"
    using without_finalizer_distinct [of "tr_finalizers x"] assms(3) by simp
  then have "removeFinalizer Agent_VC_ControllerName (life_update (vc_admit g v req)) x l =
      (let z = x\<lparr>tr_finalizers := [], tr_version := Suc (tr_version x)\<rparr> in ((Some z, None), store z l))"
    using assms(1) has vc_admit_deleting [OF assms(2), of g v req]
    by (simp add: removeFinalizer_def life_update_def Let_def)
  then show ?thesis
    using dispatch_deleting [OF assms(2) has assms(4), of "vc_admit g v req" l] dispatch_deleting [OF assms(2) has assms(5), of "vc_admit g v req" l] assms(2)
    by (simp add: dispatch_gone store_def Let_def)
qed

text \<open>On node \<open>n1\<close> the bridge is busy, while the other node, where nothing is set up, has nothing to do.\<close>

definition removed_vc :: "VlanConfig tracked" where
  "removed_vc = \<lparr>tr_finalizers = [constructFinalizerKey Agent_VC_ControllerName], tr_UID = ''uid'', tr_version = 7,
     tr_obj = agent_vc\<lparr>o_deleting := True\<rparr>\<rparr>"

definition busy_net :: ref_state where
  "busy_net = demo_net\<lparr>rs_script := [None, None, None, None, None, Some (EOther ''busy'')]\<rparr>"

definition busy_env :: "ref_state vc_env" where
  "busy_env = agent_env\<lparr>ve_caches := caches_of (agent_cluster\<lparr>cl_vss :=
     [demo_vs\<lparr>o_labels := Some [KeyVlanConfigLabel \<mapsto> o_name agent_vc, KeyNodeLabel \<mapsto> ''n1'']\<rparr>]\<rparr>)\<rparr>"

theorem teardown_not_retried_witness:
  "\<exists>e k\<^sub>b l\<^sub>b k\<^sub>a (l' :: (VlanConfig, unit) life).
     let l = \<lparr>lf_stored = Some removed_vc, lf_past = {}, lf_done = {}\<rparr>; admit = vc_admit demo_golib (caches_of agent_cluster) None in
     agent_vc_dispatch busy_env admit (Some removed_vc) ((busy_net, []), l) = ([(Agent_VC_ControllerName, e)], (k\<^sub>b, l\<^sub>b), l)
     \<and> agent_vc_dispatch agent_env admit (Some removed_vc) ((demo_net, []), l) = ([], k\<^sub>a, l')
     \<and> agent_vc_dispatch busy_env admit (lf_stored l') ((k\<^sub>b, l\<^sub>b), l') = ([], (k\<^sub>b, l\<^sub>b), l')
     \<and> ''cn1-br'' \<in> link_Name ` set (rs_table k\<^sub>b)"
proof -
  let ?b = "Agent_VC_OnRemove busy_env (Some (tr_obj removed_vc)) (busy_net, [])"
    and ?a = "Agent_VC_OnRemove agent_env (Some (tr_obj removed_vc)) (demo_net, [])"
  let ?l = "\<lparr>lf_stored = Some removed_vc, lf_past = {}, lf_done = {}\<rparr> :: (VlanConfig, unit) life"
  have "isl (fst ?b)" "\<not> isl (fst ?a)" and br: "''cn1-br'' \<in> link_Name ` set (rs_table (fst (snd ?b)))" by code_simp+
  then obtain e r where run: "?b = (Inl e, snd ?b)" "?a = (Inr r, snd ?a)" by (metis isl_def prod.collapse sum.collapse(2))
  have "lf_stored ?l = Some removed_vc" "o_deleting (tr_obj removed_vc)"
    "tr_finalizers removed_vc = [constructFinalizerKey Agent_VC_ControllerName]" by (simp_all add: removed_vc_def)
  from teardown_not_retried [OF this run, of demo_golib "caches_of agent_cluster" None] br show ?thesis
    unfolding Let_def by (metis prod.collapse)
qed

section \<open>Deletions come to an end\<close>

definition cn_admit :: "caches \<Rightarrow> ClusterNetwork admit" where
  "cn_admit v old new = (if CnValidator_Update v old new = None then Some new else None)"

definition nad_admit :: "golib \<Rightarrow> caches \<Rightarrow> Nad admit" where
  "nad_admit g v old new =
     (case NadMutator_Update g v old new of
        Inl _ \<Rightarrow> None
      | Inr p \<Rightarrow> let new' = apply_patch p new in if NadValidator_Update g v old new' = None then Some new' else None)"

definition hnc_admit :: "golib \<Rightarrow> caches \<Rightarrow> HostNetworkConfig admit" where
  "hnc_admit g v old new = (if HncValidator_Update g v old new = None then Some new else None)"

text \<open>VLAN statuses, link monitors and nodes have no webhook.\<close>

definition no_webhook :: "'a objmeta_scheme admit" where "no_webhook old new = Some new"

interpretation vc_life: lifecycle "vc_admit g v req" for g v req
  by unfold_locales (rule vc_admit_deleting)

interpretation cn_life: lifecycle "cn_admit v" for v
  by unfold_locales (simp add: cn_admit_def CnValidator_Update_def)

interpretation nad_life: lifecycle "nad_admit g v" for g v
  by unfold_locales (simp add: nad_admit_def NadMutator_Update_def NadValidator_Update_def apply_patch_def)

interpretation hnc_life: lifecycle "hnc_admit g v" for g v
  by unfold_locales (simp add: hnc_admit_def HncValidator_Update_def)

interpretation plain_life: lifecycle no_webhook
  by unfold_locales (simp add: no_webhook_def)

text \<open>
  A deletion of an object of a kind completes: when the finalizers it has left are those of the controllers
  \<open>is\<close>, and each of them runs its handler once without error, on the object as it then is, the object is gone.
\<close>

definition completes :: "Kind \<Rightarrow> 'a objmeta_scheme admit \<Rightarrow> bool" where
  "completes k admit \<longleftrightarrow>
     (\<forall>s x out is. life_reachable snd admit (removers k) s \<and> lf_stored s = Some x \<and> o_deleting (tr_obj x)
        \<and> distinct (tr_finalizers x) \<and> set is \<subseteq> removers k
        \<and> set (tr_finalizers x) \<subseteq> (\<lambda>i. constructFinalizerKey (snd i)) ` set is
        \<and> (\<forall>i \<in> set is. out i = HNil \<or> out i = HSame)
        \<longrightarrow> lf_stored (fold (fresh_sync snd admit out) is s) = None)"

lemma completesI:
  fixes admit :: "'a objmeta_scheme admit"
  assumes "lifecycle admit" shows "completes k admit"
  unfolding completes_def
proof (intro allI impI, elim conjE)
  fix s x and out :: "Process \<times> string \<Rightarrow> 'a objmeta_scheme outcome" and "is" :: "(Process \<times> string) list"
  assume r: "life_reachable snd admit (removers k) s" "lf_stored s = Some x" "o_deleting (tr_obj x)" "distinct (tr_finalizers x)"
    "set (tr_finalizers x) \<subseteq> (\<lambda>i. constructFinalizerKey (snd i)) ` set is" "\<forall>i \<in> set is. out i = HNil \<or> out i = HSame"
  have "tr_finalizers x \<noteq> []" using life_reachable_inv [OF r(1)] r(2,3) by (simp add: life_inv_def)
  from lifecycle.removal_completes [OF assms r(2-4) this r(5)] r(6)
  show "lf_stored (fold (fresh_sync snd admit out) is s) = None" by simp
qed

lemma completesD:
  "completes k admit \<Longrightarrow> life_reachable snd admit (removers k) s \<Longrightarrow> lf_stored s = Some x \<Longrightarrow> o_deleting (tr_obj x)
    \<Longrightarrow> distinct (tr_finalizers x) \<Longrightarrow> set is \<subseteq> removers k \<Longrightarrow> set (tr_finalizers x) \<subseteq> (\<lambda>i. constructFinalizerKey (snd i)) ` set is
    \<Longrightarrow> (\<And>i. i \<in> set is \<Longrightarrow> out i = HNil \<or> out i = HSame) \<Longrightarrow> lf_stored (fold (fresh_sync snd admit out) is s) = None"
  by (simp add: completes_def)

text \<open>
  C8. The webhooks never keep a deletion from completing: for every kind of object with a webhook
  and an \<open>OnRemove\<close> handler, and for the kinds without webhook, a deleted object is gone once the controllers whose finalizers it has left have run their
  handlers without error, whatever the caches of the webhooks hold.
\<close>

theorem removals_complete:
  "completes KVlanConfig (vc_admit g v req) \<and> completes KClusterNetwork (cn_admit v) \<and> completes KNad (nad_admit g v)
    \<and> completes KHostNetworkConfig (hnc_admit g v)
    \<and> (\<forall>k \<in> {KVlanStatus, KLinkMonitor, KNode}. completes k (no_webhook :: 'a objmeta_scheme admit))"
  using vc_life.lifecycle_axioms cn_life.lifecycle_axioms nad_life.lifecycle_axioms hnc_life.lifecycle_axioms plain_life.lifecycle_axioms
  by (blast intro: completesI)

text \<open>A VLAN config with the finalizers of manager and agents, deleted and handled by both.\<close>

theorem removals_complete_witness:
  "\<exists>s x. life_reachable snd (vc_admit demo_golib (caches_of agent_cluster) None) (removers KVlanConfig) s \<and> lf_stored s = Some x
     \<and> lf_stored (fold (fresh_sync snd (vc_admit demo_golib (caches_of agent_cluster) None) (\<lambda>_. HSame))
          [(Agent ''n1'', Agent_VC_ControllerName), (Manager, Mgr_VC_ControllerName)] s) = None"
proof -
  let ?admit = "vc_admit demo_golib (caches_of agent_cluster) None" and ?R = "removers KVlanConfig"
  let ?fs = "[constructFinalizerKey Mgr_VC_ControllerName, constructFinalizerKey Agent_VC_ControllerName]"
  let ?x = "removed_vc\<lparr>tr_finalizers := ?fs, tr_obj := agent_vc\<rparr>"
  let ?y = "?x\<lparr>tr_version := Suc (tr_version ?x), tr_obj := (tr_obj ?x)\<lparr>o_deleting := True\<rparr>\<rparr>"
  let ?is = "[(Agent ''n1'', Agent_VC_ControllerName), (Manager, Mgr_VC_ControllerName)]"
  define s0 :: "(VlanConfig, Process \<times> string) life" where "s0 = \<lparr>lf_stored = Some ?x, lf_past = {?x}, lf_done = {}\<rparr>"
  have live: "\<not> o_deleting (tr_obj ?x)" by (simp add: agent_vc_def empty_vc_def)
  have "life_reachable snd ?admit ?R s0" unfolding s0_def by (rule life_reachable.created [OF live])
  moreover have "life_step snd ?admit ?R s0 (store ?y s0)" by (rule life_step.delete [OF _ live]) (simp add: s0_def)
  ultimately have r: "life_reachable snd ?admit ?R (store ?y s0)" by (rule life_reachable.step)
  have st: "lf_stored (store ?y s0) = Some ?y" by (simp add: store_def)
  have "completes KVlanConfig ?admit" using removals_complete by blast
  then have "lf_stored (fold (fresh_sync snd ?admit (\<lambda>_. HSame)) ?is (store ?y s0)) = None"
  proof (rule completesD [OF _ r st])
    show "distinct (tr_finalizers ?y)" "set ?is \<subseteq> ?R" "o_deleting (tr_obj ?y)"
      "set (tr_finalizers ?y) \<subseteq> (\<lambda>i. constructFinalizerKey (snd i)) ` set ?is"
      by (simp_all add: removers_def remove_names_eval controller_names)
  qed simp
  with r st show ?thesis by blast
qed

section \<open>The requests that the webhooks get\<close>

datatype Operation = Create | Update | Delete | Connect

datatype Scope = ClusterScope | NamespacedScope

record Resource =
  rs_Names :: "string list"
  rs_Scope :: Scope
  rs_APIGroup :: string
  rs_APIVersion :: string
  rs_ObjectType :: "Kind option"
  rs_OperationTypes :: "Operation list"

definition Resource_Validate :: "Resource \<Rightarrow> go_error option" where
  "Resource_Validate r =
     (if rs_Names r = [] \<or> [] \<in> set (rs_Names r) then Some (Errorf ''filed %s is not defined'')
      else if rs_APIVersion r = [] then Some (Errorf ''filed %s is not defined'')
      else if rs_ObjectType r = None then Some (Errorf ''filed %s is not defined'')
      else if rs_OperationTypes r = [] then Some (Errorf ''filed %s is not defined'')
      else None)"

definition network_resource :: "string \<Rightarrow> Kind \<Rightarrow> Operation list \<Rightarrow> Resource" where
  "network_resource n k ops = \<lparr>rs_Names = [n], rs_Scope = ClusterScope, rs_APIGroup = ''network.harvesterhci.io'',
     rs_APIVersion = ''v1beta1'', rs_ObjectType = Some k, rs_OperationTypes = ops\<rparr>"

definition nad_resource :: "Operation list \<Rightarrow> Resource" where
  "nad_resource ops = \<lparr>rs_Names = [''network-attachment-definitions''], rs_Scope = NamespacedScope, rs_APIGroup = ''k8s.cni.cncf.io'',
     rs_APIVersion = ''v1'', rs_ObjectType = Some KNad, rs_OperationTypes = ops\<rparr>"

definition CnValidator_Resource :: Resource where
  "CnValidator_Resource = network_resource ''clusternetworks'' KClusterNetwork [Create, Update, Delete]"

definition VlanConfigValidator_Resource :: Resource where
  "VlanConfigValidator_Resource = network_resource ''vlanconfigs'' KVlanConfig [Create, Update, Delete]"

definition VlanConfigMutator_Resource :: Resource where
  "VlanConfigMutator_Resource = network_resource ''vlanconfigs'' KVlanConfig [Create, Update]"

definition HncValidator_Resource :: Resource where
  "HncValidator_Resource = network_resource ''hostnetworkconfigs'' KHostNetworkConfig [Create, Update, Delete]"

definition NadValidator_Resource :: Resource where
  "NadValidator_Resource = nad_resource [Create, Update, Delete]"

definition NadMutator_Resource :: Resource where
  "NadMutator_Resource = nad_resource [Create, Update]"

definition SubnetValidator_Resource :: Resource where
  "SubnetValidator_Resource = \<lparr>rs_Names = [''subnets''], rs_Scope = ClusterScope, rs_APIGroup = ''kubeovn.io'', rs_APIVersion = ''v1'',
     rs_ObjectType = Some KSubnet, rs_OperationTypes = [Create, Update, Delete]\<rparr>"

fun validator_Resource :: "Validator \<Rightarrow> Resource" where
  "validator_Resource CnValidator = CnValidator_Resource"
| "validator_Resource NadValidator = NadValidator_Resource"
| "validator_Resource VlanConfigValidator = VlanConfigValidator_Resource"
| "validator_Resource HostNetworkConfigValidator = HncValidator_Resource"
| "validator_Resource SubnetValidator = SubnetValidator_Resource"

fun mutator_Resource :: "Mutator \<Rightarrow> Resource" where
  "mutator_Resource NadMutator = NadMutator_Resource"
| "mutator_Resource VlanConfigMutator = VlanConfigMutator_Resource"

text \<open>The rules of the webhook configurations: a request for a kind and an operation goes to those that name both.\<close>

definition rule_matches :: "Kind \<Rightarrow> Operation \<Rightarrow> Resource \<Rightarrow> bool" where
  "rule_matches k op r \<longleftrightarrow> rs_ObjectType r = Some k \<and> op \<in> set (rs_OperationTypes r)"

definition validators_of :: "bool \<Rightarrow> Kind \<Rightarrow> Operation \<Rightarrow> Validator list" where
  "validators_of crdExists k op = filter (\<lambda>w. rule_matches k op (validator_Resource w)) (webhook_validators crdExists)"

definition mutators_of :: "Kind \<Rightarrow> Operation \<Rightarrow> Mutator list" where
  "mutators_of k op = filter (\<lambda>w. rule_matches k op (mutator_Resource w)) [NadMutator, VlanConfigMutator]"

lemmas resource_defs = network_resource_def nad_resource_def CnValidator_Resource_def VlanConfigValidator_Resource_def
  VlanConfigMutator_Resource_def HncValidator_Resource_def NadValidator_Resource_def NadMutator_Resource_def SubnetValidator_Resource_def

text \<open>The server accepts the resources: starting it does not panic.\<close>

lemma resources_valid: "Resource_Validate (validator_Resource w) = None" "Resource_Validate (mutator_Resource m) = None"
  by (cases w; simp add: Resource_Validate_def resource_defs) (cases m; simp add: Resource_Validate_def resource_defs)

text \<open>
  Every request that creates, changes or deletes one of the objects is validated by exactly the webhook of its kind;
  subnets are when their CRD existed at the start. Creations and changes of NADs and VLAN configs are mutated.
\<close>

lemma requests_validated:
  assumes "op \<noteq> Connect"
  shows "validators_of crdExists k op =
      (case k of KClusterNetwork \<Rightarrow> [CnValidator] | KNad \<Rightarrow> [NadValidator] | KVlanConfig \<Rightarrow> [VlanConfigValidator]
       | KHostNetworkConfig \<Rightarrow> [HostNetworkConfigValidator] | KSubnet \<Rightarrow> (if crdExists then [SubnetValidator] else []) | _ \<Rightarrow> [])"
    "mutators_of k op =
      (if op = Delete then [] else case k of KNad \<Rightarrow> [NadMutator] | KVlanConfig \<Rightarrow> [VlanConfigMutator] | _ \<Rightarrow> [])"
  using assms
  by (cases k; cases op; simp add: validators_of_def mutators_of_def webhook_validators_def rule_matches_def resource_defs)+

section \<open>Without subnets\<close>

text \<open>
  When the CRD of the subnets does not exist, \<open>newCaches\<close> leaves the caches of subnets and VPCs nil, and calling them panics.
\<close>

definition caches_made :: "bool \<Rightarrow> caches \<Rightarrow> caches" where
  "caches_made crdExists c =
     (if crdExists then c\<lparr>subnetEnabled := True\<rparr>
      else c\<lparr>subnetEnabled := False, subnetList := (\<lambda>_. Inl (GoPanic ''nil pointer'')), vpcGet := (\<lambda>_. Inl (GoPanic ''nil pointer''))\<rparr>)"

text \<open>
  The only validator that is then registered and holds one of these caches is that of the NADs. It never calls it: its answers
  are the same with any cache in its place.
\<close>

lemmas nad_checks = checkNadConfig_def target_mtu_def checkVlanOverlapWithSN_def nad_checkVmi_def nad_checkVM_def
  nad_checkifVMExistsForOverlayNADs_def checkOverlayVMsUsingClusterNetwork_def

lemma nil_caches_unused:
  "NadValidator_Create g (caches_made False c) nad = NadValidator_Create g (c\<lparr>subnetEnabled := False\<rparr>) nad"
  "NadValidator_Update g (caches_made False c) nad nad' = NadValidator_Update g (c\<lparr>subnetEnabled := False\<rparr>) nad nad'"
  "NadValidator_Delete g (caches_made False c) nad = NadValidator_Delete g (c\<lparr>subnetEnabled := False\<rparr>) nad"
  by (simp_all add: NadValidator_Create_def NadValidator_Update_def NadValidator_Delete_def nad_checks caches_made_def
      cong: if_cong option.case_cong)

end
