(* ===== verification/Readiness.thy ===== *)
theory Readiness
  imports Agent_VlanConfig Mgr_VlanConfig Mgr_ClusterNetwork
begin

text \<open>
  How the state of a node's uplink reaches the NADs: the agent sets up a VLAN config and writes a VLAN status, the
  VlanConfig controller of the manager sees the status and makes the cluster network ready, and the ClusterNetwork
  controller sees that and labels the NADs.
\<close>

lemma own_calls_frame:
  "\<forall>a \<in> set l. own_call c m (fst a) \<Longrightarrow> cl_cns (cluster_after l c') = cl_cns c' \<and> cl_nads (cluster_after l c') = cl_nads c'"
proof (induction l arbitrary: c')
  case (Cons a l)
  obtain call err where a: "a = (call, err)" by (cases a)
  have "cl_cns (logged a c') = cl_cns c' \<and> cl_nads (logged a c') = cl_nads c'"
    using Cons.prems unfolding a by (cases err; cases call) auto
  with Cons show ?case by simp
qed simp

lemma setupVLAN_frame:
  assumes "ve_caches env = caches_of c" "setupVLAN env vc (k, []) = (r, k', l)"
  shows "cl_cns (cluster_after l c) = cl_cns c" "cl_nads (cluster_after l c) = cl_nads c"
proof -
  from io_logsD [OF setupVLAN_own [OF assms(1)] assms(2)] have "\<forall>a \<in> set l. own_call c (ve_node env) (fst a)" by auto
  from own_calls_frame [OF this, of c] show "cl_cns (cluster_after l c) = cl_cns c" "cl_nads (cluster_after l c) = cl_nads c" by auto
qed

lemma setup_outcome:
  assumes "env_of env c" "setup_network (ve_nl env) vc k = (r, k')" "\<And>e. r = Inl e \<Longrightarrow> \<not> is_panic e"
    and "stored_node c (ve_node env) = Some n" "stored_cn c (vc_ClusterNetwork vc) = Some cn0" "vc_ClusterNetwork vc \<noteq> ''vlanconfig''"
    and "setupVLAN env vc (k, []) = (r', s', l)" "stored_vs (cluster_after l c) (statusName env (vc_ClusterNetwork vc)) = Some vs"
  shows "records env vc (case r of Inl e \<Rightarrow> Some e | Inr _ \<Rightarrow> None) vs"
proof (cases r)
  case (Inl e)
  with setup_failed [OF assms(1), of vc k e k' "[]"] assms(2,3,7,8) show ?thesis by auto
next
  case (Inr v)
  have "store_get (indexer (cl_cns c)) [] (vc_ClusterNetwork vc) = Inr cn0" using cnGet_stored [of c] assms(5) by simp
  from setup_succeeded [OF assms(1) _ assms(4) this assms(6), of k v k' "[]"] Inr assms(2,7,8) show ?thesis by auto
qed

text \<open>
  C32. The manager does not look at the readiness that a VLAN status records: after the agent of a node has set up a VLAN
  config, whether that succeeded or failed, the handlers of the manager make the cluster network ready and label
  all its live NADs as ready, although the VLAN status says that the setup failed if it did.
\<close>

theorem readiness_ignores_outcome:
  assumes "env_of env c" "setup_network (ve_nl env) vc k = (r, k')" "\<And>e. r = Inl e \<Longrightarrow> \<not> is_panic e"
    and "stored_node c (ve_node env) = Some n" "stored_cn c (vc_ClusterNetwork vc) = Some cn0" "\<not> o_deleting cn0"
    and "vc_ClusterNetwork vc \<notin> {''vlanconfig'', ManagementClusterNetworkName}"
    and "setupVLAN env vc (k, []) = (r', s', l1)" "c1 = cluster_after l1 c"
    and "stored_vs c1 (statusName env (vc_ClusterNetwork vc)) = Some vs" "\<not> o_deleting vs"
    and "SetClusterNetworkReady now (caches_of c1) srv (Some vs) [] = (None, l2)" "c2 = cluster_after l2 c1"
    and "stored_cn c2 (vc_ClusterNetwork vc) = Some cn" "SetNadReadyLabel (caches_of c2) srv' (Some cn) [] = (None, l3)"
  shows "getStatus Ready (vs_Conditions vs) = (if isl r then ''False'' else ''True'') \<and> CondIsTrue Ready (cn_Conditions cn)
    \<and> set (indexer (cl_nads (cluster_after l3 c2))) =
        (\<lambda>nad. if mlookup (o_labels nad) KeyClusterNetworkLabel = Some (vc_ClusterNetwork vc)
               then with_ready_label ValueTrue nad else nad) ` set (indexer (cl_nads c))"
proof -
  let ?n = "vc_ClusterNetwork vc"
  have own: "ve_caches env = caches_of c" using assms(1) by (simp add: env_of_def)
  note frame = setupVLAN_frame [OF own assms(8)]
  have vs: "records env vc (case r of Inl e \<Rightarrow> Some e | Inr _ \<Rightarrow> None) vs"
    using setup_outcome [OF assms(1,2,3,4,5) _ assms(8)] assms(7,9,10) by auto
  then have n: "vs_ClusterNetwork vs = ?n" by (simp add: records_def)
  have "stored_cn c1 ?n = Some cn0" using assms(5) frame(1) by (simp add: stored_cn_def assms(9))
  with SetClusterNetworkReady_effect [of vs c1 cn0 now srv l2] assms(7,11,12,13,14) n
  have cn: "CondIsTrue Ready (cn_Conditions cn)" "\<not> o_deleting cn" "cl_nads c2 = cl_nads c" "o_name cn = ?n"
    using frame(2) assms(6,9) stored_cn_key [OF assms(14)] by auto
  then have "ready_value cn = ValueTrue" by (simp add: ready_value_def)
  with ready_labels_after [OF assms(15)] cn(3,4)
  have "set (indexer (cl_nads (cluster_after l3 c2))) =
        (\<lambda>nad. if mlookup (o_labels nad) KeyClusterNetworkLabel = Some ?n then with_ready_label ValueTrue nad else nad) ` set (indexer (cl_nads c))"
    by simp
  with cn(1) vs show ?thesis by (cases r) (simp_all add: records_def)
qed

text \<open>The kernel refuses to create the bond of \<open>cn1\<close>, and its NAD becomes ready.\<close>

definition refusing_kernel :: ref_state where
  "refusing_kernel = demo_kernel\<lparr>rs_script := [Some (EOther ''no memory'')]\<rparr>"

definition nad_cluster :: cluster where
  "nad_cluster = agent_cluster\<lparr>cl_nads := [demo_nad ''{}'']\<rparr>"

definition nad_env :: "ref_state vc_env" where
  "nad_env = agent_env\<lparr>ve_caches := caches_of nad_cluster\<rparr>"

lemma SetNadReadyLabel_accepted:
  "\<exists>l. SetNadReadyLabel (caches_of c) (\<lambda>_ _. None) (Some cn) [] = (None, l)"
proof -
  obtain xs where xs: "store_list (indexer (cl_nads c)) [] (SelectorFromSet [(KeyClusterNetworkLabel, o_name cn)]) = Inr xs"
    using network_nads_listed by blast
  have "\<exists>l. fold_err (ready_label_step (ready_value cn) (\<lambda>_ _. None)) xs [] = (None, l)"
    by (simp add: ready_label.run_accepted ready_label_verdict_def)
  then show ?thesis by (simp add: SetNadReadyLabel_def setNadReadyLabel_def Let_def xs)
qed

theorem readiness_ignores_outcome_witness:
  "\<exists>e k l1 l2 cn l3 nad. let c1 = cluster_after l1 nad_cluster; c2 = cluster_after l2 c1 in
     setupVLAN nad_env agent_vc (refusing_kernel, []) = (Inl e, k, l1)
     \<and> (\<exists>vs. stored_vs c1 (statusName nad_env ''cn1'') = Some vs \<and> getStatus Ready (vs_Conditions vs) = ''False''
          \<and> SetClusterNetworkReady ''t'' (caches_of c1) (\<lambda>_ _. None) (Some vs) [] = (None, l2))
     \<and> SetNadReadyLabel (caches_of c2) (\<lambda>_ _. None) (Some cn) [] = (None, l3)
     \<and> nad \<in> set (indexer (cl_nads (cluster_after l3 c2))) \<and> GetNadLabel (Some nad) KeyNetworkReady = ValueTrue"
proof -
  let ?n = "vc_ClusterNetwork agent_vc" and ?srv = "(\<lambda>_ _. None) :: api_server"
  have env: "env_of nad_env nad_cluster" "ve_nl nad_env = ref_netlink" "?n = ''cn1''" "ve_node nad_env = ''n1''"
    by (simp_all add: env_of_def nad_env_def agent_env_def agent_vc_def)
  have "case fst (setup_network ref_netlink agent_vc refusing_kernel) of Inl e \<Rightarrow> \<not> is_panic e | Inr _ \<Rightarrow> False" by code_simp
  then obtain e k where s: "setup_network (ve_nl nad_env) agent_vc refusing_kernel = (Inl e, k)" "\<not> is_panic e"
    unfolding env(2) by (cases "setup_network ref_netlink agent_vc refusing_kernel") (auto split: sum.splits)
  have none: "stored_vs nad_cluster (statusName nad_env ?n) = None" by (simp add: nad_cluster_def agent_cluster_def cluster0_def stored_vs_def indexer_def)
  note ed = env_ofD [OF env(1)]
  obtain vs where up: "updateStatus nad_env agent_vc (Some e) (k, []) = (Inr (), k, [(CreateVS vs, None)])"
    "\<not> o_deleting vs" "key_of vs = ([], statusName nad_env ?n)"
    by (simp add: updateStatus_def Let_def ed stored_get none key_of_def)
  have att: "attempt (setup_network (ve_nl nad_env) agent_vc) refusing_kernel = (Inr (Some e), k)"
    using attempt_Inl [of "setup_network (ve_nl nad_env) agent_vc"] s by simp
  have run: "setupVLAN nad_env agent_vc (refusing_kernel, []) =
      (Inl (wrap ''set up VLAN failed, vlanconfig: %s, node: %s, error: %w'' e), k, [(CreateVS vs, None)])"
    by (simp add: setupVLAN_def io_bind_def on_fst_def io_wrap_def io_throw_def att up)
  let ?c1 = "cluster_after [(CreateVS vs, None)] nad_cluster"
  have vs: "stored_vs ?c1 (statusName nad_env ?n) = Some vs" using up(3) by simp
  have node: "\<exists>n. stored_node nad_cluster (ve_node nad_env) = Some n" and cn0: "stored_cn nad_cluster ?n = Some agent_cn"
    using agent_cluster_node
    by (auto simp: nad_cluster_def nad_env_def stored_node_def stored_cn_def agent_cluster_def cluster0_def env(3) agent_cn_def key_of_def indexer_def store_put_def)
  have live: "\<not> o_deleting agent_cn" "?n \<notin> {''vlanconfig'', ManagementClusterNetworkName}"
    by (simp_all add: agent_cn_def env(3) ManagementClusterNetworkName_def)
  have n: "vs_ClusterNetwork vs = ?n" using setup_outcome [OF env(1) s(1) _ _ cn0 _ run vs] s(2) node live(2) by (auto simp: records_def)
  have get: "cnGet (caches_of ?c1) ?n = Inr agent_cn" using cn0 cnGet_stored [of ?c1] by (simp add: stored_cn_def)
  obtain l2 where r2: "SetClusterNetworkReady ''t'' (caches_of ?c1) ?srv (Some vs) [] = (None, l2)"
    using live(2) up(2) get
    by (cases "CondIsTrue Ready (cn_Conditions agent_cn)") (simp_all add: SetClusterNetworkReady_def setClusterNetworkReady_def n call_def)
  let ?c2 = "cluster_after l2 ?c1"
  obtain cn where cn: "stored_cn ?c2 ?n = Some cn"
    using SetClusterNetworkReady_effect [OF _ _ up(2) r2] live(2) n cn0 by (auto simp: stored_cn_def)
  obtain l3 where r3: "SetNadReadyLabel (caches_of ?c2) ?srv (Some cn) [] = (None, l3)" using SetNadReadyLabel_accepted by blast
  have final: "getStatus Ready (vs_Conditions vs) = ''False''" "set (indexer (cl_nads (cluster_after l3 ?c2))) =
        (\<lambda>nad. if mlookup (o_labels nad) KeyClusterNetworkLabel = Some ?n then with_ready_label ValueTrue nad else nad) `
           set (indexer (cl_nads nad_cluster))"
    using readiness_ignores_outcome [OF env(1) s(1) _ _ cn0 live run refl vs up(2) r2 refl cn r3] node s(2) by auto
  have "with_ready_label ValueTrue (demo_nad ''{}'') \<in> set (indexer (cl_nads (cluster_after l3 ?c2)))"
    unfolding final(2) by (simp add: nad_cluster_def indexer_Cons env(3) demo_nad_def)
  moreover have "GetNadLabel (Some (with_ready_label ValueTrue (demo_nad ''{}''))) KeyNetworkReady = ValueTrue"
    by (simp add: with_ready_label_def demo_nad_def GetNadLabel_def SetNadLabel_def)
  ultimately show ?thesis unfolding Let_def using run vs final(1) r2 r3 env(3) by metis
qed

end
