(* ===== verification/Spec2Isabelle.thy ===== *)
theory Spec2Isabelle
  imports Webhook_Nad Webhook_VlanConfig Webhook_ClusterNetwork Webhook_Subnet Webhook_HostNetworkConfig
    Mgr_ClusterNetwork Mgr_VlanConfig Mgr_Node Mgr_Nad
    Agent_ClusterNetwork Agent_VlanConfig Agent_LinkMonitor Agent_HostNetworkConfig
    Helper Startup Wiring Readiness
begin

text \<open>
  \<^bold>\<open>harvester-network-controller\<close>

  Three programs share this repository. The \<^emph>\<open>webhook server\<close> (\<open>cmd/webhook\<close>, \<open>pkg/webhook\<close>)
  admits or rejects changes of network objects and fills in labels, annotations and MTUs. The
  \<^emph>\<open>manager\<close> (\<open>cmd/network-controller\<close>, \<open>pkg/controller/manager\<close>) runs once per cluster and keeps
  the objects consistent with each other. The \<^emph>\<open>agent\<close> (\<open>pkg/controller/agent\<close>, \<open>pkg/network\<close>)
  runs on every node and sets up bridges, bonds and VLAN interfaces. The \<^emph>\<open>helper\<close>
  (\<open>cmd/network-helper\<close>, \<open>pkg/helper\<close>) is the program of a job that asks a DHCP server for the
  layer-3 network of a VLAN. They meet in the API objects: a \<open>ClusterNetwork\<close> is a layer-2 network
  over all nodes; a \<open>VlanConfig\<close> gives its uplink on the nodes it selects; a \<open>VlanStatus\<close> reports
  that this uplink is set up on one node; a \<open>NetworkAttachmentDefinition\<close> (NAD) attaches machines
  to a VLAN of a cluster network; a \<open>HostNetworkConfig\<close> puts the host itself on a VLAN and can be
  the underlay of the overlay networks; a \<open>LinkMonitor\<close> collects link states.

  \<^bold>\<open>Theories\<close>

  \<^item> \<open>Prelude\<close>: Go errors, the early-return combinators in which handlers are written
    (\<open>guard_err\<close>, \<open>with_res\<close>, \<open>bind_res\<close>, \<open>fold_err\<close>), nil-able string maps, \<open>strings\<close> and
    \<open>strconv\<close>. A run-time panic is the error \<open>GoPanic\<close>.
  \<^item> \<open>Vlan_Id_Set\<close> (\<open>utils/vlan.go\<close>): sets of VLAN ids in single and trunk mode, with a 32-bit
    counter and an index-checked table. The locale \<open>vlan_collection\<close> is what NADs rely on; it is
    interpreted on the code's operations.
  \<^item> \<open>Kube_Objects\<close> (\<open>apis/network.harvesterhci.io/v1beta1\<close>): the API types, conditions, label
    selectors with their validation, and informer caches; the locale \<open>informer_cache\<close>, interpreted on the indexer
    and the listers.
  \<^item> \<open>Names\<close> (\<open>utils/bridge.go\<close>, \<open>name.go\<close>, \<open>labels.go\<close>, \<open>mtu.go\<close>, \<open>mgmt.go\<close>, \<open>selector.go\<close>,
    \<open>subnet.go\<close>, \<open>clusternetwork.go\<close>): device and object names, keys, MTU values, CRC-32.
  \<^item> \<open>Net_Conf\<close> (\<open>utils/nad.go\<close>): the CNI and layer-3 configuration of a NAD.
  \<^item> \<open>Go_Net\<close>: masks, equality and text of IP addresses as in Go's package \<open>net\<close>.
  \<^item> \<open>Caches\<close> (\<open>utils/vm.go\<close>, \<open>utils/vmi.go\<close>, \<open>cmd/webhook/main.go\<close>): which machines use a NAD
    (locale \<open>network_index\<close>), the record \<open>caches\<close> the handlers read, and the state \<open>cluster\<close> that
    \<open>caches_of\<close> turns into fresh caches.
  \<^item> \<open>Webhook_Nad\<close>, \<open>Webhook_VlanConfig\<close>, \<open>Webhook_ClusterNetwork\<close>, \<open>Webhook_Subnet\<close>,
    \<open>Webhook_HostNetworkConfig\<close> (\<open>pkg/webhook/*\<close>): the validators and mutators, branch by branch.
    A request is a function call; its result is the error of the validator or the patch of the
    mutator. \<open>vc_admission\<close> and \<open>hnc_admission\<close> are the step relations of a cluster that changes only through
    admitted requests.
  \<^item> \<open>Api_Log\<close>: controllers write through API clients. A write is a log entry with the
    answer of the server, which may depend on all calls before; \<open>cluster_after\<close> applies the
    successful calls. The locale \<open>reconciler\<close> has the laws of an update loop, and in it: what the
    log of a run is, after an error too, what the store holds after it, and that a second run is
    silent.
  \<^item> \<open>Mgr_ClusterNetwork\<close>, \<open>Mgr_VlanConfig\<close>, \<open>Mgr_Node\<close>, \<open>Mgr_Nad\<close>
    (\<open>pkg/controller/manager/*/controller.go\<close>): the handlers of the manager; their update loops are
    interpretations of \<open>reconciler\<close>.
  \<^item> \<open>Go_Io\<close>: the agent's functions change a state and return a value or an error; combinators for
    the shapes of its error handling, and Hoare triples over them.
  \<^item> \<open>Netlink\<close>: the node's kernel as a record of the netlink, iptables and sysctl calls over an unknown
    state, and the locale \<open>kernel\<close> with their documented effects on names, masters, VLAN filters and
    addresses. \<open>Ref_Kernel\<close> is a kernel with scripted failures that interprets it; the witnesses run on it.
  \<^item> \<open>Iface\<close>, \<open>Iface_Bond\<close> (\<open>pkg/network/iface\<close>), \<open>Vlan_Net\<close> (\<open>pkg/network/vlan\<close>), \<open>Bond_Info\<close>
    (\<open>utils/bondInterface.go\<close>): links, bridges, bonds, routes, and the VLAN network of a node.
  \<^item> \<open>Agent_State\<close>, \<open>Agent_ClusterNetwork\<close>, \<open>Agent_VlanConfig\<close>, \<open>Agent_LinkMonitor\<close>
    (\<open>pkg/controller/agent\<close>, \<open>pkg/network/monitor\<close>): the agent's handlers, over the kernel and the log of
    API calls; requests to its own queues are entries of the log.
  \<^item> \<open>Lease_Manager\<close>, \<open>Agent_HostNetworkConfig\<close> (\<open>pkg/controller/agent/hostnetworkconfig\<close>): host networks
    with static addresses or DHCP leases. The renewal loop of a lease runs beside \<open>Stop\<close>; their
    interleavings are the step relations \<open>renew_step\<close> and \<open>stop_step\<close>, one step per critical section or call.
  \<^item> \<open>Helper\<close> (\<open>pkg/helper\<close>, \<open>cmd/network-helper\<close>): the program of the job; with the manager's side of the job, its
    properties follow a network from the job to the connectivity checks.
  \<^item> \<open>Startup\<close> (\<open>utils/crd/crd.go\<close>, \<open>utils/log.go\<close>, \<open>pkg/config\<close>, \<open>cmd/webhook\<close>, \<open>cmd/network-controller\<close>): CRD installation and the
    start of the programs. The watcher of the webhook server may run for ever; it is a partial function.
  \<^item> \<open>Lifecycle\<close>: how the vendored controller libraries call the handlers of a kind, and the finalizers of \<open>OnRemove\<close> handlers.
    \<open>life_step\<close> is the step relation of one object that is changed, deleted and synchronised by controllers with old views of it;
    the locale \<open>lifecycle\<close> has the law that the webhooks of a kind must satisfy for deletions to end.
  \<^item> \<open>Wiring\<close> (\<open>Register\<close> in \<open>pkg/controller/*\<close>, \<open>setup.go\<close>, \<open>Resource\<close> in \<open>pkg/webhook/*\<close>): which handler is subscribed to which kind
    under which name, which requests reach which webhook; interpretations of \<open>lifecycle\<close> for the webhooks of each kind.
  \<^item> \<open>Readiness\<close>: from the setup on a node over the VLAN status and the cluster network to the labels of the NADs.
  \<^item> this theory: properties of controllers and webhooks together.

  A Go function keeps its name; where several files use the same one, a prefix tells them apart
  (\<open>NadValidator_Create\<close>, \<open>Node_OnChange\<close>). A pointer is an \<open>option\<close>, a nil map \<open>None\<close>.

  \<^bold>\<open>What the theorems show\<close>

  \<^item> VLAN id sets: the counter, the table and the string form agree in every set that can be
    built; \<open>Diff\<close> leads from the existing to the wanted set; walking visits every id once.
  \<^item> Webhooks: characterisations of what is admitted (both directions for most requests), safety
    of running machines under every admitted change (updates of an object that is being deleted are
    admitted unchecked, and stated so), and invariants of all admitted histories
    (one MTU per cluster network; one underlay; no shared VLAN).
  \<^item> Mutators: what they patch is what the validators then ask for.
  \<^item> Manager: for any answers of the server, a handler that returns no error has established its
    postcondition; with it the properties state what the handler leaves alone, and for the
    synchronised annotations and labels that a second run makes no call. The node handler's calls are
    delimited whatever it returns.
  \<^item> Together: the MTU updates the manager sends are admitted by the webhook in every cluster
    the webhooks admit. In every history an object with a finalizer of the program disappears only after the handler behind
    it has succeeded, and no webhook keeps a deletion from completing.
  \<^item> Agent: for every kernel with the documented behaviour, and any answers of the API server: the
    VLAN filter of an uplink becomes that of the live NADs and the manual sub-interfaces; a bond gets
    exactly the wanted slaves; setup and teardown of a VLAN config are recorded in VLAN status and
    node labels as they ended; a link monitor reports the matching links, and the built-in one of the
    management network keeps the node's management VLAN config in step with the bond; a host network gets its
    interface and address. A node's handlers write only objects of their own node.
  \<^item> Lease manager: in every interleaving a running manager has a lease, and the interface has addresses of
    granted leases only, and just the recorded one unless an attempt to set another failed half-way
    (\<open>SetIPAddress_results\<close> shows for every kernel how it can end); a cancelled loop ends within five steps unless the timer fires; well-formedness of the table of managers.
  \<^item> Helper and start-up: the network that DHCP gives reaches the NAD and the manager's checks; CRDs are
    established when installation succeeds; when the webhook server restarts.
  \<^item> Some theorems state behaviour that is not intended: a nil trunk entry makes an admitted NAD
    panic, a live underlay config cannot be changed, a user can move a management VLAN config, the
    matched-nodes annotation can be stale, names with dots do not survive the provider string,
    the global status of a host network config is never written, a cluster network the manager
    creates is rejected, and job names of different NADs can be equal; a teardown that is retried
    after half of the links are gone leaves the bridge, a VLAN id that the kernel refuses is reported as
    applied, a link that is not a bond and a missing management bond make the agent panic, a link
    event wakes only one monitor, an existing host interface is reported ready without an address,
    \<open>Stop\<close> can leak a lease, an address set by a failed attempt can stay (\<open>stale_address_kept\<close>), a DHCP answer without a router is taken for a network, a teardown that failed on one node is not retried
    once another node has finished, and a setup that failed makes the cluster network and its NADs ready.

  \<^bold>\<open>Parameters\<close>

  The records \<open>golib\<close> and \<open>mgr_env\<close> hold the library functions the code calls and that are not part of
  it: JSON at each type, \<open>sjson.Set\<close>, IP parsing, SHA-256, ping; the record \<open>netlink\<close> those of the node's kernel,
  with the order in which Go ranges over a map (locale \<open>kernel\<close>); \<open>dhcp\<close> is the DHCP client. Regular expressions are an argument of the link
  monitor. \<open>helper_env\<close>, \<open>crd_client\<close>, \<open>web_server\<close> and \<open>controller_env\<close> hold the clients of the helper and of the start-up.
  A theorem that needs one of their documented laws has it as a hypothesis
  (decoding what was encoded gives it back; setting the MTU of a document changes that field
  only), and its witness instantiates the parameter. Caches are fresh views of the
  cluster in the properties and arbitrary functions in the definitions. Time stamps are
  arguments. Loops are over lists, except two: the wait for a CRD has the number of polls that fit into its
  minute (at most 121) as parameter, and the watcher of the webhook server is a partial function.

  \<^bold>\<open>Not modelled\<close>

  How client factories, informers, leader election, event recorders and the command-line parser work (they are parameters); generated
  deep copies and clients, fake clients of the tests and the code generator; the text of
  error messages beyond their format, except where it is stored in an object; log output;
  concurrency of handlers inside one process (each handler runs to its end; between handlers any
  admitted change may happen), except for the renewal loop of a lease; the times of a back-off
  (the number of retries is a parameter).
\<close>

section \<open>Controllers and webhooks together\<close>

lemma annotated_mtu_set:
  assumes "IsValidMTU m" shows "annotated_mtu (set_mtu_annotations m s cn) = Inr m"
  using assms by (simp add: annotated_mtu_def set_mtu_annotations_def GetMTUFromString_Itoa)

lemma annotated_mtu_clear: "annotated_mtu (clear_mtu_annotations cn) = Inr DefaultMTU"
  by (simp add: annotated_mtu_def clear_mtu_annotations_def)

lemma cn_update_frame [simp]:
  "o_deleting (set_mtu_annotations m s cn) = o_deleting cn" "o_name (set_mtu_annotations m s cn) = o_name cn"
  "o_deleting (clear_mtu_annotations cn) = o_deleting cn" "o_name (clear_mtu_annotations cn) = o_name cn"
  by (simp_all add: set_mtu_annotations_def clear_mtu_annotations_def)

lemma vc_target_mtu_default:
  "IsValidMTU (GetMTUFromVlanConfig (Some vc)) \<Longrightarrow> vc_target_mtu vc = MTUDefaultTo (GetMTUFromVlanConfig (Some vc))"
  by (simp add: vc_target_mtu_def MTUDefaultTo_def)

lemma MTUDefaultTo_facts: "AreEqualMTUs m (MTUDefaultTo m)" "IsValidMTU m \<Longrightarrow> IsValidMTU (MTUDefaultTo m)"
  by (auto simp: AreEqualMTUs_def MTUDefaultTo_def IsValidMTU_def mtu_consts)

text \<open>An update that annotates the MTU of one live VLAN config is admitted, since all agree.\<close>

lemma annotating_live_mtu_admitted:
  assumes "vc_reachable g c" "n \<noteq> ManagementClusterNetworkName" "w \<in> live_vcs c n" "o_name cn = n" "\<not> o_deleting cn"
  shows "CnValidator_Update (caches_of c) old
    (set_mtu_annotations (MTUDefaultTo (GetMTUFromVlanConfig (Some w))) s cn) = None"
proof -
  let ?m = "GetMTUFromVlanConfig (Some w)"
  note inv = reachable_vcs_inv [OF assms(1), unfolded vcs_inv_def]
  have u: "mtu_uniform c n" and v: "IsValidMTU ?m" using inv assms(2,3) by auto
  have "AreEqualMTUs (GetMTUFromVlanConfig (Some vc)) (MTUDefaultTo ?m)" if "vc \<in> live_vcs c n" for vc
  proof -
    have "AreEqualMTUs (GetMTUFromVlanConfig (Some vc)) ?m" using u that assms(3) by (auto simp: mtu_uniform_def)
    then show ?thesis using MTUDefaultTo_facts(1) [of ?m] by (simp add: AreEqualMTUs_default)
  qed
  with assms annotated_mtu_set [OF MTUDefaultTo_facts(2) [OF v]] show ?thesis
    by (subst CnValidator_Update_iff) auto
qed

text \<open>
  C6. Whatever VLAN configs the webhooks have admitted, the updates the VLAN config controller
  sends for the MTU annotations of a live cluster network are admitted by the cluster network
  webhook: the one for a changed live config, and the one after the config that was the source of
  the MTU has gone.
\<close>

theorem mtu_updates_admitted:
  assumes "vc_reachable g c" "n \<noteq> ManagementClusterNetworkName" "stored_cn c n = Some cn" "\<not> o_deleting cn"
  shows "(vc \<in> live_vcs c n \<and> vc_ClusterNetwork vc = n \<and> EnsureClusterNetwork (caches_of c) srv (Some vc) [] = (r, log) \<longrightarrow>
        (\<forall>a \<in> set log. \<exists>new. fst a = UpdateCN new \<and> CnValidator_Update (caches_of c) cn new = None))
     \<and> (vc_ClusterNetwork gone = n
          \<and> (\<forall>w \<in> live_vcs c n. o_name w \<noteq> o_name gone)
          \<and> OnVlanConfigRemove (caches_of c) srv' (Some gone) [] = (r', log') \<longrightarrow>
        (\<forall>a \<in> set log'. \<exists>new. fst a = UpdateCN new \<and> CnValidator_Update (caches_of c) cn new = None))"
proof (intro conjI impI)
  have key: "o_name cn = n" using stored_cn_key [OF assms(3)] by simp
  have valid: "IsValidMTU (GetMTUFromVlanConfig (Some w))" if "w \<in> live_vcs c n" for w
    using reachable_vcs_inv [OF assms(1)] that assms(2) by (simp add: vcs_inv_def)
  {
    assume vc: "vc \<in> live_vcs c n \<and> vc_ClusterNetwork vc = n \<and> EnsureClusterNetwork (caches_of c) srv (Some vc) [] = (r, log)"
    then have "\<not> o_deleting vc" by (simp add: live_vcs_def)
    with vc have "\<forall>a \<in> set log. fst a = UpdateCN (set_mtu_annotations (MTUDefaultTo (GetMTUFromVlanConfig (Some vc))) (o_name vc) cn)"
      using assms(2,3) vc_target_mtu_default [of vc] valid ensureClusterNetwork_runs [of vc c srv "[]"]
      by (auto simp: act_wrap_call split: if_splits)
    then show "\<forall>a \<in> set log. \<exists>new. fst a = UpdateCN new \<and> CnValidator_Update (caches_of c) cn new = None"
      using annotating_live_mtu_admitted [OF assms(1,2) _ key assms(4)] vc by auto
  }
  assume gone: "vc_ClusterNetwork gone = n
          \<and> (\<forall>w \<in> live_vcs c n. o_name w \<noteq> o_name gone)
          \<and> OnVlanConfigRemove (caches_of c) srv' (Some gone) [] = (r', log')"
  obtain vcs where vcs: "store_list (indexer (cl_vcs c)) [] (SelectorFromSet [(KeyClusterNetworkLabel, n)]) = Inr vcs"
    "set vcs = {w \<in> set (indexer (cl_vcs c)). mlookup (o_labels w) KeyClusterNetworkLabel = Some n}"
    using store_list_labelled [of "cl_vcs c"] by blast
  note calls = OnVlanConfigRemove_calls [of c gone cn vcs srv' r' log']
  show "\<forall>a \<in> set log'. \<exists>new. fst a = UpdateCN new \<and> CnValidator_Update (caches_of c) cn new = None"
  proof (cases "vc_candidate (o_name gone) vcs")
    case None
    with vc_candidate_None [of "o_name gone" vcs] have "live_vcs c n = {}"
      using valid gone vcs(2) by (auto simp: live_vcs_def eligible_def)
    then have "CnValidator_Update (caches_of c) cn (clear_mtu_annotations cn) = None"
      using assms(2,4) key by (subst CnValidator_Update_iff) (auto simp: annotated_mtu_clear)
    with gone None vcs(1) assms(3) calls show ?thesis by simp
  next
    case (Some w)
    from vc_candidate_Some [OF Some] have "w \<in> live_vcs c n" by (auto simp: eligible_def live_vcs_def vcs(2))
    note ok = annotating_live_mtu_admitted [OF assms(1,2) this key assms(4)]
    with gone Some vcs(1) assms(3) calls show ?thesis by simp
  qed
qed

theorem mtu_updates_admitted_witness:
  "\<exists>log a new. EnsureClusterNetwork (caches_of (vc_cluster [demo_vc ''vc1'' ''cn1'' None 1500])) (\<lambda>_ _. None)
        (Some (demo_vc ''vc1'' ''cn1'' None 1500)) [] = (None, log)
     \<and> a \<in> set log \<and> fst a = UpdateCN new
     \<and> CnValidator_Update (caches_of (vc_cluster [demo_vc ''vc1'' ''cn1'' None 1500])) demo_cn1 new = None"
proof -
  let ?vc = "demo_vc ''vc1'' ''cn1'' None 1500" and ?c = "vc_cluster [demo_vc ''vc1'' ''cn1'' None 1500]"
  have mg: "''cn1'' \<noteq> ManagementClusterNetworkName" by (simp add: ManagementClusterNetworkName_def)
  have cn: "stored_cn ?c ''cn1'' = Some demo_cn1" "\<not> o_deleting demo_cn1" "o_annotations demo_cn1 = None"
    by (simp_all add: stored_cn_def demo_cn1_def key_of_def)
  have vc: "vc_ClusterNetwork ?vc = ''cn1''" "\<not> o_deleting ?vc" by (simp_all add: demo_vc_def)
  let ?log = "[(UpdateCN (set_mtu_annotations (vc_target_mtu ?vc) (o_name ?vc) demo_cn1), None)]"
  have run: "EnsureClusterNetwork (caches_of ?c) (\<lambda>_ _. None) (Some ?vc) [] = (None, ?log)"
    using ensureClusterNetwork_runs [of ?vc ?c "\<lambda>_ _. None" "[]"] vc mg cn
    by (simp add: act_wrap_call Itoa_nonempty [symmetric])
  from mtu_updates_admitted [OF demo_vc_reachable mg cn(1,2), of ?vc "\<lambda>_ _. None" None ?log] run vc demo_vc_live
  show ?thesis by auto
qed

text \<open>
  When the cluster network of a live VLAN config does not exist, the VLAN config controller asks
  to create it with the MTU annotation, and the cluster network webhook rejects exactly this
  request, because it admits no new network with that annotation.
\<close>

lemma controller_create_rejected:
  assumes "vc_ClusterNetwork vc \<noteq> ManagementClusterNetworkName" "\<not> o_deleting vc" "stored_cn c (vc_ClusterNetwork vc) = None"
  shows "\<exists>new. EnsureClusterNetwork (caches_of c) srv (Some vc) l = call srv (CreateCN new) l
     \<and> CnValidator_Create (caches_of c) new \<noteq> None"
  using assms
  by (auto simp: ensureClusterNetwork_runs CnValidator_Create_def checkMTUOfNewClusterNetwork_def new_cn_def
      intro!: exI [of _ "new_cn (vc_ClusterNetwork vc) (Itoa (vc_target_mtu vc)) (o_name vc)"])

lemma controller_create_rejected_witness:
  "\<exists>new. EnsureClusterNetwork (caches_of cluster0) (\<lambda>_ _. None) (Some (demo_vc ''vc1'' ''cn1'' None 1500)) [] = call (\<lambda>_ _. None) (CreateCN new) []
     \<and> CnValidator_Create (caches_of cluster0) new \<noteq> None"
proof (rule controller_create_rejected)
  show "vc_ClusterNetwork (demo_vc ''vc1'' ''cn1'' None 1500) \<noteq> ManagementClusterNetworkName"
    "\<not> o_deleting (demo_vc ''vc1'' ''cn1'' None 1500)"
    by (simp_all add: demo_vc_def ManagementClusterNetworkName_def)
  show "stored_cn cluster0 (vc_ClusterNetwork (demo_vc ''vc1'' ''cn1'' None 1500)) = None"
    by (simp add: stored_cn_def cluster0_def indexer_def)
qed

end
